(* ===== verification/Prelude.thy ===== *)
theory Prelude
  imports Main
begin

text \<open>
  Shared vocabulary of the development: the Go string operations the scanner
  uses (a Go string is a sequence of bytes, here a \<open>char list\<close>), decimal
  printing, the result type of fallible operations, the stable sort of
  \<open>sort.SliceStable\<close>, Go's map built from a slice, and generic facts on
  lists and maps that several components share.
\<close>

named_theorems go_string "equations of the Go string operations"
named_theorems keyed "facts on slices whose elements carry a distinct key"

section \<open>Machine integers\<close>

text \<open>The \<open>int64\<close> (and, on the supported platforms, the \<open>int\<close>) that an unbounded result wraps to.\<close>

definition wrap64 :: "int \<Rightarrow> int" where
  "wrap64 i = (i + 2 ^ 63) mod 2 ^ 64 - 2 ^ 63"

lemma wrap64_id [simp]: "- (2 ^ 63) \<le> i \<Longrightarrow> i < 2 ^ 63 \<Longrightarrow> wrap64 i = i"
  by (simp add: wrap64_def)

section \<open>Results\<close>

text \<open>A fallible operation returns \<open>Inl\<close> of its error or \<open>Inr\<close> of its value.\<close>

type_synonym ('e, 'a) result = "'e + 'a"

definition bind_res :: "('e, 'a) result \<Rightarrow> ('a \<Rightarrow> ('e, 'b) result) \<Rightarrow> ('e, 'b) result" where
  "bind_res r f = (case r of Inl e \<Rightarrow> Inl e | Inr a \<Rightarrow> f a)"

lemma bind_res_simps [simp]:
  "bind_res (Inl e) f = Inl e"
  "bind_res (Inr a) f = f a"
  by (simp_all add: bind_res_def)

lemma bind_res_eq_Inr_iff:
  "bind_res r f = Inr b \<longleftrightarrow> (\<exists>a. r = Inr a \<and> f a = Inr b)"
  by (cases r) auto

lemma bind_res_cong [fundef_cong]:
  "r = r' \<Longrightarrow> (\<And>a. r' = Inr a \<Longrightarrow> f a = f' a) \<Longrightarrow> bind_res r f = bind_res r' f'"
  by (cases r') auto

text \<open>A loop that stops at the first error, as a \<open>for\<close> with \<open>return err\<close> does.\<close>

fun map_res :: "('a \<Rightarrow> ('e, 'b) result) \<Rightarrow> 'a list \<Rightarrow> ('e, 'b list) result" where
  "map_res f [] = Inr []"
| "map_res f (x # xs) =
     bind_res (f x) (\<lambda>y. bind_res (map_res f xs) (\<lambda>ys. Inr (y # ys)))"

lemma map_res_eq_Inr_iff:
  "map_res f xs = Inr ys \<longleftrightarrow> map f xs = map Inr ys"
proof (induction xs arbitrary: ys)
  case Nil
  then show ?case by auto
next
  case (Cons x xs)
  then show ?case by (cases ys) (auto simp: bind_res_eq_Inr_iff)
qed

lemma map_res_length: "map_res f xs = Inr ys \<Longrightarrow> length ys = length xs"
  by (auto simp: map_res_eq_Inr_iff dest: map_eq_imp_length_eq)

lemma map_res_ok_iff:
  "(\<exists>ys. map_res f xs = Inr ys) \<longleftrightarrow> (\<forall>x \<in> set xs. \<exists>y. f x = Inr y)"
  by (induction xs) (auto simp: bind_res_eq_Inr_iff)

lemma map_res_mem:
  assumes "map_res f xs = Inr ys"
  shows "y \<in> set ys \<longleftrightarrow> (\<exists>x \<in> set xs. f x = Inr y)"
proof -
  have "Inr ` set ys = f ` set xs"
    using assms by (metis map_res_eq_Inr_iff set_map)
  then show ?thesis by (metis (no_types, lifting) imageE imageI sum.inject(2))
qed

section \<open>Searching a list\<close>

lemma find_append: "find P (xs @ ys) = (case find P xs of None \<Rightarrow> find P ys | Some x \<Rightarrow> Some x)"
  by (induction xs) auto

lemma find_exists: "x \<in> set xs \<Longrightarrow> P x \<Longrightarrow> \<exists>y. find P xs = Some y \<and> y \<in> set xs \<and> P y"
  by (induction xs) auto

lemma find_SomeD: "find P xs = Some y \<Longrightarrow> y \<in> set xs \<and> P y"
  by (induction xs) (auto split: if_splits)

lemma find_key:
  assumes "distinct (map key xs)" "x \<in> set xs"
  shows "find (\<lambda>y. key y = key x) xs = Some x"
  using assms by (induction xs) (auto simp: image_iff)

lemma find_key_iff:
  assumes "distinct (map key xs)"
  shows "find (\<lambda>y. key y = k) xs = Some x \<longleftrightarrow> x \<in> set xs \<and> key x = k"
  using find_key [OF assms] by (auto dest: find_SomeD)

section \<open>Go strings\<close>

text \<open>
  \<open>strings.ToLower\<close>, byte by byte. ASCII capitals are mapped; of the other
  code points only U+0130 (bytes C4 B0) and U+212A (bytes E2 84 AA) have an ASCII
  lower case; every other non-ASCII byte stays a non-ASCII byte, which no pattern
  of the program contains, so it is left as it is.
\<close>

definition lower_byte :: "char \<Rightarrow> char" where
  "lower_byte c =
     (if 65 \<le> (of_char c :: nat) \<and> of_char c \<le> (90::nat)
      then char_of (of_char c + (32::nat)) else c)"

fun to_lower :: "string \<Rightarrow> string" where
  "to_lower [] = []"
| "to_lower (c # s) =
     (if c = CHR 0xC4 \<and> take 1 s = [CHR 0xB0] then CHR ''i'' # to_lower (drop 1 s)
      else if c = CHR 0xE2 \<and> take 2 s = [CHR 0x84, CHR 0xAA] then CHR ''k'' # to_lower (drop 2 s)
      else lower_byte c # to_lower s)"

text \<open>\<open>strings.HasPrefix\<close> and \<open>strings.Contains\<close>.\<close>

definition has_prefix :: "string \<Rightarrow> string \<Rightarrow> bool" where
  "has_prefix s p \<longleftrightarrow> take (length p) s = p"

fun contains :: "string \<Rightarrow> string \<Rightarrow> bool" where
  "contains [] p = (p = [])"
| "contains (c # s) p = (has_prefix (c # s) p \<or> contains s p)"

lemma has_prefix_append [simp]: "has_prefix (p @ s) p"
  by (simp add: has_prefix_def)

lemma has_prefix_iff: "has_prefix s p \<longleftrightarrow> (\<exists>t. s = p @ t)"
  unfolding has_prefix_def by (metis append_eq_conv_conj append_take_drop_id)

lemma contains_iff: "contains s p \<longleftrightarrow> (\<exists>a b. s = a @ p @ b)"
proof (induction s)
  case Nil
  then show ?case by auto
next
  case (Cons c s)
  show ?case (is "?L \<longleftrightarrow> ?R")
  proof
    assume ?L
    then consider "has_prefix (c # s) p" | "contains s p" by auto
    then show ?R
    proof cases
      case 1
      then obtain t where "c # s = [] @ p @ t" by (auto simp: has_prefix_iff)
      then show ?thesis by blast
    next
      case 2
      then obtain a b where "s = a @ p @ b" using Cons.IH by blast
      then have "c # s = (c # a) @ p @ b" by simp
      then show ?thesis by blast
    qed
  next
    assume ?R
    then obtain a b where ab: "c # s = a @ p @ b" by blast
    show ?L
    proof (cases a)
      case Nil
      with ab have "has_prefix (c # s) p" by (simp add: has_prefix_iff)
      then show ?thesis by simp
    next
      case (Cons d a')
      with ab have "s = a' @ p @ b" by simp
      then have "contains s p" using Cons.IH by blast
      then show ?thesis by simp
    qed
  qed
qed

text \<open>
  \<open>strings.TrimSpace\<close> removes white space runes at both ends: the six ASCII ones
  and the code points above ASCII that \<open>unicode.IsSpace\<close> accepts, in UTF-8.
\<close>

definition space_runes :: "string list" where
  "space_runes =
     [[CHR 0x09], [CHR 0x0A], [CHR 0x0B], [CHR 0x0C], [CHR 0x0D], [CHR 0x20],
      [CHR 0xC2, CHR 0x85], [CHR 0xC2, CHR 0xA0], [CHR 0xE1, CHR 0x9A, CHR 0x80],
      [CHR 0xE2, CHR 0x80, CHR 0x80], [CHR 0xE2, CHR 0x80, CHR 0x81],
      [CHR 0xE2, CHR 0x80, CHR 0x82], [CHR 0xE2, CHR 0x80, CHR 0x83],
      [CHR 0xE2, CHR 0x80, CHR 0x84], [CHR 0xE2, CHR 0x80, CHR 0x85],
      [CHR 0xE2, CHR 0x80, CHR 0x86], [CHR 0xE2, CHR 0x80, CHR 0x87],
      [CHR 0xE2, CHR 0x80, CHR 0x88], [CHR 0xE2, CHR 0x80, CHR 0x89],
      [CHR 0xE2, CHR 0x80, CHR 0x8A], [CHR 0xE2, CHR 0x80, CHR 0xA8],
      [CHR 0xE2, CHR 0x80, CHR 0xA9], [CHR 0xE2, CHR 0x80, CHR 0xAF],
      [CHR 0xE2, CHR 0x81, CHR 0x9F], [CHR 0xE3, CHR 0x80, CHR 0x80]]"

text \<open>Removes from the front, as long as one of the byte sequences \<open>rs\<close> is there.\<close>

function strip_front :: "string list \<Rightarrow> string \<Rightarrow> string" where
  "strip_front rs s =
     (case find (\<lambda>r. r \<noteq> [] \<and> has_prefix s r) rs of
        None \<Rightarrow> s
      | Some r \<Rightarrow> strip_front rs (drop (length r) s))"
  by pat_completeness auto
termination
proof (relation "measure (\<lambda>(rs, s). length s)", simp)
  fix rs :: "string list" and s r :: string
  assume "find (\<lambda>r. r \<noteq> [] \<and> has_prefix s r) rs = Some r"
  then have "r \<noteq> []" and "has_prefix s r" by (auto simp: find_Some_iff)
  then show "((rs, drop (length r) s), (rs, s)) \<in> measure (\<lambda>(rs, s). length s)"
    by (cases s) (auto simp: has_prefix_iff)
qed

declare strip_front.simps [simp del]

definition trim_space :: "string \<Rightarrow> string" where
  "trim_space s = rev (strip_front (map rev space_runes) (rev (strip_front space_runes s)))"

lemma strip_front_Nil [simp]: "strip_front rs [] = []"
proof -
  have "find (\<lambda>r. r \<noteq> [] \<and> has_prefix [] r) rs = None"
    by (auto simp: find_None_iff has_prefix_def)
  then show ?thesis by (subst strip_front.simps) simp
qed

lemma strip_front_fixed:
  "find (\<lambda>r. r \<noteq> [] \<and> has_prefix (strip_front rs s) r) rs = None"
proof (induction rs s rule: strip_front.induct)
  case (1 rs s)
  show ?case
  proof (cases "find (\<lambda>r. r \<noteq> [] \<and> has_prefix s r) rs")
    case None
    then have "strip_front rs s = s" by (subst strip_front.simps) simp
    with None show ?thesis by simp
  next
    case (Some r)
    then have "strip_front rs s = strip_front rs (drop (length r) s)"
      by (subst strip_front.simps) simp
    with "1" [OF Some] show ?thesis by simp
  qed
qed

lemma strip_front_idem [simp]: "strip_front rs (strip_front rs s) = strip_front rs s"
  using strip_front_fixed [of rs s] by (subst strip_front.simps) simp

text \<open>\<open>strconv.Itoa\<close> and the \<open>%d\<close> verb.\<close>

fun show_nat :: "nat \<Rightarrow> string" where
  "show_nat n = (if n < 10 then [char_of (48 + n)]
                 else show_nat (n div 10) @ [char_of (48 + n mod 10)])"

declare show_nat.simps [simp del]

definition show_int :: "int \<Rightarrow> string" where
  "show_int i = (if i < 0 then CHR ''-'' # show_nat (nat (- i)) else show_nat (nat i))"

lemma show_nat_bytes: "c \<in> set (show_nat n) \<Longrightarrow> 48 \<le> (of_char c :: nat) \<and> (of_char c :: nat) \<le> 57"
proof (induction n rule: show_nat.induct)
  case (1 n)
  show ?case
  proof (cases "n < 10")
    case True
    then have "c = char_of (48 + n)" using "1.prems" by (simp add: show_nat.simps [of n])
    with True show ?thesis by (simp add: of_char_of)
  next
    case False
    then have "c \<in> set (show_nat (n div 10)) \<or> c = char_of (48 + n mod 10)"
      using "1.prems" by (auto simp: show_nat.simps [of n])
    moreover have "(of_char (char_of (48 + n mod 10)) :: nat) = 48 + n mod 10"
      by (simp add: of_char_of)
    ultimately show ?thesis using "1.IH" [OF False] by (auto intro: less_imp_le)
  qed
qed

text \<open>\<open>strings.Split\<close> by one byte and \<open>strings.Join\<close>.\<close>

fun split_byte :: "char \<Rightarrow> string \<Rightarrow> string list" where
  "split_byte sep [] = [[]]"
| "split_byte sep (c # s) =
     (if c = sep then [] # split_byte sep s
      else (case split_byte sep s of [] \<Rightarrow> [[c]] | w # ws \<Rightarrow> (c # w) # ws))"

fun join :: "string \<Rightarrow> string list \<Rightarrow> string" where
  "join sep [] = []"
| "join sep [w] = w"
| "join sep (w # v # ws) = w @ sep @ join sep (v # ws)"

lemma split_byte_nonempty [simp]: "split_byte sep s \<noteq> []"
  by (induction s) (auto split: list.splits)

lemma join_split_byte: "join [sep] (split_byte sep s) = s"
proof (induction s)
  case Nil
  then show ?case by simp
next
  case (Cons c s)
  obtain w ws where w: "split_byte sep s = w # ws"
    by (cases "split_byte sep s") auto
  with Cons show ?case by (cases ws) auto
qed

lemma split_byte_append:
  "sep \<notin> set w \<Longrightarrow> split_byte sep (w @ sep # s) = w # split_byte sep s"
  by (induction w) auto

lemma split_byte_single: "sep \<notin> set w \<Longrightarrow> split_byte sep w = [w]"
  by (induction w) auto

section \<open>Stable sorting\<close>

text \<open>
  \<open>sort.SliceStable(out, less)\<close>: insertion from the right with a strict comparison
  keeps equal elements in their order. Every stable sort by a strict weak order gives
  the same list, so the algorithm of the library does not matter.
\<close>

fun ins_stable :: "('a \<Rightarrow> 'a \<Rightarrow> bool) \<Rightarrow> 'a \<Rightarrow> 'a list \<Rightarrow> 'a list" where
  "ins_stable lt x [] = [x]"
| "ins_stable lt x (y # ys) = (if lt y x then y # ins_stable lt x ys else x # y # ys)"

fun sort_stable :: "('a \<Rightarrow> 'a \<Rightarrow> bool) \<Rightarrow> 'a list \<Rightarrow> 'a list" where
  "sort_stable lt [] = []"
| "sort_stable lt (x # xs) = ins_stable lt x (sort_stable lt xs)"

lemma set_ins_stable [simp]: "set (ins_stable lt x ys) = insert x (set ys)"
  by (induction ys) auto

lemma set_sort_stable [simp]: "set (sort_stable lt xs) = set xs"
  by (induction xs) auto

lemma length_ins_stable [simp]: "length (ins_stable lt x ys) = Suc (length ys)"
  by (induction ys) auto

lemma length_sort_stable [simp]: "length (sort_stable lt xs) = length xs"
  by (induction xs) auto

lemma distinct_ins_stable [simp]:
  "distinct (ins_stable lt x ys) \<longleftrightarrow> x \<notin> set ys \<and> distinct ys"
  by (induction ys) auto

lemma distinct_sort_stable [simp]: "distinct (sort_stable lt xs) = distinct xs"
  by (induction xs) auto

text \<open>Order laws as a locale: what a \<open>less\<close> callback owes \<open>sort.SliceStable\<close>.\<close>

locale strict_weak =
  fixes S :: "'a set" and lt :: "'a \<Rightarrow> 'a \<Rightarrow> bool"
  assumes irrefl: "x \<in> S \<Longrightarrow> \<not> lt x x"
    and trans: "x \<in> S \<Longrightarrow> y \<in> S \<Longrightarrow> z \<in> S \<Longrightarrow> lt x y \<Longrightarrow> lt y z \<Longrightarrow> lt x z"
    and incomparable: "x \<in> S \<Longrightarrow> y \<in> S \<Longrightarrow> z \<in> S \<Longrightarrow> lt x z \<Longrightarrow> lt x y \<or> lt y z"
begin

lemma ins_sorted:
  assumes "sorted_wrt (\<lambda>x y. \<not> lt y x) ys" and "x \<in> S" and "set ys \<subseteq> S"
  shows "sorted_wrt (\<lambda>x y. \<not> lt y x) (ins_stable lt x ys)"
  using assms
proof (induction ys)
  case Nil
  then show ?case by simp
next
  case (Cons y ys)
  show ?case
  proof (cases "lt y x")
    case True
    with Cons have "\<not> lt x y" using irrefl trans by (metis insert_subset list.simps(15))
    with True Cons show ?thesis by auto
  next
    case False
    have "\<not> lt z x" if "z \<in> set ys" for z
      using False Cons.prems that incomparable [of z y x] by auto
    with False Cons.prems show ?thesis by auto
  qed
qed

lemma sort_sorted:
  "set xs \<subseteq> S \<Longrightarrow> sorted_wrt (\<lambda>x y. \<not> lt y x) (sort_stable lt xs)"
  by (induction xs) (auto intro!: ins_sorted)

end

text \<open>Elements the comparison does not tell apart keep their relative order.\<close>

lemma ins_stable_filter:
  assumes "\<forall>y \<in> set ys. P x \<and> P y \<longrightarrow> \<not> lt y x"
  shows "filter P (ins_stable lt x ys) = filter P (x # ys)"
  using assms by (induction ys) auto

lemma sort_stable_filter:
  assumes "\<forall>x \<in> set xs. \<forall>y \<in> set xs. P x \<and> P y \<longrightarrow> \<not> lt y x"
  shows "filter P (sort_stable lt xs) = filter P xs"
  using assms by (induction xs) (auto simp: ins_stable_filter)

section \<open>Go maps built from slices\<close>

text \<open>\<open>for _, it := range items { m[key(it)] = it }\<close>: a later item wins.\<close>

definition index_by :: "('a \<Rightarrow> 'k) \<Rightarrow> 'a list \<Rightarrow> 'k \<Rightarrow> 'a option" where
  "index_by key items = foldl (\<lambda>m it. m(key it \<mapsto> it)) Map.empty items"

lemma foldl_upd_other:
  "k \<notin> key ` set items \<Longrightarrow> foldl (\<lambda>m it. m(key it \<mapsto> it)) m items k = m k"
  by (induction items arbitrary: m) auto

lemma index_by_Nil [simp]: "index_by key [] = Map.empty"
  by (simp add: index_by_def)

lemma index_by_snoc [simp]: "index_by key (items @ [x]) = (index_by key items)(key x \<mapsto> x)"
  by (simp add: index_by_def)

lemma index_by_Some: "index_by key items k = Some x \<Longrightarrow> x \<in> set items \<and> key x = k"
  by (induction items arbitrary: x rule: rev_induct) (auto split: if_splits)

lemma index_by_None_iff: "index_by key items k = None \<longleftrightarrow> k \<notin> key ` set items"
  by (induction items rule: rev_induct) auto

lemma index_by_distinct [keyed]:
  "distinct (map key items) \<Longrightarrow> index_by key items k = Some x \<longleftrightarrow> x \<in> set items \<and> key x = k"
proof (induction items rule: rev_induct)
  case Nil
  then show ?case by simp
next
  case (snoc y ys)
  then show ?case by (auto simp: image_iff)
qed

lemma index_by_find: "index_by key items k = find (\<lambda>x. key x = k) (rev items)"
  by (induction items rule: rev_induct) auto

end
