(* ===== verification/Study_Registry.thy ===== *)
theory Study_Registry
  imports Prelude "HOL-Library.Mapping" "HOL-Library.AList_Mapping"
begin

text \<open>
  \<open>internal/predicate/registry.go\<close> and \<open>catalog.go\<close>: the closed vocabulary of the
  structured study editor (features, operators, operands), the compatibility matrix
  built by the fluent \<open>allow\<close> calls, the lookup indices, and the browser catalog
  projected from them. IDs are Go strings. The matrix is the nested map of the code,
  feature to operator to set of operands. Go iterates a map in an unspecified order:
  \<open>BuildCatalog\<close> takes that order as the argument \<open>enum\<close>.
\<close>

section \<open>Registry types\<close>

record feature =
  f_ID :: string
  f_Label :: string
  f_Category :: string
  f_SQLExpr :: string
  f_PrevExpr :: string
  f_Sortable :: bool

record operator =
  op_ID :: string
  op_Label :: string
  op_SQL :: string
  op_Cross :: bool
  op_Down :: bool

record operand =
  o_ID :: string
  o_Label :: string
  o_Category :: string
  o_SQLExpr :: string
  o_PrevExpr :: string
  o_Column :: bool

datatype preset = Preset (p_id: string) (p_label: string) (p_sql: string) (p_category: string)

section \<open>Operators\<close>

definition scalar_op :: "string \<Rightarrow> string \<Rightarrow> string \<Rightarrow> operator" where
  "scalar_op i l s = \<lparr>op_ID = i, op_Label = l, op_SQL = s, op_Cross = False, op_Down = False\<rparr>"

definition OpAbove :: operator where "OpAbove = scalar_op ''above'' ''Is Above'' ''>''"
definition OpAtOrAbove :: operator where
  "OpAtOrAbove = scalar_op ''at_or_above'' ''Is At or Above'' ''>=''"
definition OpBelow :: operator where "OpBelow = scalar_op ''below'' ''Is Below'' ''<''"
definition OpAtOrBelow :: operator where
  "OpAtOrBelow = scalar_op ''at_or_below'' ''Is At or Below'' ''<=''"
definition OpCrossUp :: operator where
  "OpCrossUp = \<lparr>op_ID = ''crossed_above'', op_Label = ''Crossed Above'', op_SQL = [],
     op_Cross = True, op_Down = False\<rparr>"
definition OpCrossDown :: operator where
  "OpCrossDown = \<lparr>op_ID = ''crossed_below'', op_Label = ''Crossed Below'', op_SQL = [],
     op_Cross = False, op_Down = True\<rparr>"

definition Operators :: "operator list" where
  "Operators = [OpAbove, OpAtOrAbove, OpBelow, OpAtOrBelow, OpCrossUp, OpCrossDown]"

definition scalarOps :: "string list" where
  "scalarOps = [op_ID OpAbove, op_ID OpAtOrAbove, op_ID OpBelow, op_ID OpAtOrBelow]"

definition crossOps :: "string list" where
  "crossOps = [op_ID OpCrossUp, op_ID OpCrossDown]"

section \<open>Features and operands\<close>

definition Features :: "feature list" where
  "Features =
     [\<lparr>f_ID = ''close'', f_Label = ''Close'', f_Category = ''Price'', f_SQLExpr = ''close'',
        f_PrevExpr = ''prev_close'', f_Sortable = True\<rparr>,
      \<lparr>f_ID = ''high'', f_Label = ''Day High'', f_Category = ''Price'', f_SQLExpr = ''high'',
        f_PrevExpr = '''', f_Sortable = False\<rparr>,
      \<lparr>f_ID = ''low'', f_Label = ''Day Low'', f_Category = ''Price'', f_SQLExpr = ''low'',
        f_PrevExpr = '''', f_Sortable = False\<rparr>,
      \<lparr>f_ID = ''sma_50'', f_Label = ''SMA(50)'', f_Category = ''Trend'', f_SQLExpr = ''sma50'',
        f_PrevExpr = ''prev_sma50'', f_Sortable = True\<rparr>,
      \<lparr>f_ID = ''sma_200'', f_Label = ''SMA(200)'', f_Category = ''Trend'', f_SQLExpr = ''sma200'',
        f_PrevExpr = ''prev_sma200'', f_Sortable = True\<rparr>,
      \<lparr>f_ID = ''rsi_14'', f_Label = ''RSI(14)'', f_Category = ''Momentum'', f_SQLExpr = ''rsi14'',
        f_PrevExpr = ''prev_rsi14'', f_Sortable = True\<rparr>,
      \<lparr>f_ID = ''ret_3m'', f_Label = ''3-Month Return'', f_Category = ''Performance'', f_SQLExpr = ''ret_3m'',
        f_PrevExpr = '''', f_Sortable = True\<rparr>,
      \<lparr>f_ID = ''dollar_vol'', f_Label = ''Dollar Volume'', f_Category = ''Liquidity'', f_SQLExpr = ''dollar_vol'',
        f_PrevExpr = '''', f_Sortable = True\<rparr>,
      \<lparr>f_ID = ''high_52w'', f_Label = ''52-Week High'', f_Category = ''Highs & Lows'', f_SQLExpr = ''high_52w'',
        f_PrevExpr = '''', f_Sortable = False\<rparr>,
      \<lparr>f_ID = ''low_52w'', f_Label = ''52-Week Low'', f_Category = ''Highs & Lows'', f_SQLExpr = ''low_52w'',
        f_PrevExpr = '''', f_Sortable = False\<rparr>]"

definition operandColumns :: "operand list" where
  "operandColumns =
     [\<lparr>o_ID = ''o_close'', o_Label = ''Close'', o_Category = ''Price'', o_SQLExpr = ''close'',
        o_PrevExpr = ''prev_close'', o_Column = True\<rparr>,
      \<lparr>o_ID = ''o_sma_50'', o_Label = ''SMA(50)'', o_Category = ''Trend'', o_SQLExpr = ''sma50'',
        o_PrevExpr = ''prev_sma50'', o_Column = True\<rparr>,
      \<lparr>o_ID = ''o_sma_200'', o_Label = ''SMA(200)'', o_Category = ''Trend'', o_SQLExpr = ''sma200'',
        o_PrevExpr = ''prev_sma200'', o_Column = True\<rparr>,
      \<lparr>o_ID = ''o_high_52w'', o_Label = ''52-Week High'', o_Category = ''Highs & Lows'', o_SQLExpr = ''high_52w'',
        o_PrevExpr = ''high_52w'', o_Column = True\<rparr>,
      \<lparr>o_ID = ''o_low_52w'', o_Label = ''52-Week Low'', o_Category = ''Highs & Lows'', o_SQLExpr = ''low_52w'',
        o_PrevExpr = ''low_52w'', o_Column = True\<rparr>]"

definition rsiLevels :: "preset list" where
  "rsiLevels =
     [Preset ''rsi_20'' ''20'' ''20'' ''RSI Level'',
      Preset ''rsi_25'' ''25'' ''25'' ''RSI Level'',
      Preset ''rsi_30'' ''30'' ''30'' ''RSI Level'',
      Preset ''rsi_35'' ''35'' ''35'' ''RSI Level'',
      Preset ''rsi_40'' ''40'' ''40'' ''RSI Level'',
      Preset ''rsi_50'' ''50'' ''50'' ''RSI Level'',
      Preset ''rsi_60'' ''60'' ''60'' ''RSI Level'',
      Preset ''rsi_65'' ''65'' ''65'' ''RSI Level'',
      Preset ''rsi_70'' ''70'' ''70'' ''RSI Level'',
      Preset ''rsi_75'' ''75'' ''75'' ''RSI Level'',
      Preset ''rsi_80'' ''80'' ''80'' ''RSI Level'']"

definition priceLevels :: "preset list" where
  "priceLevels =
     [Preset ''price_1'' ''$1'' ''1'' ''Price'',
      Preset ''price_2'' ''$2'' ''2'' ''Price'',
      Preset ''price_5'' ''$5'' ''5'' ''Price'',
      Preset ''price_10'' ''$10'' ''10'' ''Price'',
      Preset ''price_20'' ''$20'' ''20'' ''Price'',
      Preset ''price_50'' ''$50'' ''50'' ''Price'',
      Preset ''price_100'' ''$100'' ''100'' ''Price'',
      Preset ''price_200'' ''$200'' ''200'' ''Price'',
      Preset ''price_500'' ''$500'' ''500'' ''Price'']"

definition dollarVolLevels :: "preset list" where
  "dollarVolLevels =
     [Preset ''dv_100k'' ''$100K'' ''100000'' ''Dollar Volume'',
      Preset ''dv_500k'' ''$500K'' ''500000'' ''Dollar Volume'',
      Preset ''dv_1m'' ''$1M'' ''1000000'' ''Dollar Volume'',
      Preset ''dv_5m'' ''$5M'' ''5000000'' ''Dollar Volume'',
      Preset ''dv_10m'' ''$10M'' ''10000000'' ''Dollar Volume'',
      Preset ''dv_25m'' ''$25M'' ''25000000'' ''Dollar Volume'',
      Preset ''dv_50m'' ''$50M'' ''50000000'' ''Dollar Volume'',
      Preset ''dv_100m'' ''$100M'' ''100000000'' ''Dollar Volume'',
      Preset ''dv_250m'' ''$250M'' ''250000000'' ''Dollar Volume'',
      Preset ''dv_500m'' ''$500M'' ''500000000'' ''Dollar Volume'',
      Preset ''dv_1b'' ''$1B'' ''1000000000'' ''Dollar Volume'']"

definition pctLevels :: "preset list" where
  "pctLevels =
     [Preset ''pct_neg50'' ''-50%'' ''-0.5'' ''Return'',
      Preset ''pct_neg25'' ''-25%'' ''-0.25'' ''Return'',
      Preset ''pct_neg20'' ''-20%'' ''-0.2'' ''Return'',
      Preset ''pct_neg10'' ''-10%'' ''-0.1'' ''Return'',
      Preset ''pct_neg5'' ''-5%'' ''-0.05'' ''Return'',
      Preset ''pct_0'' ''0%'' ''0'' ''Return'',
      Preset ''pct_5'' ''+5%'' ''0.05'' ''Return'',
      Preset ''pct_10'' ''+10%'' ''0.1'' ''Return'',
      Preset ''pct_20'' ''+20%'' ''0.2'' ''Return'',
      Preset ''pct_25'' ''+25%'' ''0.25'' ''Return'',
      Preset ''pct_50'' ''+50%'' ''0.5'' ''Return'',
      Preset ''pct_100'' ''+100%'' ''1.0'' ''Return'']"

definition preset_operand :: "preset \<Rightarrow> operand" where
  "preset_operand p = \<lparr>o_ID = p_id p, o_Label = p_label p, o_Category = p_category p,
     o_SQLExpr = p_sql p, o_PrevExpr = p_sql p, o_Column = False\<rparr>"

definition buildOperands :: "operand list" where
  "buildOperands =
     foldl (\<lambda>out grp. foldl (\<lambda>out p. out @ [preset_operand p]) out grp)
       operandColumns [rsiLevels, priceLevels, dollarVolLevels, pctLevels]"

definition Operands :: "operand list" where "Operands = buildOperands"

section \<open>Compatibility matrix\<close>

type_synonym ops_map = "(string, string set) mapping"
type_synonym compat = "(string, ops_map) mapping"

definition ids :: "preset list list \<Rightarrow> string list" where
  "ids ps = concat (map (map p_id) ps)"

text \<open>The two inner loops of \<open>allow\<close>: a missing inner map is created, then filled.\<close>

definition allow_op :: "string list \<Rightarrow> ops_map \<Rightarrow> string \<Rightarrow> ops_map" where
  "allow_op operands m op =
     (let s = (case Mapping.lookup m op of None \<Rightarrow> {} | Some s \<Rightarrow> s)
      in Mapping.update op (foldl (\<lambda>s x. insert x s) s operands) m)"

definition allow :: "compat \<Rightarrow> string \<Rightarrow> string list \<Rightarrow> string list \<Rightarrow> compat" where
  "allow c f ops operands =
     (let m = (case Mapping.lookup c f of None \<Rightarrow> Mapping.empty | Some m \<Rightarrow> m)
      in Mapping.update f (foldl (allow_op operands) m ops) c)"

definition priceOperands :: "string list" where
  "priceOperands = [''o_sma_50'', ''o_sma_200'', ''o_high_52w'', ''o_low_52w''] @ ids [priceLevels]"

definition Compatibility :: compat where
  "Compatibility =
     (let c = Mapping.empty;
          c = allow c ''close'' scalarOps priceOperands;
          c = allow c ''close'' crossOps [''o_sma_50'', ''o_sma_200'', ''o_high_52w'', ''o_low_52w''];
          c = allow c ''high'' scalarOps ([''o_high_52w''] @ ids [priceLevels]);
          c = allow c ''low'' scalarOps ([''o_low_52w''] @ ids [priceLevels]);
          c = allow c ''sma_50'' scalarOps ([''o_sma_200'', ''o_close''] @ ids [priceLevels]);
          c = allow c ''sma_50'' crossOps [''o_sma_200''];
          c = allow c ''sma_200'' scalarOps ([''o_sma_50'', ''o_close''] @ ids [priceLevels]);
          c = allow c ''rsi_14'' scalarOps (ids [rsiLevels]);
          c = allow c ''rsi_14'' crossOps (ids [rsiLevels]);
          c = allow c ''ret_3m'' scalarOps (ids [pctLevels]);
          c = allow c ''dollar_vol'' scalarOps (ids [dollarVolLevels])
      in c)"

section \<open>Lookup\<close>

definition featureByID :: "string \<Rightarrow> feature option" where "featureByID = index_by f_ID Features"
definition operatorByID :: "string \<Rightarrow> operator option" where "operatorByID = index_by op_ID Operators"
definition operandByID :: "string \<Rightarrow> operand option" where "operandByID = index_by o_ID Operands"

definition allowed_in :: "compat \<Rightarrow> string \<Rightarrow> string \<Rightarrow> string \<Rightarrow> bool" where
  "allowed_in c f op x =
     (case Mapping.lookup c f of
        None \<Rightarrow> False
      | Some ops \<Rightarrow> (case Mapping.lookup ops op of None \<Rightarrow> False | Some s \<Rightarrow> x \<in> s))"

definition allowed :: "string \<Rightarrow> string \<Rightarrow> string \<Rightarrow> bool" where
  "allowed f op x = allowed_in Compatibility f op x"

section \<open>Catalog\<close>

record cat_feature =
  cf_ID :: string
  cf_Label :: string
  cf_Category :: string
  cf_Sortable :: bool
  cf_OperatorIDs :: "string list"

record catalog =
  cat_Version :: int
  cat_Features :: "cat_feature list"
  cat_Operators :: "(string \<times> string) list"
  cat_Operands :: "(string \<times> string \<times> string) list"
  cat_Compatibility :: "(string, (string, string list) mapping) mapping"
  cat_SortFeatures :: "string list"

text \<open>\<open>sortByOrder\<close>: the nested loops with their swaps; a missing key of \<open>order\<close> reads 0.\<close>

primrec sink :: "(string \<Rightarrow> nat) \<Rightarrow> string list \<Rightarrow> nat \<Rightarrow> string list" where
  "sink order xs 0 = xs"
| "sink order xs (Suc j) =
     (if order (xs ! Suc j) < order (xs ! j)
      then sink order (xs[Suc j := xs ! j, j := xs ! Suc j]) j else xs)"

definition sortByOrder :: "(string \<Rightarrow> nat) \<Rightarrow> string list \<Rightarrow> string list" where
  "sortByOrder order xs = foldl (sink order) xs [1..<length xs]"

definition operandOrder :: "string \<Rightarrow> nat" where
  "operandOrder k =
     (case index_by fst (zip (map o_ID Operands) [0..<length Operands]) k of
        None \<Rightarrow> 0 | Some (_, i) \<Rightarrow> i)"

definition catalog_op ::
  "(string set \<Rightarrow> string list) \<Rightarrow> ops_map \<Rightarrow> string list \<times> (string, string list) mapping \<Rightarrow> operator
     \<Rightarrow> string list \<times> (string, string list) mapping" where
  "catalog_op enum ops acc op =
     (case Mapping.lookup ops (op_ID op) of
        None \<Rightarrow> acc
      | Some s \<Rightarrow> (fst acc @ [op_ID op],
                   Mapping.update (op_ID op) (sortByOrder operandOrder (enum s)) (snd acc)))"

definition catalog_feature :: "(string set \<Rightarrow> string list) \<Rightarrow> catalog \<Rightarrow> feature \<Rightarrow> catalog" where
  "catalog_feature enum c f =
     (case Mapping.lookup Compatibility (f_ID f) of
        None \<Rightarrow> c
      | Some ops \<Rightarrow>
        if Mapping.is_empty ops then c
        else (let (opIDs, byOp) = foldl (catalog_op enum ops) ([], Mapping.empty) Operators
              in c\<lparr>cat_Features := cat_Features c @
                     [\<lparr>cf_ID = f_ID f, cf_Label = f_Label f, cf_Category = f_Category f,
                       cf_Sortable = f_Sortable f, cf_OperatorIDs = opIDs\<rparr>],
                   cat_Compatibility := Mapping.update (f_ID f) byOp (cat_Compatibility c),
                   cat_SortFeatures :=
                     (if f_Sortable f then cat_SortFeatures c @ [f_ID f] else cat_SortFeatures c)\<rparr>))"

definition BuildCatalog :: "(string set \<Rightarrow> string list) \<Rightarrow> catalog" where
  "BuildCatalog enum =
     (let c = foldl (catalog_feature enum)
                \<lparr>cat_Version = 1, cat_Features = [], cat_Operators = [], cat_Operands = [],
                 cat_Compatibility = Mapping.empty, cat_SortFeatures = []\<rparr> Features
      in c\<lparr>cat_Operators := map (\<lambda>op. (op_ID op, op_Label op)) Operators,
           cat_Operands := map (\<lambda>x. (o_ID x, o_Label x, o_Category x)) Operands\<rparr>)"

section \<open>The matrix is the union of its \<open>allow\<close> calls\<close>

lemma foldl_insert: "foldl (\<lambda>s x. insert x s) s xs = s \<union> set xs"
  by (induction xs arbitrary: s) auto

lemma lookup_allow_op:
  "Mapping.lookup (allow_op operands m op) k =
     (if k = op then Some ((case Mapping.lookup m op of None \<Rightarrow> {} | Some s \<Rightarrow> s) \<union> set operands)
      else Mapping.lookup m k)"
  by (simp add: allow_op_def lookup_update' foldl_insert)

lemma lookup_allow_ops:
  "Mapping.lookup (foldl (allow_op operands) m ops) k =
     (if k \<in> set ops
      then Some ((case Mapping.lookup m k of None \<Rightarrow> {} | Some s \<Rightarrow> s) \<union> set operands)
      else Mapping.lookup m k)"
  by (induction ops arbitrary: m) (auto simp: lookup_allow_op split: option.splits)

lemma allowed_in_allow:
  "allowed_in (allow c f ops operands) g op x \<longleftrightarrow>
     allowed_in c g op x \<or> (g = f \<and> op \<in> set ops \<and> x \<in> set operands)"
  by (auto simp: allowed_in_def allow_def Let_def lookup_update' lookup_allow_ops
      split: option.splits if_splits)

lemma allowed_in_empty: "\<not> allowed_in Mapping.empty f op x"
  by (simp add: allowed_in_def)

lemma allowed_iff:
  "allowed f op x \<longleftrightarrow>
     (f = ''close'' \<and> op \<in> set scalarOps \<and> x \<in> set priceOperands) \<or>
     (f = ''close'' \<and> op \<in> set crossOps \<and>
        x \<in> {''o_sma_50'', ''o_sma_200'', ''o_high_52w'', ''o_low_52w''}) \<or>
     (f = ''high'' \<and> op \<in> set scalarOps \<and> x \<in> insert ''o_high_52w'' (set (ids [priceLevels]))) \<or>
     (f = ''low'' \<and> op \<in> set scalarOps \<and> x \<in> insert ''o_low_52w'' (set (ids [priceLevels]))) \<or>
     (f = ''sma_50'' \<and> op \<in> set scalarOps \<and>
        x \<in> {''o_sma_200'', ''o_close''} \<union> set (ids [priceLevels])) \<or>
     (f = ''sma_50'' \<and> op \<in> set crossOps \<and> x = ''o_sma_200'') \<or>
     (f = ''sma_200'' \<and> op \<in> set scalarOps \<and>
        x \<in> {''o_sma_50'', ''o_close''} \<union> set (ids [priceLevels])) \<or>
     (f = ''rsi_14'' \<and> op \<in> set scalarOps \<and> x \<in> set (ids [rsiLevels])) \<or>
     (f = ''rsi_14'' \<and> op \<in> set crossOps \<and> x \<in> set (ids [rsiLevels])) \<or>
     (f = ''ret_3m'' \<and> op \<in> set scalarOps \<and> x \<in> set (ids [pctLevels])) \<or>
     (f = ''dollar_vol'' \<and> op \<in> set scalarOps \<and> x \<in> set (ids [dollarVolLevels]))"
  unfolding allowed_def Compatibility_def Let_def allowed_in_allow
  by (simp add: allowed_in_empty)

lemma registry_distinct [keyed]:
  "distinct (map f_ID Features)" "distinct (map op_ID Operators)" "distinct (map o_ID Operands)"
  by code_simp+

lemma lookup_members:
  "featureByID i = Some f \<Longrightarrow> f \<in> set Features \<and> f_ID f = i"
  "operatorByID j = Some op \<Longrightarrow> op \<in> set Operators \<and> op_ID op = j"
  "operandByID k = Some x \<Longrightarrow> x \<in> set Operands \<and> o_ID x = k"
  by (auto simp: featureByID_def operatorByID_def operandByID_def dest: index_by_Some)

text \<open>Every ID the matrix names is registered.\<close>

lemma matrix_ids_registered:
  "list_all (\<lambda>i. featureByID i \<noteq> None)
     [''close'', ''high'', ''low'', ''sma_50'', ''sma_200'', ''rsi_14'', ''ret_3m'', ''dollar_vol'']"
  "list_all (\<lambda>j. operatorByID j \<noteq> None) (scalarOps @ crossOps)"
  "list_all (\<lambda>k. operandByID k \<noteq> None)
     (priceOperands @ [''o_close''] @ ids [rsiLevels, pctLevels, dollarVolLevels])"
  by code_simp+

lemma allowed_registered:
  assumes "allowed f op x"
  shows "featureByID f \<noteq> None" "operatorByID op \<noteq> None" "operandByID x \<noteq> None"
proof -
  show "featureByID f \<noteq> None"
    using assms matrix_ids_registered(1) unfolding allowed_iff by auto
  show "operatorByID op \<noteq> None"
    using assms matrix_ids_registered(2) unfolding allowed_iff by (auto simp: list_all_iff)
  have "set (ids [priceLevels]) \<subseteq> set priceOperands" by (auto simp: priceOperands_def)
  moreover have "{''o_sma_50'', ''o_sma_200'', ''o_high_52w'', ''o_low_52w''} \<subseteq> set priceOperands"
    by (simp add: priceOperands_def)
  ultimately have "x \<in> set priceOperands \<or> x = ''o_close'' \<or>
      x \<in> set (ids [rsiLevels, pctLevels, dollarVolLevels])"
    using assms unfolding allowed_iff by (auto simp: ids_def)
  then show "operandByID x \<noteq> None"
    using matrix_ids_registered(3) by (auto simp: list_all_iff)
qed

text \<open>Where a cross is legal, both sides have a prior-bar expression.\<close>

lemma allowed_cross_feature:
  assumes "allowed f op x" and "op \<in> set crossOps"
  shows "f \<in> {''close'', ''sma_50'', ''rsi_14''}"
proof -
  have "set crossOps \<inter> set scalarOps = {}" by code_simp
  with assms(2) have "op \<notin> set scalarOps" by auto
  with assms(1) show ?thesis unfolding allowed_iff by (elim disjE conjE) simp_all
qed

end
