(* ===== verification/Study_Compiler.thy ===== *)
theory Study_Compiler
  imports Study_Registry
begin

text \<open>
  \<open>internal/predicate/compile.go\<close>: the mechanical compiler from a study definition
  (IDs only) to SQL. \<open>sha256\<close> of the standard library is the argument \<open>sha\<close>. Error
  strings become constructors that carry the formatted values. The abstract side is
  an expression tree with its printer, a lexer and a parser of the emitted fragment,
  and its three-valued SQL meaning.
\<close>

section \<open>Types\<close>

record rule =
  LeftID :: string
  OperatorID :: string
  RightID :: string

record sort_spec =
  s_FeatureID :: string
  s_Direction :: string

record study_def =
  d_Version :: int
  d_Name :: string
  d_UniverseID :: string
  d_Rules :: "rule list"
  d_Connectors :: "string list"
  d_Sort :: sort_spec

record compiled =
  Where :: string
  OrderBy :: string
  SelectSQL :: string
  Hash :: string

datatype pred_error =
    UnknownFeature string
  | UnknownOperator string
  | UnknownOperand string
  | Incompatible string string string
  | CrossNeedsPrev string string

datatype compile_error =
    UnsupportedVersion int
  | NameTooLong nat
  | NoRules
  | TooManyRules nat
  | ConnectorCount nat nat
  | RuleError nat pred_error
  | UnknownConnector string
  | BadSortField string
  | BadDirection string

definition MaxRules :: nat where "MaxRules = 16"
definition MaxNameLen :: nat where "MaxNameLen = 120"
definition CompilerVersion :: string where "CompilerVersion = ''v1''"

section \<open>The compiler\<close>

definition compilePredicate :: "rule \<Rightarrow> (pred_error, string) result" where
  "compilePredicate r =
     (case featureByID (LeftID r) of
        None \<Rightarrow> Inl (UnknownFeature (LeftID r))
      | Some f \<Rightarrow>
     (case operatorByID (OperatorID r) of
        None \<Rightarrow> Inl (UnknownOperator (OperatorID r))
      | Some op \<Rightarrow>
     (case operandByID (RightID r) of
        None \<Rightarrow> Inl (UnknownOperand (RightID r))
      | Some x \<Rightarrow>
        if \<not> allowed (f_ID f) (op_ID op) (o_ID x)
        then Inl (Incompatible (f_ID f) (op_ID op) (o_ID x))
        else if op_Cross op \<or> op_Down op
        then (if f_PrevExpr f = [] \<or> o_PrevExpr x = []
              then Inl (CrossNeedsPrev (f_ID f) (o_ID x))
              else (let (now, prev) = (if op_Down op then (''<'', ''>='') else (''>'', ''<=''))
                    in Inr (''('' @ f_SQLExpr f @ '' '' @ now @ '' '' @ o_SQLExpr x @ '' AND '' @
                            f_PrevExpr f @ '' '' @ prev @ '' '' @ o_PrevExpr x @ '')'')))
        else Inr (f_SQLExpr f @ '' '' @ op_SQL op @ '' '' @ o_SQLExpr x))))"

definition compileConnector :: "string \<Rightarrow> (compile_error, string) result" where
  "compileConnector c =
     (if c = ''and'' then Inr ''AND'' else if c = ''or'' then Inr ''OR''
      else Inl (UnknownConnector c))"

definition compileSort :: "sort_spec \<Rightarrow> (compile_error, string) result" where
  "compileSort s =
     (case featureByID (s_FeatureID s) of
        None \<Rightarrow> Inl (BadSortField (s_FeatureID s))
      | Some f \<Rightarrow>
        if \<not> f_Sortable f then Inl (BadSortField (s_FeatureID s))
        else if to_lower (s_Direction s) = ''asc'' then Inr (f_SQLExpr f @ '' ASC'')
        else if to_lower (s_Direction s) = ''desc'' then Inr (f_SQLExpr f @ '' DESC'')
        else Inl (BadDirection (s_Direction s)))"

definition hex_digit :: "nat \<Rightarrow> char" where
  "hex_digit n = (if n < 10 then char_of (48 + n) else char_of (87 + n))"

definition hex_encode :: "string \<Rightarrow> string" where
  "hex_encode bs = concat (map (\<lambda>b. [hex_digit (of_char b div 16), hex_digit (of_char b mod 16)]) bs)"

definition hash_input :: "string \<Rightarrow> string \<Rightarrow> string" where
  "hash_input universe sql =
     ''compiler:'' @ CompilerVersion @ [CHR 0x0A] @ ''universe:'' @ universe @ [CHR 0x0A] @ sql"

definition hash_study :: "(string \<Rightarrow> string) \<Rightarrow> string \<Rightarrow> string \<Rightarrow> string" where
  "hash_study sha universe sql = hex_encode (sha (hash_input universe sql))"

text \<open>The first loop: every rule in order, the error numbered from 1.\<close>

fun compile_rules :: "nat \<Rightarrow> rule list \<Rightarrow> (compile_error, string list) result" where
  "compile_rules i [] = Inr []"
| "compile_rules i (r # rs) =
     (case compilePredicate r of
        Inl e \<Rightarrow> Inl (RuleError (i + 1) e)
      | Inr p \<Rightarrow> bind_res (compile_rules (i + 1) rs) (\<lambda>ps. Inr (p # ps)))"

text \<open>The second loop: one connector and one further predicate per turn.\<close>

fun join_rules :: "string \<Rightarrow> string list \<Rightarrow> string list \<Rightarrow> (compile_error, string) result" where
  "join_rules expr (c # cs) (p # ps) =
     bind_res (compileConnector c)
       (\<lambda>conn. join_rules (''('' @ expr @ '' '' @ conn @ '' '' @ p @ '')'') cs ps)"
| "join_rules expr _ _ = Inr expr"

definition Compile :: "(string \<Rightarrow> string) \<Rightarrow> study_def \<Rightarrow> int \<Rightarrow> (compile_error, compiled) result" where
  "Compile sha def limit =
     (if d_Version def \<noteq> 1 then Inl (UnsupportedVersion (d_Version def))
      else if length (d_Name def) > MaxNameLen then Inl (NameTooLong (length (d_Name def)))
      else (let n = length (d_Rules def) in
        if n = 0 then Inl NoRules
        else if n > MaxRules then Inl (TooManyRules n)
        else if length (d_Connectors def) \<noteq> n - 1
        then Inl (ConnectorCount (length (d_Connectors def)) (n - 1))
        else bind_res (compile_rules 0 (d_Rules def)) (\<lambda>predicates.
             bind_res (join_rules (hd predicates) (d_Connectors def) (tl predicates)) (\<lambda>expr.
             bind_res (compileSort (d_Sort def)) (\<lambda>order.
             let sel = ''SELECT symbol FROM snapshot WHERE '' @ expr @ '' ORDER BY '' @ order @
                       '' LIMIT '' @ show_int limit
             in Inr \<lparr>Where = expr, OrderBy = order, SelectSQL = sel,
                     Hash = hash_study sha (d_UniverseID def) sel\<rparr>)))))"

section \<open>The abstract side: expression trees\<close>

datatype sql_expr =
    Cmp string string string
  | Conn sql_expr string sql_expr

primrec render :: "sql_expr \<Rightarrow> string" where
  "render (Cmp a op b) = a @ '' '' @ op @ '' '' @ b"
| "render (Conn l c r) = ''('' @ render l @ '' '' @ c @ '' '' @ render r @ '')''"

text \<open>The tree a rule stands for, by the registry entries it names.\<close>

definition entry_tree :: "feature \<Rightarrow> operator \<Rightarrow> operand \<Rightarrow> sql_expr" where
  "entry_tree f op x =
     (if op_Down op then Conn (Cmp (f_SQLExpr f) ''<'' (o_SQLExpr x)) ''AND''
                              (Cmp (f_PrevExpr f) ''>='' (o_PrevExpr x))
      else if op_Cross op then Conn (Cmp (f_SQLExpr f) ''>'' (o_SQLExpr x)) ''AND''
                                    (Cmp (f_PrevExpr f) ''<='' (o_PrevExpr x))
      else Cmp (f_SQLExpr f) (op_SQL op) (o_SQLExpr x))"

definition rule_entry :: "rule \<Rightarrow> (feature \<times> operator \<times> operand) option" where
  "rule_entry r =
     (case (featureByID (LeftID r), operatorByID (OperatorID r), operandByID (RightID r)) of
        (Some f, Some op, Some x) \<Rightarrow>
          if allowed (f_ID f) (op_ID op) (o_ID x) \<and>
             ((op_Cross op \<or> op_Down op) \<longrightarrow> f_PrevExpr f \<noteq> [] \<and> o_PrevExpr x \<noteq> [])
          then Some (f, op, x) else None
      | _ \<Rightarrow> None)"

definition rule_tree :: "rule \<Rightarrow> sql_expr option" where
  "rule_tree r = map_option (\<lambda>(f, op, x). entry_tree f op x) (rule_entry r)"

definition conn_sql :: "string \<Rightarrow> string option" where
  "conn_sql c = (if c = ''and'' then Some ''AND'' else if c = ''or'' then Some ''OR'' else None)"

text \<open>Strict top-to-bottom nesting of the rules' trees.\<close>

definition study_tree :: "sql_expr list \<Rightarrow> string list \<Rightarrow> sql_expr" where
  "study_tree ts cs = foldl (\<lambda>l (c, r). Conn l c r) (hd ts) (zip cs (tl ts))"

lemma compilePredicate_entry:
  "rule_entry r = Some (f, op, x) \<Longrightarrow> compilePredicate r = Inr (render (entry_tree f op x))"
  by (auto simp: compilePredicate_def rule_entry_def entry_tree_def
      split: option.splits if_splits)

lemma compilePredicate_no_entry:
  "rule_entry r = None \<Longrightarrow> \<exists>e. compilePredicate r = Inl e"
  by (auto simp: compilePredicate_def rule_entry_def split: option.splits if_splits)

lemma compilePredicate_iff:
  "compilePredicate r = Inr p \<longleftrightarrow> (\<exists>t. rule_tree r = Some t \<and> p = render t)"
proof (cases "rule_entry r")
  case None
  then show ?thesis
    using compilePredicate_no_entry [of r] by (auto simp: rule_tree_def)
next
  case (Some e)
  then show ?thesis
    by (cases e) (auto simp: rule_tree_def compilePredicate_entry)
qed

lemma compileConnector_iff: "compileConnector c = Inr s \<longleftrightarrow> conn_sql c = Some s"
  by (auto simp: compileConnector_def conn_sql_def)

lemma compile_rules_iff:
  "compile_rules i rs = Inr ps \<longleftrightarrow>
     (\<exists>ts. map rule_tree rs = map Some ts \<and> ps = map render ts)"
proof (induction rs arbitrary: i ps)
  case Nil
  then show ?case by auto
next
  case (Cons r rs)
  show ?case
  proof (cases "compilePredicate r")
    case (Inl e)
    then have "rule_tree r = None"
      using compilePredicate_iff [of r] by (cases "rule_tree r") auto
    with Inl show ?thesis by (auto simp: map_eq_Cons_conv)
  next
    case (Inr p)
    then obtain t where t: "rule_tree r = Some t" "p = render t"
      using compilePredicate_iff by blast
    show ?thesis
    proof
      assume "compile_rules i (r # rs) = Inr ps"
      with Inr obtain qs where "compile_rules (i + 1) rs = Inr qs" "ps = p # qs"
        by (auto simp: bind_res_eq_Inr_iff)
      with Cons.IH t obtain ts where "map rule_tree (r # rs) = map Some (t # ts)"
        "ps = map render (t # ts)" by auto
      then show "\<exists>ts. map rule_tree (r # rs) = map Some ts \<and> ps = map render ts" by blast
    next
      assume "\<exists>ts. map rule_tree (r # rs) = map Some ts \<and> ps = map render ts"
      then obtain ts where "map rule_tree rs = map Some ts" "ps = p # map render ts"
        using t by (auto simp: Cons_eq_map_conv)
      moreover from this have "compile_rules (i + 1) rs = Inr (map render ts)"
        using Cons.IH by blast
      ultimately show "compile_rules i (r # rs) = Inr ps" using Inr by simp
    qed
  qed
qed

lemma join_rules_iff:
  "length cs = length ts \<Longrightarrow>
   join_rules (render t) cs (map render ts) = Inr e \<longleftrightarrow>
     (\<exists>ss. map conn_sql cs = map Some ss \<and> e = render (study_tree (t # ts) ss))"
proof (induction cs ts arbitrary: t rule: list_induct2)
  case Nil
  then show ?case by (auto simp: study_tree_def)
next
  case (Cons c cs u ts)
  show ?case
  proof (cases "conn_sql c")
    case None
    then have "\<nexists>s. compileConnector c = Inr s" using compileConnector_iff by auto
    with None show ?thesis
      by (auto simp: map_eq_Cons_conv Cons_eq_map_conv bind_res_eq_Inr_iff)
  next
    case (Some s)
    then have "compileConnector c = Inr s" by (simp add: compileConnector_iff)
    moreover have "''('' @ render t @ '' '' @ s @ '' '' @ render u @ '')'' = render (Conn t s u)"
      by simp
    ultimately have "join_rules (render t) (c # cs) (map render (u # ts)) = Inr e \<longleftrightarrow>
        join_rules (render (Conn t s u)) cs (map render ts) = Inr e"
      by simp
    also have "\<dots> \<longleftrightarrow> (\<exists>ss. map conn_sql cs = map Some ss \<and>
        e = render (study_tree (Conn t s u # ts) ss))"
      by (rule Cons.IH)
    also have "\<dots> \<longleftrightarrow> (\<exists>ss. map conn_sql (c # cs) = map Some ss \<and>
        e = render (study_tree (t # u # ts) ss))"
      using Some by (force simp: study_tree_def Cons_eq_map_conv map_eq_Cons_conv)
    finally show ?thesis .
  qed
qed

end
