(* ===== verification/Study_Reading.thy ===== *)
theory Study_Reading
  imports Study_Compiler Complex_Main
begin

text \<open>
  Reading the compiler's output back. \<open>lex\<close> splits at blanks and brackets,
  \<open>parse_sql\<close> is SQL's own reading of a fully bracketed comparison expression, and
  \<open>sem\<close> its three-valued meaning over a row (NULL is \<open>None\<close>). The emitted text has
  exactly one reading, the left-nested tree of the rules, and its meaning is the
  top-to-bottom evaluation the source documents.
\<close>

section \<open>Lexing\<close>

fun is_delim :: "char \<Rightarrow> bool" where
  "is_delim c = (c \<in> {CHR '' '', CHR ''('', CHR '')''})"

definition flush :: "string \<Rightarrow> string list" where
  "flush w = (if w = [] then [] else [w])"

fun lex :: "string \<Rightarrow> string \<Rightarrow> string list" where
  "lex w [] = flush w"
| "lex w (c # s) =
     (if c = CHR '' '' then flush w @ lex [] s
      else if c = CHR ''('' \<or> c = CHR '')'' then flush w @ [c] # lex [] s
      else lex (w @ [c]) s)"

definition atom :: "string \<Rightarrow> bool" where
  "atom a \<longleftrightarrow> a \<noteq> [] \<and> list_all (\<lambda>c. \<not> is_delim c) a"

primrec tokens :: "sql_expr \<Rightarrow> string list" where
  "tokens (Cmp a op b) = [a, op, b]"
| "tokens (Conn l c r) = [CHR ''(''] # tokens l @ [c] @ tokens r @ [[CHR '')'']]"

primrec wf_expr :: "sql_expr \<Rightarrow> bool" where
  "wf_expr (Cmp a op b) = (atom a \<and> atom op \<and> atom b)"
| "wf_expr (Conn l c r) = (wf_expr l \<and> (c = ''AND'' \<or> c = ''OR'') \<and> wf_expr r)"

lemma lex_atom: "list_all (\<lambda>c. \<not> is_delim c) a \<Longrightarrow> lex w (a @ s) = lex (w @ a) s"
  by (induction a arbitrary: w) auto

lemma lex_word:
  "atom a \<Longrightarrow> s = [] \<or> is_delim (hd s) \<Longrightarrow> lex [] (a @ s) = a # lex [] s"
  using lex_atom [of a "[]" s] by (cases s) (auto simp: atom_def flush_def)

lemma atom_conn: "c = ''AND'' \<or> c = ''OR'' \<Longrightarrow> atom c"
  by (auto simp: atom_def)

lemma lex_render:
  "wf_expr e \<Longrightarrow> s = [] \<or> is_delim (hd s) \<Longrightarrow> lex [] (render e @ s) = tokens e @ lex [] s"
proof (induction e arbitrary: s)
  case (Cmp a op b)
  then show ?case by (simp add: lex_word flush_def)
next
  case (Conn l c r)
  then have c: "atom c" by (simp add: atom_conn)
  from Conn c show ?case by (simp add: lex_word flush_def)
qed

section \<open>Parsing\<close>

fun parse_expr :: "nat \<Rightarrow> string list \<Rightarrow> (sql_expr \<times> string list) option" where
  "parse_expr 0 ts = None"
| "parse_expr (Suc n) ts =
     (case ts of
        t # ts1 \<Rightarrow>
          if t = [CHR ''(''] then
            (case parse_expr n ts1 of
               Some (l, c # ts2) \<Rightarrow>
                 if c = ''AND'' \<or> c = ''OR'' then
                   (case parse_expr n ts2 of
                      Some (r, t3 # ts3) \<Rightarrow>
                        if t3 = [CHR '')''] then Some (Conn l c r, ts3) else None
                    | _ \<Rightarrow> None)
                 else None
             | _ \<Rightarrow> None)
          else (case ts1 of op # b # ts2 \<Rightarrow> Some (Cmp t op b, ts2) | _ \<Rightarrow> None)
      | [] \<Rightarrow> None)"

definition parse_sql :: "string \<Rightarrow> sql_expr option" where
  "parse_sql s =
     (let ts = lex [] s
      in case parse_expr (Suc (length ts)) ts of Some (e, []) \<Rightarrow> Some e | _ \<Rightarrow> None)"

lemma atom_not_bracket: "atom a \<Longrightarrow> a \<noteq> [CHR ''('']"
  by (auto simp: atom_def)

lemma parse_tokens:
  "wf_expr e \<Longrightarrow> length (tokens e) \<le> n \<Longrightarrow> parse_expr n (tokens e @ ts) = Some (e, ts)"
proof (induction e arbitrary: n ts)
  case (Cmp a op b)
  then show ?case by (cases n) (auto dest: atom_not_bracket)
next
  case (Conn l c r)
  then obtain m where "n = Suc m" by (cases n) auto
  with Conn show ?case by simp
qed

lemma parse_render: "wf_expr e \<Longrightarrow> parse_sql (render e) = Some e"
  using lex_render [of e "[]"] parse_tokens [of e "Suc (length (tokens e))" "[]"]
  by (simp add: parse_sql_def flush_def)

section \<open>Three-valued meaning\<close>

type_synonym tri = "bool option"

fun tri_and :: "tri \<Rightarrow> tri \<Rightarrow> tri" where
  "tri_and (Some False) _ = Some False"
| "tri_and _ (Some False) = Some False"
| "tri_and (Some True) (Some True) = Some True"
| "tri_and _ _ = None"

fun tri_or :: "tri \<Rightarrow> tri \<Rightarrow> tri" where
  "tri_or (Some True) _ = Some True"
| "tri_or _ (Some True) = Some True"
| "tri_or (Some False) (Some False) = Some False"
| "tri_or _ _ = None"

definition tri_conn :: "string \<Rightarrow> tri \<Rightarrow> tri \<Rightarrow> tri" where
  "tri_conn c = (if c = ''AND'' then tri_and else tri_or)"

definition cmp_op :: "string \<Rightarrow> rat \<Rightarrow> rat \<Rightarrow> bool" where
  "cmp_op op x y =
     (if op = ''>'' then x > y else if op = ''>='' then x \<ge> y
      else if op = ''<'' then x < y else if op = ''='' then x = y else x \<le> y)"

definition cmp_sem :: "(string \<Rightarrow> rat option) \<Rightarrow> string \<Rightarrow> string \<Rightarrow> string \<Rightarrow> tri" where
  "cmp_sem row a op b =
     (case (row a, row b) of (Some x, Some y) \<Rightarrow> Some (cmp_op op x y) | _ \<Rightarrow> None)"

primrec sem :: "(string \<Rightarrow> rat option) \<Rightarrow> sql_expr \<Rightarrow> tri" where
  "sem row (Cmp a op b) = cmp_sem row a op b"
| "sem row (Conn l c r) = tri_conn c (sem row l) (sem row r)"

text \<open>
  What a study means, stated over the definition the client sent and not over the
  text: a scalar rule compares the feature with the operand; an up-cross holds when
  the feature is above the operand on this bar and was at or below it on the bar
  before; the rules are combined strictly from the top.
\<close>

definition entry_sem :: "(string \<Rightarrow> rat option) \<Rightarrow> feature \<Rightarrow> operator \<Rightarrow> operand \<Rightarrow> tri" where
  "entry_sem row f op x =
     (if op_ID op = ''crossed_above''
      then tri_and (cmp_sem row (f_SQLExpr f) ''>'' (o_SQLExpr x))
                   (cmp_sem row (f_PrevExpr f) ''<='' (o_PrevExpr x))
      else if op_ID op = ''crossed_below''
      then tri_and (cmp_sem row (f_SQLExpr f) ''<'' (o_SQLExpr x))
                   (cmp_sem row (f_PrevExpr f) ''>='' (o_PrevExpr x))
      else cmp_sem row (f_SQLExpr f)
             (if op_ID op = ''above'' then ''>'' else if op_ID op = ''at_or_above'' then ''>=''
              else if op_ID op = ''below'' then ''<'' else ''<='') (o_SQLExpr x))"

definition rule_sem :: "(string \<Rightarrow> rat option) \<Rightarrow> rule \<Rightarrow> tri" where
  "rule_sem row r =
     (case rule_entry r of None \<Rightarrow> None | Some (f, op, x) \<Rightarrow> entry_sem row f op x)"

fun study_sem :: "(string \<Rightarrow> rat option) \<Rightarrow> tri \<Rightarrow> string list \<Rightarrow> rule list \<Rightarrow> tri" where
  "study_sem row acc (c # cs) (r # rs) =
     study_sem row (if c = ''and'' then tri_and acc (rule_sem row r)
                    else tri_or acc (rule_sem row r)) cs rs"
| "study_sem row acc _ _ = acc"

definition def_sem :: "(string \<Rightarrow> rat option) \<Rightarrow> study_def \<Rightarrow> tri" where
  "def_sem row def =
     (case d_Rules def of [] \<Rightarrow> None
      | r # rs \<Rightarrow> study_sem row (rule_sem row r) (d_Connectors def) rs)"

section \<open>The registry is closed\<close>

lemma registry_atoms:
  "list_all (\<lambda>f. atom (f_SQLExpr f) \<and> (f_PrevExpr f = [] \<or> atom (f_PrevExpr f))) Features"
  "list_all (\<lambda>x. atom (o_SQLExpr x) \<and> atom (o_PrevExpr x)) Operands"
  "list_all (\<lambda>op. op_Cross op \<or> op_Down op \<or> atom (op_SQL op)) Operators"
  by code_simp+

lemma operator_meaning:
  "list_all (\<lambda>op. (op_Down op \<longleftrightarrow> op_ID op = ''crossed_below'') \<and>
                  (op_Cross op \<longleftrightarrow> op_ID op = ''crossed_above'') \<and>
                  (\<not> op_Cross op \<and> \<not> op_Down op \<longrightarrow>
                   op_SQL op = (if op_ID op = ''above'' then ''>''
                                else if op_ID op = ''at_or_above'' then ''>=''
                                else if op_ID op = ''below'' then ''<'' else ''<=''))) Operators"
  by code_simp

lemma rule_entry_members:
  assumes "rule_entry r = Some (f, op, x)"
  shows "f \<in> set Features" "op \<in> set Operators" "x \<in> set Operands"
    "op_Cross op \<or> op_Down op \<Longrightarrow> f_PrevExpr f \<noteq> []"
  using assms by (auto simp: rule_entry_def split: option.splits if_splits dest: lookup_members)

lemma entry_tree_wf:
  assumes "rule_entry r = Some (f, op, x)"
  shows "wf_expr (entry_tree f op x)"
proof -
  have "atom (f_SQLExpr f)" "f_PrevExpr f = [] \<or> atom (f_PrevExpr f)"
    "atom (o_SQLExpr x)" "atom (o_PrevExpr x)" "op_Cross op \<or> op_Down op \<or> atom (op_SQL op)"
    using registry_atoms rule_entry_members(1,2,3) [OF assms] by (auto simp: list_all_iff)
  moreover have "atom ''<''" "atom ''>''" "atom ''<=''" "atom ''>=''"
    by (simp_all add: atom_def)
  ultimately show ?thesis
    using rule_entry_members(4) [OF assms] by (auto simp: entry_tree_def)
qed

lemma entry_tree_sem:
  assumes "rule_entry r = Some (f, op, x)"
  shows "sem row (entry_tree f op x) = entry_sem row f op x"
proof -
  have "op \<in> set Operators" by (rule rule_entry_members(2) [OF assms])
  with operator_meaning show ?thesis
    by (auto simp: list_all_iff entry_tree_def entry_sem_def tri_conn_def)
qed

lemma rule_tree_facts:
  assumes "rule_tree r = Some t"
  shows "wf_expr t" "sem row t = rule_sem row r"
  using assms entry_tree_wf entry_tree_sem
  by (auto simp: rule_tree_def rule_sem_def)

section \<open>Whole studies\<close>

lemma study_tree_Cons:
  "study_tree (t # u # ts) (c # cs) = study_tree (Conn t c u # ts) cs"
  by (simp add: study_tree_def)

lemma study_tree_wf:
  "length ts = length cs \<Longrightarrow> wf_expr t \<Longrightarrow> list_all wf_expr ts \<Longrightarrow>
   list_all (\<lambda>c. c = ''AND'' \<or> c = ''OR'') cs \<Longrightarrow> wf_expr (study_tree (t # ts) cs)"
proof (induction ts cs arbitrary: t rule: list_induct2)
  case Nil
  then show ?case by (simp add: study_tree_def)
next
  case (Cons u ts c cs)
  then show ?case by (simp add: study_tree_Cons)
qed

lemma study_tree_sem:
  "map rule_tree rs = map Some ts \<Longrightarrow> map conn_sql cs = map Some ss \<Longrightarrow> length rs = length cs \<Longrightarrow>
   sem row (study_tree (t # ts) ss) = study_sem row (sem row t) cs rs"
proof (induction rs arbitrary: t ts cs ss)
  case Nil
  then show ?case by (simp add: study_tree_def)
next
  case (Cons r rs)
  then obtain c cs' s ss' u ts' where eq: "cs = c # cs'" "ss = s # ss'" "ts = u # ts'"
    and r: "rule_tree r = Some u" "conn_sql c = Some s"
    by (cases cs; cases ss; cases ts) auto
  have "sem row (Conn t s u) =
      (if c = ''and'' then tri_and (sem row t) (rule_sem row r)
       else tri_or (sem row t) (rule_sem row r))"
    using r rule_tree_facts(2) [OF r(1)] by (auto simp: conn_sql_def tri_conn_def split: if_splits)
  moreover have "sem row (study_tree (Conn t s u # ts') ss') =
      study_sem row (sem row (Conn t s u)) cs' rs"
    using Cons.prems eq by (intro Cons.IH) auto
  ultimately show ?case by (simp add: eq study_tree_Cons del: sem.simps)
qed

lemma conn_sql_vals: "map conn_sql cs = map Some ss \<Longrightarrow> list_all (\<lambda>c. c = ''AND'' \<or> c = ''OR'') ss"
proof (induction cs arbitrary: ss)
  case Nil
  then show ?case by simp
next
  case (Cons c cs)
  then show ?case by (cases ss) (auto simp: conn_sql_def split: if_splits)
qed

lemma rule_trees_wf: "map rule_tree rs = map Some ts \<Longrightarrow> list_all wf_expr ts"
proof (induction rs arbitrary: ts)
  case Nil
  then show ?case by simp
next
  case (Cons r rs)
  then show ?case by (cases ts) (auto dest: rule_tree_facts(1))
qed

text \<open>The two loops of \<open>Compile\<close> succeed exactly on well-formed rules and connectors.\<close>

lemma loops_iff:
  assumes "rs \<noteq> []" and "length cs = length rs - 1"
  shows "bind_res (compile_rules i rs) (\<lambda>ps. join_rules (hd ps) cs (tl ps)) = Inr e \<longleftrightarrow>
    (\<exists>ts ss. map rule_tree rs = map Some ts \<and> map conn_sql cs = map Some ss \<and>
             e = render (study_tree ts ss))" (is "?L \<longleftrightarrow> ?R")
proof
  assume ?L
  then obtain ps where ps: "compile_rules i rs = Inr ps" "join_rules (hd ps) cs (tl ps) = Inr e"
    by (auto simp: bind_res_eq_Inr_iff)
  then obtain ts where ts: "map rule_tree rs = map Some ts" "ps = map render ts"
    using compile_rules_iff by blast
  then have "length ts = length rs" by (auto dest: map_eq_imp_length_eq)
  then obtain t ts' where t: "ts = t # ts'" "length cs = length ts'"
    using assms by (cases ts) auto
  with ps ts join_rules_iff [of cs ts' t e] obtain ss where
    "map conn_sql cs = map Some ss" "e = render (study_tree ts ss)" by auto
  with ts show ?R by blast
next
  assume ?R
  then obtain ts ss where ts: "map rule_tree rs = map Some ts" "map conn_sql cs = map Some ss"
    "e = render (study_tree ts ss)" by blast
  then have "length ts = length rs" by (auto dest: map_eq_imp_length_eq)
  then obtain t ts' where t: "ts = t # ts'" "length cs = length ts'"
    using assms by (cases ts) auto
  have "compile_rules i rs = Inr (map render ts)" using ts compile_rules_iff by blast
  then show ?L using t ts join_rules_iff [of cs ts' t e] by auto
qed

lemma bind_res_assoc:
  "bind_res (bind_res r f) g = bind_res r (\<lambda>x. bind_res (f x) g)"
  by (cases r) auto

lemma Compile_success:
  assumes "Compile sha def limit = Inr c"
  obtains ts ss where
    "map rule_tree (d_Rules def) = map Some ts" "map conn_sql (d_Connectors def) = map Some ss"
    "Where c = render (study_tree ts ss)" "compileSort (d_Sort def) = Inr (OrderBy c)"
    "SelectSQL c = ''SELECT symbol FROM snapshot WHERE '' @ Where c @ '' ORDER BY '' @ OrderBy c @
       '' LIMIT '' @ show_int limit"
    "Hash c = hash_study sha (d_UniverseID def) (SelectSQL c)"
    "length (d_Connectors def) = length (d_Rules def) - 1" "d_Rules def \<noteq> []"
proof -
  let ?rs = "d_Rules def" and ?cs = "d_Connectors def"
  from assms have ne: "?rs \<noteq> []" "length ?cs = length ?rs - 1"
    by (auto simp: Compile_def Let_def split: if_splits)
  from assms obtain ps e order where
    1: "compile_rules 0 ?rs = Inr ps" "join_rules (hd ps) ?cs (tl ps) = Inr e"
      "compileSort (d_Sort def) = Inr order" and
    c: "c = \<lparr>Where = e, OrderBy = order,
       SelectSQL = ''SELECT symbol FROM snapshot WHERE '' @ e @ '' ORDER BY '' @ order @
                   '' LIMIT '' @ show_int limit,
       Hash = hash_study sha (d_UniverseID def)
         (''SELECT symbol FROM snapshot WHERE '' @ e @ '' ORDER BY '' @ order @
          '' LIMIT '' @ show_int limit)\<rparr>"
    by (auto simp: Compile_def Let_def bind_res_eq_Inr_iff split: if_splits)
  from 1 have "bind_res (compile_rules 0 ?rs) (\<lambda>ps. join_rules (hd ps) ?cs (tl ps)) = Inr e"
    by simp
  with loops_iff [OF ne, of 0 e] obtain ts ss where
    "map rule_tree ?rs = map Some ts" "map conn_sql ?cs = map Some ss"
    "e = render (study_tree ts ss)" by blast
  with 1 c ne show ?thesis by (intro that) auto
qed

text \<open>The tree behind an accepted study.\<close>

lemma Compile_tree:
  assumes "Compile sha def limit = Inr c"
  obtains ts ss where
    "map rule_tree (d_Rules def) = map Some ts" "set ss \<subseteq> {''AND'', ''OR''}"
    "length ts = Suc (length ss)" "wf_expr (study_tree ts ss)" "Where c = render (study_tree ts ss)"
    "\<And>row. sem row (study_tree ts ss) = def_sem row def"
proof -
  obtain ts ss where ts: "map rule_tree (d_Rules def) = map Some ts"
    and ss: "map conn_sql (d_Connectors def) = map Some ss"
    and w: "Where c = render (study_tree ts ss)"
    and n: "length (d_Connectors def) = length (d_Rules def) - 1" "d_Rules def \<noteq> []"
    by (rule Compile_success [OF assms])
  obtain r rs where r: "d_Rules def = r # rs" using n by (cases "d_Rules def") auto
  with ts obtain t ts' where t: "ts = t # ts'" "rule_tree r = Some t"
    "map rule_tree rs = map Some ts'" by (cases ts) auto
  have len: "length rs = length (d_Connectors def)" using n r by simp
  have "length ts' = length ss"
    using t(3) ss len by (auto dest!: map_eq_imp_length_eq)
  then have wf: "wf_expr (study_tree ts ss)"
    using t rule_trees_wf [OF ts] conn_sql_vals [OF ss] by (auto intro: study_tree_wf)
  have "sem row (study_tree ts ss) = def_sem row def" for row
    using study_tree_sem [OF t(3) ss len] t r rule_tree_facts(2) [OF t(2)]
    by (simp add: def_sem_def)
  with wf w ts conn_sql_vals [OF ss] t(1) \<open>length ts' = length ss\<close> show ?thesis
    by (intro that) (auto simp: list_all_iff)
qed

lemma Compile_where_reads_back:
  assumes "Compile sha def limit = Inr c"
  shows "\<exists>t. parse_sql (Where c) = Some t \<and> render t = Where c \<and>
             (\<forall>row. sem row t = def_sem row def)"
proof -
  obtain ts ss where "wf_expr (study_tree ts ss)" "Where c = render (study_tree ts ss)"
    "\<And>row. sem row (study_tree ts ss) = def_sem row def"
    using Compile_tree [OF assms] by metis
  then show ?thesis by (auto simp: parse_render)
qed

end
