(* ===== verification/Study_Laws.thy ===== *)
theory Study_Laws
  imports Study_Reading
begin

text \<open>
  The properties of the study compiler and of its catalog: which definitions are
  accepted, what the emitted text means, that no request string reaches it, and that
  the browser catalog offers exactly the combinations the server accepts.
\<close>

section \<open>Acceptance\<close>

definition sort_ok :: "sort_spec \<Rightarrow> bool" where
  "sort_ok s \<longleftrightarrow> (case featureByID (s_FeatureID s) of None \<Rightarrow> False | Some f \<Rightarrow> f_Sortable f) \<and>
     to_lower (s_Direction s) \<in> {''asc'', ''desc''}"

lemma compileSort_ok: "(\<exists>o'. compileSort s = Inr o') \<longleftrightarrow> sort_ok s"
  by (auto simp: compileSort_def sort_ok_def split: option.splits)

lemma prev_present:
  "list_all (\<lambda>f. f_ID f \<in> {''close'', ''sma_50'', ''rsi_14''} \<longrightarrow> f_PrevExpr f \<noteq> []) Features"
  "list_all (\<lambda>x. o_PrevExpr x \<noteq> []) Operands"
  "list_all (\<lambda>op. op_Cross op \<or> op_Down op \<longrightarrow> op_ID op \<in> set crossOps) Operators"
  by code_simp+

text \<open>\<open>CrossNeedsPrev\<close> is dead: the matrix alone decides which rules compile.\<close>

lemma rule_entry_iff:
  "rule_entry r \<noteq> None \<longleftrightarrow> allowed (LeftID r) (OperatorID r) (RightID r)"
proof
  assume "rule_entry r \<noteq> None"
  then show "allowed (LeftID r) (OperatorID r) (RightID r)"
    by (auto simp: rule_entry_def dest!: lookup_members split: option.splits if_splits)
next
  assume a: "allowed (LeftID r) (OperatorID r) (RightID r)"
  from allowed_registered [OF a] obtain f op x where e:
    "featureByID (LeftID r) = Some f" "operatorByID (OperatorID r) = Some op"
    "operandByID (RightID r) = Some x" by auto
  then have m: "f \<in> set Features" "op \<in> set Operators" "x \<in> set Operands"
    and i: "f_ID f = LeftID r" "op_ID op = OperatorID r" "o_ID x = RightID r"
    by (auto dest: lookup_members)
  have "f_PrevExpr f \<noteq> []" if c: "op_Cross op \<or> op_Down op"
  proof -
    have "OperatorID r \<in> set crossOps"
      using c m(2) i(2) prev_present(3) by (auto simp: list_all_iff)
    then have "f_ID f \<in> {''close'', ''sma_50'', ''rsi_14''}"
      using allowed_cross_feature [OF a] i(1) by simp
    with m(1) prev_present(1) show ?thesis by (auto simp: list_all_iff)
  qed
  moreover have "o_PrevExpr x \<noteq> []" using m prev_present(2) by (auto simp: list_all_iff)
  ultimately show "rule_entry r \<noteq> None" using a e i by (auto simp: rule_entry_def)
qed

lemma map_Some_ex: "(\<exists>ys. map f xs = map Some ys) \<longleftrightarrow> (\<forall>x \<in> set xs. f x \<noteq> None)"
proof (induction xs)
  case Nil
  then show ?case by simp
next
  case (Cons x xs)
  then show ?case by (cases "f x") (auto simp: Cons_eq_map_conv)
qed

lemma conn_sql_ok: "conn_sql c \<noteq> None \<longleftrightarrow> c \<in> {''and'', ''or''}"
  by (simp add: conn_sql_def)

text \<open>
  C12: \<open>Compile\<close> accepts a study definition exactly when the version is 1, the name
  has at most 120 bytes, there are between 1 and 16 rules and one connector fewer,
  every rule is a triple of the compatibility matrix, every connector is \<open>and\<close> or
  \<open>or\<close>, and the sort names a sortable feature with direction asc or desc in any
  letter case; everything else is an error.
\<close>

theorem compile_accepts_exactly:
  "(\<exists>c. Compile sha def limit = Inr c) \<longleftrightarrow>
     d_Version def = 1 \<and> length (d_Name def) \<le> 120 \<and>
     1 \<le> length (d_Rules def) \<and> length (d_Rules def) \<le> 16 \<and>
     length (d_Connectors def) = length (d_Rules def) - 1 \<and>
     (\<forall>r \<in> set (d_Rules def). allowed (LeftID r) (OperatorID r) (RightID r)) \<and>
     (\<forall>c \<in> set (d_Connectors def). c \<in> {''and'', ''or''}) \<and>
     sort_ok (d_Sort def)"
proof -
  let ?rs = "d_Rules def" and ?cs = "d_Connectors def"
  have rules: "(\<exists>ts. map rule_tree ?rs = map Some ts) \<longleftrightarrow>
      (\<forall>r \<in> set ?rs. allowed (LeftID r) (OperatorID r) (RightID r))"
    by (simp add: map_Some_ex rule_tree_def rule_entry_iff del: not_None_eq)
  have conns: "(\<exists>ss. map conn_sql ?cs = map Some ss) \<longleftrightarrow> (\<forall>c \<in> set ?cs. c \<in> {''and'', ''or''})"
    by (simp add: map_Some_ex conn_sql_ok del: not_None_eq)
  have loops: "(\<exists>ps e. compile_rules 0 ?rs = Inr ps \<and> join_rules (hd ps) ?cs (tl ps) = Inr e) \<longleftrightarrow>
      (\<exists>ts. map rule_tree ?rs = map Some ts) \<and> (\<exists>ss. map conn_sql ?cs = map Some ss)"
    if "?rs \<noteq> []" "length ?cs = length ?rs - 1"
  proof -
    have "(\<exists>ps e. compile_rules 0 ?rs = Inr ps \<and> join_rules (hd ps) ?cs (tl ps) = Inr e) \<longleftrightarrow>
        (\<exists>e. bind_res (compile_rules 0 ?rs) (\<lambda>ps. join_rules (hd ps) ?cs (tl ps)) = Inr e)"
      by (auto simp: bind_res_eq_Inr_iff)
    then show ?thesis unfolding loops_iff [OF that] by blast
  qed
  have "(\<exists>c. Compile sha def limit = Inr c) \<longleftrightarrow>
      d_Version def = 1 \<and> length (d_Name def) \<le> 120 \<and> ?rs \<noteq> [] \<and> length ?rs \<le> 16 \<and>
      length ?cs = length ?rs - 1 \<and>
      (\<exists>ps e. compile_rules 0 ?rs = Inr ps \<and> join_rules (hd ps) ?cs (tl ps) = Inr e) \<and>
      (\<exists>o'. compileSort (d_Sort def) = Inr o')"
    by (auto simp: Compile_def Let_def bind_res_eq_Inr_iff MaxNameLen_def MaxRules_def)
  then show ?thesis
    unfolding compileSort_ok using loops rules conns by (auto simp: Suc_le_eq)
qed

text \<open>
  C2: the WHERE text of an accepted study parses, under SQL's reading of bracketed
  comparisons, to one expression whose three-valued meaning over every row is the
  strict top-to-bottom combination of the rules as the client wrote them (crosses
  meaning \<open>wrong side on the prior bar and right side now\<close>), whatever the native
  precedence of AND and OR.
\<close>

theorem compile_where_means_study:
  assumes "Compile sha def limit = Inr c"
  shows "\<exists>t. parse_sql (Where c) = Some t \<and> render t = Where c \<and>
             (\<forall>row. sem row t = def_sem row def)"
  using assms by (rule Compile_where_reads_back)

definition sample_def :: study_def where
  "sample_def =
     \<lparr>d_Version = 1, d_Name = ''Golden'', d_UniverseID = ''r3000'',
      d_Rules = [\<lparr>LeftID = ''close'', OperatorID = ''crossed_above'', RightID = ''o_sma_200''\<rparr>,
                 \<lparr>LeftID = ''rsi_14'', OperatorID = ''below'', RightID = ''rsi_70''\<rparr>],
      d_Connectors = [''or''],
      d_Sort = \<lparr>s_FeatureID = ''dollar_vol'', s_Direction = ''DESC''\<rparr>\<rparr>"

definition sample_out :: compiled where
  "sample_out =
     \<lparr>Where = ''((close > sma200 AND prev_close <= prev_sma200) OR rsi14 < 70)'',
      OrderBy = ''dollar_vol DESC'',
      SelectSQL = ''SELECT symbol FROM snapshot WHERE ((close > sma200 AND prev_close <= prev_sma200) OR rsi14 < 70) ORDER BY dollar_vol DESC LIMIT 25'',
      Hash = []\<rparr>"

lemma sample_parts:
  "compile_rules 0 (d_Rules sample_def) =
     Inr [''(close > sma200 AND prev_close <= prev_sma200)'', ''rsi14 < 70'']"
  "compileSort (d_Sort sample_def) = Inr ''dollar_vol DESC''"
  "show_int 25 = ''25''"
  by code_simp+

lemma sample_compiles: "Compile (\<lambda>_. []) sample_def 25 = Inr sample_out"
  using sample_parts
  by (simp add: Compile_def sample_def_def sample_out_def MaxNameLen_def MaxRules_def
      compileConnector_def hash_study_def hex_encode_def)

theorem compile_where_means_study_witness:
  "\<exists>t. parse_sql (Where sample_out) = Some t \<and> render t = Where sample_out \<and>
       (\<forall>row. sem row t = def_sem row sample_def)"
  by (rule compile_where_means_study [OF sample_compiles])

theorem compile_accepts_exactly_witness:
  "sort_ok (d_Sort sample_def) \<and> allowed ''rsi_14'' ''below'' ''rsi_70'' \<and>
   \<not> (\<exists>c. Compile (\<lambda>_. []) (sample_def\<lparr>d_Version := 2\<rparr>) 25 = Inr c)"
proof -
  have "\<exists>c. Compile (\<lambda>_. []) sample_def 25 = Inr c" using sample_compiles by blast
  then have "sort_ok (d_Sort sample_def)"
    "\<forall>r \<in> set (d_Rules sample_def). allowed (LeftID r) (OperatorID r) (RightID r)"
    unfolding compile_accepts_exactly by blast+
  then show ?thesis
    unfolding compile_accepts_exactly by (simp add: sample_def_def)
qed

section \<open>Only server text is emitted\<close>

text \<open>The words the server owns: SQL keywords and the registry's expressions.\<close>

definition server_words :: "string set" where
  "server_words =
     {''SELECT'', ''symbol'', ''FROM'', ''snapshot'', ''WHERE'', ''ORDER'', ''BY'', ''ASC'', ''DESC'',
      ''LIMIT'', ''AND'', ''OR'', ''('', '')'', ''<'', ''<='', ''>'', ''>=''} \<union>
     f_SQLExpr ` set Features \<union> f_PrevExpr ` set Features \<union>
     o_SQLExpr ` set Operands \<union> o_PrevExpr ` set Operands"

lemma server_basic: "{''AND'', ''OR'', ''('', '')''} \<subseteq> server_words"
  by (simp add: server_words_def)

lemma lex_blank: "lex [] ('' '' @ s) = lex [] s"
  by (simp add: flush_def)

lemma lex_words:
  "list_all atom ws \<Longrightarrow> ws \<noteq> [] \<Longrightarrow> lex [] (join '' '' ws @ '' '' @ s) = ws @ lex [] s"
proof (induction ws rule: induct_list012)
  case 1
  then show ?case by simp
next
  case (2 w)
  then show ?case by (simp add: lex_word flush_def)
next
  case (3 w v ws)
  then show ?case by (simp add: lex_word flush_def)
qed

lemma compileSort_shape:
  assumes "compileSort s = Inr o'"
  shows "\<exists>f d. f \<in> set Features \<and> o' = f_SQLExpr f @ '' '' @ d \<and> d \<in> {''ASC'', ''DESC''}"
proof -
  from assms obtain f where f: "featureByID (s_FeatureID s) = Some f"
    and o': "o' = f_SQLExpr f @ '' ASC'' \<or> o' = f_SQLExpr f @ '' DESC''"
    by (auto simp: compileSort_def split: option.splits if_splits)
  from f have "f \<in> set Features" by (auto dest: lookup_members)
  moreover from o' have "o' = f_SQLExpr f @ '' '' @ ''ASC'' \<or> o' = f_SQLExpr f @ '' '' @ ''DESC''"
    by simp
  ultimately show ?thesis by blast
qed

lemma tokens_owned:
  "rule_tree r = Some t \<Longrightarrow> set (tokens t) \<subseteq> server_words"
proof -
  assume "rule_tree r = Some t"
  then obtain f op x where e: "rule_entry r = Some (f, op, x)" "t = entry_tree f op x"
    by (auto simp: rule_tree_def)
  have "list_all (\<lambda>op. op_Cross op \<or> op_Down op \<or> op_SQL op \<in> {''<'', ''<='', ''>'', ''>=''}) Operators"
    by code_simp
  with rule_entry_members(1,2,3) [OF e(1)] e(2) show ?thesis
    by (auto simp: entry_tree_def server_words_def list_all_iff)
qed

lemma study_tree_tokens:
  "length ts = length cs \<Longrightarrow>
   set (tokens (study_tree (t # ts) cs)) \<subseteq>
     set (tokens t) \<union> (\<Union>u \<in> set ts. set (tokens u)) \<union> set cs \<union> {''('', '')''}"
proof (induction ts cs arbitrary: t rule: list_induct2)
  case Nil
  then show ?case by (auto simp: study_tree_def)
next
  case (Cons u ts c cs)
  show ?case using Cons.IH [of "Conn t c u"] by (auto simp: study_tree_Cons)
qed

lemma show_nat_not_delim: "c \<in> set (show_nat n) \<Longrightarrow> \<not> is_delim c"
  using show_nat_bytes [of c n] by auto

lemma show_nat_ne: "show_nat n \<noteq> []"
  by (subst show_nat.simps) simp

lemma atom_show_int: "atom (show_int i)"
  by (auto simp: atom_def show_int_def list_all_iff show_nat_ne dest: show_nat_not_delim
      simp del: is_delim.simps) simp

lemma select_lexed:
  assumes "wf_expr t" "atom e" "atom d"
  shows "lex [] (''SELECT symbol FROM snapshot WHERE '' @ render t @ '' ORDER BY '' @ (e @ '' '' @ d) @ '' LIMIT '' @
      show_int limit) =
    [''SELECT'', ''symbol'', ''FROM'', ''snapshot'', ''WHERE''] @ tokens t @
      [''ORDER'', ''BY'', e, d, ''LIMIT''] @ [show_int limit]"
proof -
  let ?tail = "join '' '' [''ORDER'', ''BY'', e, d, ''LIMIT''] @ '' '' @ show_int limit"
  have "lex [] (join '' '' [''SELECT'', ''symbol'', ''FROM'', ''snapshot'', ''WHERE''] @ '' '' @ (render t @ '' '' @ ?tail)) =
      [''SELECT'', ''symbol'', ''FROM'', ''snapshot'', ''WHERE''] @ lex [] (render t @ '' '' @ ?tail)"
    by (rule lex_words) (simp_all add: atom_def)
  also have "lex [] (render t @ '' '' @ ?tail) = tokens t @ lex [] ('' '' @ ?tail)"
    by (rule lex_render [OF assms(1)]) simp
  also have "lex [] ('' '' @ ?tail) = [''ORDER'', ''BY'', e, d, ''LIMIT''] @ lex [] (show_int limit)"
    unfolding lex_blank by (rule lex_words) (use assms(2,3) in \<open>simp_all add: atom_def\<close>)
  also have "lex [] (show_int limit) = [show_int limit]"
    using lex_word [OF atom_show_int, of "[]" limit] by (simp add: flush_def)
  finally show ?thesis by simp
qed

lemma study_tree_words:
  assumes "map rule_tree rules = map Some (t # ts)" "map conn_sql cs = map Some ss" "length ts = length ss"
  shows "set (tokens (study_tree (t # ts) ss)) \<subseteq> server_words" "wf_expr (study_tree (t # ts) ss)"
proof -
  have owned: "set (tokens u) \<subseteq> server_words" if "u \<in> set (t # ts)" for u
  proof -
    from that have "Some u \<in> set (map rule_tree rules)" unfolding assms(1) by auto
    then obtain q where "rule_tree q = Some u" by auto
    then show ?thesis by (rule tokens_owned)
  qed
  have "set ss \<subseteq> {''AND'', ''OR''}" using conn_sql_vals [OF assms(2)] by (auto simp: list_all_iff)
  then have conns: "set ss \<union> {''('', '')''} \<subseteq> server_words" using server_basic by blast
  have trees: "set (tokens t) \<subseteq> server_words" "(\<Union>u \<in> set ts. set (tokens u)) \<subseteq> server_words"
    using owned by auto
  show "set (tokens (study_tree (t # ts) ss)) \<subseteq> server_words"
    using study_tree_tokens [OF assms(3), of t] conns trees by blast
  show "wf_expr (study_tree (t # ts) ss)"
    using assms(3) rule_trees_wf [OF assms(1)] conn_sql_vals [OF assms(2)] by (auto intro: study_tree_wf)
qed

text \<open>
  C33: cut into words, the full SELECT the compiler emits consists of SQL keywords,
  comparison symbols and registry expressions only, followed by the server's own
  limit: nothing of the request (name, universe, IDs, direction) is ever copied into
  SQL.
\<close>

theorem compile_emits_server_words:
  assumes "Compile sha def limit = Inr c"
  shows "set (lex [] (SelectSQL c)) \<subseteq> insert (show_int limit) server_words"
proof -
  obtain ts ss where ts: "map rule_tree (d_Rules def) = map Some ts"
    and ss: "map conn_sql (d_Connectors def) = map Some ss"
    and w: "Where c = render (study_tree ts ss)"
    and o': "compileSort (d_Sort def) = Inr (OrderBy c)"
    and sel: "SelectSQL c = ''SELECT symbol FROM snapshot WHERE '' @ Where c @ '' ORDER BY '' @
       OrderBy c @ '' LIMIT '' @ show_int limit"
    and n: "length (d_Connectors def) = length (d_Rules def) - 1" "d_Rules def \<noteq> []"
    by (rule Compile_success [OF assms])
  obtain r rs where r: "d_Rules def = r # rs" using n by (cases "d_Rules def") auto
  with ts obtain t ts' where t: "ts = t # ts'" by (cases ts) auto
  have len: "length ts' = length ss"
    using ts ss n t by (auto dest!: map_eq_imp_length_eq)
  note tree = study_tree_words [OF ts [unfolded t] ss len, folded t]
  from compileSort_shape [OF o'] obtain f d where f: "f \<in> set Features"
    "OrderBy c = f_SQLExpr f @ '' '' @ d" "d \<in> {''ASC'', ''DESC''}"
    by blast
  have af: "atom (f_SQLExpr f)" using f(1) registry_atoms(1) unfolding list_all_iff by blast
  have ad: "atom d" using f(3) by (auto simp: atom_def)
  have kw: "{''SELECT'', ''symbol'', ''FROM'', ''snapshot'', ''WHERE'', ''ORDER'', ''BY'', ''LIMIT'',
      ''ASC'', ''DESC''} \<subseteq> server_words"
    by (simp add: server_words_def)
  have "f_SQLExpr f \<in> server_words" using f(1) by (simp add: server_words_def)
  with select_lexed [OF tree(2) af ad, of limit] tree(1) f(3) kw show ?thesis
    unfolding sel w f(2) by auto
qed

theorem compile_emits_server_words_witness:
  "set (lex [] (SelectSQL sample_out)) \<subseteq> insert (show_int 25) server_words"
  by (rule compile_emits_server_words [OF sample_compiles])

section \<open>The browser catalog\<close>

text \<open>\<open>sortByOrder\<close> is a stable insertion sort that sinks from the right.\<close>

lemma sink_eq:
  "sink order (as @ x # bs) (length as) =
     rev (ins_stable (\<lambda>a b. order b < order a) x (rev as)) @ bs"
proof (induction as arbitrary: bs rule: rev_induct)
  case Nil
  then show ?case by simp
next
  case (snoc a as)
  have "(as @ a # x # bs)[Suc (length as) := a, length as := x] = as @ x # a # bs"
    by (simp add: list_update_append)
  with snoc [of "a # bs"] show ?case by (simp add: nth_append)
qed

lemma sortByOrder_prefix:
  "1 \<le> k \<Longrightarrow> k \<le> length xs \<Longrightarrow> foldl (sink order) xs [1..<k] =
     rev (sort_stable (\<lambda>a b. order b < order a) (rev (take k xs))) @ drop k xs"
proof (induction k rule: nat_induct_at_least)
  case base
  then show ?case by (cases xs) auto
next
  case (Suc k)
  let ?ys = "sort_stable (\<lambda>a b. order b < order a) (rev (take k xs))"
  have "foldl (sink order) xs [1..<Suc k] = sink order (rev ?ys @ xs ! k # drop (Suc k) xs) k"
    using Suc by (simp add: Cons_nth_drop_Suc)
  also have "k = length (rev ?ys)" using Suc.prems by simp
  finally show ?case
    using Suc.prems sink_eq [of order "rev ?ys" "xs ! k" "drop (Suc k) xs"]
    by (simp add: take_Suc_conv_app_nth)
qed

lemma sortByOrder_eq:
  "sortByOrder order xs = rev (sort_stable (\<lambda>a b. order b < order a) (rev xs))"
  using sortByOrder_prefix [of "length xs" xs order] unfolding sortByOrder_def
  by (cases xs) (auto simp: Suc_le_eq)

interpretation catalog_order: strict_weak UNIV "\<lambda>a b. operandOrder b < operandOrder a"
  by unfold_locales auto

lemma sortByOrder_sorted: "sorted (map operandOrder (sortByOrder operandOrder xs))"
proof -
  have "sorted_wrt (\<lambda>x y. \<not> operandOrder x < operandOrder y)
      (sort_stable (\<lambda>a b. operandOrder b < operandOrder a) (rev xs))"
    by (rule catalog_order.sort_sorted) simp
  then show ?thesis
    by (simp add: sortByOrder_eq sorted_wrt_rev sorted_wrt_map not_less)
qed

lemma operandOrder_registry: "map operandOrder (map o_ID Operands) = [0..<length Operands]"
proof (rule nth_equalityI)
  show "length (map operandOrder (map o_ID Operands)) = length [0..<length Operands]" by simp
next
  fix i assume "i < length (map operandOrder (map o_ID Operands))"
  then have i: "i < length Operands" by simp
  let ?z = "zip (map o_ID Operands) [0..<length Operands]"
  have "?z ! i = (map o_ID Operands ! i, i)" "i < length ?z" using i by simp_all
  then have "(map o_ID Operands ! i, i) \<in> set ?z" by (metis nth_mem)
  moreover have "distinct (map fst ?z)" using registry_distinct(3) by simp
  ultimately have "index_by fst ?z (map o_ID Operands ! i) = Some (map o_ID Operands ! i, i)"
    by (simp add: index_by_distinct)
  then have "operandOrder (map o_ID Operands ! i) = i" by (simp only: operandOrder_def) simp
  with i show "map operandOrder (map o_ID Operands) ! i = [0..<length Operands] ! i" by simp
qed

text \<open>Lists of registered operands in registry order are determined by their set.\<close>

lemma registry_order_unique:
  assumes "distinct xs" "distinct ys" "set xs = set ys" "set xs \<subseteq> o_ID ` set Operands"
    and "sorted (map operandOrder xs)" "sorted (map operandOrder ys)"
  shows "xs = ys"
proof -
  have "distinct (map operandOrder (map o_ID Operands))"
    by (simp only: operandOrder_registry distinct_upt)
  then have "inj_on operandOrder (o_ID ` set Operands)"
    by (simp only: distinct_map set_map)
  with assms(3,4) have inj: "inj_on operandOrder (set xs \<union> set ys)"
    by (metis inj_on_subset sup.idem)
  have "map operandOrder xs = map operandOrder ys"
    using assms inj by (intro sorted_distinct_set_unique) (auto simp: distinct_map inj_on_Un)
  with inj show ?thesis using map_inj_on by blast
qed

lemma registry_filter_sorted: "sorted (map operandOrder (filter P (map o_ID Operands)))"
proof -
  have "sorted (map operandOrder (map o_ID Operands))"
    by (simp only: operandOrder_registry sorted_upt)
  then show ?thesis
    by (metis sorted_filter)
qed

text \<open>What the catalog offers for a feature and an operator.\<close>

definition offered :: "catalog \<Rightarrow> string \<Rightarrow> string \<Rightarrow> string list" where
  "offered c f op =
     (case Mapping.lookup (cat_Compatibility c) f of
        None \<Rightarrow> []
      | Some m \<Rightarrow> (case Mapping.lookup m op of None \<Rightarrow> [] | Some l \<Rightarrow> l))"

text \<open>Any order in which Go may range over the matrix's sets of operands.\<close>

definition go_range :: "(string set \<Rightarrow> string list) \<Rightarrow> bool" where
  "go_range enum \<longleftrightarrow>
     (\<forall>S. S \<subseteq> o_ID ` set Operands \<longrightarrow> set (enum S) = S \<and> distinct (enum S))"

lemma lookup_catalog_ops:
  "Mapping.lookup (snd (foldl (catalog_op enum ops) acc opl)) j =
     (if j \<in> op_ID ` set opl \<and> Mapping.lookup ops j \<noteq> None
      then Some (sortByOrder operandOrder (enum (the (Mapping.lookup ops j))))
      else Mapping.lookup (snd acc) j)"
  by (induction opl arbitrary: acc)
     (auto simp: catalog_op_def lookup_update' split: option.splits)

definition catalog_row :: "(string set \<Rightarrow> string list) \<Rightarrow> string \<Rightarrow> (string, string list) mapping option" where
  "catalog_row enum f =
     (case Mapping.lookup Compatibility f of
        None \<Rightarrow> None
      | Some ops \<Rightarrow> if Mapping.is_empty ops then None
          else Some (snd (foldl (catalog_op enum ops) ([], Mapping.empty) Operators)))"

lemma lookup_catalog_features:
  "Mapping.lookup (cat_Compatibility (foldl (catalog_feature enum) c fs)) i =
     (if i \<in> f_ID ` set fs \<and> catalog_row enum i \<noteq> None then catalog_row enum i
      else Mapping.lookup (cat_Compatibility c) i)"
proof (induction fs arbitrary: c)
  case Nil
  then show ?case by simp
next
  case (Cons f fs)
  have "Mapping.lookup (cat_Compatibility (catalog_feature enum c f)) i =
      (if i = f_ID f \<and> catalog_row enum i \<noteq> None then catalog_row enum i
       else Mapping.lookup (cat_Compatibility c) i)"
    by (auto simp: catalog_feature_def catalog_row_def lookup_update' Let_def
        split: option.splits prod.splits if_splits)
  with Cons show ?case by (auto simp del: not_None_eq)
qed

lemma is_empty_lookup: "Mapping.is_empty m \<Longrightarrow> Mapping.lookup m k = None"
  by (metis Mapping.keys_dom_lookup Mapping.is_empty_def domIff empty_iff)

lemma offered_set:
  "offered (BuildCatalog enum) f op =
     (if f \<in> f_ID ` set Features \<and> op \<in> op_ID ` set Operators then
        (case Mapping.lookup Compatibility f of None \<Rightarrow> []
         | Some ops \<Rightarrow> (case Mapping.lookup ops op of None \<Rightarrow> []
             | Some s \<Rightarrow> sortByOrder operandOrder (enum s)))
      else [])"
  by (auto simp: offered_def BuildCatalog_def Let_def lookup_catalog_features catalog_row_def
      lookup_catalog_ops is_empty_lookup split: option.splits)

lemma offered_nothing:
  assumes "go_range enum" "\<nexists>x. allowed f op x"
  shows "offered (BuildCatalog enum) f op = []"
proof -
  have "sortByOrder operandOrder (enum S) = []"
    if "Mapping.lookup Compatibility f = Some ops" "Mapping.lookup ops op = Some S" for ops S
  proof -
    have "S = {}" using that assms(2) by (auto simp: allowed_def allowed_in_def)
    with assms(1) have "enum S = []" by (auto simp: go_range_def)
    then show ?thesis by (simp add: sortByOrder_def)
  qed
  then show ?thesis by (simp add: offered_set split: option.splits)
qed

text \<open>
  C36: in whatever order Go ranges over its maps, the catalog sent to the browser
  offers for each feature and operator exactly the operands the compiler accepts,
  listed once each and in registry order, so the output is deterministic.
\<close>

theorem catalog_offers_exactly_allowed:
  assumes "go_range enum"
  shows "offered (BuildCatalog enum) f op = filter (allowed f op) (map o_ID Operands)"
proof -
  have reg: "x \<in> o_ID ` set Operands" "f \<in> f_ID ` set Features" "op \<in> op_ID ` set Operators"
    if "allowed f op x" for x
    using allowed_registered [OF that] lookup_members
    by (metis image_eqI not_None_eq)+
  show ?thesis
  proof (cases "\<exists>x. allowed f op x")
    case False
    moreover from False have "offered (BuildCatalog enum) f op = []" using offered_nothing [OF assms] by blast
    ultimately show ?thesis by simp
  next
    case True
    then obtain ops S where S: "Mapping.lookup Compatibility f = Some ops"
      "Mapping.lookup ops op = Some S"
      by (auto simp: allowed_def allowed_in_def split: option.splits)
    then have al: "allowed f op x \<longleftrightarrow> x \<in> S" for x
      by (simp add: allowed_def allowed_in_def)
    with reg have "S \<subseteq> o_ID ` set Operands" by blast
    with assms have en: "set (enum S) = S" "distinct (enum S)" by (auto simp: go_range_def)
    have "offered (BuildCatalog enum) f op = sortByOrder operandOrder (enum S)"
      using S reg True by (auto simp: offered_set)
    also have "\<dots> = filter (allowed f op) (map o_ID Operands)"
    proof (rule registry_order_unique)
      show "set (sortByOrder operandOrder (enum S)) = set (filter (allowed f op) (map o_ID Operands))"
        using en al reg(1) by (auto simp: sortByOrder_eq)
      show "set (sortByOrder operandOrder (enum S)) \<subseteq> o_ID ` set Operands"
        using en al reg(1) by (auto simp: sortByOrder_eq)
      show "distinct (sortByOrder operandOrder (enum S))" using en by (simp add: sortByOrder_eq)
      show "distinct (filter (allowed f op) (map o_ID Operands))"
        using registry_distinct(3) by (rule distinct_filter)
    qed (rule sortByOrder_sorted registry_filter_sorted)+
    finally show ?thesis .
  qed
qed

theorem catalog_offers_exactly_allowed_witness:
  "offered (BuildCatalog (\<lambda>S. filter (\<lambda>x. x \<in> S) (rev (map o_ID Operands)))) ''sma_50'' ''crossed_above''
     = [''o_sma_200'']"
proof -
  have "go_range (\<lambda>S. filter (\<lambda>x. x \<in> S) (rev (map o_ID Operands)))"
    using registry_distinct(3) by (auto simp: go_range_def rev_filter [symmetric])
  moreover have "allowed ''sma_50'' ''crossed_above'' = (\<lambda>x. x = ''o_sma_200'')"
    by (rule ext) (simp add: allowed_iff scalarOps_def crossOps_def OpCrossUp_def OpCrossDown_def
        OpAbove_def OpAtOrAbove_def OpBelow_def OpAtOrBelow_def scalar_op_def)
  moreover have "filter (\<lambda>x. x = ''o_sma_200'') (map o_ID Operands) = [''o_sma_200'']"
    by code_simp
  ultimately show ?thesis by (simp only: catalog_offers_exactly_allowed)
qed

end
