(* ===== verification/Float64.thy ===== *)
theory Float64
  imports Prelude Complex_Main
begin

text \<open>
  Go's \<open>float64\<close>: IEEE 754 binary64 with rounding to nearest, ties to even. A value
  is NaN, an infinity or a zero with its sign (\<open>True\<close> is negative), or a nonzero
  rational; arithmetic computes the exact rational and rounds it once (on amd64 Go
  does not fuse a multiplication with an addition). The second half of the theory
  shows that rounding is monotone and idempotent, and the order facts on which the
  range and selection properties of the indicators rest.
\<close>

section \<open>Values and rounding\<close>

datatype float64 = NaN | Inf bool | Zero bool | Fin rat

fun val :: "float64 \<Rightarrow> rat" where
  "val (Fin q) = q"
| "val _ = 0"

function int_log2 :: "int \<Rightarrow> int" where
  "int_log2 n = (if n < 2 then 0 else int_log2 (n div 2) + 1)"
  by pat_completeness auto
termination by (relation "measure nat") auto

declare int_log2.simps [simp del]

definition pow2 :: "int \<Rightarrow> rat" where
  "pow2 k = (if 0 \<le> k then of_int (2 ^ nat k) else 1 / of_int (2 ^ nat (- k)))"

definition ilog2 :: "rat \<Rightarrow> int" where
  "ilog2 q =
     (let (n, d) = quotient_of q; k = int_log2 n - int_log2 d
      in if pow2 k * of_int d \<le> of_int n then k else k - 1)"

definition round_even :: "rat \<Rightarrow> int" where
  "round_even q =
     (let f = \<lfloor>q\<rfloor>; r = q - of_int f
      in if r < 1 / 2 then f else if r > 1 / 2 then f + 1 else if even f then f else f + 1)"

text \<open>The exponent of the last place: 53 significant bits, not below \<open>2 ^ -1074\<close>.\<close>

definition last_place :: "rat \<Rightarrow> int" where
  "last_place q = max (ilog2 \<bar>q\<bar> - 52) (- 1074)"

definition rndq :: "rat \<Rightarrow> rat" where
  "rndq q = (if q = 0 then 0
             else let e = last_place q in of_int (round_even (q / pow2 e)) * pow2 e)"

definition rnd :: "bool \<Rightarrow> rat \<Rightarrow> float64" where
  "rnd s q =
     (let r = rndq q in
      if r = 0 then Zero (q < 0 \<or> q = 0 \<and> s)
      else if 1024 \<le> ilog2 \<bar>r\<bar> then Inf (q < 0) else Fin r)"

text \<open>A numeric constant of the source, and the conversion \<open>float64(i)\<close>.\<close>

definition lit :: "rat \<Rightarrow> float64" where "lit q = rnd False q"
definition of_int64 :: "int \<Rightarrow> float64" where "of_int64 i = rnd False (of_int i)"

section \<open>Operations\<close>

fun neg :: "float64 \<Rightarrow> bool" where
  "neg NaN = False"
| "neg (Inf s) = s"
| "neg (Zero s) = s"
| "neg (Fin q) = (q < 0)"

definition isnan :: "float64 \<Rightarrow> bool" where "isnan x = (x = NaN)"

fun fneg :: "float64 \<Rightarrow> float64" where
  "fneg NaN = NaN"
| "fneg (Inf s) = Inf (\<not> s)"
| "fneg (Zero s) = Zero (\<not> s)"
| "fneg (Fin q) = Fin (- q)"

fun fabs :: "float64 \<Rightarrow> float64" where
  "fabs NaN = NaN"
| "fabs (Inf s) = Inf False"
| "fabs (Zero s) = Zero False"
| "fabs (Fin q) = Fin \<bar>q\<bar>"

fun is_inf :: "float64 \<Rightarrow> bool" where
  "is_inf (Inf s) = True"
| "is_inf _ = False"

fun is_zero :: "float64 \<Rightarrow> bool" where
  "is_zero (Zero s) = True"
| "is_zero _ = False"

definition fadd :: "float64 \<Rightarrow> float64 \<Rightarrow> float64" where
  "fadd x y =
     (if isnan x \<or> isnan y then NaN
      else if is_inf x then (if is_inf y \<and> neg x \<noteq> neg y then NaN else x)
      else if is_inf y then y
      else if is_zero x \<and> is_zero y then Zero (neg x \<and> neg y)
      else rnd False (val x + val y))"

definition fsub :: "float64 \<Rightarrow> float64 \<Rightarrow> float64" where "fsub x y = fadd x (fneg y)"

definition fmul :: "float64 \<Rightarrow> float64 \<Rightarrow> float64" where
  "fmul x y =
     (let s = (neg x \<noteq> neg y) in
      if isnan x \<or> isnan y then NaN
      else if is_inf x \<or> is_inf y then (if is_zero x \<or> is_zero y then NaN else Inf s)
      else rnd s (val x * val y))"

definition fdiv :: "float64 \<Rightarrow> float64 \<Rightarrow> float64" where
  "fdiv x y =
     (let s = (neg x \<noteq> neg y) in
      if isnan x \<or> isnan y then NaN
      else if is_inf x then (if is_inf y then NaN else Inf s)
      else if is_inf y then Zero s
      else if is_zero y then (if is_zero x then NaN else Inf s)
      else rnd s (val x / val y))"

text \<open>Comparisons: false on NaN; the two zeros are equal.\<close>

fun level :: "float64 \<Rightarrow> int" where
  "level (Inf s) = (if s then - 1 else 1)"
| "level _ = 0"

definition flt :: "float64 \<Rightarrow> float64 \<Rightarrow> bool" where
  "flt x y \<longleftrightarrow> \<not> isnan x \<and> \<not> isnan y \<and>
     (level x < level y \<or> level x = level y \<and> val x < val y)"

definition feq :: "float64 \<Rightarrow> float64 \<Rightarrow> bool" where
  "feq x y \<longleftrightarrow> \<not> isnan x \<and> \<not> isnan y \<and> level x = level y \<and> val x = val y"

definition fle :: "float64 \<Rightarrow> float64 \<Rightarrow> bool" where
  "fle x y \<longleftrightarrow> flt x y \<or> feq x y"

text \<open>\<open>math.Max\<close> and \<open>math.Min\<close>: an infinity of the right sign wins over NaN.\<close>

definition fmax :: "float64 \<Rightarrow> float64 \<Rightarrow> float64" where
  "fmax x y =
     (if x = Inf False \<or> y = Inf False then Inf False
      else if isnan x \<or> isnan y then NaN
      else if is_zero x \<and> feq x y then (if neg x then y else x)
      else if flt y x then x else y)"

definition fmin :: "float64 \<Rightarrow> float64 \<Rightarrow> float64" where
  "fmin x y =
     (if x = Inf True \<or> y = Inf True then Inf True
      else if isnan x \<or> isnan y then NaN
      else if is_zero x \<and> feq x y then (if neg x then x else y)
      else if flt x y then x else y)"

text \<open>
  \<open>math.Sqrt\<close>: correctly rounded. The root of a positive rational is scaled so that
  its integer part has at least 55 bits; an inexact integer root is replaced by the
  middle of its unit, which rounds as the real root does.
\<close>

function isqrt :: "int \<Rightarrow> int" where
  "isqrt n = (if n \<le> 0 then 0
              else let r = 2 * isqrt (n div 4) in if (r + 1) * (r + 1) \<le> n then r + 1 else r)"
  by pat_completeness auto
termination by (relation "measure nat") auto

declare isqrt.simps [simp del]

definition sqrt_rat :: "rat \<Rightarrow> rat" where
  "sqrt_rat q =
     (let k = 56 - ilog2 q div 2; y = q * pow2 (2 * k); r = isqrt \<lfloor>y\<rfloor>
      in (if of_int (r * r) = y then of_int r else of_int r + 1 / 2) / pow2 k)"

fun fsqrt :: "float64 \<Rightarrow> float64" where
  "fsqrt NaN = NaN"
| "fsqrt (Inf s) = (if s then NaN else Inf False)"
| "fsqrt (Zero s) = Zero s"
| "fsqrt (Fin q) = (if q < 0 then NaN else rnd False (sqrt_rat q))"

section \<open>Rounding is monotone\<close>

lemma pow2_powi: "pow2 k = 2 powi k"
  by (simp add: pow2_def power_int_def inverse_eq_divide power_one_over)

lemma pow2_pos [simp]: "0 < pow2 k" "pow2 k \<noteq> 0" "0 \<le> pow2 k"
  by (simp_all add: pow2_powi)

lemma pow2_add: "pow2 (a + b) = pow2 a * pow2 b"
  by (simp add: pow2_powi power_int_add)

lemma pow2_diff: "pow2 (a - b) = pow2 a / pow2 b"
  by (simp add: pow2_powi power_int_diff)

lemma pow2_less_iff [simp]: "pow2 a < pow2 b \<longleftrightarrow> a < b"
  using power_int_strict_increasing [of a b "2 :: rat"] power_int_increasing [of b a "2 :: rat"]
  by (cases "a < b") (auto simp: pow2_powi not_less)

lemma pow2_le_iff [simp]: "pow2 a \<le> pow2 b \<longleftrightarrow> a \<le> b"
  by (simp flip: not_less)

lemma pow2_nat: "pow2 (int n) = 2 ^ n"
  by (simp add: pow2_def)

lemma pow2_53: "pow2 53 = 2 ^ 53"
  by (simp add: pow2_def)

lemma pow2_int: "0 \<le> k \<Longrightarrow> pow2 k = of_int (2 ^ nat k)"
  by (simp add: pow2_def)

lemma int_log2_bounds:
  "0 < n \<Longrightarrow> 0 \<le> int_log2 n \<and> pow2 (int_log2 n) \<le> of_int n \<and> of_int n < pow2 (int_log2 n + 1)"
proof (induction n rule: int_log2.induct)
  case (1 n)
  show ?case
  proof (cases "n < 2")
    case True
    with "1.prems" have "n = 1" by simp
    then show ?thesis by (simp add: int_log2.simps pow2_def)
  next
    case False
    let ?m = "n div 2"
    have "0 < ?m" using False by simp
    from "1.IH" [OF False this] have ih: "0 \<le> int_log2 ?m" "pow2 (int_log2 ?m) \<le> of_int ?m"
      "of_int ?m < pow2 (int_log2 ?m + 1)" by blast+
    define k where "k = nat (int_log2 ?m)"
    have k: "int_log2 ?m = int k" using ih(1) by (simp add: k_def)
    have k1: "int_log2 ?m + 1 = int (Suc k)" "int_log2 ?m + 1 + 1 = int (Suc (Suc k))" by (simp_all add: k)
    from ih(2,3) have "(of_int (2 ^ k) :: rat) \<le> of_int ?m" "of_int ?m < (of_int (2 ^ Suc k) :: rat)"
      unfolding k1 by (simp_all only: k pow2_nat of_int_power of_int_numeral)
    then have "2 ^ k \<le> ?m" "?m < 2 ^ Suc k" by (simp_all only: of_int_le_iff of_int_less_iff)
    then have "2 ^ Suc k \<le> n" "n < 2 ^ Suc (Suc k)" by auto
    then have "(of_int (2 ^ Suc k) :: rat) \<le> of_int n" "of_int n < (of_int (2 ^ Suc (Suc k)) :: rat)"
      by (simp_all only: of_int_le_iff of_int_less_iff)
    moreover have "int_log2 n = int_log2 ?m + 1" using False by (simp add: int_log2.simps [of n])
    ultimately show ?thesis using ih(1) k1
      by (simp only: pow2_nat of_int_power of_int_numeral) simp
  qed
qed

lemma ilog2_bounds:
  assumes "0 < q"
  shows "pow2 (ilog2 q) \<le> q" "q < pow2 (ilog2 q + 1)"
proof -
  obtain n d where nd: "quotient_of q = (n, d)" by fastforce
  have d: "0 < d" using nd by (rule quotient_of_denom_pos)
  have q: "q = of_int n / of_int d" using nd by (rule quotient_of_div)
  have n: "0 < n" using assms d by (simp add: q zero_less_divide_iff)
  define k where "k = int_log2 n - int_log2 d"
  have lb: "pow2 (k - 1) \<le> q"
  proof -
    have "pow2 (k - 1) * of_int d \<le> pow2 (k - 1) * pow2 (int_log2 d + 1)"
      using int_log2_bounds [OF d] by (intro mult_left_mono) auto
    also have "\<dots> = pow2 (int_log2 n)" by (simp add: k_def flip: pow2_add)
    also have "\<dots> \<le> of_int n" using int_log2_bounds [OF n] by simp
    finally show ?thesis using d by (simp add: q pos_le_divide_eq)
  qed
  have ub: "q < pow2 (k + 1)"
  proof -
    have "of_int n < pow2 (int_log2 n + 1)" using int_log2_bounds [OF n] by simp
    also have "\<dots> = pow2 (k + 1) * pow2 (int_log2 d)" by (simp add: k_def flip: pow2_add)
    also have "\<dots> \<le> pow2 (k + 1) * of_int d"
      using int_log2_bounds [OF d] by (intro mult_left_mono) auto
    finally show ?thesis using d by (simp add: q pos_divide_less_eq)
  qed
  have "pow2 k * of_int d \<le> of_int n \<longleftrightarrow> pow2 k \<le> q"
    using d by (simp add: q pos_le_divide_eq)
  then have "ilog2 q = (if pow2 k \<le> q then k else k - 1)"
    by (simp add: ilog2_def nd k_def Let_def)
  with lb ub show "pow2 (ilog2 q) \<le> q" "q < pow2 (ilog2 q + 1)" by auto
qed

lemma ilog2_ge_iff: "0 < q \<Longrightarrow> k \<le> ilog2 q \<longleftrightarrow> pow2 k \<le> q"
  using ilog2_bounds [of q] pow2_le_iff [of k "ilog2 q"] pow2_less_iff [of k "ilog2 q + 1"]
  by (auto simp del: pow2_le_iff pow2_less_iff)

lemma ilog2_mono: "0 < q \<Longrightarrow> q \<le> r \<Longrightarrow> ilog2 q \<le> ilog2 r"
  using ilog2_bounds(1) [of q] by (simp add: ilog2_ge_iff)

lemma ilog2_pow2 [simp]: "ilog2 (pow2 k) = k"
  using ilog2_bounds [of "pow2 k"] by simp

lemma round_even_of_int [simp]: "round_even (of_int i) = i"
  by (simp add: round_even_def Let_def)

lemma round_even_floor: "\<lfloor>q\<rfloor> \<le> round_even q" "round_even q \<le> \<lfloor>q\<rfloor> + 1"
  by (simp_all add: round_even_def Let_def)

lemma round_even_mono: "q \<le> r \<Longrightarrow> round_even q \<le> round_even r"
proof -
  assume le: "q \<le> r"
  then have "\<lfloor>q\<rfloor> \<le> \<lfloor>r\<rfloor>" by (rule floor_mono)
  then consider "\<lfloor>q\<rfloor> + 1 \<le> \<lfloor>r\<rfloor>" | "\<lfloor>q\<rfloor> = \<lfloor>r\<rfloor>" by linarith
  then show ?thesis
  proof cases
    case 1
    then show ?thesis using round_even_floor(2) [of q] round_even_floor(1) [of r] by linarith
  next
    case 2
    with le show ?thesis by (auto simp: round_even_def Let_def)
  qed
qed

lemma round_even_minus [simp]: "round_even (- q) = - round_even q"
proof (cases "q = of_int \<lfloor>q\<rfloor>")
  case True
  then show ?thesis by (metis of_int_minus round_even_of_int)
next
  case False
  define f r where "f = \<lfloor>q\<rfloor>" and "r = q - of_int f"
  then have q: "q = of_int f + r" and r: "0 < r" "r < 1"
    using False floor_correct [of q] by (auto simp: less_le)
  have fl: "\<lfloor>- q\<rfloor> = - f - 1" using r by (simp add: q floor_unique)
  have "- q - of_int (- f - 1) = 1 - r" by (simp add: q)
  then show ?thesis
    unfolding round_even_def Let_def fl f_def [symmetric] r_def [symmetric] by auto
qed

lemma last_place_minus [simp]: "last_place (- q) = last_place q"
  by (simp add: last_place_def)

lemma last_place_mono: "0 < q \<Longrightarrow> q \<le> r \<Longrightarrow> last_place q \<le> last_place r"
  using ilog2_mono [of q r] by (auto simp: last_place_def)

lemma rndq_0 [simp]: "rndq 0 = 0"
  by (simp add: rndq_def)

lemma rndq_minus [simp]: "rndq (- q) = - rndq q"
  by (simp add: rndq_def Let_def minus_divide_left [symmetric] del: minus_divide_left)

lemma rndq_pos_eq:
  "0 < q \<Longrightarrow> rndq q = of_int (round_even (q / pow2 (last_place q))) * pow2 (last_place q)"
  by (simp add: rndq_def Let_def)

text \<open>Multiples of the last place are barriers that rounding does not cross.\<close>

lemma pow2_quotient_int:
  "e \<le> k \<Longrightarrow> pow2 k / pow2 e = of_int (2 ^ nat (k - e))"
  by (simp add: pow2_int flip: pow2_diff)

lemma rndq_below_pow2:
  assumes "0 < q" "q \<le> pow2 k" "last_place q \<le> k"
  shows "rndq q \<le> pow2 k"
proof -
  let ?e = "last_place q"
  have "q / pow2 ?e \<le> of_int (2 ^ nat (k - ?e))"
    unfolding pow2_quotient_int [OF assms(3), symmetric] using assms(2)
    by (rule divide_right_mono) simp
  then have "round_even (q / pow2 ?e) \<le> 2 ^ nat (k - ?e)"
    by (metis round_even_mono round_even_of_int)
  then have "of_int (round_even (q / pow2 ?e)) * pow2 ?e \<le> of_int (2 ^ nat (k - ?e)) * pow2 ?e"
    by (intro mult_right_mono) (simp_all only: of_int_le_iff pow2_pos)
  also have "\<dots> = pow2 k" unfolding pow2_quotient_int [OF assms(3), symmetric] by simp
  finally show ?thesis using assms(1) by (simp add: rndq_pos_eq)
qed

lemma rndq_above_pow2:
  assumes "0 < q" "pow2 k \<le> q" "last_place q \<le> k"
  shows "pow2 k \<le> rndq q"
proof -
  let ?e = "last_place q"
  have "of_int (2 ^ nat (k - ?e)) \<le> q / pow2 ?e"
    unfolding pow2_quotient_int [OF assms(3), symmetric] using assms(2)
    by (rule divide_right_mono) simp
  then have "2 ^ nat (k - ?e) \<le> round_even (q / pow2 ?e)"
    by (metis round_even_mono round_even_of_int)
  then have "of_int (2 ^ nat (k - ?e)) * pow2 ?e \<le> of_int (round_even (q / pow2 ?e)) * pow2 ?e"
    by (intro mult_right_mono) (simp_all only: of_int_le_iff pow2_pos)
  moreover have "of_int (2 ^ nat (k - ?e)) * pow2 ?e = pow2 k"
    unfolding pow2_quotient_int [OF assms(3), symmetric] by simp
  ultimately show ?thesis using assms(1) by (simp only: rndq_pos_eq)
qed

lemma rndq_nonneg: "0 \<le> q \<Longrightarrow> 0 \<le> rndq q"
proof (cases "q = 0")
  case False
  assume "0 \<le> q"
  with False have q: "0 < q" by simp
  then have "0 \<le> q / pow2 (last_place q)" by simp
  then have "0 \<le> round_even (q / pow2 (last_place q))"
    using round_even_mono [of 0] round_even_of_int [of 0] by simp
  then show ?thesis using q by (simp add: rndq_pos_eq)
qed simp

lemma rndq_mono_pos:
  assumes "0 < q" "q \<le> r"
  shows "rndq q \<le> rndq r"
proof (cases "last_place q = last_place r")
  case True
  have "q / pow2 (last_place r) \<le> r / pow2 (last_place r)"
    using assms by (simp add: divide_right_mono)
  then have "round_even (q / pow2 (last_place r)) \<le> round_even (r / pow2 (last_place r))"
    by (rule round_even_mono)
  with True assms show ?thesis by (simp add: rndq_pos_eq mult_right_mono)
next
  case False
  with last_place_mono [OF assms] have lt: "last_place q < last_place r" by simp
  have r: "0 < r" using assms by simp
  let ?k = "ilog2 r"
  have k: "last_place r = ?k - 52" "last_place q \<le> ?k - 53" "ilog2 q < ?k"
    using lt assms r by (auto simp: last_place_def)
  have "q < pow2 (ilog2 q + 1)" using assms(1) by (rule ilog2_bounds)
  also have "\<dots> \<le> pow2 ?k" using k by simp
  finally have "rndq q \<le> pow2 ?k" using k assms by (intro rndq_below_pow2) auto
  also have "pow2 ?k \<le> rndq r" using k r ilog2_bounds(1) by (intro rndq_above_pow2) auto
  finally show ?thesis .
qed

lemma rndq_mono: "q \<le> r \<Longrightarrow> rndq q \<le> rndq r"
proof -
  assume le: "q \<le> r"
  consider "0 < q" | "q \<le> 0" "0 \<le> r" | "r < 0" using le by linarith
  then show ?thesis
  proof cases
    case 1
    then show ?thesis using le by (rule rndq_mono_pos)
  next
    case 2
    then show ?thesis using rndq_nonneg [of "- q"] rndq_nonneg [of r] by simp
  next
    case 3
    then show ?thesis using rndq_mono_pos [of "- r" "- q"] le by simp
  qed
qed

section \<open>Exact values\<close>

lemma round_even_scaled: "e \<le> k \<Longrightarrow> of_int (round_even (of_int m * pow2 k / pow2 e)) * pow2 e = of_int m * pow2 k"
proof -
  assume "e \<le> k"
  then have "of_int m * pow2 k / pow2 e = of_int (m * 2 ^ nat (k - e))"
    by (simp add: times_divide_eq_right [symmetric] pow2_quotient_int del: times_divide_eq_right)
  then show ?thesis by (metis nonzero_divide_eq_eq pow2_pos(2) round_even_of_int)
qed

lemma rndq_scaled_pos:
  assumes "0 < m" "m < 2 ^ 53" "- 1074 \<le> e"
  shows "rndq (of_int m * pow2 e) = of_int m * pow2 e"
proof -
  let ?q = "of_int m * pow2 e"
  have q: "0 < ?q" using assms by simp
  have "of_int m < (of_int (2 ^ 53) :: rat)" using assms(2) by (simp only: of_int_less_iff)
  then have "?q < pow2 53 * pow2 e" by (intro mult_strict_right_mono) (simp_all add: pow2_def)
  then have "?q < pow2 (53 + e)" by (simp only: pow2_add)
  then have "ilog2 ?q < 53 + e" using ilog2_ge_iff [OF q, of "53 + e"] by simp
  then have "last_place ?q \<le> e" using assms q by (simp add: last_place_def)
  then show ?thesis using round_even_scaled [of "last_place ?q" e m] q by (simp only: rndq_pos_eq)
qed

lemma rndq_scaled:
  assumes "\<bar>m\<bar> \<le> 2 ^ 53" "- 1074 \<le> e"
  shows "rndq (of_int m * pow2 e) = of_int m * pow2 e"
proof -
  have pos: "rndq (of_int k * pow2 e) = of_int k * pow2 e" if "0 < k" "k \<le> 2 ^ 53" for k :: int
  proof (cases "k = 2 ^ 53")
    case True
    then have "of_int k * pow2 e = of_int 1 * pow2 (53 + e)" by (simp add: pow2_add pow2_53)
    then show ?thesis using rndq_scaled_pos [of 1 "53 + e"] assms(2) by simp
  next
    case False
    with that assms(2) show ?thesis by (intro rndq_scaled_pos) auto
  qed
  consider "m = 0" | "0 < m" | "m < 0" by linarith
  then show ?thesis
  proof cases
    case 3
    then have "rndq (- (of_int (- m) * pow2 e)) = - (of_int (- m) * pow2 e)"
      using pos [of "- m"] assms by (simp only: rndq_minus)
    then show ?thesis by simp
  qed (use pos [of m] assms in auto)
qed

lemma rndq_int: "\<bar>i\<bar> \<le> 2 ^ 53 \<Longrightarrow> rndq (of_int i) = of_int i"
  using rndq_scaled [of i 0] by (simp add: pow2_def)

lemma rndq_form: "\<exists>m e. rndq q = of_int m * pow2 e \<and> \<bar>m\<bar> \<le> 2 ^ 53 \<and> - 1074 \<le> e"
proof -
  have pos: "\<exists>m e. rndq q = of_int m * pow2 e \<and> \<bar>m\<bar> \<le> 2 ^ 53 \<and> - 1074 \<le> e" if q: "0 < q" for q
  proof -
    let ?e = "last_place q" and ?m = "round_even (q / pow2 (last_place q))"
    have "q < pow2 (ilog2 q + 1)" using q by (rule ilog2_bounds)
    also have "\<dots> \<le> pow2 (53 + ?e)" using q by (simp add: last_place_def)
    also have "\<dots> = 2 ^ 53 * pow2 ?e" by (simp only: pow2_add pow2_53)
    finally have "q / pow2 ?e \<le> of_int (2 ^ 53)" by (simp add: pos_divide_le_eq)
    then have "?m \<le> 2 ^ 53" by (metis round_even_mono round_even_of_int)
    moreover have "0 \<le> ?m" using round_even_mono [of 0 "q / pow2 ?e"] round_even_of_int [of 0] q by simp
    moreover have "rndq q = of_int ?m * pow2 ?e" using q by (rule rndq_pos_eq)
    moreover have "- 1074 \<le> ?e" by (simp add: last_place_def)
    ultimately show ?thesis by (metis abs_of_nonneg)
  qed
  consider "q = 0" | "0 < q" | "0 < - q" by linarith
  then show ?thesis
  proof cases
    case 1
    then show ?thesis by (intro exI [of _ 0] exI [of _ 0]) simp
  next
    case 3
    from pos [OF this] obtain m e where m: "rndq (- q) = of_int m * pow2 e" "\<bar>m\<bar> \<le> 2 ^ 53" "- 1074 \<le> e"
      by blast
    then have "rndq q = of_int (- m) * pow2 e" by (simp add: neg_equal_iff_equal [symmetric, of "rndq q"])
    with m show ?thesis by (intro exI [of _ "- m"] exI [of _ e]) simp
  qed (rule pos)
qed

lemma rndq_idem [simp]: "rndq (rndq q) = rndq q"
proof -
  obtain m e where "rndq q = of_int m * pow2 e" "\<bar>m\<bar> \<le> 2 ^ 53" "- 1074 \<le> e"
    using rndq_form by blast
  then show ?thesis using rndq_scaled [of m e] by (simp only:)
qed

section \<open>Order facts\<close>

lemma rndq_sign: "rndq q \<noteq> 0 \<Longrightarrow> 0 < rndq q \<longleftrightarrow> 0 < q" "rndq q < 0 \<Longrightarrow> q < 0" "0 < rndq q \<Longrightarrow> 0 < q"
  using rndq_mono [of q 0] rndq_mono [of 0 q] by force+

lemma isnan_rnd [simp]: "\<not> isnan (rnd s q)"
  by (simp add: rnd_def Let_def isnan_def)

lemma huge_iff: "r \<noteq> 0 \<Longrightarrow> 1024 \<le> ilog2 \<bar>r\<bar> \<longleftrightarrow> pow2 1024 \<le> \<bar>r\<bar>"
  by (simp add: ilog2_ge_iff)

lemma rnd_alt:
  "rnd s q = (if rndq q = 0 then Zero (q < 0 \<or> q = 0 \<and> s)
              else if pow2 1024 \<le> \<bar>rndq q\<bar> then Inf (rndq q < 0) else Fin (rndq q))"
  using rndq_sign [of q] by (auto simp: rnd_def Let_def huge_iff)

lemma level_rnd:
  "level (rnd s q) = (if pow2 1024 \<le> rndq q then 1 else if rndq q \<le> - pow2 1024 then - 1 else 0)"
proof -
  obtain P where "pow2 1024 = P" "0 < P" using pow2_pos(1) by blast
  then show ?thesis unfolding rnd_alt by (auto simp: abs_if)
qed

lemma val_rnd: "val (rnd s q) = (if \<bar>rndq q\<bar> < pow2 1024 then rndq q else 0)"
  by (simp add: rnd_alt)

lemma fle_iff:
  "fle x y \<longleftrightarrow> \<not> isnan x \<and> \<not> isnan y \<and> (level x < level y \<or> level x = level y \<and> val x \<le> val y)"
  by (auto simp: fle_def flt_def feq_def)

lemma fle_refl: "\<not> isnan x \<Longrightarrow> fle x x"
  by (simp add: fle_iff)

lemma fle_trans: "fle x y \<Longrightarrow> fle y z \<Longrightarrow> fle x z"
  by (auto simp: fle_iff)

lemma fle_total: "\<not> isnan x \<Longrightarrow> \<not> isnan y \<Longrightarrow> fle x y \<or> fle y x"
  by (auto simp: fle_iff)

lemma not_flt_iff: "\<not> isnan x \<Longrightarrow> \<not> isnan y \<Longrightarrow> \<not> flt x y \<longleftrightarrow> fle y x"
  by (auto simp: fle_iff flt_def)

lemma flt_trans: "flt x y \<Longrightarrow> flt y z \<Longrightarrow> flt x z"
  by (auto simp: flt_def)

lemma flt_fle_trans: "flt x y \<Longrightarrow> fle y z \<Longrightarrow> flt x z"
  by (auto simp: flt_def fle_iff)

lemma fle_flt_trans: "fle x y \<Longrightarrow> flt y z \<Longrightarrow> flt x z"
  by (auto simp: flt_def fle_iff)

lemma flt_irrefl [simp]: "\<not> flt x x"
  by (simp add: flt_def)

lemma isnan_flt: "isnan x \<or> isnan y \<Longrightarrow> \<not> flt x y \<and> \<not> fle x y \<and> \<not> feq x y"
  by (auto simp: flt_def fle_iff feq_def)

lemma fle_rnd: "q \<le> r \<Longrightarrow> fle (rnd s q) (rnd t r)"
proof -
  assume "q \<le> r"
  then have "rndq q \<le> rndq r" by (rule rndq_mono)
  then show ?thesis by (auto simp: fle_iff level_rnd val_rnd)
qed

section \<open>Finite operands\<close>

definition fin :: "float64 \<Rightarrow> bool" where
  "fin x \<longleftrightarrow> \<not> isnan x \<and> level x = 0"

lemma fin_cases: "fin x \<Longrightarrow> (\<exists>s. x = Zero s) \<or> (\<exists>q. x = Fin q)"
  by (cases x) (auto simp: fin_def isnan_def split: if_splits)

lemma fin_simps [simp]: "\<not> fin NaN" "\<not> fin (Inf s)" "fin (Zero s)" "fin (Fin q)"
  by (auto simp: fin_def isnan_def)

lemma rnd_0 [simp]: "rnd s 0 = Zero s"
  by (simp add: rnd_def)

lemma fin_fneg [simp]: "fin (fneg x) = fin x" "val (fneg x) = - val x"
  by (cases x; simp add: fin_def isnan_def)+

lemma fadd_fin: "fin x \<Longrightarrow> fin y \<Longrightarrow> \<exists>s. fadd x y = rnd s (val x + val y)"
  by (drule fin_cases, drule fin_cases) (auto simp: fadd_def isnan_def)

lemma fsub_fin: "fin x \<Longrightarrow> fin y \<Longrightarrow> \<exists>s. fsub x y = rnd s (val x - val y)"
  using fadd_fin [of x "fneg y"] by (simp add: fsub_def)

lemma fmul_fin: "fin x \<Longrightarrow> fin y \<Longrightarrow> \<exists>s. fmul x y = rnd s (val x * val y)"
  by (drule fin_cases, drule fin_cases) (auto simp: fmul_def isnan_def Let_def)

lemma fdiv_fin: "fin x \<Longrightarrow> fin y \<Longrightarrow> val y \<noteq> 0 \<Longrightarrow> \<exists>s. fdiv x y = rnd s (val x / val y)"
  by (drule fin_cases, drule fin_cases) (auto simp: fdiv_def isnan_def Let_def)

text \<open>A rounded result stays between bounds that are themselves values of the format.\<close>

lemma rnd_between:
  assumes "a \<le> q" "q \<le> b" "rndq a = a" "rndq b = b" "\<bar>a\<bar> < pow2 1024" "\<bar>b\<bar> < pow2 1024"
  shows "fin (rnd s q) \<and> a \<le> val (rnd s q) \<and> val (rnd s q) \<le> b"
proof -
  have "a \<le> rndq q" "rndq q \<le> b" using rndq_mono assms by metis+
  with assms(5,6) show ?thesis by (auto simp: fin_def level_rnd val_rnd)
qed

lemma small_int_exact:
  "\<bar>i\<bar> \<le> 2 ^ 53 \<Longrightarrow> rndq (of_int i) = of_int i \<and> \<bar>of_int i\<bar> < pow2 1024"
proof -
  assume i: "\<bar>i\<bar> \<le> 2 ^ 53"
  then have "of_int \<bar>i\<bar> \<le> (of_int (2 ^ 53) :: rat)" by (simp only: of_int_le_iff)
  also have "\<dots> = pow2 53" by (simp add: pow2_def)
  also have "\<dots> < pow2 1024" by (simp only: pow2_less_iff)
  finally show ?thesis using rndq_int [OF i] by simp
qed

lemma rnd_int: "\<bar>i\<bar> \<le> 2 ^ 53 \<Longrightarrow> i \<noteq> 0 \<Longrightarrow> rnd s (of_int i) = Fin (of_int i)"
  using small_int_exact [of i] by (auto simp: rnd_def Let_def huge_iff)

lemma lit_numeral: "numeral n \<le> (2 ^ 53 :: int) \<Longrightarrow> lit (numeral n) = Fin (numeral n)"
  using rnd_int [of "numeral n" False] by (simp add: lit_def)

lemma lit_0 [simp]: "lit 0 = Zero False"
  by (simp add: lit_def)

lemma lit_1 [simp]: "lit 1 = Fin 1"
  using rnd_int [of 1 False] by (simp add: lit_def)

lemma val_of_int64: "\<bar>i\<bar> \<le> 2 ^ 53 \<Longrightarrow> fin (of_int64 i) \<and> val (of_int64 i) = of_int i"
  using rnd_int [of i False] by (cases "i = 0") (auto simp: of_int64_def)

text \<open>Between two integers.\<close>

definition ranged :: "int \<Rightarrow> int \<Rightarrow> float64 \<Rightarrow> bool" where
  "ranged a b x \<longleftrightarrow> fle (lit (of_int a)) x \<and> fle x (lit (of_int b))"

lemma ranged_rnd:
  "of_int a \<le> q \<Longrightarrow> q \<le> of_int b \<Longrightarrow> ranged a b (rnd s q)"
  unfolding ranged_def lit_def by (auto intro: fle_rnd)

lemma ranged_fin:
  assumes "ranged a b x" "\<bar>a\<bar> \<le> 2 ^ 53" "\<bar>b\<bar> \<le> 2 ^ 53"
  shows "fin x" "of_int a \<le> val x" "val x \<le> of_int b"
proof -
  have l: "fin (lit (of_int k)) \<and> val (lit (of_int k)) = of_int k" if "\<bar>k\<bar> \<le> 2 ^ 53" for k
    using val_of_int64 [OF that] by (simp add: lit_def of_int64_def)
  from assms l [of a] l [of b] show "fin x" "of_int a \<le> val x" "val x \<le> of_int b"
    by (cases x; auto simp: ranged_def fle_iff fin_def split: if_splits)+
qed

end
