(* ===== verification/Time_Series.thy ===== *)
theory Time_Series
  imports Float64
begin

text \<open>
  Series of values as the indicators use them: slices are lists, an accumulation loop
  is \<open>sum_range\<close>, a loop that fills a slice from its own earlier entries is
  \<open>fill\<close>. The locales \<open>causal\<close> and \<open>no_lookahead\<close> state what
  \<open>internal/indicators/indicators.go\<close> promises of every indicator: the value at
  index \<open>i\<close> depends only on bars up to \<open>i\<close>, respectively before \<open>i\<close>. \<open>warm\<close> is the
  first index at which an indicator makes the promise for histories of any length;
  below it, some fill the warm-up positions by the length of the history, and the
  promise is made for histories of equal length.
\<close>

named_theorems agree "congruence of loops over series that agree on a prefix"

section \<open>Loops\<close>

text \<open>\<open>for j := a; j < b; j++ { sum += f(j) }\<close> from \<open>var sum float64\<close>.\<close>

definition sum_range :: "(nat \<Rightarrow> float64) \<Rightarrow> nat \<Rightarrow> nat \<Rightarrow> float64" where
  "sum_range f a b = foldl (\<lambda>s j. fadd s (f j)) (lit 0) [a..<b]"

text \<open>\<open>for i := range is { out[i] = step(out, i) }\<close>.\<close>

definition fill :: "('a list \<Rightarrow> nat \<Rightarrow> 'a) \<Rightarrow> 'a list \<Rightarrow> nat list \<Rightarrow> 'a list" where
  "fill step out js = foldl (\<lambda>out i. out[i := step out i]) out js"

definition nans :: "nat \<Rightarrow> float64 list" where "nans n = replicate n NaN"
definition zeros :: "nat \<Rightarrow> float64 list" where "zeros n = replicate n (lit 0)"

lemma length_nans [simp]: "length (nans n) = n" "length (zeros n) = n"
  by (simp_all add: nans_def zeros_def)

lemma nth_nans [simp]: "i < n \<Longrightarrow> nans n ! i = NaN" "i < n \<Longrightarrow> zeros n ! i = lit 0"
  by (simp_all add: nans_def zeros_def)

lemma foldl_index_cong:
  "(\<And>s j. j \<in> set js \<Longrightarrow> f s j = g s j) \<Longrightarrow> foldl f s js = foldl g s js"
  by (induction js arbitrary: s) auto

lemma foldl_invariant:
  "P s \<Longrightarrow> (\<And>s j. j \<in> set js \<Longrightarrow> P s \<Longrightarrow> P (f s j)) \<Longrightarrow> P (foldl f s js)"
  by (induction js arbitrary: s) auto

lemma sum_range_cong [agree, cong]:
  "a = a' \<Longrightarrow> b = b' \<Longrightarrow> (\<And>j. a' \<le> j \<Longrightarrow> j < b' \<Longrightarrow> f j = g j) \<Longrightarrow>
     sum_range f a b = sum_range g a' b'"
  unfolding sum_range_def by (auto intro: foldl_index_cong)

lemma sum_range_Suc: "a \<le> b \<Longrightarrow> sum_range f a (Suc b) = fadd (sum_range f a b) (f b)"
  by (simp add: sum_range_def)

lemma sum_range_empty [simp]: "b \<le> a \<Longrightarrow> sum_range f a b = lit 0"
  by (simp add: sum_range_def)

lemma length_fill [simp]: "length (fill step out js) = length out"
  unfolding fill_def by (induction js arbitrary: out) auto

lemma fill_Nil [simp]: "fill step out [] = out"
  by (simp add: fill_def)

lemma fill_snoc: "fill step out (js @ [i]) = (fill step out js)[i := step (fill step out js) i]"
  by (simp add: fill_def)

lemma fill_untouched: "k \<notin> set js \<Longrightarrow> fill step out js ! k = out ! k"
  unfolding fill_def by (induction js arbitrary: out) auto

lemma fill_prefix: "n \<le> m \<Longrightarrow> k < n \<Longrightarrow> fill step out [a..<m] ! k = fill step out [a..<n] ! k"
proof (induction m rule: nat_induct_at_least)
  case base
  then show ?case by simp
next
  case (Suc m)
  then show ?case by (cases "a \<le> m") (simp_all add: fill_snoc)
qed

text \<open>The recurrence a filled slice satisfies, when a step reads only earlier entries.\<close>

lemma fill_nth:
  assumes "a \<le> k" "k < n" "n \<le> length out"
  shows "fill step out [a..<n] ! k = step (fill step out [a..<k]) k"
proof -
  have "fill step out [a..<n] ! k = fill step out [a..<Suc k] ! k"
    using assms by (intro fill_prefix) auto
  then show ?thesis using assms by (simp add: fill_snoc)
qed

lemma fill_rec:
  assumes "a \<le> k" "k < n" "n \<le> length out" "0 < k"
    and "step = (\<lambda>out i. g (out ! (i - 1)) i)"
  shows "fill step out [a..<n] ! k = g (fill step out [a..<n] ! (k - 1)) k"
proof -
  have "fill step out [a..<n] ! (k - 1) = fill step out [a..<k] ! (k - 1)"
    using assms by (intro fill_prefix) auto
  then show ?thesis using assms by (simp add: fill_nth)
qed

text \<open>Two runs agree up to an index when their steps agree there.\<close>

lemma fill_agree:
  assumes "0 < a" "a \<le> k" "k < n" "n \<le> length out" "k < n'" "n' \<le> length out'"
    and start: "out ! (a - 1) = out' ! (a - 1)"
    and same: "\<And>i x. a \<le> i \<Longrightarrow> i \<le> k \<Longrightarrow> g x i = h x i"
  shows "fill (\<lambda>out i. g (out ! (i - 1)) i) out [a..<n] ! k =
         fill (\<lambda>out i. h (out ! (i - 1)) i) out' [a..<n'] ! k"
  using assms(2,3,5) same
proof (induction k rule: nat_induct_at_least)
  case base
  then show ?case using assms(1,4,6) start by (simp add: fill_nth)
next
  case (Suc k)
  have "fill (\<lambda>out i. g (out ! (i - 1)) i) out [a..<n] ! Suc k =
      g (fill (\<lambda>out i. g (out ! (i - 1)) i) out [a..<n] ! k) (Suc k)"
    using Suc assms(4) by (subst fill_rec [where g = g]) auto
  also have "\<dots> = h (fill (\<lambda>out i. h (out ! (i - 1)) i) out' [a..<n'] ! k) (Suc k)"
    using Suc by simp
  also have "\<dots> = fill (\<lambda>out i. h (out ! (i - 1)) i) out' [a..<n'] ! Suc k"
    using Suc assms(6) by (subst fill_rec [where g = h and k = "Suc k"]) auto
  finally show ?case .
qed

section \<open>Causality\<close>

locale causal =
  fixes ind :: "'a list \<Rightarrow> 'b list" and warm :: nat
  assumes same_length: "length (ind xs) = length xs"
    and upto: "warm \<le> i \<or> length xs = length ys \<Longrightarrow> i < length xs \<Longrightarrow> i < length ys \<Longrightarrow>
      (\<And>j. j \<le> i \<Longrightarrow> xs ! j = ys ! j) \<Longrightarrow> ind xs ! i = ind ys ! i"
begin

text \<open>A history cut after bar \<open>i\<close> gives the value the full history gives.\<close>

lemma truncate:
  "warm \<le> i \<Longrightarrow> i < n \<Longrightarrow> n \<le> length xs \<Longrightarrow> ind (take n xs) ! i = ind xs ! i"
  by (rule upto) auto

lemma extend: "warm \<le> i \<Longrightarrow> i < length xs \<Longrightarrow> ind (xs @ ys) ! i = ind xs ! i"
  using truncate [of i "length xs" "xs @ ys"] by simp

end

locale no_lookahead =
  fixes ind :: "'a list \<Rightarrow> 'b list" and warm :: nat
  assumes len: "length (ind xs) = length xs"
    and before: "warm \<le> i \<or> length xs = length ys \<Longrightarrow> i < length xs \<Longrightarrow> i < length ys \<Longrightarrow>
      (\<And>j. j < i \<Longrightarrow> xs ! j = ys ! j) \<Longrightarrow> ind xs ! i = ind ys ! i"
begin

text \<open>The value on the latest bar does not depend on that bar.\<close>

lemma latest_irrelevant:
  "ind (xs @ [b]) ! length xs = ind (xs @ [c]) ! length xs"
  by (rule before) (auto simp: nth_append)

end

sublocale no_lookahead \<subseteq> causal
proof
  show "length (ind xs) = length xs" for xs by (rule len)
  show "ind xs ! i = ind ys ! i"
    if "warm \<le> i \<or> length xs = length ys" "i < length xs" "i < length ys" "\<And>j. j \<le> i \<Longrightarrow> xs ! j = ys ! j" for i xs ys
    using that by (intro before) auto
qed

end
