(* ===== verification/Indicators_Price.thy ===== *)
theory Indicators_Price
  imports Time_Series
begin

text \<open>
  \<open>internal/indicators/trend.go\<close>, \<open>price.go\<close> and \<open>returns.go\<close>. A series is a list,
  oldest first; the several series of one call have equal length, as the only caller
  (\<open>screen.Build\<close>) makes them. A period guarded by \<open>period < 1\<close> in the code is an
  \<open>int\<close>, the others are natural numbers (the callers pass constants). Where the code
  reads \<open>closes[i-1]\<close> without a guard, index \<open>-1\<close> is a panic: the result is \<open>None\<close>.
\<close>

section \<open>trend.go\<close>

definition SMA :: "float64 list \<Rightarrow> int \<Rightarrow> float64 list" where
  "SMA vals period =
     (let n = length vals in
      if period < 1 then nans n
      else map (\<lambda>i. if int i < period then NaN
                    else fdiv (sum_range (\<lambda>j. vals ! j) (i - nat period) i) (of_int64 period)) [0..<n])"

definition EMA :: "float64 list \<Rightarrow> int \<Rightarrow> float64 list" where
  "EMA vals period =
     (let n = length vals in
      if period < 1 \<or> int n \<le> period then nans n
      else let p = nat period;
               sma = fdiv (sum_range (\<lambda>i. vals ! i) 0 p) (of_int64 period);
               multiplier = fdiv (lit 2) (of_int64 (period + 1));
               out = (zeros n)[p := sma]
           in fill (\<lambda>out i. fadd (fmul (fsub (vals ! (i - 1)) (out ! (i - 1))) multiplier)
                                 (out ! (i - 1))) out [p + 1..<n])"

definition PctFromSMA :: "float64 list \<Rightarrow> float64 list \<Rightarrow> float64 list" where
  "PctFromSMA close sma =
     map (\<lambda>i. if i = 0 \<or> isnan (sma ! i) \<or> feq (sma ! i) (lit 0) then NaN
              else fsub (fdiv (close ! (i - 1)) (sma ! i)) (lit 1)) [0..<length close]"

definition MAStack :: "float64 list \<Rightarrow> float64 list \<Rightarrow> float64 list \<Rightarrow> float64 list \<Rightarrow> bool list" where
  "MAStack ema10 ema21 ema50 ema200 =
     map (\<lambda>i. if isnan (ema10 ! i) \<or> isnan (ema21 ! i) \<or> isnan (ema50 ! i) \<or> isnan (ema200 ! i)
              then False
              else flt (ema21 ! i) (ema10 ! i) \<and> flt (ema50 ! i) (ema21 ! i) \<and>
                   flt (ema200 ! i) (ema50 ! i)) [0..<length ema10]"

record psar_state =
  ps_af :: float64
  ps_ep :: float64
  ps_bull :: bool
  ps_sar :: float64
  ps_out :: "float64 list"

definition psar_step ::
  "float64 list \<Rightarrow> float64 list \<Rightarrow> float64 \<Rightarrow> float64 \<Rightarrow> psar_state \<Rightarrow> nat \<Rightarrow> psar_state" where
  "psar_step highs lows step maxAF s i =
     (let n = length highs; af = ps_af s; ep = ps_ep s; sar = ps_sar s in
      if ps_bull s then
        let sar = fadd sar (fmul af (fsub ep sar));
            sar = (if flt (lows ! i) sar then lows ! i else sar);
            sar = (if flt (lows ! (i + 1)) sar then lows ! (i + 1) else sar);
            (ep, af) = (if flt ep (highs ! i) then (highs ! i, fmin (fadd af step) maxAF) else (ep, af));
            (bull, af, sar, ep) =
              (if i + 1 < n \<and> flt (lows ! (i + 1)) sar then (False, step, ep, lows ! i)
               else (True, af, sar, ep))
        in \<lparr>ps_af = af, ps_ep = ep, ps_bull = bull, ps_sar = sar,
            ps_out = (ps_out s)[i + 1 := fmax sar (lit (1 / 100))]\<rparr>
      else
        let sar = fsub sar (fmul af (fsub sar ep));
            sar = (if flt sar (highs ! i) then highs ! i else sar);
            sar = (if flt sar (highs ! (i + 1)) then highs ! (i + 1) else sar);
            (ep, af) = (if flt (lows ! i) ep then (lows ! i, fmin (fadd af step) maxAF) else (ep, af));
            (bull, af, sar, ep) =
              (if i + 1 < n \<and> flt sar (highs ! (i + 1)) then (True, step, ep, highs ! i)
               else (False, af, sar, ep))
        in \<lparr>ps_af = af, ps_ep = ep, ps_bull = bull, ps_sar = sar,
            ps_out = (ps_out s)[i + 1 := fmax sar (lit (1 / 100))]\<rparr>)"

definition PSAR :: "float64 list \<Rightarrow> float64 list \<Rightarrow> float64 \<Rightarrow> float64 \<Rightarrow> float64 list" where
  "PSAR highs lows step maxAF =
     (let n = length highs; out = nans n in
      if n < 2 then out
      else let (bull, sar, ep) =
                 (if flt (highs ! 0) (highs ! 1) \<and> flt (lows ! 0) (lows ! 1)
                  then (True, lows ! 0, highs ! 0) else (False, highs ! 0, lows ! 0))
           in ps_out (foldl (psar_step highs lows step maxAF)
                \<lparr>ps_af = step, ps_ep = ep, ps_bull = bull, ps_sar = sar, ps_out = out[1 := sar]\<rparr>
                [1..<n - 1]))"

text \<open>The inner loop of \<open>Aroon\<close>: positions of the extremes, starting from bar \<open>i\<close>.\<close>

definition aroon_extremes :: "float64 list \<Rightarrow> float64 list \<Rightarrow> nat \<Rightarrow> nat \<Rightarrow> nat \<times> nat" where
  "aroon_extremes highs lows period i =
     foldl (\<lambda>(hi, lo) j. (if flt (highs ! hi) (highs ! j) then j else hi,
                          if flt (lows ! j) (lows ! lo) then j else lo)) (i, i) [i - period..<i]"

definition aroon_value :: "nat \<Rightarrow> nat \<Rightarrow> nat \<Rightarrow> float64" where
  "aroon_value period i k =
     fdiv (fmul (lit 100) (of_int64 (int period - (int i - int k)))) (of_int64 (int period))"

definition Aroon :: "float64 list \<Rightarrow> float64 list \<Rightarrow> nat \<Rightarrow> float64 list \<times> float64 list \<times> float64 list" where
  "Aroon highs lows period =
     (let n = length highs;
          ext = aroon_extremes highs lows period;
          up = map (\<lambda>i. if i < period then NaN else aroon_value period i (fst (ext i))) [0..<n];
          down = map (\<lambda>i. if i < period then NaN else aroon_value period i (snd (ext i))) [0..<n]
      in (up, down, map (\<lambda>i. if i < period then NaN else fsub (up ! i) (down ! i)) [0..<n]))"

section \<open>price.go\<close>

definition rollingExtreme :: "float64 list \<Rightarrow> int \<Rightarrow> bool \<Rightarrow> float64 list" where
  "rollingExtreme vals period high =
     (let n = length vals; p = nat period in
      if period < 1 then nans n
      else map (\<lambda>i. if int i < period then NaN
                    else foldl (\<lambda>ext v. if high \<and> flt ext v \<or> \<not> high \<and> flt v ext then v else ext)
                           (vals ! (i - p)) (drop (i - p + 1) (take i vals))) [0..<n])"

definition RollingHigh :: "float64 list \<Rightarrow> int \<Rightarrow> float64 list" where
  "RollingHigh vals period = rollingExtreme vals period True"

definition RollingLow :: "float64 list \<Rightarrow> int \<Rightarrow> float64 list" where
  "RollingLow vals period = rollingExtreme vals period False"

definition GapPct :: "float64 list \<Rightarrow> float64 list \<Rightarrow> float64 list" where
  "GapPct opens closes =
     map (\<lambda>i. if i < 2 \<or> feq (closes ! (i - 2)) (lit 0) then NaN
              else fmul (fsub (fdiv (opens ! (i - 1)) (closes ! (i - 2))) (lit 1)) (lit 100))
       [0..<length opens]"

definition true_range :: "float64 list \<Rightarrow> float64 list \<Rightarrow> float64 list \<Rightarrow> nat \<Rightarrow> float64" where
  "true_range highs lows closes k =
     (let hl = fsub (highs ! k) (lows ! k);
          hc = fabs (fsub (highs ! k) (closes ! (k - 1)));
          lc = fabs (fsub (lows ! k) (closes ! (k - 1)))
      in fmax hl (fmax hc lc))"

definition TrueRange :: "float64 list \<Rightarrow> float64 list \<Rightarrow> float64 list \<Rightarrow> float64 list" where
  "TrueRange highs lows closes =
     map (\<lambda>i. if i < 2 then NaN else true_range highs lows closes (i - 1)) [0..<length closes]"

definition Is52wHigh :: "float64 list \<Rightarrow> float64 list \<Rightarrow> bool list option" where
  "Is52wHigh closes high52w =
     those (map (\<lambda>i. if isnan (high52w ! i) then Some False else if i = 0 then None
                     else Some (fle (high52w ! i) (closes ! (i - 1)))) [0..<length closes])"

definition Is52wLow :: "float64 list \<Rightarrow> float64 list \<Rightarrow> bool list option" where
  "Is52wLow closes low52w =
     those (map (\<lambda>i. if isnan (low52w ! i) then Some False else if i = 0 then None
                     else Some (fle (closes ! (i - 1)) (low52w ! i))) [0..<length closes])"

definition PctOff52wHigh :: "float64 list \<Rightarrow> float64 list \<Rightarrow> float64 list option" where
  "PctOff52wHigh closes high52w =
     those (map (\<lambda>i. if isnan (high52w ! i) \<or> feq (high52w ! i) (lit 0) then Some NaN
                     else if i = 0 then None
                     else Some (fmul (fsub (fdiv (closes ! (i - 1)) (high52w ! i)) (lit 1)) (lit 100)))
              [0..<length closes])"

definition PctAbove52wLow :: "float64 list \<Rightarrow> float64 list \<Rightarrow> float64 list option" where
  "PctAbove52wLow closes low52w =
     those (map (\<lambda>i. if isnan (low52w ! i) \<or> feq (low52w ! i) (lit 0) then Some NaN
                     else if i = 0 then None
                     else Some (fmul (fsub (fdiv (closes ! (i - 1)) (low52w ! i)) (lit 1)) (lit 100)))
              [0..<length closes])"

section \<open>returns.go\<close>

text \<open>\<open>Return\<close>; the guard is evaluated from left to right, so \<open>i-1-k\<close> is read only when it is an index.\<close>

definition Return :: "float64 list \<Rightarrow> int \<Rightarrow> float64 list" where
  "Return vals k =
     map (\<lambda>i. if int i < k + 1 \<or> k < 1 \<or> fle (vals ! (i - 1 - nat k)) (lit 0) then NaN
              else fsub (fdiv (vals ! (i - 1)) (vals ! (i - 1 - nat k))) (lit 1)) [0..<length vals]"

definition ReturnPct :: "float64 list \<Rightarrow> int \<Rightarrow> float64 list" where
  "ReturnPct vals k = map (\<lambda>x. if \<not> isnan x then fmul x (lit 100) else x) (Return vals k)"

text \<open>\<open>RelativeStrength\<close> panics on series of different length.\<close>

definition RelativeStrength :: "float64 list \<Rightarrow> float64 list \<Rightarrow> int \<Rightarrow> float64 list option" where
  "RelativeStrength symbolCloses benchmarkCloses k =
     (if length symbolCloses \<noteq> length benchmarkCloses then None
      else let symbolRet = ReturnPct symbolCloses k; benchmarkRet = ReturnPct benchmarkCloses k
           in Some (map (\<lambda>i. if isnan (symbolRet ! i) \<or> isnan (benchmarkRet ! i) then NaN
                             else fsub (symbolRet ! i) (benchmarkRet ! i)) [0..<length symbolCloses]))"

end
