(* ===== verification/Indicators_Momentum.thy ===== *)
theory Indicators_Momentum
  imports Indicators_Price
begin

text \<open>
  \<open>internal/indicators/momentum.go\<close>: RSI, MACD, the stochastic oscillator,
  Williams R, CCI, ROC, ADX, CMF and the ultimate oscillator.
\<close>

section \<open>RSI\<close>

definition rsiFrom :: "float64 \<Rightarrow> float64 \<Rightarrow> float64" where
  "rsiFrom avgGain avgLoss =
     (if feq avgLoss (lit 0) then (if feq avgGain (lit 0) then lit 50 else lit 100)
      else let rs = fdiv avgGain avgLoss in fsub (lit 100) (fdiv (lit 100) (fadd (lit 1) rs)))"

text \<open>The seed loop over the first deltas: gains and losses.\<close>

definition rsi_seed :: "float64 list \<Rightarrow> nat \<Rightarrow> float64 \<times> float64" where
  "rsi_seed closes p =
     foldl (\<lambda>(gain, loss) i.
         let d = fsub (closes ! i) (closes ! (i - 1)) in
         if fle (lit 0) d then (fadd gain d, loss) else (gain, fsub loss d))
       (lit 0, lit 0) [1..<p + 1]"

text \<open>One turn of Wilder's smoothing on the pair of averages.\<close>

definition rsi_smooth :: "float64 list \<Rightarrow> int \<Rightarrow> float64 \<times> float64 \<Rightarrow> nat \<Rightarrow> float64 \<times> float64" where
  "rsi_smooth closes period = (\<lambda>(avgGain, avgLoss) i.
     let d = fsub (closes ! i) (closes ! (i - 1));
         (g, l) = (if fle (lit 0) d then (d, lit 0) else (lit 0, fneg d))
     in (fdiv (fadd (fmul avgGain (of_int64 (period - 1))) g) (of_int64 period),
         fdiv (fadd (fmul avgLoss (of_int64 (period - 1))) l) (of_int64 period)))"

definition rsi_step ::
  "float64 list \<Rightarrow> int \<Rightarrow> (float64 \<times> float64) \<times> float64 list \<Rightarrow> nat \<Rightarrow> (float64 \<times> float64) \<times> float64 list" where
  "rsi_step closes period = (\<lambda>(avg, out) i.
     let avg = rsi_smooth closes period avg i in (avg, out[i + 1 := rsiFrom (fst avg) (snd avg)]))"

definition RSI :: "float64 list \<Rightarrow> int \<Rightarrow> float64 list" where
  "RSI closes period =
     (let n = length closes; out = nans n; p = nat period in
      if period < 1 \<or> int n \<le> period + 1 then out
      else let (gain, loss) = rsi_seed closes p;
               avgGain = fdiv gain (of_int64 period);
               avgLoss = fdiv loss (of_int64 period);
               out = out[p + 1 := rsiFrom avgGain avgLoss]
           in snd (foldl (rsi_step closes period) ((avgGain, avgLoss), out) [p + 1..<n - 1]))"

section \<open>MACD\<close>

definition nan_sub :: "float64 list \<Rightarrow> float64 list \<Rightarrow> nat \<Rightarrow> float64" where
  "nan_sub xs ys i = (if isnan (xs ! i) \<or> isnan (ys ! i) then NaN else fsub (xs ! i) (ys ! i))"

definition MACD :: "float64 list \<Rightarrow> float64 list \<times> float64 list \<times> float64 list" where
  "MACD closes =
     (let n = length closes; ema12 = EMA closes 12; ema26 = EMA closes 26;
          macd = map (nan_sub ema12 ema26) [0..<n];
          signal = EMA macd 9;
          histogram = map (nan_sub macd signal) [0..<n]
      in (macd, signal, histogram))"

section \<open>Window oscillators\<close>

text \<open>The loop of \<open>Stochastic\<close> and \<open>WilliamsR\<close> over the bars before \<open>i\<close>.\<close>

definition window_range :: "float64 list \<Rightarrow> float64 list \<Rightarrow> nat \<Rightarrow> nat \<Rightarrow> float64 \<times> float64" where
  "window_range highs lows p i =
     foldl (\<lambda>(hi, lo) j. (if flt hi (highs ! j) then highs ! j else hi,
                          if flt (lows ! j) lo then lows ! j else lo))
       (highs ! (i - p), lows ! (i - p)) [i - p + 1..<i]"

definition stoch_raw :: "float64 list \<Rightarrow> float64 list \<Rightarrow> float64 list \<Rightarrow> nat \<Rightarrow> nat \<Rightarrow> float64" where
  "stoch_raw highs lows closes kPeriod i =
     (if i < kPeriod then NaN
      else let (hh, ll) = window_range highs lows kPeriod i in
           if feq hh ll then lit 50
           else fmul (fdiv (fsub (closes ! (i - 1)) ll) (fsub hh ll)) (lit 100))"

definition Stochastic ::
  "float64 list \<Rightarrow> float64 list \<Rightarrow> float64 list \<Rightarrow> nat \<Rightarrow> int \<Rightarrow> nat \<Rightarrow> float64 list \<times> float64 list" where
  "Stochastic highs lows closes kPeriod dPeriod smooth =
     (let n = length closes;
          rawK = map (stoch_raw highs lows closes kPeriod) [0..<n];
          k = map (\<lambda>i. if int i < int kPeriod + int smooth - 1 then NaN
                       else fdiv (sum_range (\<lambda>j. rawK ! j) (i - smooth) i) (of_int64 (int smooth))) [0..<n]
      in (k, SMA k dPeriod))"

definition WilliamsR :: "float64 list \<Rightarrow> float64 list \<Rightarrow> float64 list \<Rightarrow> nat \<Rightarrow> float64 list" where
  "WilliamsR highs lows closes period =
     map (\<lambda>i. if i < period then NaN
              else let (hh, ll) = window_range highs lows period i in
                   if feq hh ll then lit (- 50)
                   else fmul (fdiv (fsub hh (closes ! (i - 1))) (fsub hh ll)) (lit (- 100)))
       [0..<length closes]"

definition typical :: "float64 list \<Rightarrow> float64 list \<Rightarrow> float64 list \<Rightarrow> nat \<Rightarrow> float64" where
  "typical highs lows closes i = fdiv (fadd (fadd (highs ! i) (lows ! i)) (closes ! i)) (lit 3)"

definition CCI :: "float64 list \<Rightarrow> float64 list \<Rightarrow> float64 list \<Rightarrow> nat \<Rightarrow> float64 list" where
  "CCI highs lows closes period =
     (let n = length closes; tp = map (typical highs lows closes) [0..<n]; p = of_int64 (int period) in
      map (\<lambda>i. if i < period then NaN
               else let sma = fdiv (sum_range (\<lambda>j. tp ! j) (i - period) i) p;
                        meanDev = fdiv (sum_range (\<lambda>j. fabs (fsub (tp ! j) sma)) (i - period) i) p
                    in if feq meanDev (lit 0) then lit 0
                       else fdiv (fsub (tp ! (i - 1)) sma) (fmul (lit (15 / 1000)) meanDev)) [0..<n])"

definition ROC :: "float64 list \<Rightarrow> nat \<Rightarrow> float64 list" where
  "ROC closes period =
     map (\<lambda>i. if i \<le> period then NaN
              else if feq (closes ! (i - 1 - period)) (lit 0) then NaN
              else fmul (fsub (fdiv (closes ! (i - 1)) (closes ! (i - 1 - period))) (lit 1)) (lit 100))
       [0..<length closes]"

section \<open>ADX\<close>

text \<open>Directional movements of bar \<open>i\<close> against bar \<open>i - 1\<close>; entry 0 stays zero.\<close>

definition plus_dm :: "float64 list \<Rightarrow> float64 list \<Rightarrow> nat \<Rightarrow> float64" where
  "plus_dm highs lows i =
     (let up = fsub (highs ! i) (highs ! (i - 1)); down = fsub (lows ! (i - 1)) (lows ! i)
      in if flt down up \<and> flt (lit 0) up then up else lit 0)"

definition minus_dm :: "float64 list \<Rightarrow> float64 list \<Rightarrow> nat \<Rightarrow> float64" where
  "minus_dm highs lows i =
     (let up = fsub (highs ! i) (highs ! (i - 1)); down = fsub (lows ! (i - 1)) (lows ! i)
      in if flt up down \<and> flt (lit 0) down then down else lit 0)"

text \<open>Wilder's running sum: zero before \<open>period\<close>, the sum of the first entries at it.\<close>

definition wilder :: "(nat \<Rightarrow> float64) \<Rightarrow> nat \<Rightarrow> nat \<Rightarrow> float64 list" where
  "wilder src period n =
     fill (\<lambda>out i. fadd (fsub (out ! (i - 1)) (fdiv (out ! (i - 1)) (of_int64 (int period)))) (src i))
       ((zeros n)[period := sum_range src 1 (period + 1)]) [period + 1..<n]"

definition ADX ::
  "float64 list \<Rightarrow> float64 list \<Rightarrow> float64 list \<Rightarrow> nat \<Rightarrow> float64 list \<times> float64 list \<times> float64 list" where
  "ADX highs lows closes period =
     (let n = length closes; p = of_int64 (int period) in
      if n < period + 1 then (nans n, nans n, nans n)
      else let trS = wilder (true_range highs lows closes) period n;
               pS = wilder (plus_dm highs lows) period n;
               nS = wilder (minus_dm highs lows) period n;
               di = (\<lambda>s. map (\<lambda>i. if i < period then lit 0
                                   else if feq (trS ! i) (lit 0) then lit 0
                                   else fmul (fdiv (s ! i) (trS ! i)) (lit 100)) [0..<n]);
               diPlus = di pS; diMinus = di nS;
               dx = map (\<lambda>i. if i < period then lit 0
                             else let sum = fadd (diPlus ! i) (diMinus ! i) in
                                  if feq sum (lit 0) then lit 0
                                  else fmul (fdiv (fabs (fsub (diPlus ! i) (diMinus ! i))) sum) (lit 100))
                      [0..<n];
               adx = fill (\<lambda>out i. if i = period * 2
                              then fdiv (sum_range (\<lambda>j. dx ! j) period (period * 2)) p
                              else fdiv (fadd (fmul (out ! (i - 1)) (of_int64 (int period - 1))) (dx ! (i - 1))) p)
                       (zeros n) [period * 2..<n]
           in (adx, diPlus, diMinus))"

section \<open>CMF and the ultimate oscillator\<close>

definition cmf_flow :: "float64 list \<Rightarrow> float64 list \<Rightarrow> float64 list \<Rightarrow> int list \<Rightarrow> nat \<Rightarrow> float64" where
  "cmf_flow highs lows closes volumes j =
     (if \<not> feq (highs ! j) (lows ! j)
      then fdiv (fmul (of_int64 (volumes ! j))
                   (fsub (fsub (closes ! j) (lows ! j)) (fsub (highs ! j) (closes ! j))))
                (fsub (highs ! j) (lows ! j))
      else lit 0)"

definition CMF ::
  "float64 list \<Rightarrow> float64 list \<Rightarrow> float64 list \<Rightarrow> int list \<Rightarrow> nat \<Rightarrow> float64 list" where
  "CMF highs lows closes volumes period =
     map (\<lambda>i. if i < period then NaN
              else let mfSum = sum_range (cmf_flow highs lows closes volumes) (Suc i - period) (Suc i);
                       volSum = sum_range (\<lambda>j. of_int64 (volumes ! j)) (Suc i - period) (Suc i)
                   in if flt (lit 0) volSum then fdiv mfSum volSum else NaN) [0..<length closes]"

definition UltimateOsc ::
  "float64 list \<Rightarrow> float64 list \<Rightarrow> float64 list \<Rightarrow> nat \<Rightarrow> nat \<Rightarrow> nat \<Rightarrow> float64 list" where
  "UltimateOsc highs lows closes p1 p2 p3 =
     (let n = length closes in
      if n < p3 + 2 then nans n
      else let bp = map (\<lambda>i. fsub (closes ! i) (fmin (lows ! i) (closes ! i))) [0..<n];
               tr = map (\<lambda>i. fsub (fmax (highs ! i) (closes ! i)) (fmin (lows ! i) (closes ! i))) [0..<n];
               avg = (\<lambda>p dflt i. let s = sum_range (\<lambda>j. bp ! j) (Suc i - p) (Suc i);
                                      t = sum_range (\<lambda>j. tr ! j) (Suc i - p) (Suc i)
                                  in if flt (lit 0) t then fdiv s t else dflt)
           in map (\<lambda>i. if i < p3 then NaN
                       else fdiv (fmul (lit 100)
                              (fadd (fadd (fmul (lit 4) (avg p1 (lit 4) i)) (fmul (lit 2) (avg p2 (lit 2) i)))
                                    (avg p3 (lit 1) i))) (lit 7)) [0..<n])"

end
