(* ===== verification/Indicators_Flow.thy ===== *)
theory Indicators_Flow
  imports Indicators_Momentum
begin

text \<open>
  \<open>internal/indicators/volatility.go\<close> and \<open>volume.go\<close>. \<open>math.Log\<close>, whose last bits
  Go leaves to the platform, is the argument \<open>ln64\<close> of \<open>HistoricalVol\<close>; volumes are
  the \<open>int64\<close> of the bars, converted with rounding as \<open>float64(v)\<close> does.
\<close>

section \<open>volatility.go\<close>

definition ATR :: "float64 list \<Rightarrow> float64 list \<Rightarrow> float64 list \<Rightarrow> nat \<Rightarrow> float64 list" where
  "ATR highs lows closes period =
     (let n = length closes; p = of_int64 (int period) in
      if n < period + 1 then nans n
      else let tr = map (\<lambda>i. if i = 0 then lit 0 else true_range highs lows closes i) [0..<n];
               out = (zeros n)[period := fdiv (sum_range (\<lambda>i. tr ! i) 1 (period + 1)) p]
           in fill (\<lambda>out i. fdiv (fadd (fmul (out ! (i - 1)) (of_int64 (int period - 1))) (tr ! i)) p)
                out [period + 1..<n])"

definition ATRPct :: "float64 list \<Rightarrow> float64 list \<Rightarrow> float64 list \<Rightarrow> nat \<Rightarrow> float64 list" where
  "ATRPct highs lows closes period =
     (let atr = ATR highs lows closes period in
      map (\<lambda>i. if i < 1 \<or> isnan (atr ! i) \<or> feq (closes ! (i - 1)) (lit 0) then NaN
               else fmul (fdiv (atr ! i) (closes ! (i - 1))) (lit 100)) [0..<length closes])"

definition bb_mean :: "float64 list \<Rightarrow> nat \<Rightarrow> nat \<Rightarrow> float64" where
  "bb_mean closes period i =
     fdiv (sum_range (\<lambda>j. closes ! j) (i - period) i) (of_int64 (int period))"

definition bb_dev :: "float64 list \<Rightarrow> nat \<Rightarrow> nat \<Rightarrow> float64" where
  "bb_dev closes period i =
     (let sma = bb_mean closes period i;
          variance = sum_range (\<lambda>j. let diff = fsub (closes ! j) sma in fmul diff diff) (i - period) i
      in fsqrt (fdiv variance (of_int64 (int period))))"

definition BollingerBands ::
  "float64 list \<Rightarrow> nat \<Rightarrow> float64 \<Rightarrow> float64 list \<times> float64 list \<times> float64 list" where
  "BollingerBands closes period mult =
     (let n = length closes;
          band = (\<lambda>f. map (\<lambda>i. if i < period then NaN
                              else f (bb_mean closes period i) (bb_dev closes period i)) [0..<n])
      in (band (\<lambda>sma dev. fadd sma (fmul mult dev)), band (\<lambda>sma dev. sma),
          band (\<lambda>sma dev. fsub sma (fmul mult dev))))"

definition BBWidth :: "float64 list \<Rightarrow> nat \<Rightarrow> float64 \<Rightarrow> float64 list" where
  "BBWidth closes period mult =
     (let (upper, middle, lower) = BollingerBands closes period mult in
      map (\<lambda>i. if isnan (upper ! i) \<or> isnan (middle ! i) \<or> feq (middle ! i) (lit 0) then NaN
               else fmul (fdiv (fsub (upper ! i) (lower ! i)) (middle ! i)) (lit 100)) [0..<length closes])"

definition BBPctB :: "float64 list \<Rightarrow> nat \<Rightarrow> float64 \<Rightarrow> float64 list option" where
  "BBPctB closes period mult =
     (let (upper, middle, lower) = BollingerBands closes period mult in
      those (map (\<lambda>i. if isnan (upper ! i) \<or> isnan (lower ! i) then Some NaN
                      else let bandWidth = fsub (upper ! i) (lower ! i) in
                           if feq bandWidth (lit 0) then Some (lit (1 / 2))
                           else if i = 0 then None
                           else Some (fdiv (fsub (closes ! (i - 1)) (lower ! i)) bandWidth))
              [0..<length closes]))"

text \<open>Sum and number of the non-NaN entries of a window, as the first inner loop counts them.\<close>

definition hv_sum :: "float64 list \<Rightarrow> (float64 \<Rightarrow> float64) \<Rightarrow> nat \<Rightarrow> nat \<Rightarrow> float64 \<times> int" where
  "hv_sum rets f a b =
     foldl (\<lambda>(sum, count) j. if \<not> isnan (rets ! j) then (fadd sum (f (rets ! j)), count + 1) else (sum, count))
       (lit 0, 0) [a..<b]"

definition HistoricalVol :: "(float64 \<Rightarrow> float64) \<Rightarrow> float64 list \<Rightarrow> nat \<Rightarrow> float64 list" where
  "HistoricalVol ln64 closes period =
     (let n = length closes;
          rets = map (\<lambda>i. if i = 0 then lit 0 else if feq (closes ! (i - 1)) (lit 0) then NaN
                          else ln64 (fdiv (closes ! i) (closes ! (i - 1)))) [0..<n]
      in map (\<lambda>i. if i \<le> period then NaN
                  else let (sum, count) = hv_sum rets (\<lambda>r. r) (i - period) i in
                       if count = 0 then NaN
                       else let mean = fdiv sum (of_int64 count);
                                (v, _) = hv_sum rets (\<lambda>r. let diff = fsub r mean in fmul diff diff) (i - period) i;
                                variance = fdiv v (of_int64 count)
                            in fmul (fmul (fsqrt variance) (fsqrt (lit 252))) (lit 100)) [0..<n])"

definition KeltnerChannels ::
  "float64 list \<Rightarrow> float64 list \<Rightarrow> float64 list \<Rightarrow> int \<Rightarrow> nat \<Rightarrow> float64 \<Rightarrow>
     float64 list \<times> float64 list \<times> float64 list" where
  "KeltnerChannels closes highs lows period atrPeriod mult =
     (let n = length closes; mid = EMA closes period; atr = ATR highs lows closes atrPeriod;
          band = (\<lambda>f. map (\<lambda>i. if isnan (mid ! i) \<or> isnan (atr ! i) then NaN
                              else f (mid ! i) (fmul mult (atr ! i))) [0..<n])
      in (band fadd, mid, band fsub))"

section \<open>volume.go\<close>

definition DollarVol :: "float64 list \<Rightarrow> int list \<Rightarrow> float64 list" where
  "DollarVol closes volumes =
     map (\<lambda>i. if i < 1 then NaN else fmul (closes ! (i - 1)) (of_int64 (volumes ! (i - 1)))) [0..<length closes]"

definition AvgDollarVol :: "float64 list \<Rightarrow> int list \<Rightarrow> nat \<Rightarrow> float64 list" where
  "AvgDollarVol closes volumes period =
     (let dv = DollarVol closes volumes in
      map (\<lambda>i. if i < period then NaN
               else fdiv (sum_range (\<lambda>j. dv ! j) (i - period) i) (of_int64 (int period))) [0..<length closes])"

definition RelVolume :: "int list \<Rightarrow> nat \<Rightarrow> float64 list" where
  "RelVolume volumes period =
     map (\<lambda>i. if i < period + 1 then NaN
              else let avgVol = fdiv (sum_range (\<lambda>j. of_int64 (volumes ! j)) (i - period) i) (of_int64 (int period))
                   in if feq avgVol (lit 0) then NaN else fdiv (of_int64 (volumes ! (i - 1))) avgVol)
       [0..<length volumes]"

definition OBV :: "float64 list \<Rightarrow> int list \<Rightarrow> float64 list" where
  "OBV closes volumes =
     (let n = length closes in
      if n < 2 then nans n
      else fill (\<lambda>out i.
               if flt (closes ! (i - 2)) (closes ! (i - 1))
               then fadd (out ! (i - 1)) (of_int64 (volumes ! (i - 1)))
               else if flt (closes ! (i - 1)) (closes ! (i - 2))
               then fsub (out ! (i - 1)) (of_int64 (volumes ! (i - 1)))
               else out ! (i - 1))
             ((zeros n)[1 := lit 0]) [2..<n])"

definition VWAP ::
  "float64 list \<Rightarrow> float64 list \<Rightarrow> float64 list \<Rightarrow> int list \<Rightarrow> nat \<Rightarrow> float64 list" where
  "VWAP highs lows closes volumes period =
     (let n = length closes; tp = map (typical highs lows closes) [0..<n] in
      map (\<lambda>i. if i < period then NaN
               else let sumTPV = sum_range (\<lambda>j. fmul (tp ! j) (of_int64 (volumes ! j))) (i - period) i;
                        sumV = sum_range (\<lambda>j. of_int64 (volumes ! j)) (i - period) i
                    in if feq sumV (lit 0) then NaN else fdiv sumTPV sumV) [0..<n])"

definition VWAPDist ::
  "float64 list \<Rightarrow> float64 list \<Rightarrow> float64 list \<Rightarrow> int list \<Rightarrow> nat \<Rightarrow> float64 list option" where
  "VWAPDist highs lows closes volumes period =
     (let vwap = VWAP highs lows closes volumes period in
      those (map (\<lambda>i. if isnan (vwap ! i) \<or> feq (vwap ! i) (lit 0) then Some NaN
                      else if i = 0 then None
                      else Some (fmul (fsub (fdiv (closes ! (i - 1)) (vwap ! i)) (lit 1)) (lit 100)))
              [0..<length closes]))"

definition MFI ::
  "float64 list \<Rightarrow> float64 list \<Rightarrow> float64 list \<Rightarrow> int list \<Rightarrow> nat \<Rightarrow> float64 list" where
  "MFI highs lows closes volumes period =
     (let n = length closes in
      if n < period + 1 then nans n
      else let tp = map (typical highs lows closes) [0..<n];
               rawMF = map (\<lambda>i. fmul (tp ! i) (of_int64 (volumes ! i))) [0..<n];
               flows = (\<lambda>i. foldl (\<lambda>(pos, neg) j.
                          if flt (tp ! (j - 1)) (tp ! j) then (fadd pos (rawMF ! j), neg)
                          else if flt (tp ! j) (tp ! (j - 1)) then (pos, fadd neg (rawMF ! j))
                          else (pos, neg)) (lit 0, lit 0) [i - period..<i])
           in map (\<lambda>i. if i \<le> period then lit 0
                       else let (posFlow, negFlow) = flows i in
                            if feq negFlow (lit 0) then lit 100
                            else let mfRatio = fdiv posFlow negFlow in
                                 fsub (lit 100) (fdiv (lit 100) (fadd (lit 1) mfRatio))) [0..<n])"

end
