(* ===== verification/Indicator_Laws.thy ===== *)
theory Indicator_Laws
  imports Indicators_Flow
begin

text \<open>
  What the indicators promise. The first part interprets the locale
  \<open>no_lookahead\<close> on every indicator that reads only bars before \<open>i\<close>, and the
  weaker \<open>causal\<close> on those that read bar \<open>i\<close> itself.
\<close>

section \<open>Bars\<close>

text \<open>\<open>model.Bar\<close> of \<open>internal/model/model.go\<close>.\<close>

record bar =
  b_Symbol :: string
  b_Timestamp :: int
  b_Open :: float64
  b_High :: float64
  b_Low :: float64
  b_Close :: float64
  b_Volume :: int
  b_VWAP :: float64
  b_Source :: string

abbreviation Opens :: "bar list \<Rightarrow> float64 list" where "Opens \<equiv> map b_Open"
abbreviation Highs :: "bar list \<Rightarrow> float64 list" where "Highs \<equiv> map b_High"
abbreviation Lows :: "bar list \<Rightarrow> float64 list" where "Lows \<equiv> map b_Low"
abbreviation Closes :: "bar list \<Rightarrow> float64 list" where "Closes \<equiv> map b_Close"
abbreviation Volumes :: "bar list \<Rightarrow> int list" where "Volumes \<equiv> map b_Volume"

lemma no_lookahead_map:
  assumes "no_lookahead ind w"
  shows "no_lookahead (\<lambda>bars. ind (map f bars)) w"
proof
  show "length (ind (map f xs)) = length xs" for xs
    using no_lookahead.len [OF assms] by simp
  show "ind (map f xs) ! i = ind (map f ys) ! i"
    if "w \<le> i \<or> length xs = length ys" "i < length xs" "i < length ys" "\<And>j. j < i \<Longrightarrow> xs ! j = ys ! j"
    for i xs ys
    using that by (intro no_lookahead.before [OF assms]) auto
qed

section \<open>Indicators that read only earlier bars\<close>

interpretation sma: no_lookahead "\<lambda>vals. SMA vals period" 0 for period
  by unfold_locales (auto simp: SMA_def Let_def)

lemma ema_step_agree:
  assumes "p \<le> i" "i < length xs" "i < length ys" "0 < p" "\<And>j. j < i \<Longrightarrow> xs ! j = ys ! j"
  shows "fill (\<lambda>out i. fadd (fmul (fsub (xs ! (i - 1)) (out ! (i - 1))) m) (out ! (i - 1)))
           ((zeros (length xs))[p := a]) [p + 1..<length xs] ! i =
         fill (\<lambda>out i. fadd (fmul (fsub (ys ! (i - 1)) (out ! (i - 1))) m) (out ! (i - 1)))
           ((zeros (length ys))[p := a]) [p + 1..<length ys] ! i"
proof (cases "i = p")
  case True
  with assms show ?thesis by (simp add: fill_untouched)
next
  case False
  with assms show ?thesis
    by (intro fill_agree [where g = "\<lambda>x i. fadd (fmul (fsub (xs ! (i - 1)) x) m) x"
          and h = "\<lambda>x i. fadd (fmul (fsub (ys ! (i - 1)) x) m) x"]) auto
qed

lemma EMA_nth:
  assumes "i < length vals"
  shows "EMA vals period ! i =
     (if period < 1 \<or> int (length vals) \<le> period then NaN
      else if i < nat period then lit 0
      else fill (\<lambda>out i. fadd (fmul (fsub (vals ! (i - 1)) (out ! (i - 1)))
                    (fdiv (lit 2) (of_int64 (period + 1)))) (out ! (i - 1)))
             ((zeros (length vals))[nat period := fdiv (sum_range (\<lambda>i. vals ! i) 0 (nat period)) (of_int64 period)])
             [nat period + 1..<length vals] ! i)"
  using assms by (auto simp: EMA_def Let_def fill_untouched)

interpretation ema: no_lookahead "\<lambda>vals. EMA vals period" "nat period" for period
proof
  show "length (EMA xs period) = length xs" for xs
    by (simp add: EMA_def Let_def)
  fix i and xs ys :: "float64 list"
  assume a: "nat period \<le> i \<or> length xs = length ys" "i < length xs" "i < length ys"
    "\<And>j. j < i \<Longrightarrow> xs ! j = ys ! j"
  show "EMA xs period ! i = EMA ys period ! i"
  proof (cases "period < 1 \<or> i < nat period")
    case True
    with a show ?thesis by (auto simp: EMA_nth)
  next
    case False
    then have p: "nat period \<le> i" "0 < nat period" by auto
    have "sum_range (\<lambda>i. xs ! i) 0 (nat period) = sum_range (\<lambda>i. ys ! i) 0 (nat period)"
      using a p by (intro sum_range_cong) auto
    moreover have "\<not> (period < 1 \<or> int (length xs) \<le> period)" "\<not> (period < 1 \<or> int (length ys) \<le> period)"
      "\<not> i < nat period" using False a by auto
    ultimately show ?thesis
      by (simp only: EMA_nth [OF a(2)] EMA_nth [OF a(3)] if_False ema_step_agree [OF p(1) a(2,3) p(2) a(4)])
  qed
qed

interpretation pct_from_sma: no_lookahead "\<lambda>vals. PctFromSMA vals (SMA vals period)" 0 for period
proof
  fix i and xs ys :: "float64 list"
  assume a: "0 \<le> i \<or> length xs = length ys" "i < length xs" "i < length ys"
    "\<And>j. j < i \<Longrightarrow> xs ! j = ys ! j"
  show "PctFromSMA xs (SMA xs period) ! i = PctFromSMA ys (SMA ys period) ! i"
    using a(2-4) sma.before [OF a] by (simp add: PctFromSMA_def)
qed (simp add: PctFromSMA_def)

interpretation ma_stack:
  no_lookahead "\<lambda>vals. MAStack (EMA vals 10) (EMA vals 21) (EMA vals 50) (EMA vals 200)" 200
proof
  fix i and xs ys :: "float64 list"
  assume a: "200 \<le> i \<or> length xs = length ys" "i < length xs" "i < length ys"
    "\<And>j. j < i \<Longrightarrow> xs ! j = ys ! j"
  have "EMA xs p ! i = EMA ys p ! i" if "p \<le> 200" for p
    using a that by (intro ema.before) auto
  with a show "MAStack (EMA xs 10) (EMA xs 21) (EMA xs 50) (EMA xs 200) ! i =
      MAStack (EMA ys 10) (EMA ys 21) (EMA ys 50) (EMA ys 200) ! i"
    by (simp add: MAStack_def ema.len)
qed (simp add: MAStack_def ema.len)

interpretation rolling: no_lookahead "\<lambda>vals. rollingExtreme vals period high" 0 for period high
proof
  fix i and xs ys :: "float64 list"
  assume a: "0 \<le> i \<or> length xs = length ys" "i < length xs" "i < length ys"
    "\<And>j. j < i \<Longrightarrow> xs ! j = ys ! j"
  then have "take i xs = take i ys" by (auto intro: nth_equalityI)
  with a show "rollingExtreme xs period high ! i = rollingExtreme ys period high ! i"
    by (auto simp: rollingExtreme_def Let_def)
qed (simp add: rollingExtreme_def Let_def)

interpretation ret: no_lookahead "\<lambda>vals. Return vals k" 0 for k
  by unfold_locales (auto simp: Return_def)

interpretation roc: no_lookahead "\<lambda>vals. ROC vals k" 0 for k
  by unfold_locales (auto simp: ROC_def)

interpretation gap: no_lookahead "\<lambda>bars. GapPct (Opens bars) (Closes bars)" 0
  by unfold_locales (auto simp: GapPct_def)

interpretation tr: no_lookahead "\<lambda>bars. TrueRange (Highs bars) (Lows bars) (Closes bars)" 0
  by unfold_locales (auto simp: TrueRange_def true_range_def Let_def)

lemma bb_agree:
  assumes "\<And>j. j < i \<Longrightarrow> xs ! j = ys ! j"
  shows "bb_mean xs p i = bb_mean ys p i" "bb_dev xs p i = bb_dev ys p i"
proof -
  show m: "bb_mean xs p i = bb_mean ys p i"
    using assms by (auto simp: bb_mean_def)
  show "bb_dev xs p i = bb_dev ys p i"
    using assms by (auto simp: bb_dev_def m Let_def)
qed

interpretation bb_upper: no_lookahead "\<lambda>vals. fst (BollingerBands vals p m)" 0 for p m
proof
  fix i and xs ys :: "float64 list"
  assume a: "0 \<le> i \<or> length xs = length ys" "i < length xs" "i < length ys"
    "\<And>j. j < i \<Longrightarrow> xs ! j = ys ! j"
  show "fst (BollingerBands xs p m) ! i = fst (BollingerBands ys p m) ! i"
    using a(2,3) bb_agree [OF a(4)] by (simp add: BollingerBands_def Let_def)
qed (simp add: BollingerBands_def Let_def)

interpretation bb_middle: no_lookahead "\<lambda>vals. fst (snd (BollingerBands vals p m))" 0 for p m
proof
  fix i and xs ys :: "float64 list"
  assume a: "0 \<le> i \<or> length xs = length ys" "i < length xs" "i < length ys"
    "\<And>j. j < i \<Longrightarrow> xs ! j = ys ! j"
  show "fst (snd (BollingerBands xs p m)) ! i = fst (snd (BollingerBands ys p m)) ! i"
    using a(2,3) bb_agree [OF a(4)] by (simp add: BollingerBands_def Let_def)
qed (simp add: BollingerBands_def Let_def)

interpretation bb_lower: no_lookahead "\<lambda>vals. snd (snd (BollingerBands vals p m))" 0 for p m
proof
  fix i and xs ys :: "float64 list"
  assume a: "0 \<le> i \<or> length xs = length ys" "i < length xs" "i < length ys"
    "\<And>j. j < i \<Longrightarrow> xs ! j = ys ! j"
  show "snd (snd (BollingerBands xs p m)) ! i = snd (snd (BollingerBands ys p m)) ! i"
    using a(2,3) bb_agree [OF a(4)] by (simp add: BollingerBands_def Let_def)
qed (simp add: BollingerBands_def Let_def)


interpretation bb_width: no_lookahead "\<lambda>vals. BBWidth vals p m" 0 for p m
proof
  fix i and xs ys :: "float64 list"
  assume a: "0 \<le> i \<or> length xs = length ys" "i < length xs" "i < length ys"
    "\<And>j. j < i \<Longrightarrow> xs ! j = ys ! j"
  show "BBWidth xs p m ! i = BBWidth ys p m ! i"
    using a(2,3) bb_upper.before [OF a, of p m] bb_middle.before [OF a, of p m] bb_lower.before [OF a, of p m]
    by (simp add: BBWidth_def split_beta Let_def)
qed (simp add: BBWidth_def split_beta Let_def)

interpretation cci: no_lookahead "\<lambda>bars. CCI (Highs bars) (Lows bars) (Closes bars) (Suc p)" 0 for p
  by unfold_locales (auto simp: CCI_def typical_def Let_def)

interpretation vwap:
  no_lookahead "\<lambda>bars. VWAP (Highs bars) (Lows bars) (Closes bars) (Volumes bars) period" 0 for period
  by unfold_locales (auto simp: VWAP_def typical_def Let_def)

interpretation relvol: no_lookahead "\<lambda>vs. RelVolume vs period" 0 for period
  by unfold_locales (auto simp: RelVolume_def Let_def)

interpretation dollar_vol: no_lookahead "\<lambda>bars. DollarVol (Closes bars) (Volumes bars)" 0
  by unfold_locales (auto simp: DollarVol_def)

interpretation avg_dollar_vol:
  no_lookahead "\<lambda>bars. AvgDollarVol (Closes bars) (Volumes bars) period" 0 for period
  by unfold_locales (auto simp: AvgDollarVol_def DollarVol_def Let_def cong: if_cong)

lemma window_range_agree:
  assumes "\<And>j. j < i \<Longrightarrow> hs ! j = hs' ! j \<and> ls ! j = ls' ! j" "0 < p" "p \<le> i"
  shows "window_range hs ls p i = window_range hs' ls' p i"
  using assms unfolding window_range_def by (auto intro!: foldl_index_cong)

lemma stoch_raw_agree:
  assumes "\<And>j. j < i \<Longrightarrow> xs ! j = ys ! j" "i < length xs" "i < length ys"
  shows "stoch_raw (Highs xs) (Lows xs) (Closes xs) (Suc p) i =
         stoch_raw (Highs ys) (Lows ys) (Closes ys) (Suc p) i"
proof (cases "i < Suc p")
  case True
  then show ?thesis by (simp add: stoch_raw_def)
next
  case False
  then have "window_range (Highs xs) (Lows xs) (Suc p) i = window_range (Highs ys) (Lows ys) (Suc p) i"
    using assms by (intro window_range_agree) auto
  with False assms show ?thesis by (simp add: stoch_raw_def split_beta cong: if_cong)
qed

interpretation stoch_k:
  no_lookahead "\<lambda>bars. fst (Stochastic (Highs bars) (Lows bars) (Closes bars) (Suc p) d sm)" 0 for p d sm
proof
  fix i and xs ys :: "bar list"
  assume a: "0 \<le> i \<or> length xs = length ys" "i < length xs" "i < length ys"
    "\<And>j. j < i \<Longrightarrow> xs ! j = ys ! j"
  have "stoch_raw (Highs xs) (Lows xs) (Closes xs) (Suc p) j =
      stoch_raw (Highs ys) (Lows ys) (Closes ys) (Suc p) j" if "j < i" for j
    using a that by (intro stoch_raw_agree) auto
  with a(2,3) show "fst (Stochastic (Highs xs) (Lows xs) (Closes xs) (Suc p) d sm) ! i =
      fst (Stochastic (Highs ys) (Lows ys) (Closes ys) (Suc p) d sm) ! i"
    by (simp add: Stochastic_def Let_def)
qed (simp add: Stochastic_def Let_def)

lemma stoch_d_eq: "snd (Stochastic hs ls cs p d sm) = SMA (fst (Stochastic hs ls cs p d sm)) d"
  by (simp add: Stochastic_def Let_def)

interpretation stoch_d:
  no_lookahead "\<lambda>bars. snd (Stochastic (Highs bars) (Lows bars) (Closes bars) (Suc p) d sm)" 0 for p d sm
proof
  fix i and xs ys :: "bar list"
  assume a: "0 \<le> i \<or> length xs = length ys" "i < length xs" "i < length ys"
    "\<And>j. j < i \<Longrightarrow> xs ! j = ys ! j"
  show "snd (Stochastic (Highs xs) (Lows xs) (Closes xs) (Suc p) d sm) ! i =
      snd (Stochastic (Highs ys) (Lows ys) (Closes ys) (Suc p) d sm) ! i"
    unfolding stoch_d_eq using a by (intro sma.before) (auto simp: stoch_k.len intro: stoch_k.before)
qed (simp add: stoch_d_eq sma.len stoch_k.len)

interpretation willr:
  no_lookahead "\<lambda>bars. WilliamsR (Highs bars) (Lows bars) (Closes bars) (Suc p)" 0 for p
proof
  fix i and xs ys :: "bar list"
  assume a: "0 \<le> i \<or> length xs = length ys" "i < length xs" "i < length ys"
    "\<And>j. j < i \<Longrightarrow> xs ! j = ys ! j"
  then have "Suc p \<le> i \<Longrightarrow>
      window_range (Highs xs) (Lows xs) (Suc p) i = window_range (Highs ys) (Lows ys) (Suc p) i"
    by (intro window_range_agree) auto
  with a show "WilliamsR (Highs xs) (Lows xs) (Closes xs) (Suc p) ! i =
      WilliamsR (Highs ys) (Lows ys) (Closes ys) (Suc p) ! i"
    by (auto simp: WilliamsR_def split_beta cong: if_cong)
qed (simp add: WilliamsR_def)

section \<open>RSI\<close>

lemma rsi_fold_avg:
  "fst (foldl (rsi_step closes period) (avg, out) js) = foldl (rsi_smooth closes period) avg js"
  by (induction js arbitrary: avg out) (auto simp: rsi_step_def Let_def)

lemma rsi_fold_length:
  "length (snd (foldl (rsi_step closes period) (avg, out) js)) = length out"
  by (induction js arbitrary: avg out) (auto simp: rsi_step_def Let_def)

lemma rsi_fold_nth:
  "m < length out \<Longrightarrow> k < length out \<Longrightarrow>
   snd (foldl (rsi_step closes period) (avg, out) [a..<m]) ! k =
     (if a < k \<and> k \<le> m
      then (case foldl (rsi_smooth closes period) avg [a..<k] of (g, l) \<Rightarrow> rsiFrom g l) else out ! k)"
proof (induction m)
  case 0
  then show ?case by auto
next
  case (Suc m)
  let ?s = "foldl (rsi_step closes period) (avg, out) [a..<m]"
  show ?case
  proof (cases "a \<le> m")
    case True
    have "rsi_step closes period ?s m =
        (foldl (rsi_smooth closes period) avg [a..<Suc m],
         (snd ?s)[Suc m := (case foldl (rsi_smooth closes period) avg [a..<Suc m] of (g, l) \<Rightarrow> rsiFrom g l)])"
      using rsi_fold_avg [of closes period avg out "[a..<m]"] True
      by (simp add: rsi_step_def split_beta Let_def)
    then have "foldl (rsi_step closes period) (avg, out) [a..<Suc m] =
        (foldl (rsi_smooth closes period) avg [a..<Suc m],
         (snd ?s)[Suc m := (case foldl (rsi_smooth closes period) avg [a..<Suc m] of (g, l) \<Rightarrow> rsiFrom g l)])"
      using True by simp
    then show ?thesis
      using Suc True by (simp only: snd_conv) (auto simp: nth_list_update rsi_fold_length)
  next
    case False
    then show ?thesis by auto
  qed
qed

definition rsi_avg :: "float64 list \<Rightarrow> int \<Rightarrow> nat \<Rightarrow> float64 \<times> float64" where
  "rsi_avg closes period i =
     (case rsi_seed closes (nat period) of (gain, loss) \<Rightarrow>
        foldl (rsi_smooth closes period) (fdiv gain (of_int64 period), fdiv loss (of_int64 period))
          [nat period + 1..<i])"

lemma RSI_nth:
  assumes "i < length closes"
  shows "RSI closes period ! i =
     (if period < 1 \<or> i \<le> nat period then NaN
      else (case rsi_avg closes period i of (g, l) \<Rightarrow> rsiFrom g l))"
proof (cases "period < 1 \<or> int (length closes) \<le> period + 1")
  case True
  with assms show ?thesis by (auto simp: RSI_def Let_def)
next
  case False
  then show ?thesis
    using assms by (auto simp: RSI_def Let_def split_beta rsi_fold_nth rsi_avg_def nth_list_update)
qed

lemma length_RSI: "length (RSI closes period) = length closes"
  by (auto simp: RSI_def Let_def split_beta rsi_fold_length)

lemma rsi_avg_agree:
  assumes "\<And>j. j < i \<Longrightarrow> xs ! j = ys ! j" "nat period < i"
  shows "rsi_avg xs period i = rsi_avg ys period i"
proof -
  have "rsi_seed xs (nat period) = rsi_seed ys (nat period)"
    unfolding rsi_seed_def using assms by (intro foldl_index_cong) auto
  moreover have "foldl (rsi_smooth xs period) s [nat period + 1..<i] =
      foldl (rsi_smooth ys period) s [nat period + 1..<i]" for s
    using assms by (intro foldl_index_cong) (auto simp: rsi_smooth_def)
  ultimately show ?thesis by (simp add: rsi_avg_def)
qed

interpretation rsi: no_lookahead "\<lambda>vals. RSI vals period" 0 for period
proof
  fix i and xs ys :: "float64 list"
  assume a: "0 \<le> i \<or> length xs = length ys" "i < length xs" "i < length ys"
    "\<And>j. j < i \<Longrightarrow> xs ! j = ys ! j"
  then show "RSI xs period ! i = RSI ys period ! i"
    using rsi_avg_agree [OF a(4), where period = period] by (cases "i \<le> nat period") (auto simp: RSI_nth)
qed (rule length_RSI)

section \<open>MACD, volatility, volume\<close>

lemma macd_parts:
  "fst (MACD closes) = map (nan_sub (EMA closes 12) (EMA closes 26)) [0..<length closes]"
  "fst (snd (MACD closes)) = EMA (fst (MACD closes)) 9"
  "snd (snd (MACD closes)) = map (nan_sub (fst (MACD closes)) (fst (snd (MACD closes)))) [0..<length closes]"
  by (simp_all add: MACD_def Let_def)

interpretation macd: no_lookahead "\<lambda>vals. fst (MACD vals)" 26
proof
  fix i and xs ys :: "float64 list"
  assume a: "26 \<le> i \<or> length xs = length ys" "i < length xs" "i < length ys"
    "\<And>j. j < i \<Longrightarrow> xs ! j = ys ! j"
  have "EMA xs p ! i = EMA ys p ! i" if "p \<le> 26" for p
    using a that by (intro ema.before) auto
  with a(2,3) show "fst (MACD xs) ! i = fst (MACD ys) ! i"
    by (simp add: macd_parts nan_sub_def)
qed (simp add: macd_parts)

text \<open>
  The signal line is an average over the MACD line from its first entry on, so two
  histories must agree on the warm-up entries as well: the promise is made for
  histories of equal length, or longer than all the windows.
\<close>

lemma macd_agree:
  assumes "27 \<le> length xs \<and> 27 \<le> length ys \<or> length xs = length ys" "i < length xs" "i < length ys"
    and "\<And>j. j < i \<Longrightarrow> xs ! j = ys ! j"
  shows "fst (MACD xs) ! i = fst (MACD ys) ! i"
proof -
  have "EMA xs p ! i = EMA ys p ! i" if p: "p = 12 \<or> p = 26" for p
  proof (cases "nat p \<le> i \<or> length xs = length ys")
    case True
    then show ?thesis using assms by (intro ema.before) auto
  next
    case False
    with assms p show ?thesis by (auto simp: EMA_nth)
  qed
  then show ?thesis using assms(2,3) by (simp add: macd_parts nan_sub_def)
qed

interpretation macd_signal: no_lookahead "\<lambda>vals. fst (snd (MACD vals))" 26
proof
  fix i and xs ys :: "float64 list"
  assume a: "26 \<le> i \<or> length xs = length ys" "i < length xs" "i < length ys"
    "\<And>j. j < i \<Longrightarrow> xs ! j = ys ! j"
  show "fst (snd (MACD xs)) ! i = fst (snd (MACD ys)) ! i"
    unfolding macd_parts(2)
  proof (rule ema.before)
    show "fst (MACD xs) ! j = fst (MACD ys) ! j" if "j < i" for j
      using a that by (intro macd_agree) auto
  qed (use a in \<open>auto simp: macd.len\<close>)
qed (simp add: macd_parts ema.len)

interpretation macd_hist: no_lookahead "\<lambda>vals. snd (snd (MACD vals))" 26
proof
  fix i and xs ys :: "float64 list"
  assume a: "26 \<le> i \<or> length xs = length ys" "i < length xs" "i < length ys"
    "\<And>j. j < i \<Longrightarrow> xs ! j = ys ! j"
  show "snd (snd (MACD xs)) ! i = snd (snd (MACD ys)) ! i"
    using a(2,3) macd.before [OF a] macd_signal.before [OF a]
    by (simp only: macd_parts(3) nan_sub_def nth_map nth_upt length_upt) simp
qed (simp add: macd_parts(3))

lemma hv_sum_cong:
  "(\<And>j. a \<le> j \<Longrightarrow> j < b \<Longrightarrow> rs ! j = rs' ! j) \<Longrightarrow> hv_sum rs f a b = hv_sum rs' f a b"
  unfolding hv_sum_def by (intro foldl_index_cong) auto

interpretation hist_vol: no_lookahead "\<lambda>vals. HistoricalVol ln64 vals period" 0 for ln64 period
proof
  fix i and xs ys :: "float64 list"
  assume a: "0 \<le> i \<or> length xs = length ys" "i < length xs" "i < length ys"
    "\<And>j. j < i \<Longrightarrow> xs ! j = ys ! j"
  let ?r = "\<lambda>zs. map (\<lambda>i. if i = 0 then lit 0 else if feq (zs ! (i - 1)) (lit 0) then NaN
                       else ln64 (fdiv (zs ! i) (zs ! (i - 1)))) [0..<length zs]"
  have "hv_sum (?r xs) f (i - period) i = hv_sum (?r ys) f (i - period) i" for f
    using a by (intro hv_sum_cong) auto
  with a(2,3) show "HistoricalVol ln64 xs period ! i = HistoricalVol ln64 ys period ! i"
    unfolding HistoricalVol_def Let_def by (simp add: split_beta cong: if_cong)
qed (simp add: HistoricalVol_def Let_def)

interpretation obv: no_lookahead "\<lambda>bars. OBV (Closes bars) (Volumes bars)" 1
proof
  fix i and xs ys :: "bar list"
  assume a: "1 \<le> i \<or> length xs = length ys" "i < length xs" "i < length ys"
    "\<And>j. j < i \<Longrightarrow> xs ! j = ys ! j"
  show "OBV (Closes xs) (Volumes xs) ! i = OBV (Closes ys) (Volumes ys) ! i"
  proof (cases "i < 2")
    case True
    with a show ?thesis by (auto simp: OBV_def Let_def fill_untouched less_Suc_eq numeral_2_eq_2)
  next
    case False
    with a have n: "\<not> length xs < 2" "\<not> length ys < 2" by auto
    let ?g = "\<lambda>zs x i. if flt (Closes zs ! (i - 2)) (Closes zs ! (i - 1)) then fadd x (of_int64 (Volumes zs ! (i - 1)))
        else if flt (Closes zs ! (i - 1)) (Closes zs ! (i - 2)) then fsub x (of_int64 (Volumes zs ! (i - 1))) else x"
    show ?thesis unfolding OBV_def Let_def length_map if_not_P [OF n(1)] if_not_P [OF n(2)]
      using False a n by (intro fill_agree [where g = "?g xs" and h = "?g ys"]) auto
  qed
qed (simp add: OBV_def Let_def)

lemma MFI_nth:
  assumes "i < length bars"
  shows "MFI (Highs bars) (Lows bars) (Closes bars) (Volumes bars) period ! i =
    (let tp = typical (Highs bars) (Lows bars) (Closes bars);
         (posFlow, negFlow) = foldl (\<lambda>(pos, neg) j.
            if flt (tp (j - 1)) (tp j) then (fadd pos (fmul (tp j) (of_int64 (Volumes bars ! j))), neg)
            else if flt (tp j) (tp (j - 1)) then (pos, fadd neg (fmul (tp j) (of_int64 (Volumes bars ! j))))
            else (pos, neg)) (lit 0, lit 0) [i - period..<i]
     in if length bars < period + 1 then NaN
        else if i \<le> period then lit 0
        else if feq negFlow (lit 0) then lit 100
        else fsub (lit 100) (fdiv (lit 100) (fadd (lit 1) (fdiv posFlow negFlow))))"
proof -
  let ?tp = "typical (Highs bars) (Lows bars) (Closes bars)"
  let ?n = "length bars"
  have "foldl (\<lambda>(pos, neg) j.
          if flt (map ?tp [0..<?n] ! (j - 1)) (map ?tp [0..<?n] ! j)
          then (fadd pos (map (\<lambda>i. fmul (map ?tp [0..<?n] ! i) (of_int64 (Volumes bars ! i))) [0..<?n] ! j), neg)
          else if flt (map ?tp [0..<?n] ! j) (map ?tp [0..<?n] ! (j - 1))
          then (pos, fadd neg (map (\<lambda>i. fmul (map ?tp [0..<?n] ! i) (of_int64 (Volumes bars ! i))) [0..<?n] ! j))
          else (pos, neg)) (lit 0, lit 0) [i - period..<i] =
        foldl (\<lambda>(pos, neg) j.
            if flt (?tp (j - 1)) (?tp j) then (fadd pos (fmul (?tp j) (of_int64 (Volumes bars ! j))), neg)
            else if flt (?tp j) (?tp (j - 1)) then (pos, fadd neg (fmul (?tp j) (of_int64 (Volumes bars ! j))))
            else (pos, neg)) (lit 0, lit 0) [i - period..<i]"
    using assms by (intro foldl_index_cong) auto
  then show ?thesis
    using assms by (simp add: MFI_def Let_def split_beta)
qed

interpretation mfi:
  no_lookahead "\<lambda>bars. MFI (Highs bars) (Lows bars) (Closes bars) (Volumes bars) period" "Suc period" for period
proof
  fix i and xs ys :: "bar list"
  assume a: "Suc period \<le> i \<or> length xs = length ys" "i < length xs" "i < length ys"
    "\<And>j. j < i \<Longrightarrow> xs ! j = ys ! j"
  let ?step = "\<lambda>bars. \<lambda>(pos, neg) j. let tp = typical (Highs bars) (Lows bars) (Closes bars) in
            if flt (tp (j - 1)) (tp j) then (fadd pos (fmul (tp j) (of_int64 (Volumes bars ! j))), neg)
            else if flt (tp j) (tp (j - 1)) then (pos, fadd neg (fmul (tp j) (of_int64 (Volumes bars ! j))))
            else (pos, neg)"
  have "foldl (?step xs) (lit 0, lit 0) [i - period..<i] = foldl (?step ys) (lit 0, lit 0) [i - period..<i]"
    using a by (intro foldl_index_cong) (auto simp: typical_def Let_def cong: if_cong)
  with a(1-3) show "MFI (Highs xs) (Lows xs) (Closes xs) (Volumes xs) period ! i =
      MFI (Highs ys) (Lows ys) (Closes ys) (Volumes ys) period ! i"
    by (auto simp: MFI_nth Let_def)
qed (auto simp: MFI_def Let_def)

section \<open>Indicators with an unguarded read\<close>

lemma those_map_Some: "(\<And>x. x \<in> set xs \<Longrightarrow> f x = Some (g x)) \<Longrightarrow> those (map f xs) = Some (map g xs)"
  by (induction xs) auto

lemma rolling_first: "0 < length vals \<Longrightarrow> rollingExtreme vals (1 + int p) high ! 0 = NaN"
  by (simp add: rollingExtreme_def Let_def)

lemma isnan_NaN [simp]: "isnan NaN" "\<not> isnan (Inf s)" "\<not> isnan (Zero s)" "\<not> isnan (Fin q)"
  by (auto simp: isnan_def)

text \<open>Entry 0 of a rolling extreme is NaN, so \<open>closes[i-1]\<close> is never read at index \<open>-1\<close>.\<close>

definition vs_prev :: "(float64 \<Rightarrow> float64 \<Rightarrow> 'a) \<Rightarrow> 'a \<Rightarrow> float64 list \<Rightarrow> float64 list \<Rightarrow> 'a list" where
  "vs_prev f bad closes refs =
     map (\<lambda>i. if isnan (refs ! i) then bad else f (closes ! (i - 1)) (refs ! i)) [0..<length closes]"

definition pct_of :: "float64 \<Rightarrow> float64 \<Rightarrow> float64" where
  "pct_of c r = (if feq r (lit 0) then NaN else fmul (fsub (fdiv c r) (lit 1)) (lit 100))"

lemma unguarded_ok:
  assumes "length refs = length closes" "closes \<noteq> [] \<Longrightarrow> isnan (refs ! 0)"
  shows "Is52wHigh closes refs = Some (vs_prev (\<lambda>c r. fle r c) False closes refs)"
    and "Is52wLow closes refs = Some (vs_prev (\<lambda>c r. fle c r) False closes refs)"
    and "PctOff52wHigh closes refs = Some (vs_prev pct_of NaN closes refs)"
    and "PctAbove52wLow closes refs = Some (vs_prev pct_of NaN closes refs)"
proof -
  have z: "isnan (refs ! i) \<or> i \<noteq> 0" if "i < length closes" for i
    using that assms(2) by (cases i) auto
  show "Is52wHigh closes refs = Some (vs_prev (\<lambda>c r. fle r c) False closes refs)"
    "Is52wLow closes refs = Some (vs_prev (\<lambda>c r. fle c r) False closes refs)"
    "PctOff52wHigh closes refs = Some (vs_prev pct_of NaN closes refs)"
    "PctAbove52wLow closes refs = Some (vs_prev pct_of NaN closes refs)"
    unfolding Is52wHigh_def Is52wLow_def PctOff52wHigh_def PctAbove52wLow_def vs_prev_def pct_of_def
    by (intro those_map_Some; use z in auto)+
qed

lemma vs_prev_no_lookahead:
  fixes ref :: "bar list \<Rightarrow> float64 list"
  assumes "no_lookahead ref 0" "\<And>bars. bars \<noteq> [] \<Longrightarrow> isnan (ref bars ! 0)"
  shows "no_lookahead (\<lambda>bars. vs_prev f bad (Closes bars) (ref bars)) 0"
proof
  fix i and xs ys :: "bar list"
  assume a: "0 \<le> i \<or> length xs = length ys" "i < length xs" "i < length ys"
    "\<And>j. j < i \<Longrightarrow> xs ! j = ys ! j"
  have r: "ref xs ! i = ref ys ! i"
    using a by (intro no_lookahead.before [OF assms(1)]) auto
  show "vs_prev f bad (Closes xs) (ref xs) ! i = vs_prev f bad (Closes ys) (ref ys) ! i"
  proof (cases "i = 0")
    case True
    with a assms(2) have "isnan (ref xs ! 0)" "isnan (ref ys ! 0)" by auto
    with True a show ?thesis by (auto simp: vs_prev_def)
  next
    case False
    with a r show ?thesis by (auto simp: vs_prev_def)
  qed
qed (simp add: vs_prev_def)

lemma VWAP_first: "bars \<noteq> [] \<Longrightarrow> isnan (VWAP (Highs bars) (Lows bars) (Closes bars) (Volumes bars) (Suc p) ! 0)"
  by (simp add: VWAP_def Let_def)

lemma VWAPDist_ok:
  "VWAPDist (Highs bars) (Lows bars) (Closes bars) (Volumes bars) (Suc p) =
     Some (vs_prev pct_of NaN (Closes bars) (VWAP (Highs bars) (Lows bars) (Closes bars) (Volumes bars) (Suc p)))"
proof -
  have "isnan (VWAP (Highs bars) (Lows bars) (Closes bars) (Volumes bars) (Suc p) ! i) \<or> i \<noteq> 0"
    if "i < length bars" for i
    using that VWAP_first [of bars p] by (cases i) auto
  then show ?thesis
    unfolding VWAPDist_def vs_prev_def pct_of_def Let_def
    by (intro those_map_Some) auto
qed

definition bb_position :: "float64 \<Rightarrow> float64 \<Rightarrow> float64 \<Rightarrow> float64" where
  "bb_position c up low =
     (if isnan up \<or> isnan low then NaN
      else if feq (fsub up low) (lit 0) then lit (1 / 2) else fdiv (fsub c low) (fsub up low))"

lemma BBPctB_ok:
  "BBPctB closes (Suc p) m =
     Some (map (\<lambda>i. bb_position (closes ! (i - 1)) (fst (BollingerBands closes (Suc p) m) ! i)
                      (snd (snd (BollingerBands closes (Suc p) m)) ! i)) [0..<length closes])"
proof -
  have "isnan (fst (BollingerBands closes (Suc p) m) ! i) \<or> i \<noteq> 0" if "i < length closes" for i
    using that by (cases i) (auto simp: BollingerBands_def Let_def)
  then show ?thesis
    unfolding BBPctB_def split_beta bb_position_def Let_def
    by (intro those_map_Some) auto
qed

section \<open>Indicators that read the current bar\<close>

lemma true_range_agree:
  "xs ! k = ys ! k \<Longrightarrow> xs ! (k - 1) = ys ! (k - 1) \<Longrightarrow> k < length xs \<Longrightarrow> k < length ys \<Longrightarrow>
   true_range (Highs xs) (Lows xs) (Closes xs) k = true_range (Highs ys) (Lows ys) (Closes ys) k"
  by (simp add: true_range_def)

interpretation atr: causal "\<lambda>bars. ATR (Highs bars) (Lows bars) (Closes bars) (Suc p)" "Suc p" for p
proof
  fix i and xs ys :: "bar list"
  assume a: "Suc p \<le> i \<or> length xs = length ys" "i < length xs" "i < length ys"
    "\<And>j. j \<le> i \<Longrightarrow> xs ! j = ys ! j"
  let ?tr = "\<lambda>bars. map (\<lambda>i. if i = 0 then lit 0 else true_range (Highs bars) (Lows bars) (Closes bars) i) [0..<length bars]"
  let ?g = "\<lambda>bars x i. fdiv (fadd (fmul x (of_int64 (int (Suc p) - 1))) (?tr bars ! i)) (of_int64 (int (Suc p)))"
  have tr: "?tr xs ! k = ?tr ys ! k" if "k \<le> i" for k
    using that a true_range_agree [of xs k ys] by simp
  show "ATR (Highs xs) (Lows xs) (Closes xs) (Suc p) ! i = ATR (Highs ys) (Lows ys) (Closes ys) (Suc p) ! i"
  proof (cases "Suc p \<le> i")
    case True
    have n: "\<not> length xs < Suc p + 1" "\<not> length ys < Suc p + 1" using True a by auto
    have seed: "sum_range (\<lambda>i. ?tr xs ! i) 1 (Suc p + 1) = sum_range (\<lambda>i. ?tr ys ! i) 1 (Suc p + 1)"
      using True by (intro sum_range_cong) (auto simp del: nth_map intro!: tr)
    show ?thesis
    proof (cases "i = Suc p")
      case True
      with n show ?thesis unfolding ATR_def Let_def length_map if_not_P [OF n(1)] if_not_P [OF n(2)] seed
        by (simp add: fill_untouched)
    next
      case False
      with \<open>Suc p \<le> i\<close> a n show ?thesis
        unfolding ATR_def Let_def length_map if_not_P [OF n(1)] if_not_P [OF n(2)] seed
        by (intro fill_agree [where g = "?g xs" and h = "?g ys"]) (auto simp del: nth_map simp: tr)
    qed
  next
    case False
    with a show ?thesis by (auto simp: ATR_def Let_def fill_untouched)
  qed
qed (simp add: ATR_def Let_def)

interpretation cmf:
  causal "\<lambda>bars. CMF (Highs bars) (Lows bars) (Closes bars) (Volumes bars) period" 0 for period
  by unfold_locales (auto simp: CMF_def cmf_flow_def Let_def cong: if_cong)

lemma foldl_pair_bound:
  "(\<And>hi lo j. j \<in> set js \<Longrightarrow> hi \<le> b \<Longrightarrow> lo \<le> b \<Longrightarrow> fst (f (hi, lo) j) \<le> b \<and> snd (f (hi, lo) j) \<le> b) \<Longrightarrow>
   fst s \<le> b \<Longrightarrow> snd s \<le> b \<Longrightarrow> fst (foldl f s js) \<le> b \<and> snd (foldl f s js) \<le> (b::nat)"
  by (rule foldl_invariant [where P = "\<lambda>s. fst s \<le> b \<and> snd s \<le> b"]) auto

lemma foldl_cong_on:
  assumes "P s" "\<And>s j. j \<in> set js \<Longrightarrow> P s \<Longrightarrow> f s j = g s j \<and> P (g s j)"
  shows "foldl f s js = foldl g s js"
  using assms by (induction js arbitrary: s) auto

lemma aroon_agree:
  assumes "\<And>j. j \<le> i \<Longrightarrow> xs ! j = ys ! j" "i < length xs" "i < length ys"
  shows "aroon_extremes (Highs xs) (Lows xs) p i = aroon_extremes (Highs ys) (Lows ys) p i"
  unfolding aroon_extremes_def
  using assms by (intro foldl_cong_on [where P = "\<lambda>(hi, lo). hi \<le> i \<and> lo \<le> i"]) auto

interpretation aroon_up: causal "\<lambda>bars. fst (Aroon (Highs bars) (Lows bars) period)" 0 for period
proof
  fix i and xs ys :: "bar list"
  assume a: "0 \<le> i \<or> length xs = length ys" "i < length xs" "i < length ys"
    "\<And>j. j \<le> i \<Longrightarrow> xs ! j = ys ! j"
  show "fst (Aroon (Highs xs) (Lows xs) period) ! i = fst (Aroon (Highs ys) (Lows ys) period) ! i"
    using a(2,3) aroon_agree [OF a(4,2,3)] by (simp add: Aroon_def Let_def)
qed (simp add: Aroon_def Let_def)

interpretation aroon_down: causal "\<lambda>bars. fst (snd (Aroon (Highs bars) (Lows bars) period))" 0 for period
proof
  fix i and xs ys :: "bar list"
  assume a: "0 \<le> i \<or> length xs = length ys" "i < length xs" "i < length ys"
    "\<And>j. j \<le> i \<Longrightarrow> xs ! j = ys ! j"
  show "fst (snd (Aroon (Highs xs) (Lows xs) period)) ! i = fst (snd (Aroon (Highs ys) (Lows ys) period)) ! i"
    using a(2,3) aroon_agree [OF a(4,2,3)] by (simp add: Aroon_def Let_def)
qed (simp add: Aroon_def Let_def)

interpretation ult_osc:
  causal "\<lambda>bars. UltimateOsc (Highs bars) (Lows bars) (Closes bars) p1 p2 p3" "Suc p3" for p1 p2 p3
proof
  fix i and xs ys :: "bar list"
  assume a: "Suc p3 \<le> i \<or> length xs = length ys" "i < length xs" "i < length ys"
    "\<And>j. j \<le> i \<Longrightarrow> xs ! j = ys ! j"
  let ?bp = "\<lambda>bars j. fsub (Closes bars ! j) (fmin (Lows bars ! j) (Closes bars ! j))"
  let ?tr = "\<lambda>bars j. fsub (fmax (Highs bars ! j) (Closes bars ! j)) (fmin (Lows bars ! j) (Closes bars ! j))"
  have "sum_range (\<lambda>j. map (?bp xs) [0..<length xs] ! j) (Suc i - p) (Suc i) =
        sum_range (\<lambda>j. map (?bp ys) [0..<length ys] ! j) (Suc i - p) (Suc i)"
       "sum_range (\<lambda>j. map (?tr xs) [0..<length xs] ! j) (Suc i - p) (Suc i) =
        sum_range (\<lambda>j. map (?tr ys) [0..<length ys] ! j) (Suc i - p) (Suc i)" for p
    using a by (intro sum_range_cong; simp)+
  note s = this
  consider "length xs < p3 + 2" "length ys < p3 + 2" | "i < p3" | "\<not> i < p3" "\<not> length xs < p3 + 2" "\<not> length ys < p3 + 2"
    using a(1-3) by fastforce
  then show "UltimateOsc (Highs xs) (Lows xs) (Closes xs) p1 p2 p3 ! i =
      UltimateOsc (Highs ys) (Lows ys) (Closes ys) p1 p2 p3 ! i"
  proof cases
    case 1
    with a(2,3) show ?thesis by (simp add: UltimateOsc_def)
  next
    case 2
    with a(2,3) show ?thesis by (simp add: UltimateOsc_def Let_def)
  next
    case 3
    with a(2,3) show ?thesis
      unfolding UltimateOsc_def Let_def length_map
      by (simp only: if_False nth_map length_upt nth_upt diff_zero add_0_left s)
  qed
qed (simp add: UltimateOsc_def Let_def)

end
