(* ===== verification/Indicator_Ranges.thy ===== *)
theory Indicator_Ranges
  imports Indicator_Laws
begin

text \<open>
  What the indicators compute: bounds of the oscillators under rounding, rolling
  extremes as maxima and minima of the window, the recurrence of the exponential
  average, and the values found in warm-up positions.
\<close>

section \<open>Values that are NaN or not negative\<close>

definition nn :: "float64 \<Rightarrow> bool" where
  "nn x \<longleftrightarrow> isnan x \<or> fle (lit 0) x"

lemma nn_iff: "nn x \<longleftrightarrow> x = NaN \<or> x = Inf False \<or> fin x \<and> 0 \<le> val x"
  by (cases x) (auto simp: nn_def fle_iff isnan_def fin_def)

lemma nn_simps [simp]: "nn NaN" "nn (Zero s)" "nn (lit 0)" "nn (Inf False)" "nn (Fin q) \<longleftrightarrow> 0 \<le> q"
  by (auto simp: nn_iff)

lemma nn_cases:
  assumes "nn x"
  obtains "x = NaN" | "x = Inf False" | s where "x = Zero s" | q where "x = Fin q" "0 \<le> q"
  using assms by (cases x) (auto simp: nn_iff)

lemma nn_rnd [simp]: "0 \<le> q \<Longrightarrow> nn (rnd s q)"
  using fle_rnd [of 0 q False s] by (simp add: nn_def)

lemma nn_of_int64: "0 \<le> i \<Longrightarrow> nn (of_int64 i)"
  by (simp add: of_int64_def)

lemma nn_fadd: "nn x \<Longrightarrow> nn y \<Longrightarrow> nn (fadd x y)"
  by (elim nn_cases) (auto simp: fadd_def isnan_def)

lemma nn_fdiv: "nn x \<Longrightarrow> nn y \<Longrightarrow> \<not> feq y (lit 0) \<Longrightarrow> nn (fdiv x y)"
  by (elim nn_cases) (auto simp: fdiv_def isnan_def feq_def Let_def not_less)

lemma nn_fmul: "nn x \<Longrightarrow> nn y \<Longrightarrow> nn (fmul x y)"
  by (elim nn_cases) (auto simp: fmul_def isnan_def Let_def not_less)

text \<open>An integer constant of the source is never a zero or a NaN, unless it is 0.\<close>

lemma pos_const:
  assumes "1 \<le> i" shows "nn (of_int64 i)" "\<not> feq (of_int64 i) (lit 0)"
proof -
  have "fle (lit 1) (of_int64 i)"
    unfolding of_int64_def lit_def using assms by (intro fle_rnd) simp
  then show "nn (of_int64 i)" "\<not> feq (of_int64 i) (lit 0)"
    by (cases "of_int64 i"; auto simp: fle_iff feq_def isnan_def split: if_splits)+
qed

lemma nn_not_fle: "\<not> fle (lit 0) d \<Longrightarrow> nn (fneg d)"
  by (cases d) (auto simp: fle_iff isnan_def split: if_splits)

lemma nn_sum_range: "(\<And>j. a \<le> j \<Longrightarrow> j < b \<Longrightarrow> nn (f j)) \<Longrightarrow> nn (sum_range f a b)"
  unfolding sum_range_def by (rule foldl_invariant [where P = nn]) (auto intro: nn_fadd)

section \<open>The bounded ratio of RSI and MFI\<close>

lemma ratio_ranged:
  assumes "nn rs"
  shows "isnan (fsub (lit 100) (fdiv (lit 100) (fadd (lit 1) rs))) \<or>
         ranged 0 100 (fsub (lit 100) (fdiv (lit 100) (fadd (lit 1) rs)))"
proof -
  have h: "lit 100 = Fin 100" by (rule lit_numeral) simp
  have fin: "ranged 0 100 (fsub (lit 100) z)" if "ranged 0 100 z" for z
  proof -
    have z: "fin z" "0 \<le> val z" "val z \<le> 100" using ranged_fin [OF that] by simp_all
    obtain s where "fsub (lit 100) z = rnd s (100 - val z)" using fsub_fin [of "lit 100" z] z(1) by (auto simp: h)
    with z show ?thesis by (simp add: ranged_rnd)
  qed
  consider "rs = NaN" | "rs = Inf False" | "fin rs" "0 \<le> val rs" using assms by (auto simp: nn_iff)
  then show ?thesis
  proof cases
    case 1
    then show ?thesis by (simp add: fadd_def fdiv_def fsub_def isnan_def Let_def)
  next
    case 2
    have "ranged 0 100 (Zero False)" using ranged_rnd [of 0 0 100 False] by simp
    with 2 fin [of "Zero False"] show ?thesis by (simp add: fadd_def fdiv_def isnan_def Let_def h)
  next
    case 3
    then obtain s where y: "fadd (lit 1) rs = rnd s (1 + val rs)" using fadd_fin [of "lit 1" rs] by auto
    have ge: "fle (lit 1) (fadd (lit 1) rs)" unfolding y unfolding lit_def using 3 by (intro fle_rnd) simp
    show ?thesis
    proof (cases "is_inf (fadd (lit 1) rs)")
      case True
      with ge have "fadd (lit 1) rs = Inf False"
        by (cases "fadd (lit 1) rs") (auto simp: fle_iff split: if_splits)
      moreover have "ranged 0 100 (Zero False)" using ranged_rnd [of 0 0 100 False] by simp
      ultimately show ?thesis using fin [of "Zero False"] by (simp add: fdiv_def isnan_def Let_def h)
    next
      case False
      then have v: "fin (fadd (lit 1) rs)" "1 \<le> val (fadd (lit 1) rs)"
        using ge by (cases "fadd (lit 1) rs"; auto simp: fle_iff fin_def isnan_def split: if_splits)+
      then obtain t where t: "fdiv (lit 100) (fadd (lit 1) rs) = rnd t (100 / val (fadd (lit 1) rs))"
        using fdiv_fin [of "lit 100" "fadd (lit 1) rs"] by (auto simp: h)
      have "ranged 0 100 (fdiv (lit 100) (fadd (lit 1) rs))"
        unfolding t using v(2) by (intro ranged_rnd) (auto simp: divide_le_eq)
      with fin show ?thesis by blast
    qed
  qed
qed

section \<open>RSI\<close>

definition nn2 :: "float64 \<times> float64 \<Rightarrow> bool" where
  "nn2 p \<longleftrightarrow> nn (fst p) \<and> nn (snd p)"

lemma nn_gain_loss:
  "fle (lit 0) d \<Longrightarrow> nn d" "\<not> fle (lit 0) d \<Longrightarrow> nn x \<Longrightarrow> nn (fsub x d)"
  unfolding fsub_def by (simp add: nn_def) (rule nn_fadd [OF _ nn_not_fle])

lemma rsi_avg_nn:
  assumes "1 \<le> period"
  shows "nn2 (rsi_avg closes period i)"
proof -
  have seed: "nn2 (rsi_seed closes p)" for p
    unfolding rsi_seed_def
  proof (rule foldl_invariant [where P = nn2])
    fix s :: "float64 \<times> float64" and j
    assume "nn2 s"
    then show "nn2 ((\<lambda>(gain, loss) i. let d = fsub (closes ! i) (closes ! (i - 1)) in
        if fle (lit 0) d then (fadd gain d, loss) else (gain, fsub loss d)) s j)"
      by (cases s) (auto simp: nn2_def Let_def nn_gain_loss nn_fadd)
  qed (simp add: nn2_def)
  have div: "nn (fdiv x (of_int64 period))" if "nn x" for x
    using that pos_const [OF assms] by (intro nn_fdiv)
  have mul: "nn (fmul x (of_int64 (period - 1)))" if "nn x" for x
    using that assms by (intro nn_fmul nn_of_int64) auto
  have step: "nn2 (rsi_smooth closes period s j)" if "nn2 s" for s j
    using that by (cases s) (auto simp: nn2_def rsi_smooth_def Let_def nn_gain_loss nn_not_fle
        intro!: div nn_fadd mul split: if_splits)
  show ?thesis
    unfolding rsi_avg_def split_beta
    by (rule foldl_invariant [where P = nn2])
       (use seed [of "nat period"] in \<open>auto simp: nn2_def intro!: div step [unfolded nn2_def]\<close>)
qed

lemma rsiFrom_range:
  assumes "nn g" "nn l"
  shows "isnan (rsiFrom g l) \<or> ranged 0 100 (rsiFrom g l)"
proof -
  have "ranged 0 100 (lit 50)" "ranged 0 100 (lit 100)"
    unfolding lit_def by (intro ranged_rnd; simp)+
  moreover have "\<not> feq l (lit 0) \<Longrightarrow> nn (fdiv g l)" using assms by (rule nn_fdiv)
  ultimately show ?thesis using ratio_ranged [of "fdiv g l"] by (auto simp: rsiFrom_def Let_def)
qed

text \<open>
  On every series of float64 closes, finite or not, and for every period, each
  RSI value is NaN or lies between 0 and 100 in spite of the rounding of every
  operation; before index period+1 it is NaN.
\<close>

theorem rsi_bounded:
  assumes "i < length closes"
  shows "(isnan (RSI closes period ! i) \<or> ranged 0 100 (RSI closes period ! i)) \<and>
         (i \<le> nat period \<longrightarrow> isnan (RSI closes period ! i))"
proof (cases "period < 1 \<or> i \<le> nat period")
  case True
  with assms show ?thesis by (auto simp: RSI_nth)
next
  case False
  obtain g l where gl: "rsi_avg closes period i = (g, l)" by fastforce
  with False rsi_avg_nn [of period closes i] have "nn g" "nn l" by (auto simp: nn2_def)
  with False assms gl rsiFrom_range [of g l] show ?thesis by (auto simp: RSI_nth)
qed

text \<open>Up, down, flat, down: with period 2 the value at index 3 is defined.\<close>

definition few_closes :: "float64 list" where
  "few_closes = [Fin 10, Fin 12, Fin 11, Fin 11, Fin 9]"

theorem rsi_bounded_witness:
  "\<not> isnan (RSI few_closes 2 ! 3) \<and> ranged 0 100 (RSI few_closes 2 ! 3)"
proof -
  have "rsi_avg few_closes 2 3 = (fdiv (lit 2) (of_int64 2), fdiv (lit 1) (of_int64 2))" by code_simp
  moreover have "\<not> isnan (rsiFrom (fdiv (lit 2) (of_int64 2)) (fdiv (lit 1) (of_int64 2)))" by code_simp
  ultimately have "\<not> isnan (RSI few_closes 2 ! 3)" by (simp add: RSI_nth few_closes_def)
  then show ?thesis using rsi_bounded [of 3 few_closes 2] by (simp add: few_closes_def)
qed

section \<open>MFI\<close>

definition honest_bar :: "bar \<Rightarrow> bool" where
  "honest_bar b \<longleftrightarrow> fle (lit 0) (b_Low b) \<and> fle (b_Low b) (b_Close b) \<and>
     fle (b_Close b) (b_High b) \<and> fin (b_High b) \<and> 0 \<le> b_Volume b"

text \<open>
  on bars whose low, close and high are finite, ordered and not negative and whose
  volume is not negative, each MFI value after the warm-up is NaN or lies between 0
  and 100.
\<close>

theorem mfi_bounded:
  assumes "\<forall>b \<in> set bars. honest_bar b" and "period < i" "i < length bars"
  shows "isnan (MFI (Highs bars) (Lows bars) (Closes bars) (Volumes bars) period ! i) \<or>
         ranged 0 100 (MFI (Highs bars) (Lows bars) (Closes bars) (Volumes bars) period ! i)"
proof -
  let ?tp = "typical (Highs bars) (Lows bars) (Closes bars)"
  let ?f = "\<lambda>(pos, neg) j.
            if flt (?tp (j - 1)) (?tp j) then (fadd pos (fmul (?tp j) (of_int64 (Volumes bars ! j))), neg)
            else if flt (?tp j) (?tp (j - 1)) then (pos, fadd neg (fmul (?tp j) (of_int64 (Volumes bars ! j))))
            else (pos, neg)"
  have three: "nn (lit 3)" "\<not> feq (lit 3) (lit 0)"
    using pos_const [of 3] by (simp_all add: lit_def of_int64_def)
  have tp: "nn (?tp j)" and vol: "nn (of_int64 (Volumes bars ! j))" if "j < i" for j
  proof -
    have h: "honest_bar (bars ! j)" using assms that by simp
    then have "nn (b_High (bars ! j))" "nn (b_Low (bars ! j))" "nn (b_Close (bars ! j))"
      using fle_trans [of "lit 0" "b_Low (bars ! j)" "b_Close (bars ! j)"]
        fle_trans [of "lit 0" "b_Close (bars ! j)" "b_High (bars ! j)"] by (simp_all add: honest_bar_def nn_def)
    then show "nn (?tp j)"
      using that assms three by (auto simp: typical_def intro!: nn_fdiv nn_fadd)
    show "nn (of_int64 (Volumes bars ! j))"
      using h that assms by (auto simp: honest_bar_def intro: nn_of_int64)
  qed
  have flows: "nn2 (foldl ?f (lit 0, lit 0) [i - period..<i])"
  proof (rule foldl_invariant [where P = nn2])
    fix s :: "float64 \<times> float64" and j
    assume "j \<in> set [i - period..<i]" "nn2 s"
    then show "nn2 (?f s j)"
      using tp [of j] vol [of j] by (cases s) (auto simp: nn2_def intro!: nn_fadd nn_fmul)
  qed (simp add: nn2_def)
  obtain p n where pn: "foldl ?f (lit 0, lit 0) [i - period..<i] = (p, n)" by fastforce
  have "nn (fdiv p n)" if "\<not> feq n (lit 0)"
    using flows that unfolding pn by (intro nn_fdiv) (auto simp: nn2_def)
  moreover have "ranged 0 100 (lit 100)" unfolding lit_def by (intro ranged_rnd) simp_all
  ultimately show ?thesis
    using assms pn ratio_ranged [of "fdiv p n"] by (auto simp: MFI_nth Let_def)
qed

definition few_bars :: "bar list" where
  "few_bars = map (\<lambda>c. \<lparr>b_Symbol = ''A'', b_Timestamp = 0, b_Open = Fin c, b_High = Fin (c + 1),
      b_Low = Fin (c - 1), b_Close = Fin c, b_Volume = 100, b_VWAP = Fin c, b_Source = []\<rparr>) [10, 12, 11, 11]"

theorem mfi_bounded_witness:
  "\<not> isnan (MFI (Highs few_bars) (Lows few_bars) (Closes few_bars) (Volumes few_bars) 2 ! 3) \<and>
   ranged 0 100 (MFI (Highs few_bars) (Lows few_bars) (Closes few_bars) (Volumes few_bars) 2 ! 3)"
proof -
  have "\<not> isnan (MFI (Highs few_bars) (Lows few_bars) (Closes few_bars) (Volumes few_bars) 2 ! 3)"
    by code_simp
  moreover have "\<forall>b \<in> set few_bars. honest_bar b" by code_simp
  moreover have "3 < length few_bars" by (simp add: few_bars_def)
  ultimately show ?thesis using mfi_bounded [of few_bars 2 3] by simp
qed

section \<open>Rolling extremes\<close>

lemma extreme_fold:
  assumes "\<not> isnan e" "\<forall>v \<in> set vs. \<not> isnan v"
  shows "foldl (\<lambda>ext v. if high \<and> flt ext v \<or> \<not> high \<and> flt v ext then v else ext) e vs \<in> insert e (set vs) \<and>
    (\<forall>v \<in> insert e (set vs). if high
        then fle v (foldl (\<lambda>ext v. if high \<and> flt ext v \<or> \<not> high \<and> flt v ext then v else ext) e vs)
        else fle (foldl (\<lambda>ext v. if high \<and> flt ext v \<or> \<not> high \<and> flt v ext then v else ext) e vs) v)"
  using assms
proof (induction vs arbitrary: e)
  case Nil
  then show ?case by (simp add: fle_refl)
next
  case (Cons v vs)
  let ?e = "if high \<and> flt e v \<or> \<not> high \<and> flt v e then v else e"
  have "\<not> isnan ?e" using Cons.prems by auto
  note ih = Cons.IH [OF this]
  have ev: "if high then fle e ?e \<and> fle v ?e else fle ?e e \<and> fle ?e v"
    using Cons.prems by (auto simp: fle_iff flt_def)
  show ?case
    using ih Cons.prems ev by (auto split: if_splits intro: fle_trans)
qed

lemma rolling_window:
  assumes "1 \<le> period" "nat period \<le> i" "i < length vals"
  shows "set (drop (i - nat period + 1) (take i vals)) \<union> {vals ! (i - nat period)} =
         (\<lambda>j. vals ! j) ` {i - nat period..<i}"
proof -
  have "drop (i - nat period) (take i vals) = vals ! (i - nat period) # drop (i - nat period + 1) (take i vals)"
    using assms by (subst Cons_nth_drop_Suc [symmetric]) auto
  moreover have "drop (i - nat period) (take i vals) = map (\<lambda>j. vals ! j) [i - nat period..<i]"
    using assms by (intro nth_equalityI) auto
  ultimately have "set (vals ! (i - nat period) # drop (i - nat period + 1) (take i vals)) =
      set (map (\<lambda>j. vals ! j) [i - nat period..<i])" by simp
  then show ?thesis by auto
qed

text \<open>
  Once the window is full and holds no NaN, \<open>RollingHigh\<close> is the maximum and
  \<open>RollingLow\<close> the minimum of exactly the \<open>period\<close> values before bar \<open>i\<close>; earlier
  positions are NaN.
\<close>

theorem rolling_extremes_exact:
  assumes "1 \<le> period" "i < length vals" "\<forall>j \<in> {i - nat period..<i}. \<not> isnan (vals ! j)"
  shows "if nat period \<le> i
     then (\<exists>j \<in> {i - nat period..<i}. RollingHigh vals period ! i = vals ! j \<and>
             (\<forall>k \<in> {i - nat period..<i}. fle (vals ! k) (vals ! j))) \<and>
          (\<exists>j \<in> {i - nat period..<i}. RollingLow vals period ! i = vals ! j \<and>
             (\<forall>k \<in> {i - nat period..<i}. fle (vals ! j) (vals ! k)))
     else isnan (RollingHigh vals period ! i) \<and> isnan (RollingLow vals period ! i)"
proof (cases "nat period \<le> i")
  case False
  with assms show ?thesis
    by (auto simp: RollingHigh_def RollingLow_def rollingExtreme_def Let_def)
next
  case True
  let ?W = "{i - nat period..<i}" and ?vs = "drop (i - nat period + 1) (take i vals)"
  let ?e = "vals ! (i - nat period)"
  have W: "insert ?e (set ?vs) = (\<lambda>j. vals ! j) ` ?W"
    using rolling_window [OF assms(1) True assms(2)] by auto
  then have "\<forall>v \<in> insert ?e (set ?vs). \<not> isnan v" using assms(3) by auto
  then have ok: "\<not> isnan ?e" "\<forall>v \<in> set ?vs. \<not> isnan v" by auto
  have nth: "rollingExtreme vals period high ! i =
      foldl (\<lambda>ext v. if high \<and> flt ext v \<or> \<not> high \<and> flt v ext then v else ext) ?e ?vs" for high
    using assms True by (auto simp: rollingExtreme_def Let_def)
  have hi: "rollingExtreme vals period True ! i \<in> (\<lambda>j. vals ! j) ` ?W \<and>
      (\<forall>v \<in> (\<lambda>j. vals ! j) ` ?W. fle v (rollingExtreme vals period True ! i))"
    using extreme_fold [OF ok, of True] unfolding W nth by simp
  have lo: "rollingExtreme vals period False ! i \<in> (\<lambda>j. vals ! j) ` ?W \<and>
      (\<forall>v \<in> (\<lambda>j. vals ! j) ` ?W. fle (rollingExtreme vals period False ! i) v)"
    using extreme_fold [OF ok, of False] unfolding W nth by simp
  from hi lo True show ?thesis unfolding RollingHigh_def RollingLow_def by auto
qed

theorem rolling_extremes_exact_witness:
  "\<exists>j \<in> {1..<4}. RollingHigh few_closes 3 ! 4 = few_closes ! j \<and>
     (\<forall>k \<in> {1..<4}. fle (few_closes ! k) (few_closes ! j))"
proof -
  have "4 < length few_closes" by (simp add: few_closes_def)
  moreover have "list_all (\<lambda>j. \<not> isnan (few_closes ! j)) [1..<4]" by code_simp
  then have "\<forall>j \<in> {4 - nat 3..<4}. \<not> isnan (few_closes ! j)"
    by (simp add: list_all_iff)
  ultimately have "\<exists>j \<in> {4 - nat 3..<4}. RollingHigh few_closes 3 ! 4 = few_closes ! j \<and>
      (\<forall>k \<in> {4 - nat 3..<4}. fle (few_closes ! k) (few_closes ! j))"
    using rolling_extremes_exact [of 3 4 few_closes] by simp
  then show ?thesis by simp
qed

section \<open>The exponential average and its users\<close>

text \<open>
  \<open>EMA\<close> is the seeded recurrence: at index \<open>period\<close> the mean of the first
  \<open>period\<close> values, then \<open>(v - e) * 2/(period+1) + e\<close> with the value and the average of the
  bar before. Before \<open>period\<close> a series long enough holds zeros, not the NaN that the
  package comment promises.
\<close>

theorem ema_recurrence:
  assumes "1 \<le> period" "period < int (length vals)" "i < length vals"
  shows "EMA vals period ! i =
    (if i < nat period then lit 0
     else if i = nat period then fdiv (sum_range (\<lambda>j. vals ! j) 0 (nat period)) (of_int64 period)
     else fadd (fmul (fsub (vals ! (i - 1)) (EMA vals period ! (i - 1))) (fdiv (lit 2) (of_int64 (period + 1))))
            (EMA vals period ! (i - 1)))"
proof -
  have c: "\<not> (period < 1 \<or> int (length vals) \<le> period)" using assms by auto
  let ?p = "nat period" and ?m = "fdiv (lit 2) (of_int64 (period + 1))"
  let ?out = "(zeros (length vals))[?p := fdiv (sum_range (\<lambda>j. vals ! j) 0 ?p) (of_int64 period)]"
  let ?g = "\<lambda>x i. fadd (fmul (fsub (vals ! (i - 1)) x) ?m) x"
  let ?F = "fill (\<lambda>out i. ?g (out ! (i - 1)) i) ?out [?p + 1..<length vals]"
  have E: "EMA vals period = ?F" unfolding EMA_def Let_def if_not_P [OF c] ..
  consider "i \<le> ?p" | "?p + 1 \<le> i" by linarith
  then show ?thesis
  proof cases
    case 1
    with assms show ?thesis unfolding E by (auto simp: fill_untouched)
  next
    case 2
    then have "?F ! i = ?g (?F ! (i - 1)) i"
      using assms(3) by (intro fill_rec) auto
    with 2 show ?thesis unfolding E by simp
  qed
qed

theorem ema_recurrence_witness:
  "EMA few_closes 2 ! 1 = lit 0 \<and> EMA few_closes 2 ! 2 = fdiv (fadd (fadd (lit 0) (Fin 10)) (Fin 12)) (of_int64 2)"
  using ema_recurrence [of 2 few_closes 1] ema_recurrence [of 2 few_closes 2]
  by (simp add: few_closes_def sum_range_def upt_rec)

text \<open>
  the MACD line of a series longer than 26 bars starts with the fast average minus
  zero: through index 25 it is \<open>EMA12 - 0\<close>, a price and not a difference, so the
  first nine entries average to a signal seed of zero whatever the prices, and entries
  12 to 25 enter the signal line at price level.
\<close>

theorem macd_warmup_not_nan:
  assumes "26 < length closes" "i < 26"
  shows "fst (MACD closes) ! i = fsub (EMA closes 12 ! i) (lit 0) \<and>
         (i < 12 \<longrightarrow> fst (MACD closes) ! i = lit 0) \<and>
         fst (snd (MACD closes)) ! 9 = lit 0"
proof -
  have warm: "EMA closes p ! j = lit 0" if "j < nat p" "p \<le> 26" "j < 26" for p j
    using assms that by (simp add: EMA_nth)
  have m: "fst (MACD closes) ! j = fsub (EMA closes 12 ! j) (lit 0)" if "j < 26" for j
    using that assms warm [of j 26] by (auto simp: macd_parts nan_sub_def isnan_def fsub_def fadd_def)
  have m0: "fst (MACD closes) ! j = lit 0" if "j < 12" for j
    using that m [of j] warm [of j 12] by (simp add: fsub_def fadd_def)
  have "sum_range (\<lambda>j. fst (MACD closes) ! j) 0 9 = sum_range (\<lambda>j. lit 0) 0 9"
    by (intro sum_range_cong refl m0) simp
  also have "\<dots> = lit 0" by code_simp
  finally have "fdiv (sum_range (\<lambda>j. fst (MACD closes) ! j) 0 9) (of_int64 9) = lit 0"
    using rnd_int [of 9 False] by (simp add: of_int64_def fdiv_def Let_def)
  then have "fst (snd (MACD closes)) ! 9 = lit 0"
    using assms by (simp add: macd_parts(2) EMA_nth macd.len fill_untouched)
  with m [OF assms(2)] m0 [of i] show ?thesis by blast
qed

definition flat_closes :: "float64 list" where "flat_closes = replicate 27 (Fin 128)"

theorem macd_warmup_not_nan_witness:
  "fst (MACD flat_closes) ! 12 = Fin 128 \<and> fst (snd (MACD flat_closes)) ! 9 = lit 0"
proof -
  have "fdiv (sum_range (\<lambda>j. replicate 12 (Fin 128) ! j) 0 12) (of_int64 12) = Fin 128"
    by code_simp
  moreover have "sum_range (\<lambda>j. flat_closes ! j) 0 12 = sum_range (\<lambda>j. replicate 12 (Fin 128) ! j) 0 12"
    by (intro sum_range_cong) (auto simp: flat_closes_def)
  ultimately have "EMA flat_closes 12 ! 12 = Fin 128"
    by (simp add: EMA_nth flat_closes_def fill_untouched)
  moreover have "fsub (Fin 128) (lit 0) = Fin 128" by code_simp
  ultimately show ?thesis
    using macd_warmup_not_nan [of flat_closes 12] by (simp add: flat_closes_def)
qed

definition last_bar_moves :: "(bar list \<Rightarrow> float64 list) \<Rightarrow> bool" where
  "last_bar_moves ind \<longleftrightarrow> (\<exists>bars b c. ind (bars @ [b]) ! length bars \<noteq> ind (bars @ [c]) ! length bars)"

definition day :: "rat \<Rightarrow> rat \<Rightarrow> rat \<Rightarrow> bar" where
  "day l c h = \<lparr>b_Symbol = ''A'', b_Timestamp = 0, b_Open = Fin c, b_High = Fin h, b_Low = Fin l,
     b_Close = Fin c, b_Volume = 100, b_VWAP = Fin c, b_Source = []\<rparr>"

definition quiet :: "bar list" where "quiet = [day 9 10 11, day 9 10 11, day 9 10 11]"
definition wild :: "bar list" where "wild = [day 9 10 11, day 9 10 11, day 4 9 10]"

lemma last_bar_movesI:
  "ind quiet ! 2 \<noteq> ind wild ! 2 \<Longrightarrow> last_bar_moves ind"
  unfolding last_bar_moves_def quiet_def wild_def
  by (intro exI [of _ "[day 9 10 11, day 9 10 11]"] exI [of _ "day 9 10 11"] exI [of _ "day 4 9 10"])
     (simp add: numeral_2_eq_2)

text \<open>
  the package comment promises that every value at index \<open>i\<close> is computed from bars
  before \<open>i\<close>; \<open>ATR\<close>, \<open>CMF\<close> and \<open>Aroon\<close> read bar \<open>i\<close>: two histories
  that agree before the last bar give different values on it.
\<close>

theorem three_indicators_look_ahead:
  "last_bar_moves (\<lambda>bars. ATR (Highs bars) (Lows bars) (Closes bars) 2) \<and>
   last_bar_moves (\<lambda>bars. CMF (Highs bars) (Lows bars) (Closes bars) (Volumes bars) 2) \<and>
   last_bar_moves (\<lambda>bars. fst (Aroon (Highs bars) (Lows bars) 2))"
proof (intro conjI last_bar_movesI)
  show "ATR (Highs quiet) (Lows quiet) (Closes quiet) 2 ! 2 \<noteq> ATR (Highs wild) (Lows wild) (Closes wild) 2 ! 2"
    by code_simp
  show "CMF (Highs quiet) (Lows quiet) (Closes quiet) (Volumes quiet) 2 ! 2 \<noteq>
      CMF (Highs wild) (Lows wild) (Closes wild) (Volumes wild) 2 ! 2"
    by code_simp
  show "fst (Aroon (Highs quiet) (Lows quiet) 2) ! 2 \<noteq> fst (Aroon (Highs wild) (Lows wild) 2) ! 2"
    by code_simp
qed

end
