(* ===== verification/Screen_Row.thy ===== *)
theory Screen_Row
  imports Indicator_Laws
begin

text \<open>
  \<open>screen.SnapshotRow\<close> and \<open>screen.Build\<close> of \<open>internal/screen/screen.go\<close>: the row of
  one symbol, with every indicator read at the last bar. An index out of range in one
  of the six indicators that read \<open>closes[i-1]\<close> without a guard would panic.
\<close>

record snapshot_row =
  r_Symbol :: string
  r_Close :: float64
  r_High :: float64
  r_Low :: float64
  r_Open :: float64
  r_SMA5 :: float64
  r_SMA10 :: float64
  r_SMA20 :: float64
  r_SMA30 :: float64
  r_SMA50 :: float64
  r_SMA100 :: float64
  r_SMA200 :: float64
  r_EMA10 :: float64
  r_EMA21 :: float64
  r_EMA50 :: float64
  r_EMA100 :: float64
  r_EMA200 :: float64
  r_PctFromSMA50 :: float64
  r_PctFromSMA200 :: float64
  r_MAStack :: bool
  r_RSI14 :: float64
  r_MACD :: float64
  r_MACDSignal :: float64
  r_MACDHist :: float64
  r_StochK :: float64
  r_StochD :: float64
  r_WilliamsR :: float64
  r_CCI20 :: float64
  r_ROC10 :: float64
  r_ROC20 :: float64
  r_ADX14 :: float64
  r_DIPlus :: float64
  r_DIMinus :: float64
  r_ATR14 :: float64
  r_ATRPct :: float64
  r_BBUpper :: float64
  r_BBMiddle :: float64
  r_BBLower :: float64
  r_BBWidth :: float64
  r_BBPctB :: float64
  r_HistVol20 :: float64
  r_High52w :: float64
  r_Low52w :: float64
  r_Is52wHigh :: bool
  r_Is52wLow :: bool
  r_GapPct :: float64
  r_TrueRange :: float64
  r_PctOff52wHigh :: float64
  r_PctAbove52wLow :: float64
  r_Ret1d :: float64
  r_Ret5d :: float64
  r_Ret1m :: float64
  r_Ret3m :: float64
  r_Ret6m :: float64
  r_Ret1y :: float64
  r_DollarVol :: float64
  r_AvgDollarVol20 :: float64
  r_RelVolume :: float64
  r_OBV :: float64
  r_VWAPDist :: float64
  r_MFI14 :: float64
  r_IsGoldenCross :: bool
  r_IsOversoldBounce :: bool
  r_PSAR :: float64
  r_AroonUp :: float64
  r_AroonDown :: float64
  r_AroonOsc :: float64
  r_KeltnerUpper :: float64
  r_KeltnerMid :: float64
  r_KeltnerLower :: float64
  r_CMF20 :: float64
  r_UltimateOsc :: float64

datatype build_result = Panicked | NoRow | Row snapshot_row

definition Build :: "(float64 \<Rightarrow> float64) \<Rightarrow> string \<Rightarrow> bar list \<Rightarrow> build_result" where
  "Build ln64 symbol bars =
     (let n = length bars in
      if n = 0 then NoRow
      else let
        closes = map b_Close bars; highs = map b_High bars; lows = map b_Low bars;
        opens = map b_Open bars; volumes = map b_Volume bars;
        sma5 = SMA closes 5;
        sma10 = SMA closes 10;
        sma20 = SMA closes 20;
        sma30 = SMA closes 30;
        sma50 = SMA closes 50;
        sma100 = SMA closes 100;
        sma200 = SMA closes 200;
        ema10 = EMA closes 10;
        ema21 = EMA closes 21;
        ema50 = EMA closes 50;
        ema100 = EMA closes 100;
        ema200 = EMA closes 200;
        pctFromSMA50 = PctFromSMA closes sma50;
        pctFromSMA200 = PctFromSMA closes sma200;
        maStack = MAStack ema10 ema21 ema50 ema200;
        rsi = RSI closes 14;
        (macd, macdSignal, macdHist) = MACD closes;
        (stochK, stochD) = Stochastic highs lows closes 14 3 3;
        williamsR = WilliamsR highs lows closes 14;
        cci20 = CCI highs lows closes 20;
        roc10 = ROC closes 10;
        roc20 = ROC closes 20;
        (adx14, diPlus, diMinus) = ADX highs lows closes 14;
        atr14 = ATR highs lows closes 14;
        atrPct = ATRPct highs lows closes 14;
        (bbUpper, bbMiddle, bbLower) = BollingerBands closes 20 (lit 2);
        bbWidth = BBWidth closes 20 (lit 2);
        histVol20 = HistoricalVol ln64 closes 20;
        hi52 = RollingHigh highs 252;
        lo52 = RollingLow lows 252;
        gapPct = GapPct opens closes;
        trueRange = TrueRange highs lows closes;
        ret1d = Return closes 1;
        ret5d = Return closes 5;
        ret1m = Return closes 21;
        ret3m = Return closes 63;
        ret6m = Return closes 126;
        ret1y = Return closes 252;
        dollarVol = DollarVol closes volumes;
        avgDollarVol20 = AvgDollarVol closes volumes 20;
        relVolume = RelVolume volumes 20;
        obv = OBV closes volumes;
        mfi14 = MFI highs lows closes volumes 14;
        psar = PSAR highs lows (lit (2 / 100)) (lit (20 / 100));
        (aroonUp, aroonDown, aroonOsc) = Aroon highs lows 25;
        (keltUpper, keltMid, keltLower) = KeltnerChannels closes highs lows 20 10 (lit 2);
        cmf20 = CMF highs lows closes volumes 20;
        ultOsc = UltimateOsc highs lows closes 7 14 28
      in
        (case BBPctB closes 20 (lit 2) of None \<Rightarrow> Panicked | Some bbPctB \<Rightarrow>
        (case Is52wHigh closes hi52 of None \<Rightarrow> Panicked | Some is52wHigh \<Rightarrow>
        (case Is52wLow closes lo52 of None \<Rightarrow> Panicked | Some is52wLow \<Rightarrow>
        (case PctOff52wHigh closes hi52 of None \<Rightarrow> Panicked | Some pctOff52wHigh \<Rightarrow>
        (case PctAbove52wLow closes lo52 of None \<Rightarrow> Panicked | Some pctAbove52wLow \<Rightarrow>
        (case VWAPDist highs lows closes volumes 20 of None \<Rightarrow> Panicked | Some vwapDist \<Rightarrow>
        (let last = bars ! (n - 1) in Row
          \<lparr>r_Symbol = symbol, r_Close = b_Close last, r_High = b_High last, r_Low = b_Low last,
            r_Open = b_Open last, r_SMA5 = sma5 ! (n - 1), r_SMA10 = sma10 ! (n - 1),
            r_SMA20 = sma20 ! (n - 1), r_SMA30 = sma30 ! (n - 1), r_SMA50 = sma50 ! (n - 1),
            r_SMA100 = sma100 ! (n - 1), r_SMA200 = sma200 ! (n - 1), r_EMA10 = ema10 ! (n - 1),
            r_EMA21 = ema21 ! (n - 1), r_EMA50 = ema50 ! (n - 1), r_EMA100 = ema100 ! (n - 1),
            r_EMA200 = ema200 ! (n - 1), r_PctFromSMA50 = pctFromSMA50 ! (n - 1),
            r_PctFromSMA200 = pctFromSMA200 ! (n - 1), r_MAStack = maStack ! (n - 1),
            r_RSI14 = rsi ! (n - 1), r_MACD = macd ! (n - 1), r_MACDSignal = macdSignal ! (n - 1),
            r_MACDHist = macdHist ! (n - 1), r_StochK = stochK ! (n - 1),
            r_StochD = stochD ! (n - 1), r_WilliamsR = williamsR ! (n - 1),
            r_CCI20 = cci20 ! (n - 1), r_ROC10 = roc10 ! (n - 1), r_ROC20 = roc20 ! (n - 1),
            r_ADX14 = adx14 ! (n - 1), r_DIPlus = diPlus ! (n - 1), r_DIMinus = diMinus ! (n - 1),
            r_ATR14 = atr14 ! (n - 1), r_ATRPct = atrPct ! (n - 1), r_BBUpper = bbUpper ! (n - 1),
            r_BBMiddle = bbMiddle ! (n - 1), r_BBLower = bbLower ! (n - 1),
            r_BBWidth = bbWidth ! (n - 1), r_BBPctB = bbPctB ! (n - 1),
            r_HistVol20 = histVol20 ! (n - 1), r_High52w = hi52 ! (n - 1),
            r_Low52w = lo52 ! (n - 1), r_Is52wHigh = is52wHigh ! (n - 1),
            r_Is52wLow = is52wLow ! (n - 1), r_GapPct = gapPct ! (n - 1),
            r_TrueRange = trueRange ! (n - 1), r_PctOff52wHigh = pctOff52wHigh ! (n - 1),
            r_PctAbove52wLow = pctAbove52wLow ! (n - 1), r_Ret1d = ret1d ! (n - 1),
            r_Ret5d = ret5d ! (n - 1), r_Ret1m = ret1m ! (n - 1), r_Ret3m = ret3m ! (n - 1),
            r_Ret6m = ret6m ! (n - 1), r_Ret1y = ret1y ! (n - 1),
            r_DollarVol = dollarVol ! (n - 1), r_AvgDollarVol20 = avgDollarVol20 ! (n - 1),
            r_RelVolume = relVolume ! (n - 1), r_OBV = obv ! (n - 1),
            r_VWAPDist = vwapDist ! (n - 1), r_MFI14 = mfi14 ! (n - 1),
            r_IsGoldenCross = (n \<ge> 2 \<and> flt (sma200 ! (n - 1)) (sma50 ! (n - 1)) \<and>
               fle (sma50 ! (n - 2)) (sma200 ! (n - 2))),
            r_IsOversoldBounce = (n \<ge> 2 \<and> flt (lit 30) (rsi ! (n - 1)) \<and> fle (rsi ! (n - 2)) (lit 30)),
            r_PSAR = psar ! (n - 1), r_AroonUp = aroonUp ! (n - 1),
            r_AroonDown = aroonDown ! (n - 1), r_AroonOsc = aroonOsc ! (n - 1),
            r_KeltnerUpper = keltUpper ! (n - 1), r_KeltnerMid = keltMid ! (n - 1),
            r_KeltnerLower = keltLower ! (n - 1), r_CMF20 = cmf20 ! (n - 1),
            r_UltimateOsc = ultOsc ! (n - 1)\<rparr>))))))))"

end
