(* ===== verification/Screen_Laws.thy ===== *)
theory Screen_Laws
  imports Screen_Row
begin

text \<open>
  \<open>screen.Build\<close> never panics, and every feature that its indicator promises to
  compute from earlier bars is unchanged when the latest bar is replaced.
\<close>

lemma hi_lo_first:
  assumes "length hs = length closes"
  shows "Is52wHigh closes (RollingHigh hs 252) = Some (vs_prev (\<lambda>c r. fle r c) False closes (RollingHigh hs 252))"
    and "Is52wLow closes (RollingLow hs 252) = Some (vs_prev (\<lambda>c r. fle c r) False closes (RollingLow hs 252))"
    and "PctOff52wHigh closes (RollingHigh hs 252) = Some (vs_prev pct_of NaN closes (RollingHigh hs 252))"
    and "PctAbove52wLow closes (RollingLow hs 252) = Some (vs_prev pct_of NaN closes (RollingLow hs 252))"
proof -
  have f: "isnan (rollingExtreme hs 252 high ! 0)" if "closes \<noteq> []" for high
    using that assms rolling_first [of hs 251 high] by simp
  show "Is52wHigh closes (RollingHigh hs 252) = Some (vs_prev (\<lambda>c r. fle r c) False closes (RollingHigh hs 252))"
    and "Is52wLow closes (RollingLow hs 252) = Some (vs_prev (\<lambda>c r. fle c r) False closes (RollingLow hs 252))"
    and "PctOff52wHigh closes (RollingHigh hs 252) = Some (vs_prev pct_of NaN closes (RollingHigh hs 252))"
    and "PctAbove52wLow closes (RollingLow hs 252) = Some (vs_prev pct_of NaN closes (RollingLow hs 252))"
    unfolding RollingHigh_def RollingLow_def
    using assms f by (intro unguarded_ok; simp add: rolling.len)+
qed

definition bb_pct_series :: "float64 list \<Rightarrow> nat \<Rightarrow> float64 \<Rightarrow> float64 list" where
  "bb_pct_series closes p m =
     map (\<lambda>i. bb_position (closes ! (i - 1)) (fst (BollingerBands closes p m) ! i)
            (snd (snd (BollingerBands closes p m)) ! i)) [0..<length closes]"

lemma BBPctB_20: "BBPctB closes 20 m = Some (bb_pct_series closes 20 m)"
  using BBPctB_ok [of closes 19 m] by (simp add: bb_pct_series_def)

lemma VWAPDist_20:
  "VWAPDist (Highs bars) (Lows bars) (Closes bars) (Volumes bars) 20 =
     Some (vs_prev pct_of NaN (Closes bars) (VWAP (Highs bars) (Lows bars) (Closes bars) (Volumes bars) 20))"
  using VWAPDist_ok [of bars 19] by simp

lemmas build_ok = hi_lo_first BBPctB_20 VWAPDist_20

text \<open>The features that must not see the latest bar, in the order of the row.\<close>

definition backward_features :: "snapshot_row \<Rightarrow> float64 list" where
  "backward_features r =
     [r_SMA5 r, r_SMA10 r, r_SMA20 r, r_SMA30 r, r_SMA50 r, r_SMA100 r, r_SMA200 r,
      r_EMA10 r, r_EMA21 r, r_EMA50 r, r_EMA100 r, r_EMA200 r, r_PctFromSMA50 r, r_PctFromSMA200 r,
      r_RSI14 r, r_MACD r, r_MACDSignal r, r_MACDHist r, r_StochK r, r_StochD r, r_WilliamsR r,
      r_CCI20 r, r_ROC10 r, r_ROC20 r, r_BBUpper r, r_BBMiddle r, r_BBLower r, r_BBWidth r, r_BBPctB r,
      r_HistVol20 r, r_High52w r, r_Low52w r, r_GapPct r, r_TrueRange r, r_PctOff52wHigh r,
      r_PctAbove52wLow r, r_Ret1d r, r_Ret5d r, r_Ret1m r, r_Ret3m r, r_Ret6m r, r_Ret1y r,
      r_DollarVol r, r_AvgDollarVol20 r, r_RelVolume r, r_OBV r, r_VWAPDist r, r_MFI14 r]"

definition backward_flags :: "snapshot_row \<Rightarrow> bool list" where
  "backward_flags r = [r_MAStack r, r_Is52wHigh r, r_Is52wLow r, r_IsGoldenCross r, r_IsOversoldBounce r]"

lemma Build_total: "bars \<noteq> [] \<Longrightarrow> \<exists>r. Build ln64 symbol bars = Row r"
  unfolding Build_def Let_def split_beta by (simp add: build_ok)

text \<open>Two histories of equal length that differ at most in their last bar.\<close>

definition same_past :: "bar list \<Rightarrow> bar list \<Rightarrow> bool" where
  "same_past xs ys \<longleftrightarrow> length xs = length ys \<and> xs \<noteq> [] \<and> (\<forall>j < length xs - 1. xs ! j = ys ! j)"

lemma same_pastD:
  assumes "same_past xs ys"
  shows "length xs = length ys" "length xs - 1 < length xs" "length xs - 1 < length ys"
    "j < length xs - 1 \<Longrightarrow> xs ! j = ys ! j"
  using assms by (auto simp: same_past_def) (cases ys; simp)+

lemma latest_same:
  assumes p: "same_past xs ys" and n: "no_lookahead ind w"
  shows "ind xs ! (length xs - 1) = ind ys ! (length xs - 1)"
  using same_pastD(1-3) [OF p] by (intro no_lookahead.before [OF n]) (auto simp: same_pastD(4) [OF p])

lemma latest_map:
  assumes p: "same_past xs ys" and n: "no_lookahead ind w"
  shows "ind (map f xs) ! (length xs - 1) = ind (map f ys) ! (length xs - 1)"
  by (rule latest_same [OF p no_lookahead_map [OF n]])

lemma previous_map:
  assumes p: "same_past xs ys" and n: "no_lookahead ind w" and "2 \<le> length xs"
  shows "ind (map f xs) ! (length xs - 2) = ind (map f ys) ! (length xs - 2)"
  using same_pastD(1-3) [OF p] assms(3)
  by (intro no_lookahead.before [OF n]) (auto simp: same_pastD(4) [OF p])

lemma hi_first: "bars \<noteq> [] \<Longrightarrow> isnan (rollingExtreme (map f bars) 252 high ! 0)"
  using rolling_first [of "map f bars" 251 high] by simp

lemma rolling_bars: "no_lookahead (\<lambda>bars. rollingExtreme (map f bars) p high) 0"
  by (rule no_lookahead_map) (rule rolling.no_lookahead_axioms)

lemma vs_hi: "no_lookahead (\<lambda>bars. vs_prev g bad (Closes bars) (RollingHigh (Highs bars) 252)) 0"
  and vs_lo: "no_lookahead (\<lambda>bars. vs_prev g bad (Closes bars) (RollingLow (Lows bars) 252)) 0"
  unfolding RollingHigh_def RollingLow_def
  by (intro vs_prev_no_lookahead rolling_bars hi_first; assumption)+

lemma vs_vwap: "no_lookahead (\<lambda>bars. vs_prev g bad (Closes bars)
    (VWAP (Highs bars) (Lows bars) (Closes bars) (Volumes bars) 20)) 0"
  using vs_prev_no_lookahead [OF vwap.no_lookahead_axioms [of 20] VWAP_first [of _ 19, simplified]] by simp

lemma bb_pct_no_lookahead: "no_lookahead (\<lambda>cs. bb_pct_series cs 20 m) 0"
proof
  fix i and xs ys :: "float64 list"
  assume a: "0 \<le> i \<or> length xs = length ys" "i < length xs" "i < length ys"
    "\<And>j. j < i \<Longrightarrow> xs ! j = ys ! j"
  have "i \<noteq> 0 \<or> isnan (fst (BollingerBands zs 20 m) ! i)" if "i < length zs" for zs
    using that by (auto simp: BollingerBands_def Let_def)
  with a bb_upper.before [OF a, of 20 m] bb_lower.before [OF a, of 20 m]
  show "bb_pct_series xs 20 m ! i = bb_pct_series ys 20 m ! i"
    by (cases "i = 0") (auto simp: bb_position_def bb_pct_series_def)
qed (simp add: bb_pct_series_def)

text \<open>The series behind each of them.\<close>

definition backward_series :: "(float64 \<Rightarrow> float64) \<Rightarrow> bar list \<Rightarrow> float64 list list" where
  "backward_series ln64 bars =
     [SMA (Closes bars) 5,
      SMA (Closes bars) 10,
      SMA (Closes bars) 20,
      SMA (Closes bars) 30,
      SMA (Closes bars) 50,
      SMA (Closes bars) 100,
      SMA (Closes bars) 200,
      EMA (Closes bars) 10,
      EMA (Closes bars) 21,
      EMA (Closes bars) 50,
      EMA (Closes bars) 100,
      EMA (Closes bars) 200,
      PctFromSMA (Closes bars) (SMA (Closes bars) 50),
      PctFromSMA (Closes bars) (SMA (Closes bars) 200),
      RSI (Closes bars) 14,
      fst (MACD (Closes bars)),
      fst (snd (MACD (Closes bars))),
      snd (snd (MACD (Closes bars))),
      fst (Stochastic (Highs bars) (Lows bars) (Closes bars) 14 3 3),
      snd (Stochastic (Highs bars) (Lows bars) (Closes bars) 14 3 3),
      WilliamsR (Highs bars) (Lows bars) (Closes bars) 14,
      CCI (Highs bars) (Lows bars) (Closes bars) 20,
      ROC (Closes bars) 10,
      ROC (Closes bars) 20,
      fst (BollingerBands (Closes bars) 20 (lit 2)),
      fst (snd (BollingerBands (Closes bars) 20 (lit 2))),
      snd (snd (BollingerBands (Closes bars) 20 (lit 2))),
      BBWidth (Closes bars) 20 (lit 2),
      bb_pct_series (Closes bars) 20 (lit 2),
      HistoricalVol ln64 (Closes bars) 20,
      RollingHigh (Highs bars) 252,
      RollingLow (Lows bars) 252,
      GapPct (Opens bars) (Closes bars),
      TrueRange (Highs bars) (Lows bars) (Closes bars),
      vs_prev pct_of NaN (Closes bars) (RollingHigh (Highs bars) 252),
      vs_prev pct_of NaN (Closes bars) (RollingLow (Lows bars) 252),
      Return (Closes bars) 1,
      Return (Closes bars) 5,
      Return (Closes bars) 21,
      Return (Closes bars) 63,
      Return (Closes bars) 126,
      Return (Closes bars) 252,
      DollarVol (Closes bars) (Volumes bars),
      AvgDollarVol (Closes bars) (Volumes bars) 20,
      RelVolume (Volumes bars) 20,
      OBV (Closes bars) (Volumes bars),
      vs_prev pct_of NaN (Closes bars) (VWAP (Highs bars) (Lows bars) (Closes bars) (Volumes bars) 20),
      MFI (Highs bars) (Lows bars) (Closes bars) (Volumes bars) 14]"

lemma Build_features:
  assumes "Build ln64 symbol bars = Row r"
  shows "backward_features r = map (\<lambda>s. s ! (length bars - 1)) (backward_series ln64 bars)"
  using assms unfolding Build_def Let_def split_beta
  by (cases "bars = []") (auto simp: build_ok backward_features_def backward_series_def)

lemma Build_flags:
  assumes "Build ln64 symbol bars = Row r"
  shows "r_MAStack r = MAStack (EMA (Closes bars) 10) (EMA (Closes bars) 21) (EMA (Closes bars) 50)
             (EMA (Closes bars) 200) ! (length bars - 1)"
    and "r_Is52wHigh r = vs_prev (\<lambda>c r. fle r c) False (Closes bars) (RollingHigh (Highs bars) 252) ! (length bars - 1)"
    and "r_Is52wLow r = vs_prev (\<lambda>c r. fle c r) False (Closes bars) (RollingLow (Lows bars) 252) ! (length bars - 1)"
    and "r_IsGoldenCross r \<longleftrightarrow> 2 \<le> length bars \<and>
      flt (SMA (Closes bars) 200 ! (length bars - 1)) (SMA (Closes bars) 50 ! (length bars - 1)) \<and>
      fle (SMA (Closes bars) 50 ! (length bars - 2)) (SMA (Closes bars) 200 ! (length bars - 2))"
    and "r_IsOversoldBounce r \<longleftrightarrow> 2 \<le> length bars \<and> flt (lit 30) (RSI (Closes bars) 14 ! (length bars - 1)) \<and>
      fle (RSI (Closes bars) 14 ! (length bars - 2)) (lit 30)"
  using assms unfolding Build_def Let_def split_beta
  by (cases "bars = []"; auto simp: build_ok)+

lemma series_backward:
  assumes p: "same_past xs ys"
  shows "map (\<lambda>s. s ! (length xs - 1)) (backward_series ln64 xs) =
         map (\<lambda>s. s ! (length xs - 1)) (backward_series ln64 ys)"
proof -
  note c = latest_map [OF p, where f = b_Close] and h = latest_map [OF p, where f = b_High]
    and l = latest_map [OF p, where f = b_Low] and v = latest_map [OF p, where f = b_Volume]
    and b = latest_same [OF p]
  note closes = c [OF sma.no_lookahead_axioms] c [OF ema.no_lookahead_axioms]
    c [OF pct_from_sma.no_lookahead_axioms] c [OF rsi.no_lookahead_axioms]
    c [OF macd.no_lookahead_axioms] c [OF macd_signal.no_lookahead_axioms] c [OF macd_hist.no_lookahead_axioms]
    c [OF roc.no_lookahead_axioms] c [OF bb_upper.no_lookahead_axioms] c [OF bb_middle.no_lookahead_axioms]
    c [OF bb_lower.no_lookahead_axioms] c [OF bb_width.no_lookahead_axioms] c [OF bb_pct_no_lookahead]
    c [OF hist_vol.no_lookahead_axioms] c [OF ret.no_lookahead_axioms]
    v [OF relvol.no_lookahead_axioms]
    h [OF rolling.no_lookahead_axioms [of 252 True], folded RollingHigh_def]
    l [OF rolling.no_lookahead_axioms [of 252 False], folded RollingLow_def]
  note bars = b [OF stoch_k.no_lookahead_axioms [of 13 3 3, simplified]]
    b [OF stoch_d.no_lookahead_axioms [of 13 3 3, simplified]]
    b [OF willr.no_lookahead_axioms [of 13, simplified]] b [OF cci.no_lookahead_axioms [of 19, simplified]]
    b [OF gap.no_lookahead_axioms] b [OF tr.no_lookahead_axioms]
    b [OF vs_hi] b [OF vs_lo] b [OF vs_vwap]
    b [OF dollar_vol.no_lookahead_axioms] b [OF avg_dollar_vol.no_lookahead_axioms]
    b [OF obv.no_lookahead_axioms] b [OF mfi.no_lookahead_axioms]
  show ?thesis
    unfolding backward_series_def list.map
    by (intro arg_cong2 [where f = Cons] refl closes bars)
qed

lemma flags_backward:
  assumes p: "same_past xs ys" and "Build ln64 symbol xs = Row r" "Build ln64 symbol ys = Row r'"
  shows "backward_flags r = backward_flags r'"
proof -
  have n: "length ys = length xs" using same_pastD(1) [OF p] by simp
  note c = latest_map [OF p, where f = b_Close]
  note before = previous_map [OF p sma.no_lookahead_axioms, where f = b_Close]
    previous_map [OF p rsi.no_lookahead_axioms, where f = b_Close]
  show ?thesis
    unfolding backward_flags_def Build_flags [OF assms(2)] Build_flags [OF assms(3)] n
      c [OF ma_stack.no_lookahead_axioms] latest_same [OF p vs_hi] latest_same [OF p vs_lo]
      c [OF sma.no_lookahead_axioms] c [OF rsi.no_lookahead_axioms]
    by (simp add: before cong: conj_cong)
qed

text \<open>What a caller keeps of a build.\<close>

definition row_features :: "build_result \<Rightarrow> (float64 list \<times> bool list) option" where
  "row_features b = (case b of Row r \<Rightarrow> Some (backward_features r, backward_flags r) | _ \<Rightarrow> None)"

text \<open>
  C10: which features of the row look at no bar they must not. Replacing the latest bar of
  a history by any other leaves 48 numeric features and five flags of the row as they were,
  for every history, however short, and for every \<open>math.Log\<close>. Not among them are the
  quoted prices and the features that do read the latest bar: ATR and ATRPct, ADX with DI+
  and DI-, PSAR, Aroon, Keltner, CMF and the ultimate oscillator (for ATR, ADX, Aroon, CMF
  and others against their documentation).
\<close>

theorem build_no_lookahead:
  "row_features (Build ln64 symbol (bars @ [b])) = row_features (Build ln64 symbol (bars @ [c]))"
proof -
  have p: "same_past (bars @ [b]) (bars @ [c])" by (auto simp: same_past_def nth_append)
  obtain r r' where r: "Build ln64 symbol (bars @ [b]) = Row r" "Build ln64 symbol (bars @ [c]) = Row r'"
    using Build_total by (metis Nil_is_append_conv not_Cons_self)
  have "backward_features r = backward_features r'"
    using series_backward [OF p, of ln64] Build_features [OF r(1)] Build_features [OF r(2)] by simp
  with flags_backward [OF p r] show ?thesis by (simp add: row_features_def r)
qed

end
