(* ===== verification/Screen_Studies.thy ===== *)
theory Screen_Studies
  imports Screen_Row "HOL-Library.Multiset"
begin

text \<open>
  The predicates, presets and market breadth of \<open>internal/screen/screen.go\<close>, over
  rows made by \<open>Build\<close>. A \<open>Match\<close> of \<open>nil\<close> is \<open>None\<close>. The \<open>less\<close> callback of the
  ranking is a strict weak order only because rows with a NaN metric are dropped first.
\<close>

section \<open>Predicates\<close>

definition AboveSMA200 :: "snapshot_row \<Rightarrow> bool" where "AboveSMA200 r = flt (r_SMA200 r) (r_Close r)"
definition AboveSMA50 :: "snapshot_row \<Rightarrow> bool" where "AboveSMA50 r = flt (r_SMA50 r) (r_Close r)"
definition GoldenCross :: "snapshot_row \<Rightarrow> bool" where "GoldenCross r = r_IsGoldenCross r"
definition OversoldBounce :: "snapshot_row \<Rightarrow> bool" where "OversoldBounce r = r_IsOversoldBounce r"

definition At52wHigh :: "snapshot_row \<Rightarrow> bool" where
  "At52wHigh r =
     (if \<not> isnan (r_High52w r) \<and> flt (lit 0) (r_High52w r) \<and> fle (r_High52w r) (r_Close r) then True
      else r_Is52wHigh r)"

definition At52wLow :: "snapshot_row \<Rightarrow> bool" where
  "At52wLow r =
     (if \<not> isnan (r_Low52w r) \<and> flt (lit 0) (r_Low52w r) \<and> fle (r_Close r) (r_Low52w r) then True
      else r_Is52wLow r)"

section \<open>Presets\<close>

record screen_preset =
  sp_Key :: string
  sp_Title :: string
  sp_Emoji :: string
  sp_Match :: "(snapshot_row \<Rightarrow> bool) option"
  sp_Metric :: "snapshot_row \<Rightarrow> float64"
  sp_Limit :: int

definition preset_keeps :: "screen_preset \<Rightarrow> snapshot_row \<Rightarrow> bool" where
  "preset_keeps p r =
     (if (case sp_Match p of None \<Rightarrow> False | Some m \<Rightarrow> \<not> m r) then False
      else if isnan (sp_Metric p r) then False else True)"

definition preset_run :: "screen_preset \<Rightarrow> snapshot_row list \<Rightarrow> snapshot_row list" where
  "preset_run p rows =
     (let out = foldl (\<lambda>out r. if preset_keeps p r then out @ [r] else out) [] rows;
          out = sort_stable (\<lambda>a b. flt (sp_Metric p b) (sp_Metric p a)) out
      in if 0 < sp_Limit p \<and> sp_Limit p < int (length out) then take (nat (sp_Limit p)) out else out)"

definition dollarVol :: "snapshot_row \<Rightarrow> float64" where "dollarVol r = r_DollarVol r"
definition ret3m :: "snapshot_row \<Rightarrow> float64" where "ret3m r = r_Ret3m r"

definition MVPPresets :: "int \<Rightarrow> int \<Rightarrow> screen_preset list" where
  "MVPPresets topN momentumN =
     [\<lparr>sp_Key = ''new_52w_high'', sp_Title = ''New 52-Week Highs'',
       sp_Emoji = [CHR 0xF0, CHR 0x9F, CHR 0x93, CHR 0x88],
       sp_Match = Some At52wHigh, sp_Metric = dollarVol, sp_Limit = topN\<rparr>,
      \<lparr>sp_Key = ''golden_cross'', sp_Title = ''Golden Cross Today'',
       sp_Emoji = [CHR 0xE2, CHR 0x9A, CHR 0xA1],
       sp_Match = Some GoldenCross, sp_Metric = dollarVol, sp_Limit = topN\<rparr>,
      \<lparr>sp_Key = ''oversold_bounce'', sp_Title = ''Oversold Bounce'',
       sp_Emoji = [CHR 0xF0, CHR 0x9F, CHR 0x94, CHR 0x84],
       sp_Match = Some OversoldBounce, sp_Metric = dollarVol, sp_Limit = topN\<rparr>,
      \<lparr>sp_Key = ''momentum_leaders'', sp_Title = ''Momentum Leaders (3-mo)'',
       sp_Emoji = [CHR 0xF0, CHR 0x9F, CHR 0x9A, CHR 0x80],
       sp_Match = None, sp_Metric = ret3m, sp_Limit = momentumN\<rparr>]"

section \<open>Breadth\<close>

record breadth =
  br_Total :: int
  br_WithSMA200 :: int
  br_AboveSMA200 :: int
  br_WithSMA50 :: int
  br_AboveSMA50 :: int
  br_New52wHigh :: int
  br_New52wLow :: int

definition breadth_row :: "breadth \<Rightarrow> snapshot_row \<Rightarrow> breadth" where
  "breadth_row b r =
     (let b = (if \<not> isnan (r_SMA200 r)
               then let b = b\<lparr>br_WithSMA200 := br_WithSMA200 b + 1\<rparr>
                    in if AboveSMA200 r then b\<lparr>br_AboveSMA200 := br_AboveSMA200 b + 1\<rparr> else b
               else b);
          b = (if \<not> isnan (r_SMA50 r)
               then let b = b\<lparr>br_WithSMA50 := br_WithSMA50 b + 1\<rparr>
                    in if AboveSMA50 r then b\<lparr>br_AboveSMA50 := br_AboveSMA50 b + 1\<rparr> else b
               else b);
          b = (if At52wHigh r then b\<lparr>br_New52wHigh := br_New52wHigh b + 1\<rparr> else b)
      in if At52wLow r then b\<lparr>br_New52wLow := br_New52wLow b + 1\<rparr> else b)"

definition ComputeBreadth :: "snapshot_row list \<Rightarrow> breadth" where
  "ComputeBreadth rows =
     foldl breadth_row
       \<lparr>br_Total = int (length rows), br_WithSMA200 = 0, br_AboveSMA200 = 0, br_WithSMA50 = 0,
        br_AboveSMA50 = 0, br_New52wHigh = 0, br_New52wLow = 0\<rparr> rows"

definition pct :: "int \<Rightarrow> int \<Rightarrow> float64" where
  "pct num den =
     (if den = 0 then lit 0 else fdiv (fmul (lit 100) (of_int64 num)) (of_int64 den))"

definition PctAbove200 :: "breadth \<Rightarrow> float64" where
  "PctAbove200 b = pct (br_AboveSMA200 b) (br_WithSMA200 b)"

definition PctAbove50 :: "breadth \<Rightarrow> float64" where
  "PctAbove50 b = pct (br_AboveSMA50 b) (br_WithSMA50 b)"

section \<open>Ranking\<close>

lemma foldl_filter: "foldl (\<lambda>out r. if P r then out @ [r] else out) acc rows = acc @ filter P rows"
  by (induction rows arbitrary: acc) auto

interpretation by_metric: strict_weak "{r. \<not> isnan (metric r)}" "\<lambda>a b. flt (metric b) (metric a)"
  for metric :: "'a \<Rightarrow> float64"
  by unfold_locales (auto simp: flt_def)

lemma mset_ins_stable [simp]: "mset (ins_stable lt x ys) = add_mset x (mset ys)"
  by (induction ys) auto

lemma mset_sort_stable [simp]: "mset (sort_stable lt xs) = mset xs"
  by (induction xs) auto

text \<open>
  A preset returns the best rows: its result ranks from the highest metric down,
  together with the rows it cut off it is exactly the bag of rows that match and have
  a metric, none of the rows cut off beats one returned, and it holds
  \<open>Limit\<close> rows where there are as many (all of them for a limit of 0 or less).
\<close>

theorem preset_returns_best:
  "\<exists>cut. mset (preset_run p rows) + mset cut = mset (filter (preset_keeps p) rows) \<and>
     sorted_wrt (\<lambda>a b. fle (sp_Metric p b) (sp_Metric p a)) (preset_run p rows) \<and>
     (\<forall>a \<in> set (preset_run p rows). \<forall>b \<in> set cut. fle (sp_Metric p b) (sp_Metric p a)) \<and>
     int (length (preset_run p rows)) =
       (if 0 < sp_Limit p then min (sp_Limit p) (int (length (filter (preset_keeps p) rows)))
        else int (length (filter (preset_keeps p) rows)))"
proof -
  let ?m = "sp_Metric p" and ?ok = "filter (preset_keeps p) rows"
  define s where "s = sort_stable (\<lambda>a b. flt (?m b) (?m a)) ?ok"
  define k where "k = (if 0 < sp_Limit p \<and> sp_Limit p < int (length s) then nat (sp_Limit p) else length s)"
  have run: "preset_run p rows = take k s"
    by (simp add: preset_run_def Let_def foldl_filter s_def k_def)
  have nn: "set s \<subseteq> {r. \<not> isnan (?m r)}"
    by (auto simp: s_def preset_keeps_def split: if_splits)
  have "sorted_wrt (\<lambda>a b. \<not> flt (?m a) (?m b)) s"
    unfolding s_def using nn by (intro by_metric.sort_sorted) (simp add: s_def)
  then have sorted: "sorted_wrt (\<lambda>a b. fle (?m b) (?m a)) s"
    using nn by (elim sorted_wrt_mono_rel [rotated]) (metis (mono_tags) mem_Collect_eq not_flt_iff subsetD)
  have "mset (take k s) + mset (drop k s) = mset ?ok"
    by (simp add: s_def flip: mset_append)
  moreover have "sorted_wrt (\<lambda>a b. fle (?m b) (?m a)) (take k s)"
    "\<forall>a \<in> set (take k s). \<forall>b \<in> set (drop k s). fle (?m b) (?m a)"
    using sorted unfolding sorted_wrt_append [of _ "take k s" "drop k s", simplified] by blast+
  moreover have "int (length (take k s)) = (if 0 < sp_Limit p then min (sp_Limit p) (int (length ?ok)) else int (length ?ok))"
    by (auto simp: k_def s_def)
  ultimately show ?thesis unfolding run by blast
qed

lemma breadth_fold:
  "foldl breadth_row b rows =
     b\<lparr>br_WithSMA200 := br_WithSMA200 b + int (length (filter (\<lambda>r. \<not> isnan (r_SMA200 r)) rows)),
       br_AboveSMA200 := br_AboveSMA200 b + int (length (filter AboveSMA200 rows)),
       br_WithSMA50 := br_WithSMA50 b + int (length (filter (\<lambda>r. \<not> isnan (r_SMA50 r)) rows)),
       br_AboveSMA50 := br_AboveSMA50 b + int (length (filter AboveSMA50 rows)),
       br_New52wHigh := br_New52wHigh b + int (length (filter At52wHigh rows)),
       br_New52wLow := br_New52wLow b + int (length (filter At52wLow rows))\<rparr>"
proof (induction rows arbitrary: b)
  case Nil
  then show ?case by simp
next
  case (Cons r rows)
  have "isnan (r_SMA200 r) \<Longrightarrow> \<not> AboveSMA200 r" "isnan (r_SMA50 r) \<Longrightarrow> \<not> AboveSMA50 r"
    by (auto simp: AboveSMA200_def AboveSMA50_def flt_def)
  then show ?case
    unfolding foldl_Cons Cons.IH by (auto simp: breadth_row_def Let_def)
qed

lemma pct_range:
  assumes "0 \<le> num" "num \<le> den" "den \<le> 2 ^ 46"
  shows "ranged 0 100 (pct num den)"
proof (cases "den = 0")
  case True
  then show ?thesis unfolding pct_def lit_def by (simp add: ranged_rnd del: rnd_0)
next
  case False
  then have den: "0 < den" using assms by simp
  have h: "lit 100 = Fin 100" by (rule lit_numeral) simp
  have n: "fin (of_int64 num)" "val (of_int64 num) = of_int num"
    and d: "fin (of_int64 den)" "val (of_int64 den) = of_int den"
    using assms by (auto intro!: val_of_int64 [THEN conjunct1] val_of_int64 [THEN conjunct2])
  obtain s where "fmul (lit 100) (of_int64 num) = rnd s (100 * of_int num)"
    using fmul_fin [of "lit 100" "of_int64 num"] n by (auto simp: h)
  moreover have "fin (rnd s (100 * of_int num)) \<and> val (rnd s (100 * of_int num)) = 100 * of_int num"
  proof -
    have "\<bar>100 * num\<bar> \<le> 2 ^ 53" using assms by simp
    then have "rndq (100 * of_int num) = 100 * of_int num" "\<bar>100 * of_int num :: rat\<bar> < pow2 1024"
      using small_int_exact [of "100 * num"] by simp_all
    then show ?thesis using rnd_between [of "100 * of_int num" "100 * of_int num" "100 * of_int num" s] by auto
  qed
  ultimately have m: "fin (fmul (lit 100) (of_int64 num))" "val (fmul (lit 100) (of_int64 num)) = 100 * of_int num"
    by simp_all
  obtain t where "fdiv (fmul (lit 100) (of_int64 num)) (of_int64 den) = rnd t (100 * of_int num / of_int den)"
    using fdiv_fin [OF m(1) d(1)] m d den by auto
  moreover have "0 \<le> 100 * of_int num / (of_int den :: rat)" "100 * of_int num / (of_int den :: rat) \<le> 100"
    using assms den by (auto simp: divide_le_eq)
  ultimately show ?thesis using False by (simp add: pct_def ranged_rnd)
qed

definition any_two :: screen_preset where
  "any_two = \<lparr>sp_Key = ''k'', sp_Title = ''t'', sp_Emoji = '''', sp_Match = None,
     sp_Metric = (\<lambda>r. lit 0), sp_Limit = 2\<rparr>"

theorem preset_returns_best_witness:
  "\<forall>r s t. length (preset_run any_two [r, s, t]) = 2"
proof (intro allI)
  fix r s t :: snapshot_row
  have "filter (preset_keeps any_two) [r, s, t] = [r, s, t]"
    by (simp add: preset_keeps_def any_two_def)
  with preset_returns_best [of any_two "[r, s, t]"]
  show "length (preset_run any_two [r, s, t]) = 2" by (auto simp: any_two_def)
qed

text \<open>
  the breadth counts are the numbers of rows with the property they name, so the
  numerators never exceed the denominators, and the two percentages lie between 0 and
  100 for universes of up to \<open>2 ^ 46\<close> symbols, where the product by 100 is exact.
\<close>

theorem breadth_consistent:
  assumes "length rows \<le> 2 ^ 46"
  shows "br_Total (ComputeBreadth rows) = int (length rows) \<and>
    br_WithSMA200 (ComputeBreadth rows) = int (length (filter (\<lambda>r. \<not> isnan (r_SMA200 r)) rows)) \<and>
    br_AboveSMA200 (ComputeBreadth rows) = int (length (filter AboveSMA200 rows)) \<and>
    br_WithSMA50 (ComputeBreadth rows) = int (length (filter (\<lambda>r. \<not> isnan (r_SMA50 r)) rows)) \<and>
    br_AboveSMA50 (ComputeBreadth rows) = int (length (filter AboveSMA50 rows)) \<and>
    br_New52wHigh (ComputeBreadth rows) = int (length (filter At52wHigh rows)) \<and>
    br_New52wLow (ComputeBreadth rows) = int (length (filter At52wLow rows)) \<and>
    ranged 0 100 (PctAbove200 (ComputeBreadth rows)) \<and> ranged 0 100 (PctAbove50 (ComputeBreadth rows))"
proof -
  have le: "length (filter P rows) \<le> length (filter Q rows)" if "\<And>r. P r \<Longrightarrow> Q r" for P Q
    using that by (induction rows) (auto intro: le_SucI)
  have "length (filter AboveSMA200 rows) \<le> length (filter (\<lambda>r. \<not> isnan (r_SMA200 r)) rows)"
    "length (filter AboveSMA50 rows) \<le> length (filter (\<lambda>r. \<not> isnan (r_SMA50 r)) rows)"
    by (auto intro!: le simp: AboveSMA200_def AboveSMA50_def flt_def)
  moreover have "int (length (filter P rows)) \<le> 2 ^ 46" for P
    using order_trans [OF length_filter_le [of P rows] assms] by simp
  ultimately have "ranged 0 100 (pct (int (length (filter AboveSMA200 rows))) (int (length (filter (\<lambda>r. \<not> isnan (r_SMA200 r)) rows))))"
    "ranged 0 100 (pct (int (length (filter AboveSMA50 rows))) (int (length (filter (\<lambda>r. \<not> isnan (r_SMA50 r)) rows))))"
    by (auto intro!: pct_range)
  then show ?thesis
    unfolding PctAbove200_def PctAbove50_def ComputeBreadth_def breadth_fold by simp
qed

theorem breadth_consistent_witness:
  "\<forall>r r'. br_Total (ComputeBreadth [r, r']) = 2 \<and> ranged 0 100 (PctAbove200 (ComputeBreadth [r, r']))"
  using breadth_consistent [of "[r, r']" for r r'] by simp

end
