(* ===== verification/Sentinel.thy ===== *)
theory Sentinel
  imports Screen_Studies
begin

text \<open>
  \<open>internal/sentinel/sentinel.go\<close>: the Tier-0 data integrity gate. A severity is a
  datatype with the order of the report, \<open>Suspect\<close> before \<open>Watch\<close>; the long dash of a
  reason is its UTF-8 bytes.
\<close>

datatype severity = Suspect | Watch

fun sevRank :: "severity \<Rightarrow> nat" where
  "sevRank Suspect = 0"
| "sevRank Watch = 1"

instantiation severity :: linorder
begin

definition less_eq_severity :: "severity \<Rightarrow> severity \<Rightarrow> bool" where
  "less_eq_severity a b \<longleftrightarrow> sevRank a \<le> sevRank b"

definition less_severity :: "severity \<Rightarrow> severity \<Rightarrow> bool" where
  "less_severity a b \<longleftrightarrow> sevRank a < sevRank b"

instance
proof
  fix a b :: severity
  show "a \<le> b \<Longrightarrow> b \<le> a \<Longrightarrow> a = b"
    by (cases a; cases b) (auto simp: less_eq_severity_def)
qed (auto simp: less_eq_severity_def less_severity_def)

end

record flag =
  fl_Symbol :: string
  fl_Severity :: severity
  fl_Reason :: string
  fl_Ret3m :: float64
  fl_DollarVol :: float64
  fl_Ratio200 :: float64

record tier0_config =
  t0_ExtremeRet :: float64
  t0_SuspectRet :: float64
  t0_ThinDollarVol :: float64

definition DefaultTier0 :: tier0_config where
  "DefaultTier0 =
     \<lparr>t0_ExtremeRet = lit 1, t0_SuspectRet = lit 2, t0_ThinDollarVol = lit 5000000\<rparr>"

definition dash :: string where "dash = [CHR 0xE2, CHR 0x80, CHR 0x94]"

definition suspect_reason :: string where
  "suspect_reason = ''extreme 3-mo move on thin liquidity '' @ dash @
     '' likely uncaught split or illiquid print''"

definition watch_reason :: string where
  "watch_reason = ''extreme 3-mo move '' @ dash @ '' verify catalyst / corporate action''"

text \<open>One turn of the loop: \<open>None\<close> is \<open>continue\<close>.\<close>

definition tier0_row :: "tier0_config \<Rightarrow> snapshot_row \<Rightarrow> flag option" where
  "tier0_row cfg r =
     (if isnan (r_Ret3m r) then None
      else let ratio = (if \<not> isnan (r_SMA200 r) \<and> flt (lit 0) (r_SMA200 r)
                        then fdiv (r_Close r) (r_SMA200 r) else NaN);
               mk = (\<lambda>sev reason. Some \<lparr>fl_Symbol = r_Symbol r, fl_Severity = sev, fl_Reason = reason,
                       fl_Ret3m = r_Ret3m r, fl_DollarVol = r_DollarVol r, fl_Ratio200 = ratio\<rparr>)
           in if fle (t0_SuspectRet cfg) (r_Ret3m r) \<and> flt (r_DollarVol r) (t0_ThinDollarVol cfg)
              then mk Suspect suspect_reason
              else if fle (t0_ExtremeRet cfg) (r_Ret3m r) then mk Watch watch_reason
              else None)"

definition flag_less :: "flag \<Rightarrow> flag \<Rightarrow> bool" where
  "flag_less x y =
     (let a = sevRank (fl_Severity x); b = sevRank (fl_Severity y) in
      if a \<noteq> b then a < b else flt (fl_Ret3m y) (fl_Ret3m x))"

definition Tier0 :: "snapshot_row list \<Rightarrow> tier0_config \<Rightarrow> flag list" where
  "Tier0 rows cfg =
     (let out = foldl (\<lambda>out r. case tier0_row cfg r of None \<Rightarrow> out | Some f \<Rightarrow> out @ [f]) [] rows
      in sort_stable flag_less out)"

definition Counts :: "flag list \<Rightarrow> int \<times> int" where
  "Counts flags =
     foldl (\<lambda>(suspect, watch) f. if fl_Severity f = Suspect then (suspect + 1, watch) else (suspect, watch + 1))
       (0, 0) flags"

section \<open>Laws\<close>

interpretation by_severity: strict_weak "{f. \<not> isnan (fl_Ret3m f)}" flag_less
  by unfold_locales (auto simp: flag_less_def Let_def flt_def split: if_splits)

lemma tier0_fold:
  "foldl (\<lambda>out r. case tier0_row cfg r of None \<Rightarrow> out | Some f \<Rightarrow> out @ [f]) acc rows =
     acc @ List.map_filter (tier0_row cfg) rows"
  by (induction rows arbitrary: acc) (auto simp: List.map_filter_def split: option.splits)

lemma tier0_row_Some:
  "tier0_row cfg r = Some f \<longleftrightarrow> \<not> isnan (r_Ret3m r) \<and> fl_Symbol f = r_Symbol r \<and>
     fl_Ret3m f = r_Ret3m r \<and> fl_DollarVol f = r_DollarVol r \<and>
     fl_Ratio200 f = (if \<not> isnan (r_SMA200 r) \<and> flt (lit 0) (r_SMA200 r)
                      then fdiv (r_Close r) (r_SMA200 r) else NaN) \<and>
     (if fle (t0_SuspectRet cfg) (r_Ret3m r) \<and> flt (r_DollarVol r) (t0_ThinDollarVol cfg)
      then fl_Severity f = Suspect \<and> fl_Reason f = suspect_reason
      else fle (t0_ExtremeRet cfg) (r_Ret3m r) \<and> fl_Severity f = Watch \<and> fl_Reason f = watch_reason)"
  by (cases f) (auto simp: tier0_row_def Let_def)

lemma Counts_fold:
  "foldl (\<lambda>(s, w) f. if fl_Severity f = Suspect then (s + 1, w) else (s, w + 1)) (a, b) flags =
     (a + int (length (filter (\<lambda>f. fl_Severity f = Suspect) flags)),
      b + int (length (filter (\<lambda>f. fl_Severity f = Watch) flags)))"
proof (induction flags arbitrary: a b)
  case Nil
  then show ?case by simp
next
  case (Cons f flags)
  then show ?case by (cases "fl_Severity f") auto
qed

text \<open>A flag spelled out, and when the gate raises one.\<close>

lemma tier0_rows:
  "List.map_filter (tier0_row cfg) rows =
     map (\<lambda>r. \<lparr>fl_Symbol = r_Symbol r,
         fl_Severity = (if fle (t0_SuspectRet cfg) (r_Ret3m r) \<and> flt (r_DollarVol r) (t0_ThinDollarVol cfg)
                        then Suspect else Watch),
         fl_Reason = (if fle (t0_SuspectRet cfg) (r_Ret3m r) \<and> flt (r_DollarVol r) (t0_ThinDollarVol cfg)
                      then suspect_reason else watch_reason),
         fl_Ret3m = r_Ret3m r, fl_DollarVol = r_DollarVol r,
         fl_Ratio200 = (if flt (lit 0) (r_SMA200 r) then fdiv (r_Close r) (r_SMA200 r) else NaN)\<rparr>)
       (filter (\<lambda>r. fle (t0_SuspectRet cfg) (r_Ret3m r) \<and> flt (r_DollarVol r) (t0_ThinDollarVol cfg) \<or>
                    fle (t0_ExtremeRet cfg) (r_Ret3m r)) rows)"
proof (induction rows)
  case (Cons r rows)
  have "isnan (r_Ret3m r) \<Longrightarrow> \<not> fle x (r_Ret3m r)" "isnan (r_SMA200 r) \<Longrightarrow> \<not> flt x (r_SMA200 r)" for x
    by (simp_all add: fle_def flt_def feq_def)
  with Cons show ?case by (simp add: List.map_filter_def tier0_row_def Let_def)
qed (simp add: List.map_filter_def)

text \<open>
  C40: the gate reports one flag for each row whose 3-month return is at least the extreme
  threshold, or at least the suspect threshold while its dollar volume is below the thin
  one, and for no other row (none for a NaN return, which no comparison accepts). The
  second condition makes the flag suspect, otherwise it is a watch, with the reason that
  goes with it; a flag repeats symbol, return and dollar volume of its row and the ratio of
  the close to a positive 200-day average. All suspect flags come before all watch flags,
  and within a severity the larger return comes first. \<open>Counts\<close> returns the numbers of both.
\<close>

theorem tier0_report:
  "mset (Tier0 rows cfg) = mset (map (\<lambda>r. \<lparr>fl_Symbol = r_Symbol r,
         fl_Severity = (if fle (t0_SuspectRet cfg) (r_Ret3m r) \<and> flt (r_DollarVol r) (t0_ThinDollarVol cfg)
                        then Suspect else Watch),
         fl_Reason = (if fle (t0_SuspectRet cfg) (r_Ret3m r) \<and> flt (r_DollarVol r) (t0_ThinDollarVol cfg)
                      then suspect_reason else watch_reason),
         fl_Ret3m = r_Ret3m r, fl_DollarVol = r_DollarVol r,
         fl_Ratio200 = (if flt (lit 0) (r_SMA200 r) then fdiv (r_Close r) (r_SMA200 r) else NaN)\<rparr>)
       (filter (\<lambda>r. fle (t0_SuspectRet cfg) (r_Ret3m r) \<and> flt (r_DollarVol r) (t0_ThinDollarVol cfg) \<or>
                    fle (t0_ExtremeRet cfg) (r_Ret3m r)) rows)) \<and>
   sorted (map fl_Severity (Tier0 rows cfg)) \<and>
   sorted_wrt (\<lambda>f g. fl_Severity f = fl_Severity g \<longrightarrow> fle (fl_Ret3m g) (fl_Ret3m f)) (Tier0 rows cfg) \<and>
   Counts (Tier0 rows cfg) =
     (int (length (filter (\<lambda>f. fl_Severity f = Suspect) (Tier0 rows cfg))),
      int (length (filter (\<lambda>f. fl_Severity f = Watch) (Tier0 rows cfg))))"
proof -
  let ?out = "List.map_filter (tier0_row cfg) rows"
  have T: "Tier0 rows cfg = sort_stable flag_less ?out"
    by (simp add: Tier0_def tier0_fold)
  have some: "\<exists>r. tier0_row cfg r = Some f" if "f \<in> set ?out" for f
    using that by (auto simp: List.map_filter_def)
  then have nn: "set ?out \<subseteq> {f. \<not> isnan (fl_Ret3m f)}"
    by (auto dest!: some simp: tier0_row_Some)
  have nn': "\<not> isnan (fl_Ret3m f)" if "f \<in> set ?out" for f using nn that by auto
  have sorted: "sorted_wrt (\<lambda>x y. \<not> flag_less y x) (sort_stable flag_less ?out)"
    using nn by (rule by_severity.sort_sorted)
  have "sorted_wrt (\<lambda>f g. fl_Severity f \<le> fl_Severity g) (sort_stable flag_less ?out)"
    using sorted by (elim sorted_wrt_mono_rel [rotated])
      (auto simp: flag_less_def Let_def less_eq_severity_def split: if_splits)
  then have "sorted (map fl_Severity (Tier0 rows cfg))" unfolding T by (simp add: sorted_wrt_map)
  moreover have "sorted_wrt (\<lambda>f g. fl_Severity f = fl_Severity g \<longrightarrow> fle (fl_Ret3m g) (fl_Ret3m f)) (Tier0 rows cfg)"
    unfolding T using sorted
    by (elim sorted_wrt_mono_rel [rotated])
       (auto simp: flag_less_def Let_def not_flt_iff nn' split: if_splits)
  moreover have "mset (Tier0 rows cfg) = mset ?out" by (simp add: T)
  ultimately show ?thesis unfolding tier0_rows by (simp add: Counts_def Counts_fold)
qed

theorem tier0_report_witness:
  "\<forall>r. Counts (Tier0 [r\<lparr>r_Ret3m := Fin 3, r_DollarVol := Fin 1000\<rparr>] DefaultTier0) = (1, 0)"
proof
  fix r :: snapshot_row
  let ?r = "r\<lparr>r_Ret3m := Fin 3, r_DollarVol := Fin 1000\<rparr>"
  have "lit 2 = Fin 2" "lit 5000000 = Fin 5000000" by (simp_all add: lit_numeral)
  then have "\<exists>f. Tier0 [?r] DefaultTier0 = [f] \<and> fl_Severity f = Suspect"
    by (simp add: Tier0_def tier0_row_def DefaultTier0_def Let_def fle_iff flt_def)
  then obtain f where f: "Tier0 [?r] DefaultTier0 = [f]" "fl_Severity f = Suspect" by blast
  have "Counts (Tier0 [?r] DefaultTier0) =
     (int (length (filter (\<lambda>f. fl_Severity f = Suspect) (Tier0 [?r] DefaultTier0))),
      int (length (filter (\<lambda>f. fl_Severity f = Watch) (Tier0 [?r] DefaultTier0))))"
    using tier0_report [of "[?r]" DefaultTier0] by blast
  then show "Counts (Tier0 [?r] DefaultTier0) = (1, 0)" by (simp add: f)
qed

end
