(* ===== verification/Scanner_Scan.thy ===== *)
theory Scanner_Scan
  imports Indicator_Laws
begin

text \<open>
  \<open>internal/scanner/scanner.go\<close>: the breakout and gap signals of a symbol's latest
  bar. A Go slice expression \<open>bars[a:b]\<close> is \<open>drop a (take b bars)\<close>.
\<close>

record signal =
  sg_Symbol :: string
  sg_Type :: string
  sg_Date :: int
  sg_Value :: float64

definition SignalVolumeBreakout :: string where "SignalVolumeBreakout = ''volume_breakout''"
definition SignalPriceBreakout :: string where "SignalPriceBreakout = ''price_breakout''"
definition SignalGapUp :: string where "SignalGapUp = ''gap_up''"
definition SignalGapDown :: string where "SignalGapDown = ''gap_down''"

record scan_config =
  sc_Lookback :: int
  sc_VolumeMult :: float64
  sc_GapPct :: float64

definition volume_signal :: "string \<Rightarrow> bar list \<Rightarrow> bar \<Rightarrow> scan_config \<Rightarrow> signal list" where
  "volume_signal symbol window lastb cfg =
     (let sum = foldl (\<lambda>s b. fadd s (of_int64 (b_Volume b))) (lit 0) window;
          avg = fdiv sum (of_int64 (int (length window)))
      in if flt (lit 0) avg \<and> fle (fmul (sc_VolumeMult cfg) avg) (of_int64 (b_Volume lastb))
         then [\<lparr>sg_Symbol = symbol, sg_Type = SignalVolumeBreakout, sg_Date = b_Timestamp lastb,
                sg_Value = fdiv (of_int64 (b_Volume lastb)) avg\<rparr>]
         else [])"

definition window_high :: "bar list \<Rightarrow> float64" where
  "window_high window =
     foldl (\<lambda>hi b. if flt hi (b_High b) then b_High b else hi) (b_High (window ! 0)) window"

definition price_signal :: "string \<Rightarrow> bar list \<Rightarrow> bar \<Rightarrow> signal list" where
  "price_signal symbol window lastb =
     (let hi = window_high window in
      if flt (lit 0) hi \<and> flt hi (b_Close lastb)
      then [\<lparr>sg_Symbol = symbol, sg_Type = SignalPriceBreakout, sg_Date = b_Timestamp lastb,
             sg_Value = fsub (fdiv (b_Close lastb) hi) (lit 1)\<rparr>]
      else [])"

definition gap_signal :: "string \<Rightarrow> bar \<Rightarrow> bar \<Rightarrow> scan_config \<Rightarrow> signal list" where
  "gap_signal symbol prev lastb cfg =
     (if flt (lit 0) (b_Close prev)
      then let gap = fsub (fdiv (b_Open lastb) (b_Close prev)) (lit 1) in
           if fle (sc_GapPct cfg) gap
           then [\<lparr>sg_Symbol = symbol, sg_Type = SignalGapUp, sg_Date = b_Timestamp lastb, sg_Value = gap\<rparr>]
           else if fle gap (fneg (sc_GapPct cfg))
           then [\<lparr>sg_Symbol = symbol, sg_Type = SignalGapDown, sg_Date = b_Timestamp lastb, sg_Value = gap\<rparr>]
           else []
      else [])"

definition Scan :: "string \<Rightarrow> bar list \<Rightarrow> scan_config \<Rightarrow> signal list" where
  "Scan symbol bars cfg =
     (let n = length bars in
      if sc_Lookback cfg < 1 \<or> int n < sc_Lookback cfg + 1 then []
      else let lastb = bars ! (n - 1); prev = bars ! (n - 2);
               window = drop (n - 1 - nat (sc_Lookback cfg)) (take (n - 1) bars)
           in volume_signal symbol window lastb cfg @ price_signal symbol window lastb @
              gap_signal symbol prev lastb cfg)"

section \<open>Laws\<close>

lemma window_high_fold:
  assumes "\<not> isnan h" "\<forall>b \<in> set bs. \<not> isnan (b_High b)"
  shows "foldl (\<lambda>hi b. if flt hi (b_High b) then b_High b else hi) h bs \<in> insert h (b_High ` set bs) \<and>
    fle h (foldl (\<lambda>hi b. if flt hi (b_High b) then b_High b else hi) h bs) \<and>
    (\<forall>b \<in> set bs. fle (b_High b) (foldl (\<lambda>hi b. if flt hi (b_High b) then b_High b else hi) h bs))"
  using assms
proof (induction bs arbitrary: h)
  case Nil
  then show ?case by (simp add: fle_refl)
next
  case (Cons b bs)
  let ?h = "if flt h (b_High b) then b_High b else h"
  have "\<not> isnan ?h" using Cons.prems by auto
  note ih = Cons.IH [OF this]
  have "fle h ?h \<and> fle (b_High b) ?h" using Cons.prems by (auto simp: fle_iff flt_def)
  then show ?case using ih Cons.prems by (auto split: if_splits intro: fle_trans)
qed

lemma window_high_max:
  assumes "window \<noteq> []" "\<forall>b \<in> set window. \<not> isnan (b_High b)"
  shows "window_high window \<in> b_High ` set window"
    and "b \<in> set window \<Longrightarrow> fle (b_High b) (window_high window)"
proof -
  have "window ! 0 \<in> set window" using assms(1) by simp
  moreover from this have "\<not> isnan (b_High (window ! 0))" using assms(2) by blast
  ultimately show "window_high window \<in> b_High ` set window"
    and "b \<in> set window \<Longrightarrow> fle (b_High b) (window_high window)"
    using window_high_fold [of "b_High (window ! 0)" window] assms(2)
    unfolding window_high_def by blast+
qed

text \<open>The trailing window of a history.\<close>

definition scan_window :: "bar list \<Rightarrow> int \<Rightarrow> bar list" where
  "scan_window bars lookback = drop (length bars - 1 - nat lookback) (take (length bars - 1) bars)"

lemma scan_types:
  "sg_Type ` set (volume_signal symbol w l cfg) \<subseteq> {SignalVolumeBreakout}"
  "sg_Type ` set (price_signal symbol w l) \<subseteq> {SignalPriceBreakout}"
  "sg_Type ` set (gap_signal symbol p l cfg) \<subseteq> {SignalGapUp, SignalGapDown}"
  "length (volume_signal symbol w l cfg) \<le> 1" "length (price_signal symbol w l) \<le> 1"
  "length (gap_signal symbol p l cfg) \<le> 1"
  by (auto simp: volume_signal_def price_signal_def gap_signal_def Let_def)

lemma signal_types_distinct:
  "distinct [SignalVolumeBreakout, SignalPriceBreakout, SignalGapUp, SignalGapDown]"
  by code_simp

text \<open>
  A price breakout is reported exactly when the latest close is above the high of
  every bar of the trailing window of \<open>Lookback\<close> bars and the window has a positive
  high; the latest bar's own high plays no part.
\<close>

theorem price_breakout_iff:
  assumes "1 \<le> sc_Lookback cfg" "sc_Lookback cfg < int (length bars)"
    and "\<forall>b \<in> set (scan_window bars (sc_Lookback cfg)). \<not> isnan (b_High b)"
  shows "(\<exists>s \<in> set (Scan symbol bars cfg). sg_Type s = SignalPriceBreakout) \<longleftrightarrow>
    (\<exists>b \<in> set (scan_window bars (sc_Lookback cfg)). flt (lit 0) (b_High b)) \<and>
    (\<forall>b \<in> set (scan_window bars (sc_Lookback cfg)). flt (b_High b) (b_Close (last bars)))"
proof -
  let ?w = "scan_window bars (sc_Lookback cfg)"
  let ?last = "bars ! (length bars - 1)" and ?prev = "bars ! (length bars - 2)"
  have ne: "?w \<noteq> []" and b: "bars \<noteq> []" using assms(1,2) by (auto simp: scan_window_def)
  have S: "Scan symbol bars cfg =
      volume_signal symbol ?w ?last cfg @ price_signal symbol ?w ?last @ gap_signal symbol ?prev ?last cfg"
    using assms(1,2) by (simp add: Scan_def scan_window_def Let_def)
  have "(\<exists>s \<in> set (Scan symbol bars cfg). sg_Type s = SignalPriceBreakout) \<longleftrightarrow>
      (\<exists>s \<in> set (price_signal symbol ?w ?last). sg_Type s = SignalPriceBreakout)"
    unfolding S using scan_types(1,3) signal_types_distinct by (fastforce simp: image_subset_iff)
  also have "\<dots> \<longleftrightarrow> flt (lit 0) (window_high ?w) \<and> flt (window_high ?w) (b_Close ?last)"
    by (auto simp: price_signal_def Let_def)
  also have "\<dots> \<longleftrightarrow> (\<exists>b \<in> set ?w. flt (lit 0) (b_High b)) \<and> (\<forall>b \<in> set ?w. flt (b_High b) (b_Close ?last))"
  proof -
    obtain m where m: "m \<in> set ?w" "window_high ?w = b_High m"
      using window_high_max(1) [OF ne assms(3)] by auto
    have max: "fle (b_High b) (b_High m)" if "b \<in> set ?w" for b
      using window_high_max(2) [OF ne assms(3) that] m(2) by simp
    show ?thesis
      unfolding m(2) using m(1) max flt_fle_trans fle_flt_trans by blast
  qed
  also have "?last = last bars" using b by (simp add: last_conv_nth)
  finally show ?thesis .
qed

definition breakout_bars :: "bar list" where
  "breakout_bars = map (\<lambda>c. \<lparr>b_Symbol = ''A'', b_Timestamp = 0, b_Open = Fin c, b_High = Fin (c + 1),
      b_Low = Fin (c - 1), b_Close = Fin c, b_Volume = 100, b_VWAP = Fin c, b_Source = []\<rparr>) [10, 11, 9, 13]"

theorem price_breakout_iff_witness:
  "\<exists>s \<in> set (Scan ''A'' breakout_bars \<lparr>sc_Lookback = 3, sc_VolumeMult = Fin 2, sc_GapPct = Fin (1 / 4)\<rparr>).
     sg_Type s = SignalPriceBreakout"
proof -
  let ?cfg = "\<lparr>sc_Lookback = 3, sc_VolumeMult = Fin 2, sc_GapPct = Fin (1 / 4)\<rparr>"
  have "scan_window breakout_bars 3 = take 3 breakout_bars"
    by (simp add: scan_window_def breakout_bars_def)
  moreover have "\<forall>b \<in> set (take 3 breakout_bars). \<not> isnan (b_High b) \<and> flt (lit 0) (b_High b) \<and>
      flt (b_High b) (b_Close (last breakout_bars))" by code_simp
  moreover have "take 3 breakout_bars \<noteq> []" by (simp add: breakout_bars_def)
  ultimately show ?thesis
    using price_breakout_iff [of ?cfg breakout_bars "''A''"]
    by (simp add: breakout_bars_def)
qed

text \<open>
  A scan reports at most one volume breakout, one price breakout and one gap, in
  that order, never a gap up together with a gap down, all dated by the latest bar; and
  it depends only on the last \<open>Lookback + 1\<close> bars.
\<close>

theorem scan_shape_and_locality:
  assumes "sc_Lookback cfg < int (length bars)"
  shows "Scan symbol (older @ bars) cfg = Scan symbol bars cfg \<and>
    distinct (map sg_Type (Scan symbol bars cfg)) \<and> length (Scan symbol bars cfg) \<le> 3 \<and>
    \<not> {SignalGapUp, SignalGapDown} \<subseteq> sg_Type ` set (Scan symbol bars cfg) \<and>
    (\<forall>s \<in> set (Scan symbol bars cfg). sg_Date s = b_Timestamp (last bars) \<and> sg_Symbol s = symbol)"
proof (cases "sc_Lookback cfg < 1")
  case True
  then show ?thesis by (simp add: Scan_def)
next
  case False
  define k where "k = nat (sc_Lookback cfg)"
  have k: "sc_Lookback cfg = int k" "1 \<le> k" "k < length bars" using False assms by (auto simp: k_def)
  let ?n = "length bars" and ?m = "length older"
  let ?w = "drop (?n - 1 - k) (take (?n - 1) bars)"
  have l: "bars ! (?n - 1) = last bars" using k by (subst last_conv_nth) auto
  have S: "Scan symbol bars cfg = volume_signal symbol ?w (last bars) cfg @
      price_signal symbol ?w (last bars) @ gap_signal symbol (bars ! (?n - 2)) (last bars) cfg"
    unfolding l [symmetric] using k by (simp add: Scan_def Let_def)
  have S': "Scan symbol (older @ bars) cfg = Scan symbol bars cfg"
  proof -
    have "(older @ bars) ! (?m + ?n - 1) = last bars" "(older @ bars) ! (?m + ?n - 2) = bars ! (?n - 2)"
      using k l by (auto simp: nth_append)
    moreover have "drop (?m + ?n - 1 - k) (take (?m + ?n - 1) (older @ bars)) = ?w"
      using k by (simp add: take_append drop_append)
    ultimately show ?thesis using k unfolding S by (simp add: Scan_def Let_def)
  qed
  have len: "length (Scan symbol bars cfg) \<le> 3"
    unfolding S using scan_types(4) [of symbol ?w "last bars" cfg] scan_types(5) [of symbol ?w "last bars"]
      scan_types(6) [of symbol "bars ! (?n - 2)" "last bars" cfg] by simp
  have "distinct (map sg_Type (Scan symbol bars cfg))"
    "\<not> {SignalGapUp, SignalGapDown} \<subseteq> sg_Type ` set (Scan symbol bars cfg)"
    unfolding S using signal_types_distinct
    by (auto simp: volume_signal_def price_signal_def gap_signal_def Let_def)
  moreover have "\<forall>s \<in> set (Scan symbol bars cfg). sg_Date s = b_Timestamp (last bars) \<and> sg_Symbol s = symbol"
    unfolding S by (auto simp: volume_signal_def price_signal_def gap_signal_def Let_def)
  ultimately show ?thesis using S' len by blast
qed

theorem scan_shape_and_locality_witness:
  "\<forall>older. Scan ''A'' (older @ breakout_bars) \<lparr>sc_Lookback = 3, sc_VolumeMult = Fin 2, sc_GapPct = Fin (1 / 4)\<rparr> =
           Scan ''A'' breakout_bars \<lparr>sc_Lookback = 3, sc_VolumeMult = Fin 2, sc_GapPct = Fin (1 / 4)\<rparr>"
  using scan_shape_and_locality by (simp add: breakout_bars_def)

end
