(* ===== verification/Database.thy ===== *)
theory Database
  imports Prelude Float64
begin

text \<open>
  The relational state behind the stores: the tables created by
  \<open>internal/schema/migration.go\<close> that the modelled stores use, with the effect of
  the SQL statements of the stores under \<open>PRAGMA foreign_keys = ON\<close>
  (\<open>snapshot.Open\<close> sets it on its only connection). A table is the list of its rows,
  in insertion order. A statement that violates a primary key, a \<open>NOT NULL\<close> or a
  foreign key fails and changes nothing; the failures of the database engine itself
  (a full disk, a closed file) are outside the model.
\<close>

named_theorems db_simps "what a statement leaves in the tables"

section \<open>Tables\<close>

record user_row =
  ur_id :: string
  ur_name :: string
  ur_role_id :: string
  ur_pass_hash :: string
  ur_disabled :: bool
  ur_nlp_enabled :: bool
  ur_nlp_daily_limit :: int

record group_row =
  gr_id :: string
  gr_name :: string
  gr_description :: string
  gr_owner_id :: string
  gr_created_at :: int

record member_row =
  gm_group_id :: string
  gm_user_id :: string
  gm_role :: string
  gm_joined_at :: int

text \<open>\<open>results_json\<close> holds the marshalled matches; the model keeps the matches.\<close>

record match =
  m_Symbol :: string
  m_Close :: float64
  m_RSI14 :: float64
  m_Ret3m :: float64
  m_DollarVol :: float64

record result_row =
  rr_id :: int
  rr_user_id :: string
  rr_study_id :: string
  rr_snapshot_date :: int
  rr_results :: "match list"
  rr_created_at :: int
  rr_name :: string
  rr_notes :: string
  rr_perm_owner :: int
  rr_perm_group :: int
  rr_perm_all :: int
  rr_group_id :: "string option"

record acl_row =
  ar_result_id :: int
  ar_user_id :: string
  ar_permission :: int
  ar_granted_at :: int
  ar_granted_by :: string

record limit_row =
  ul_user_id :: string
  ul_limits_json :: string
  ul_updated_at :: int

record database =
  db_users :: "user_row list"
  db_groups :: "group_row list"
  db_members :: "member_row list"
  db_results :: "result_row list"
  db_acls :: "acl_row list"
  db_result_seq :: int
  db_limits :: "limit_row list"

datatype sql_error =
    UniqueViolation
  | ForeignKeyViolation
  | NullIntoString
  | NotFound
  | BadJSON

definition empty_db :: database where
  "empty_db = \<lparr>db_users = [], db_groups = [], db_members = [], db_results = [], db_acls = [],
     db_result_seq = 0, db_limits = []\<rparr>"

section \<open>Text order\<close>

text \<open>
  \<open>ORDER BY\<close> on a text column compares bytes (SQLite's \<open>BINARY\<close> collation). Rows that
  compare equal stay in the order of the table, as SQLite's sorter leaves them.
\<close>

fun text_less :: "string \<Rightarrow> string \<Rightarrow> bool" where
  "text_less xs [] = False"
| "text_less [] (y # ys) = True"
| "text_less (x # xs) (y # ys) =
     ((of_char x :: nat) < of_char y \<or> x = y \<and> text_less xs ys)"

lemma text_less_irrefl [simp]: "\<not> text_less xs xs"
  by (induction xs) auto

lemma text_less_asym: "text_less xs ys \<Longrightarrow> \<not> text_less ys xs"
  by (induction xs ys rule: text_less.induct) auto

lemma text_less_trans: "text_less xs ys \<Longrightarrow> text_less ys zs \<Longrightarrow> text_less xs zs"
proof (induction xs ys arbitrary: zs rule: text_less.induct)
  case (2 y ys) then show ?case by (cases zs) auto
next
  case (3 x xs y ys) then show ?case by (cases zs) (auto dest: less_trans)
qed simp

lemma text_less_linear: "\<not> text_less xs ys \<Longrightarrow> \<not> text_less ys xs \<Longrightarrow> xs = ys"
proof (induction xs ys rule: text_less.induct)
  case (1 xs) then show ?case by (cases xs) auto
next
  case (3 x xs y ys)
  then have "(of_char x :: nat) = of_char y" by auto
  then have "x = y" by simp
  with 3 show ?case by auto
qed simp

section \<open>Referential integrity\<close>

definition member_key :: "member_row \<Rightarrow> string \<times> string" where
  "member_key m = (gm_group_id m, gm_user_id m)"

definition acl_key :: "acl_row \<Rightarrow> int \<times> string" where
  "acl_key a = (ar_result_id a, ar_user_id a)"

definition has_user :: "database \<Rightarrow> string \<Rightarrow> bool" where
  "has_user db u \<longleftrightarrow> u \<in> set (map ur_id (db_users db))"

definition has_group :: "database \<Rightarrow> string \<Rightarrow> bool" where
  "has_group db g \<longleftrightarrow> g \<in> set (map gr_id (db_groups db))"

definition has_result :: "database \<Rightarrow> int \<Rightarrow> bool" where
  "has_result db i \<longleftrightarrow> i \<in> set (map rr_id (db_results db))"

definition group_ref_ok :: "database \<Rightarrow> string option \<Rightarrow> bool" where
  "group_ref_ok db g \<longleftrightarrow> (case g of None \<Rightarrow> True | Some i \<Rightarrow> has_group db i)"

definition db_ok :: "database \<Rightarrow> bool" where
  "db_ok db \<longleftrightarrow>
     distinct (map ur_id (db_users db)) \<and>
     distinct (map gr_id (db_groups db)) \<and>
     distinct (map member_key (db_members db)) \<and>
     distinct (map rr_id (db_results db)) \<and>
     distinct (map acl_key (db_acls db)) \<and>
     (\<forall>m \<in> set (db_members db). has_group db (gm_group_id m)) \<and>
     (\<forall>r \<in> set (db_results db). has_user db (rr_user_id r) \<and> group_ref_ok db (rr_group_id r)) \<and>
     (\<forall>a \<in> set (db_acls db). has_result db (ar_result_id a) \<and> has_user db (ar_user_id a)) \<and>
     (\<forall>r \<in> set (db_results db). rr_id r \<le> db_result_seq db)"

text \<open>
  \<open>user_limits\<close> refers to \<open>users\<close> without an action. It is kept apart from \<open>db_ok\<close>,
  because within an \<open>INSERT OR REPLACE\<close> the reference dangles until the row is back.
\<close>

definition limits_ok :: "database \<Rightarrow> bool" where
  "limits_ok db \<longleftrightarrow> distinct (map ul_user_id (db_limits db)) \<and>
     (\<forall>l \<in> set (db_limits db). has_user db (ul_user_id l))"

definition schema_ok :: "database \<Rightarrow> bool" where
  "schema_ok db \<longleftrightarrow> db_ok db \<and> limits_ok db"

section \<open>Foreign key actions\<close>

text \<open>\<open>DELETE FROM saved_results\<close>: the entries of \<open>result_acls\<close> go with their result.\<close>

definition delete_results :: "(result_row \<Rightarrow> bool) \<Rightarrow> database \<Rightarrow> database" where
  "delete_results P db =
     (let gone = map rr_id (filter P (db_results db)) in
      db\<lparr>db_results := filter (\<lambda>r. \<not> P r) (db_results db),
         db_acls := filter (\<lambda>a. ar_result_id a \<notin> set gone) (db_acls db)\<rparr>)"

text \<open>\<open>DELETE FROM users\<close>: results and ACL entries cascade.\<close>

definition delete_user :: "string \<Rightarrow> database \<Rightarrow> database" where
  "delete_user u db =
     (let db = delete_results (\<lambda>r. rr_user_id r = u) db in
      db\<lparr>db_users := filter (\<lambda>x. ur_id x \<noteq> u) (db_users db),
         db_acls := filter (\<lambda>a. ar_user_id a \<noteq> u) (db_acls db)\<rparr>)"

text \<open>The statement itself fails while a row of \<open>user_limits\<close> refers to the user.\<close>

definition sql_delete_user :: "string \<Rightarrow> database \<Rightarrow> (sql_error, database) result" where
  "sql_delete_user u db =
     (if u \<in> set (map ul_user_id (db_limits db)) then Inl ForeignKeyViolation
      else Inr (delete_user u db))"

text \<open>
  \<open>INSERT OR REPLACE INTO users\<close>: a row with the same key is deleted first, with the
  foreign key actions of a delete.
\<close>

definition replace_user :: "user_row \<Rightarrow> database \<Rightarrow> database" where
  "replace_user r db =
     (let db = (if has_user db (ur_id r) then delete_user (ur_id r) db else db)
      in db\<lparr>db_users := db_users db @ [r]\<rparr>)"

text \<open>\<open>DELETE FROM groups\<close>: memberships cascade, results lose their group.\<close>

definition delete_group :: "string \<Rightarrow> database \<Rightarrow> database" where
  "delete_group g db =
     db\<lparr>db_groups := filter (\<lambda>x. gr_id x \<noteq> g) (db_groups db),
        db_members := filter (\<lambda>m. gm_group_id m \<noteq> g) (db_members db),
        db_results := map (\<lambda>r. if rr_group_id r = Some g then r\<lparr>rr_group_id := None\<rparr> else r)
                        (db_results db)\<rparr>"

section \<open>The invariant survives them\<close>

lemma distinct_map_filter_iff [simp]: "distinct (map f xs) \<Longrightarrow> distinct (map f (filter P xs))"
  by (rule distinct_map_filter)

lemma db_ok_empty [simp]: "db_ok empty_db"
  by (simp add: db_ok_def empty_db_def)

lemma group_ref_ok_iff: "group_ref_ok db g \<longleftrightarrow> (\<forall>i. g = Some i \<longrightarrow> has_group db i)"
  by (auto simp: group_ref_ok_def split: option.splits)

lemma db_okI:
  assumes "distinct (map ur_id (db_users db))" "distinct (map gr_id (db_groups db))"
    "distinct (map member_key (db_members db))" "distinct (map rr_id (db_results db))"
    "distinct (map acl_key (db_acls db))"
    "\<And>m. m \<in> set (db_members db) \<Longrightarrow> has_group db (gm_group_id m)"
    "\<And>r. r \<in> set (db_results db) \<Longrightarrow> has_user db (rr_user_id r)"
    "\<And>r i. r \<in> set (db_results db) \<Longrightarrow> rr_group_id r = Some i \<Longrightarrow> has_group db i"
    "\<And>a. a \<in> set (db_acls db) \<Longrightarrow> has_result db (ar_result_id a)"
    "\<And>a. a \<in> set (db_acls db) \<Longrightarrow> has_user db (ar_user_id a)"
    "\<And>r. r \<in> set (db_results db) \<Longrightarrow> rr_id r \<le> db_result_seq db"
  shows "db_ok db"
  using assms unfolding db_ok_def group_ref_ok_iff by blast

lemma db_okD:
  assumes "db_ok db"
  shows "distinct (map ur_id (db_users db))" "distinct (map gr_id (db_groups db))"
    "distinct (map member_key (db_members db))" "distinct (map rr_id (db_results db))"
    "distinct (map acl_key (db_acls db))"
    "m \<in> set (db_members db) \<Longrightarrow> has_group db (gm_group_id m)"
    "r \<in> set (db_results db) \<Longrightarrow> has_user db (rr_user_id r)"
    "r \<in> set (db_results db) \<Longrightarrow> rr_group_id r = Some i \<Longrightarrow> has_group db i"
    "a \<in> set (db_acls db) \<Longrightarrow> has_result db (ar_result_id a)"
    "a \<in> set (db_acls db) \<Longrightarrow> has_user db (ar_user_id a)"
    "r \<in> set (db_results db) \<Longrightarrow> rr_id r \<le> db_result_seq db"
  using assms unfolding db_ok_def group_ref_ok_iff by blast+

lemma has_delete [db_simps]:
  "has_user (delete_results P db) v \<longleftrightarrow> has_user db v"
  "has_group (delete_results P db) h \<longleftrightarrow> has_group db h"
  "has_user (delete_user u db) v \<longleftrightarrow> has_user db v \<and> v \<noteq> u"
  "has_group (delete_user u db) h \<longleftrightarrow> has_group db h"
  "has_result (delete_user u db) i \<longleftrightarrow> has_result (delete_results (\<lambda>r. rr_user_id r = u) db) i"
  "has_user (delete_group g db) v \<longleftrightarrow> has_user db v"
  "has_group (delete_group g db) h \<longleftrightarrow> has_group db h \<and> h \<noteq> g"
  by (auto simp: has_user_def has_group_def has_result_def delete_results_def delete_user_def
      delete_group_def Let_def)

lemma has_result_delete_group [db_simps]: "has_result (delete_group g db) i \<longleftrightarrow> has_result db i"
proof -
  have "map rr_id (db_results (delete_group g db)) = map rr_id (db_results db)"
    by (auto simp: delete_group_def)
  then show ?thesis by (simp only: has_result_def)
qed

lemma delete_fields [db_simps]:
  "db_users (delete_results P db) = db_users db"
  "db_groups (delete_results P db) = db_groups db"
  "db_members (delete_results P db) = db_members db"
  "db_results (delete_results P db) = filter (\<lambda>r. \<not> P r) (db_results db)"
  "db_acls (delete_results P db) =
     filter (\<lambda>a. ar_result_id a \<notin> rr_id ` {r \<in> set (db_results db). P r}) (db_acls db)"
  "db_result_seq (delete_results P db) = db_result_seq db"
  "db_users (delete_user u db) = filter (\<lambda>x. ur_id x \<noteq> u) (db_users db)"
  "db_groups (delete_user u db) = db_groups db"
  "db_members (delete_user u db) = db_members db"
  "db_results (delete_user u db) = filter (\<lambda>r. rr_user_id r \<noteq> u) (db_results db)"
  "db_acls (delete_user u db) =
     filter (\<lambda>a. ar_user_id a \<noteq> u) (db_acls (delete_results (\<lambda>r. rr_user_id r = u) db))"
  "db_result_seq (delete_user u db) = db_result_seq db"
  "db_users (delete_group g db) = db_users db"
  "db_groups (delete_group g db) = filter (\<lambda>x. gr_id x \<noteq> g) (db_groups db)"
  "db_members (delete_group g db) = filter (\<lambda>m. gm_group_id m \<noteq> g) (db_members db)"
  "db_acls (delete_group g db) = db_acls db"
  "db_result_seq (delete_group g db) = db_result_seq db"
  by (simp_all add: delete_results_def delete_user_def delete_group_def Let_def)

lemma db_ok_delete_results:
  assumes "db_ok db" shows "db_ok (delete_results P db)"
proof -
  note d = db_okD [OF assms]
  have "has_result (delete_results P db) (ar_result_id a)"
    if "a \<in> set (db_acls (delete_results P db))" for a
  proof -
    from that have a: "a \<in> set (db_acls db)" "ar_result_id a \<notin> rr_id ` {r \<in> set (db_results db). P r}"
      by (auto simp: db_simps)
    obtain r where "r \<in> set (db_results db)" "rr_id r = ar_result_id a"
      using d(9) [OF a(1)] by (auto simp: has_result_def)
    with a(2) show ?thesis by (force simp: has_result_def db_simps)
  qed
  with d(1-5) show ?thesis
    by (intro db_okI) (auto simp: db_simps dest: d(6-11))
qed

lemma db_ok_delete_user:
  assumes "db_ok db" shows "db_ok (delete_user u db)"
proof -
  let ?db = "delete_results (\<lambda>r. rr_user_id r = u) db"
  have "db_ok ?db" using assms by (rule db_ok_delete_results)
  note e = db_okD [OF this] and d = db_okD [OF assms]
  have acls: "has_result ?db (ar_result_id a) \<and> has_user db (ar_user_id a) \<and> ar_user_id a \<noteq> u"
    if "a \<in> set (db_acls (delete_user u db))" for a
  proof -
    from that have "a \<in> set (db_acls ?db)" "ar_user_id a \<noteq> u" by (simp_all add: delete_fields(11))
    then show ?thesis using e(9,10) by (simp add: has_delete(1))
  qed
  show ?thesis
  proof (rule db_okI)
    show "distinct (map acl_key (db_acls (delete_user u db)))"
      using e(5) by (simp only: delete_fields(11) distinct_map_filter)
    show "has_group (delete_user u db) i"
      if "r \<in> set (db_results (delete_user u db))" "rr_group_id r = Some i" for r i
      using that by (auto simp: has_delete delete_fields(10) intro: d(8))
  qed (use d(1-4) acls in \<open>simp_all add: has_delete delete_fields(7-10,12) d(6-8,11)\<close>)
qed

lemma db_ok_add_user:
  assumes "db_ok db" "\<not> has_user db (ur_id r)"
  shows "db_ok (db\<lparr>db_users := db_users db @ [r]\<rparr>)"
  by (intro db_okI) (use db_okD [OF assms(1)] assms(2) in \<open>auto simp: has_user_def has_group_def has_result_def\<close>)

lemma db_ok_replace_user:
  assumes "db_ok db" shows "db_ok (replace_user r db)"
proof (cases "has_user db (ur_id r)")
  case True
  have fresh: "\<not> has_user (delete_user (ur_id r) db) (ur_id r)" by (simp add: has_delete)
  have "replace_user r db = (delete_user (ur_id r) db)
      \<lparr>db_users := db_users (delete_user (ur_id r) db) @ [r]\<rparr>"
    using True by (simp add: replace_user_def Let_def)
  then show ?thesis using db_ok_add_user [OF db_ok_delete_user [OF assms] fresh] by (simp only:)
next
  case False
  then show ?thesis
    using db_ok_add_user [OF assms False] by (simp add: replace_user_def Let_def)
qed

lemma db_ok_delete_group:
  assumes "db_ok db" shows "db_ok (delete_group g db)"
proof -
  note d = db_okD [OF assms]
  have ids: "map rr_id (db_results (delete_group g db)) = map rr_id (db_results db)"
    by (auto simp: delete_group_def)
  have rows: "r \<in> set (db_results (delete_group g db)) \<Longrightarrow>
      \<exists>r' \<in> set (db_results db). rr_user_id r = rr_user_id r' \<and> rr_id r = rr_id r' \<and>
        (rr_group_id r = rr_group_id r' \<and> rr_group_id r \<noteq> Some g \<or> rr_group_id r = None)" for r
    by (auto simp: delete_group_def split: if_splits)
  show ?thesis
    using d(1-5) by (intro db_okI) (auto simp: db_simps ids dest!: rows dest: d(6-11))
qed

section \<open>User limits\<close>

lemma limits_fields [db_simps]:
  "db_limits (delete_results P db) = db_limits db"
  "db_limits (delete_user u db) = db_limits db"
  "db_limits (replace_user r db) = db_limits db"
  "db_limits (delete_group g db) = db_limits db"
  by (simp_all add: delete_results_def delete_user_def replace_user_def delete_group_def Let_def)

lemma has_user_replace [db_simps]: "has_user (replace_user r db) v \<longleftrightarrow> has_user db v \<or> v = ur_id r"
  by (auto simp: replace_user_def Let_def has_user_def delete_fields)

lemma schema_ok_empty [simp]: "schema_ok empty_db"
  by (simp add: schema_ok_def limits_ok_def) (simp add: empty_db_def)

lemma schema_ok_replace_user: "schema_ok db \<Longrightarrow> schema_ok (replace_user r db)"
  by (simp add: schema_ok_def db_ok_replace_user limits_ok_def db_simps)

lemma schema_ok_sql_delete_user:
  "schema_ok db \<Longrightarrow> sql_delete_user u db = Inr db' \<Longrightarrow> schema_ok db'"
  by (auto simp: schema_ok_def db_ok_delete_user limits_ok_def db_simps sql_delete_user_def
      split: if_splits)

end
