(* ===== verification/Group_Store.thy ===== *)
theory Group_Store
  imports Database
begin

text \<open>
  \<open>internal/groups/groups.go\<close>: the group store, one definition per method, over the
  tables \<open>groups\<close> and \<open>group_members\<close>. A method that reads returns its value, one that
  writes returns the new database or its error. The clock of \<open>AddMember\<close> is the
  argument \<open>now\<close>, and \<open>ImportJSON\<close> starts from the decoded items.
\<close>

text \<open>The row of a table with the given key: \<open>QueryRow\<close>, with \<open>sql.ErrNoRows\<close> as \<open>None\<close>.\<close>

definition Create :: "group_row \<Rightarrow> database \<Rightarrow> (sql_error, database) result" where
  "Create g db =
     (if has_group db (gr_id g) then Inl UniqueViolation
      else Inr (db\<lparr>db_groups := db_groups db @ [g]\<rparr>))"

definition Get :: "string \<Rightarrow> database \<Rightarrow> group_row option" where
  "Get i db = find (\<lambda>g. gr_id g = i) (db_groups db)"

definition by_name :: "group_row \<Rightarrow> group_row \<Rightarrow> bool" where
  "by_name a b \<longleftrightarrow> text_less (gr_name a) (gr_name b)"

definition List :: "database \<Rightarrow> group_row list" where
  "List db = sort_stable by_name (db_groups db)"

definition ListByOwner :: "string \<Rightarrow> database \<Rightarrow> group_row list" where
  "ListByOwner owner db = sort_stable by_name (filter (\<lambda>g. gr_owner_id g = owner) (db_groups db))"

definition Update :: "group_row \<Rightarrow> database \<Rightarrow> (sql_error, database) result" where
  "Update g db =
     (if \<not> has_group db (gr_id g) then Inl NotFound
      else Inr (db\<lparr>db_groups := map (\<lambda>r. if gr_id r = gr_id g
                   then r\<lparr>gr_name := gr_name g, gr_description := gr_description g\<rparr> else r)
                 (db_groups db)\<rparr>))"

definition Delete :: "string \<Rightarrow> database \<Rightarrow> (sql_error, database) result" where
  "Delete i db = (if \<not> has_group db i then Inl NotFound else Inr (delete_group i db))"

definition has_member :: "database \<Rightarrow> string \<Rightarrow> string \<Rightarrow> bool" where
  "has_member db g u \<longleftrightarrow> (g, u) \<in> set (map member_key (db_members db))"

definition AddMember :: "int \<Rightarrow> string \<Rightarrow> string \<Rightarrow> string \<Rightarrow> database \<Rightarrow> (sql_error, database) result" where
  "AddMember now g u role db =
     (if has_member db g u then Inl UniqueViolation
      else if \<not> has_group db g then Inl ForeignKeyViolation
      else Inr (db\<lparr>db_members := db_members db @
             [\<lparr>gm_group_id = g, gm_user_id = u,
               gm_role = (if role = '''' then ''member'' else role), gm_joined_at = now\<rparr>]\<rparr>))"

definition RemoveMember :: "string \<Rightarrow> string \<Rightarrow> database \<Rightarrow> (sql_error, database) result" where
  "RemoveMember g u db =
     (if \<not> has_member db g u then Inl NotFound
      else Inr (db\<lparr>db_members := filter (\<lambda>m. member_key m \<noteq> (g, u)) (db_members db)\<rparr>))"

definition GetMember :: "string \<Rightarrow> string \<Rightarrow> database \<Rightarrow> member_row option" where
  "GetMember g u db = find (\<lambda>m. member_key m = (g, u)) (db_members db)"

definition ListMembers :: "string \<Rightarrow> database \<Rightarrow> member_row list" where
  "ListMembers g db =
     sort_stable (\<lambda>a b. gm_joined_at a < gm_joined_at b)
       (filter (\<lambda>m. gm_group_id m = g) (db_members db))"

text \<open>The inner join pairs every group with each of its memberships of the user.\<close>

definition ListUserGroups :: "string \<Rightarrow> database \<Rightarrow> group_row list" where
  "ListUserGroups u db =
     sort_stable by_name
       (concat (map (\<lambda>g. map (\<lambda>m. g)
           (filter (\<lambda>m. gm_group_id m = gr_id g \<and> gm_user_id m = u) (db_members db)))
         (db_groups db)))"

definition IsMember :: "string \<Rightarrow> string \<Rightarrow> database \<Rightarrow> bool" where
  "IsMember g u db \<longleftrightarrow> length (filter (\<lambda>m. member_key m = (g, u)) (db_members db)) > 0"

definition UpdateMemberRole :: "string \<Rightarrow> string \<Rightarrow> string \<Rightarrow> database \<Rightarrow> (sql_error, database) result" where
  "UpdateMemberRole g u role db =
     (if \<not> has_member db g u then Inl NotFound
      else Inr (db\<lparr>db_members := map (\<lambda>m. if member_key m = (g, u) then m\<lparr>gm_role := role\<rparr> else m)
                 (db_members db)\<rparr>))"

text \<open>The import counts the groups it created and skips the ones that fail.\<close>

definition import_group :: "nat \<times> database \<Rightarrow> group_row \<Rightarrow> nat \<times> database" where
  "import_group s g = (case Create g (snd s) of Inl e \<Rightarrow> s | Inr db \<Rightarrow> (fst s + 1, db))"

definition ImportJSON :: "group_row list \<Rightarrow> database \<Rightarrow> nat \<times> database" where
  "ImportJSON gs db = foldl import_group (0, db) gs"

section \<open>Membership\<close>

lemma IsMember_iff: "IsMember g u db \<longleftrightarrow> has_member db g u"
  by (force simp: IsMember_def has_member_def filter_empty_conv)

interpretation by_name: strict_weak UNIV by_name
  by unfold_locales
     (auto simp: by_name_def intro: text_less_trans dest: text_less_asym text_less_linear)

section \<open>The invariant\<close>

lemma db_ok_Create: "db_ok db \<Longrightarrow> Create g db = Inr db' \<Longrightarrow> db_ok db'"
  unfolding Create_def
  by (auto split: if_splits simp: has_group_def has_user_def has_result_def
      intro!: db_okI dest: db_okD)

lemma same_parents:
  assumes "db_ok db" "db_users db' = db_users db" "map gr_id (db_groups db') = map gr_id (db_groups db)"
    "db_results db' = db_results db" "db_acls db' = db_acls db" "db_result_seq db' = db_result_seq db"
    "distinct (map member_key (db_members db'))"
    "\<And>m. m \<in> set (db_members db') \<Longrightarrow> has_group db (gm_group_id m)"
  shows "db_ok db'"
proof -
  note d = db_okD [OF assms(1)]
  have h: "has_user db' = has_user db" "has_group db' = has_group db" "has_result db' = has_result db"
    by (simp_all only: fun_eq_iff has_user_def has_group_def has_result_def assms simp_thms)
  show ?thesis
    by (rule db_okI) (simp_all only: h assms d)
qed

lemma db_ok_Update:
  assumes "db_ok db" "Update g db = Inr db'"
  shows "db_ok db'"
  by (rule same_parents [OF assms(1)])
     (use db_okD [OF assms(1)] assms(2) in \<open>auto simp: Update_def split: if_splits\<close>)

lemma db_ok_Delete: "db_ok db \<Longrightarrow> Delete i db = Inr db' \<Longrightarrow> db_ok db'"
  by (auto simp: Delete_def db_ok_delete_group split: if_splits)

lemma db_ok_AddMember:
  assumes "db_ok db" "AddMember now g u role db = Inr db'"
  shows "db_ok db'"
  by (rule same_parents [OF assms(1)])
     (use db_okD [OF assms(1)] assms(2) in
       \<open>auto simp: AddMember_def has_member_def member_key_def split: if_splits\<close>)

lemma db_ok_RemoveMember:
  assumes "db_ok db" "RemoveMember g u db = Inr db'"
  shows "db_ok db'"
  by (rule same_parents [OF assms(1)])
     (use db_okD [OF assms(1)] assms(2) in \<open>auto simp: RemoveMember_def split: if_splits\<close>)

lemma db_ok_UpdateMemberRole:
  assumes "db_ok db" "UpdateMemberRole g u role db = Inr db'"
  shows "db_ok db'"
proof -
  let ?f = "\<lambda>m. if member_key m = (g, u) then m\<lparr>gm_role := role\<rparr> else m"
  have "member_key (?f m) = member_key m" for m by (simp add: member_key_def)
  then have keys: "map member_key (map ?f ms) = map member_key ms" for ms by simp
  from assms(2) have db': "db' = db\<lparr>db_members := map ?f (db_members db)\<rparr>"
    by (simp add: UpdateMemberRole_def split: if_splits)
  show ?thesis
    by (rule same_parents [OF assms(1)])
       (use db_okD(1-6) [OF assms(1)] in \<open>auto simp: db' keys simp del: map_map\<close>)
qed

lemma import_keeps_ok: "db_ok (snd s) \<Longrightarrow> db_ok (snd (import_group s g))"
  by (auto simp: import_group_def split: sum.splits intro: db_ok_Create)

lemma db_ok_ImportJSON:
  assumes "db_ok db" shows "db_ok (snd (ImportJSON gs db))"
proof -
  have "db_ok (snd s) \<Longrightarrow> db_ok (snd (foldl import_group s gs))" for s
    by (induction gs arbitrary: s) (simp_all add: import_keeps_ok)
  from this [of "(0, db)"] assms show ?thesis by (simp add: ImportJSON_def)
qed

section \<open>The groups of a user\<close>

lemma concat_singletons:
  assumes "\<And>x. x \<in> set xs \<Longrightarrow> f x = (if P x then [x] else [])"
  shows "concat (map f xs) = filter P xs"
  using assms by (induction xs) auto

lemma filter_single: "distinct xs \<Longrightarrow> x \<in> set xs \<Longrightarrow> filter (\<lambda>y. y = x) xs = [x]"
  by (induction xs) (auto simp: filter_empty_conv)

lemma distinct_filter_key:
  assumes "distinct (map key ms)"
  shows "map (\<lambda>m. c) (filter (\<lambda>m. key m = k) ms) = (if k \<in> set (map key ms) then [c] else [])"
proof (cases "k \<in> set (map key ms)")
  case True
  then obtain m where m: "m \<in> set ms" "key m = k" by auto
  have "inj_on key (set ms)" using assms by (simp add: distinct_map)
  then have "\<And>x. x \<in> set ms \<Longrightarrow> key x = k \<longleftrightarrow> x = m" using m by (auto dest: inj_onD)
  then have "filter (\<lambda>x. key x = k) ms = filter (\<lambda>x. x = m) ms" by (intro filter_cong) auto
  also have "\<dots> = [m]"
    using m(1) assms by (simp add: distinct_map filter_single)
  finally show ?thesis using True by simp
next
  case False
  then have "filter (\<lambda>x. key x = k) ms = []" by (auto simp: filter_empty_conv)
  with False show ?thesis by simp
qed

lemma ListUserGroups_eq:
  assumes "db_ok db"
  shows "ListUserGroups u db =
    sort_stable by_name (filter (\<lambda>g. has_member db (gr_id g) u) (db_groups db))"
proof -
  have "map (\<lambda>m. g) (filter (\<lambda>m. gm_group_id m = gr_id g \<and> gm_user_id m = u) (db_members db)) =
      (if has_member db (gr_id g) u then [g] else [])" for g
    using distinct_filter_key [OF db_okD(3) [OF assms], of g "(gr_id g, u)"]
    by (simp add: member_key_def has_member_def)
  then show ?thesis unfolding ListUserGroups_def
    by (intro arg_cong [where f = "sort_stable by_name"] concat_singletons)
qed

text \<open>
  \<open>ListUserGroups\<close> and \<open>IsMember\<close> agree. In a database that satisfies the schema's
  constraints, the join returns each group the user belongs to exactly once, nothing
  else, and the list is ordered by group name.
\<close>

theorem user_groups_exact:
  assumes "db_ok db"
  shows "set (ListUserGroups u db) = {g \<in> set (db_groups db). IsMember (gr_id g) u db} \<and>
    distinct (map gr_id (ListUserGroups u db)) \<and>
    sorted_wrt (\<lambda>a b. \<not> text_less (gr_name b) (gr_name a)) (ListUserGroups u db)"
proof -
  let ?gs = "filter (\<lambda>g. has_member db (gr_id g) u) (db_groups db)"
  have eq: "ListUserGroups u db = sort_stable by_name ?gs" by (rule ListUserGroups_eq [OF assms])
  have "set (sort_stable by_name ?gs) \<subseteq> set (db_groups db)" by auto
  moreover have "distinct (db_groups db)" "inj_on gr_id (set (db_groups db))"
    using db_okD(2) [OF assms] by (auto simp: distinct_map)
  ultimately have "distinct (map gr_id (sort_stable by_name ?gs))"
    by (auto simp: distinct_map intro: inj_on_subset)
  moreover have "sorted_wrt (\<lambda>a b. \<not> by_name b a) (sort_stable by_name ?gs)"
    by (rule by_name.sort_sorted) simp
  ultimately show ?thesis by (simp add: eq IsMember_iff by_name_def)
qed

text \<open>Two groups, a member of both and a member of one.\<close>

definition two_groups :: database where
  "two_groups = empty_db
     \<lparr>db_groups := [\<lparr>gr_id = ''g1'', gr_name = ''swing'', gr_description = '''', gr_owner_id = ''ann'', gr_created_at = 1\<rparr>,
                  \<lparr>gr_id = ''g2'', gr_name = ''longs'', gr_description = '''', gr_owner_id = ''bob'', gr_created_at = 2\<rparr>],
      db_members := [\<lparr>gm_group_id = ''g1'', gm_user_id = ''ann'', gm_role = ''leader'', gm_joined_at = 1\<rparr>,
                   \<lparr>gm_group_id = ''g2'', gm_user_id = ''ann'', gm_role = ''member'', gm_joined_at = 2\<rparr>,
                   \<lparr>gm_group_id = ''g1'', gm_user_id = ''bob'', gm_role = ''member'', gm_joined_at = 3\<rparr>]\<rparr>"

lemma two_groups_ok: "db_ok two_groups"
  by (simp add: db_ok_def two_groups_def empty_db_def member_key_def has_group_def)

theorem user_groups_exact_witness:
  "set (ListUserGroups ''ann'' two_groups) =
     {g \<in> set (db_groups two_groups). IsMember (gr_id g) ''ann'' two_groups} \<and>
   map gr_id (ListUserGroups ''ann'' two_groups) = [''g2'', ''g1''] \<and>
   map gr_id (ListUserGroups ''bob'' two_groups) = [''g1'']"
  using user_groups_exact [OF two_groups_ok, of "''ann''"]
  by (simp add: ListUserGroups_def two_groups_def empty_db_def by_name_def)

end
