(* ===== verification/Result_Store.thy ===== *)
theory Result_Store
  imports Database
begin

text \<open>
  \<open>internal/results/results.go\<close>: the store of saved scan results and their ACL entries.
  The Go struct holds the group id as a string, the column may be \<open>NULL\<close>: reading a
  \<open>NULL\<close> into the string is an error of \<open>database/sql\<close>, and the empty string is
  written as it is, never as \<open>NULL\<close>. The matches of a result are stored as JSON: the
  row holds what reading the column yields, \<open>json.Marshal\<close> refuses a float that is not
  finite, and a symbol that is not UTF-8 is stored with replacement characters.
\<close>

section \<open>Data\<close>

record saved_result =
  ID :: int
  UserID :: string
  StudyID :: string
  SnapshotDate :: int
  Results :: "match list"
  CreatedAt :: int
  Name :: string
  Notes :: string
  PermOwner :: int
  PermGroup :: int
  PermAll :: int
  GroupID :: string

definition finite_float :: "float64 \<Rightarrow> bool" where
  "finite_float x \<longleftrightarrow> (case x of NaN \<Rightarrow> False | Inf s \<Rightarrow> False | Zero s \<Rightarrow> True | Fin q \<Rightarrow> True)"

definition marshals :: "match list \<Rightarrow> bool" where
  "marshals ms \<longleftrightarrow> list_all (\<lambda>m. finite_float (m_Close m) \<and> finite_float (m_RSI14 m) \<and>
     finite_float (m_Ret3m m) \<and> finite_float (m_DollarVol m)) ms"

section \<open>What JSON keeps of a text\<close>

text \<open>
  A Go string is any bytes, a JSON text is Unicode: \<open>json.Marshal\<close> writes the replacement
  character for every byte that begins no UTF-8 rune, and \<open>json.Unmarshal\<close> reads it back as
  its three bytes. All other text, and every finite number, is read back as it was.
  \<open>rune_len\<close> is the length of the rune at the front, 0 when it is none.
\<close>

definition in_bytes :: "nat \<Rightarrow> nat \<Rightarrow> char \<Rightarrow> bool" where
  "in_bytes lo hi c \<longleftrightarrow> lo \<le> of_char c \<and> (of_char c :: nat) \<le> hi"

text \<open>By the first byte: how many bytes the rune has, and the range of the second; 0 begins none.\<close>

definition lead_len :: "char \<Rightarrow> nat" where
  "lead_len a = (if in_bytes 0 0x7F a then 1 else if in_bytes 0xC2 0xDF a then 2
     else if in_bytes 0xE0 0xEF a then 3 else if in_bytes 0xF0 0xF4 a then 4 else 0)"

definition second_ok :: "char \<Rightarrow> char \<Rightarrow> bool" where
  "second_ok a b \<longleftrightarrow> in_bytes (if a = CHR 0xE0 then 0xA0 else if a = CHR 0xF0 then 0x90 else 0x80)
     (if a = CHR 0xED then 0x9F else if a = CHR 0xF4 then 0x8F else 0xBF) b"

definition tail_ok :: "char \<Rightarrow> string \<Rightarrow> bool" where
  "tail_ok a t \<longleftrightarrow> length t + 1 = lead_len a \<and>
     (case t of [] \<Rightarrow> True | b # t \<Rightarrow> second_ok a b \<and> list_all (in_bytes 0x80 0xBF) t)"

definition rune_len :: "string \<Rightarrow> nat" where
  "rune_len s = (case s of [] \<Rightarrow> 0 | a # t \<Rightarrow> if tail_ok a (take (lead_len a - 1) t) then lead_len a else 0)"

definition replacement :: string where
  "replacement = [CHR 0xEF, CHR 0xBF, CHR 0xBD]"

fun json_text :: "string \<Rightarrow> string" where
  "json_text [] = []"
| "json_text (c # s) =
     (let n = rune_len (c # s) in
      if n = 0 then replacement @ json_text s else take n (c # s) @ json_text (drop (n - 1) s))"

lemma rune_len_length: "rune_len s \<le> length s"
  by (auto simp: rune_len_def tail_ok_def split: list.split)

lemma rune_len_append:
  assumes "rune_len s \<noteq> 0"
  shows "rune_len (take (rune_len s) s @ t) = rune_len s"
proof -
  obtain a u where s: "s = a # u" using assms by (cases s) (auto simp: rune_len_def)
  with assms have ok: "tail_ok a (take (lead_len a - 1) u)" and n: "rune_len s = lead_len a"
    by (auto simp: rune_len_def split: if_splits)
  then obtain k where k: "lead_len a = Suc k" by (cases "lead_len a") (auto simp: tail_ok_def)
  then have "k \<le> length u" using ok by (auto simp: tail_ok_def)
  then show ?thesis using ok by (simp add: n s k rune_len_def)
qed

lemma json_text_rune:
  assumes "rune_len s \<noteq> 0"
  shows "json_text s = take (rune_len s) s @ json_text (drop (rune_len s) s)"
proof (cases s)
  case (Cons c t)
  with assms show ?thesis by (cases "rune_len s") (simp_all add: Let_def)
qed (use assms in \<open>simp add: rune_len_def\<close>)

lemma json_text_append_rune:
  "rune_len s \<noteq> 0 \<Longrightarrow> json_text (take (rune_len s) s @ t) = take (rune_len s) s @ json_text t"
  using json_text_rune [of "take (rune_len s) s @ t"] rune_len_append [of s t] rune_len_length [of s] by simp

lemma json_text_replacement: "json_text (replacement @ t) = replacement @ json_text t"
  using json_text_append_rune [of replacement t] by (simp add: replacement_def rune_len_def lead_len_def tail_ok_def second_ok_def in_bytes_def)

text \<open>A text that was read from JSON is read back as it is, and so is one of ASCII bytes.\<close>

lemma json_text_idem [simp]: "json_text (json_text s) = json_text s"
proof (induction s rule: json_text.induct)
  case (2 c s)
  let ?s = "c # s"
  show ?case
  proof (cases "rune_len ?s = 0")
    case True
    with 2 show ?thesis by (simp add: json_text_replacement)
  next
    case False
    then obtain k where k: "rune_len ?s = Suc k" by (cases "rune_len ?s") auto
    have eq: "json_text ?s = take (rune_len ?s) ?s @ json_text (drop k s)"
      using json_text_rune [OF False] k by simp
    have "json_text (json_text (drop k s)) = json_text (drop k s)" using 2(2) [OF refl False] k by simp
    then show ?thesis unfolding eq json_text_append_rune [OF False] by simp
  qed
qed simp

lemma json_text_ascii: "list_all (\<lambda>c. of_char c < (128 :: nat)) s \<Longrightarrow> json_text s = s"
  by (induction s) (simp_all add: Let_def rune_len_def lead_len_def tail_ok_def in_bytes_def)

definition json_match :: "match \<Rightarrow> match" where
  "json_match m = m\<lparr>m_Symbol := json_text (m_Symbol m)\<rparr>"

lemma json_match_idem [simp]: "json_match (json_match m) = json_match m"
  by (simp add: json_match_def)

text \<open>\<open>rows.Scan\<close> of the twelve columns.\<close>

definition scan_result :: "result_row \<Rightarrow> (sql_error, saved_result) result" where
  "scan_result r = (case rr_group_id r of
     None \<Rightarrow> Inl NullIntoString
   | Some g \<Rightarrow> Inr \<lparr>ID = rr_id r, UserID = rr_user_id r, StudyID = rr_study_id r,
       SnapshotDate = rr_snapshot_date r, Results = rr_results r, CreatedAt = rr_created_at r,
       Name = rr_name r, Notes = rr_notes r, PermOwner = rr_perm_owner r,
       PermGroup = rr_perm_group r, PermAll = rr_perm_all r, GroupID = g\<rparr>)"

section \<open>Results\<close>

definition inserted_row :: "saved_result \<Rightarrow> int \<Rightarrow> result_row" where
  "inserted_row r i =
     \<lparr>rr_id = i, rr_user_id = UserID r, rr_study_id = StudyID r,
      rr_snapshot_date = SnapshotDate r, rr_results = map json_match (Results r), rr_created_at = CreatedAt r,
      rr_name = Name r, rr_notes = Notes r, rr_perm_owner = PermOwner r,
      rr_perm_group = PermGroup r, rr_perm_all = PermAll r, rr_group_id = Some (GroupID r)\<rparr>"

definition Save :: "saved_result \<Rightarrow> database \<Rightarrow> (sql_error, int \<times> database) result" where
  "Save r db =
     (if \<not> marshals (Results r) then Inl BadJSON
      else if \<not> has_user db (UserID r) \<or> \<not> has_group db (GroupID r) then Inl ForeignKeyViolation
      else
        let i = db_result_seq db + 1
        in Inr (i, db\<lparr>db_results := db_results db @ [inserted_row r i], db_result_seq := i\<rparr>))"

definition query_row :: "result_row option \<Rightarrow> (sql_error, saved_result option) result" where
  "query_row x = (case x of
     None \<Rightarrow> Inr None
   | Some r \<Rightarrow> bind_res (scan_result r) (\<lambda>y. Inr (Some y)))"

definition Get :: "int \<Rightarrow> database \<Rightarrow> (sql_error, saved_result option) result" where
  "Get i db = query_row (find (\<lambda>r. rr_id r = i) (db_results db))"

definition newest_first :: "result_row \<Rightarrow> result_row \<Rightarrow> bool" where
  "newest_first a b \<longleftrightarrow> rr_created_at b < rr_created_at a"

definition page :: "int \<Rightarrow> int \<Rightarrow> 'a list \<Rightarrow> 'a list" where
  "page limit offset xs =
     (let limit = (if limit \<le> 0 then 50 else limit);
          offset = (if offset < 0 then 0 else offset)
      in take (nat limit) (drop (nat offset) xs))"

definition List :: "string \<Rightarrow> int \<Rightarrow> int \<Rightarrow> database \<Rightarrow> (sql_error, saved_result list) result" where
  "List u limit offset db =
     map_res scan_result (page limit offset
       (sort_stable newest_first (filter (\<lambda>r. rr_user_id r = u) (db_results db))))"

text \<open>
  The left join finds at most one membership of the user in the group of a result,
  and a comparison with a \<open>NULL\<close> group finds none.
\<close>

definition read_bit :: "int \<Rightarrow> bool" where
  "read_bit p \<longleftrightarrow> and p 4 > 0"

definition joins_member :: "string \<Rightarrow> result_row \<Rightarrow> database \<Rightarrow> bool" where
  "joins_member u r db \<longleftrightarrow> (case rr_group_id r of
     None \<Rightarrow> False
   | Some g \<Rightarrow> (g, u) \<in> set (map member_key (db_members db)))"

definition accessible_row :: "string \<Rightarrow> database \<Rightarrow> result_row \<Rightarrow> bool" where
  "accessible_row u db r \<longleftrightarrow>
     rr_user_id r = u \<or> read_bit (rr_perm_all r) \<or> joins_member u r db \<and> read_bit (rr_perm_group r)"

definition ListAccessible :: "string \<Rightarrow> int \<Rightarrow> int \<Rightarrow> database \<Rightarrow> (sql_error, saved_result list) result" where
  "ListAccessible u limit offset db =
     map_res scan_result (page limit offset
       (sort_stable newest_first (filter (accessible_row u db) (db_results db))))"

definition set_row :: "int \<Rightarrow> (result_row \<Rightarrow> result_row) \<Rightarrow> database \<Rightarrow> database" where
  "set_row i f db = db\<lparr>db_results := map (\<lambda>r. if rr_id r = i then f r else r) (db_results db)\<rparr>"

definition Update :: "saved_result \<Rightarrow> database \<Rightarrow> (sql_error, database) result" where
  "Update r db =
     (if \<not> marshals (Results r) then Inl BadJSON
      else if \<not> has_result db (ID r) then Inl NotFound
      else if \<not> has_group db (GroupID r) then Inl ForeignKeyViolation
      else Inr (set_row (ID r) (\<lambda>x. x\<lparr>rr_study_id := StudyID r, rr_snapshot_date := SnapshotDate r,
             rr_results := map json_match (Results r), rr_name := Name r, rr_notes := Notes r,
             rr_perm_owner := PermOwner r, rr_perm_group := PermGroup r, rr_perm_all := PermAll r,
             rr_group_id := Some (GroupID r)\<rparr>) db))"

definition Delete :: "int \<Rightarrow> database \<Rightarrow> (sql_error, database) result" where
  "Delete i db =
     (if \<not> has_result db i then Inl NotFound else Inr (delete_results (\<lambda>r. rr_id r = i) db))"

definition UpdatePermissions ::
    "int \<Rightarrow> int \<Rightarrow> int \<Rightarrow> int \<Rightarrow> string \<Rightarrow> database \<Rightarrow> (sql_error, database) result" where
  "UpdatePermissions i p_owner p_group p_all g db =
     (if \<not> has_result db i then Inl NotFound
      else if \<not> has_group db g then Inl ForeignKeyViolation
      else Inr (set_row i (\<lambda>x. x\<lparr>rr_perm_owner := p_owner, rr_perm_group := p_group,
             rr_perm_all := p_all, rr_group_id := Some g\<rparr>) db))"

definition ChangeOwner :: "int \<Rightarrow> string \<Rightarrow> string \<Rightarrow> database \<Rightarrow> (sql_error, database) result" where
  "ChangeOwner i u g db =
     (if \<not> has_result db i then Inl NotFound
      else if \<not> has_user db u \<or> \<not> has_group db g then Inl ForeignKeyViolation
      else Inr (set_row i (\<lambda>x. x\<lparr>rr_user_id := u, rr_group_id := Some g\<rparr>) db))"

section \<open>ACL entries\<close>

definition AddACL :: "acl_row \<Rightarrow> database \<Rightarrow> (sql_error, database) result" where
  "AddACL a db =
     (if \<not> has_result db (ar_result_id a) \<or> \<not> has_user db (ar_user_id a) then Inl ForeignKeyViolation
      else Inr (db\<lparr>db_acls := filter (\<lambda>x. acl_key x \<noteq> acl_key a) (db_acls db) @ [a]\<rparr>))"

definition RemoveACL :: "int \<Rightarrow> string \<Rightarrow> database \<Rightarrow> (sql_error, database) result" where
  "RemoveACL i u db =
     (if (i, u) \<notin> set (map acl_key (db_acls db)) then Inl NotFound
      else Inr (db\<lparr>db_acls := filter (\<lambda>x. acl_key x \<noteq> (i, u)) (db_acls db)\<rparr>))"

definition GetACL :: "int \<Rightarrow> string \<Rightarrow> database \<Rightarrow> acl_row option" where
  "GetACL i u db = find (\<lambda>a. acl_key a = (i, u)) (db_acls db)"

definition ListACLs :: "int \<Rightarrow> database \<Rightarrow> acl_row list" where
  "ListACLs i db =
     sort_stable (\<lambda>a b. ar_granted_at a < ar_granted_at b)
       (filter (\<lambda>a. ar_result_id a = i) (db_acls db))"

section \<open>Export and import\<close>

record export_data =
  x_Version :: string
  x_ExportedAt :: int
  x_UserID :: string
  x_Results :: "saved_result list"

text \<open>The loop over the ACL entries reads them and keeps nothing.\<close>

definition Export :: "int \<Rightarrow> string \<Rightarrow> database \<Rightarrow> (sql_error, export_data) result" where
  "Export now u db = bind_res (List u 0 0 db) (\<lambda>rs.
     Inr \<lparr>x_Version = ''1.0'', x_ExportedAt = now, x_UserID = u, x_Results = rs\<rparr>)"

definition GetByStudyAndDate ::
    "string \<Rightarrow> string \<Rightarrow> int \<Rightarrow> database \<Rightarrow> (sql_error, saved_result option) result" where
  "GetByStudyAndDate u s d db =
     query_row (find (\<lambda>r. rr_user_id r = u \<and> rr_study_id r = s \<and> rr_snapshot_date r = d)
       (db_results db))"

text \<open>The import stops at the first error and keeps what it has written.\<close>

fun import_results :: "saved_result list \<Rightarrow> nat \<Rightarrow> database \<Rightarrow> (nat \<times> sql_error option) \<times> database" where
  "import_results [] n db = ((n, None), db)"
| "import_results (r # rs) n db =
     (case GetByStudyAndDate (UserID r) (StudyID r) (SnapshotDate r) db of
        Inl e \<Rightarrow> ((n, Some e), db)
      | Inr (Some old) \<Rightarrow> import_results rs n db
      | Inr None \<Rightarrow> (case Save r db of
            Inl e \<Rightarrow> ((n, Some e), db)
          | Inr s \<Rightarrow> import_results rs (n + 1) (snd s)))"

definition Import :: "export_data \<Rightarrow> database \<Rightarrow> (nat \<times> sql_error option) \<times> database" where
  "Import x db = import_results (x_Results x) 0 db"

section \<open>The invariant\<close>

lemma marshals_Nil [simp]: "marshals []"
  by (simp add: marshals_def)

lemma scan_inserted_row: "scan_result (inserted_row r i) = Inr (r\<lparr>ID := i, Results := map json_match (Results r)\<rparr>)"
  by (cases r) (simp add: scan_result_def inserted_row_def)

lemma inserted_row_id [simp]: "rr_id (inserted_row r i) = i"
  by (simp add: inserted_row_def)

lemma SaveD:
  assumes "Save r db = Inr (i, db')"
  shows "marshals (Results r)" "has_user db (UserID r)" "has_group db (GroupID r)"
    "i = db_result_seq db + 1"
    "db' = db\<lparr>db_results := db_results db @ [inserted_row r i], db_result_seq := i\<rparr>"
  using assms by (auto simp: Save_def Let_def split: if_splits)

lemma scan_result_Inr:
  "scan_result row = Inr x \<Longrightarrow>
     rr_id row = ID x \<and> rr_user_id row = UserID x \<and> rr_group_id row = Some (GroupID x) \<and>
     rr_study_id row = StudyID x \<and> rr_snapshot_date row = SnapshotDate x"
  by (auto simp: scan_result_def split: option.splits)

lemma db_ok_Save:
  assumes ok: "db_ok db" and s: "Save r db = Inr (i, db')"
  shows "db_ok db'"
proof -
  note d = db_okD [OF ok]
  note db' = SaveD(5) [OF s] and row = scan_inserted_row [of r i] inserted_row_id [of r i]
  have fresh: "rr_id x < i" if "x \<in> set (db_results db)" for x
    using d(11) [OF that] SaveD(4) [OF s] by simp
  have h: "has_user db' = has_user db" "has_group db' = has_group db"
    "has_result db' k \<longleftrightarrow> has_result db k \<or> k = i" for k
    by (auto simp: db' fun_eq_iff has_user_def has_group_def has_result_def row)
  have rows: "x \<in> set (db_results db) \<or> x = inserted_row r i" if "x \<in> set (db_results db')" for x
    using that by (auto simp: db')
  show ?thesis
  proof (rule db_okI)
    show "distinct (map rr_id (db_results db'))"
      using d(4) fresh by (auto simp: db' row)
    show "has_user db' (rr_user_id x)" if "x \<in> set (db_results db')" for x
      using rows [OF that] d(7) SaveD(2) [OF s] scan_result_Inr [OF row(1)] by (auto simp: h)
    show "has_group db' k" if "x \<in> set (db_results db')" "rr_group_id x = Some k" for x k
      using rows [OF that(1)] that(2) SaveD(3) [OF s] scan_result_Inr [OF row(1)]
      by (auto simp: h intro: d(8))
    show "rr_id x \<le> db_result_seq db'" if "x \<in> set (db_results db')" for x
      using rows [OF that] fresh by (auto simp: db' row less_imp_le)
    show "has_group db' (gm_group_id m)" if "m \<in> set (db_members db')" for m
      using that d(6) unfolding h by (simp add: db')
    show "has_result db' (ar_result_id a)" if "a \<in> set (db_acls db')" for a
      using that d(9) unfolding h by (simp add: db')
    show "has_user db' (ar_user_id a)" if "a \<in> set (db_acls db')" for a
      using that d(10) unfolding h by (simp add: db')
  qed (use d(1-3,5) in \<open>simp_all add: db'\<close>)
qed

lemma db_ok_set_row:
  assumes ok: "db_ok db"
    and id: "\<And>r. rr_id (f r) = rr_id r"
    and user: "\<And>r. rr_user_id (f r) = rr_user_id r \<or> has_user db (rr_user_id (f r))"
    and grp: "\<And>r. rr_group_id (f r) = rr_group_id r \<or> group_ref_ok db (rr_group_id (f r))"
  shows "db_ok (set_row i f db)"
proof -
  note d = db_okD [OF ok]
  have ids: "map rr_id (db_results (set_row i f db)) = map rr_id (db_results db)"
    by (simp add: set_row_def id)
  have h: "has_user (set_row i f db) = has_user db" "has_group (set_row i f db) = has_group db"
    "has_result (set_row i f db) = has_result db"
    by (simp_all only: fun_eq_iff has_result_def ids simp_thms)
       (simp_all add: has_user_def has_group_def set_row_def)
  have rows: "\<exists>r \<in> set (db_results db). x = f r \<or> x = r" if "x \<in> set (db_results (set_row i f db))" for x
    using that by (auto simp: set_row_def)
  show ?thesis
  proof (rule db_okI)
    show "has_user (set_row i f db) (rr_user_id x)" if "x \<in> set (db_results (set_row i f db))" for x
      using rows [OF that] d(7) user unfolding h by metis
    show "has_group (set_row i f db) k"
      if "x \<in> set (db_results (set_row i f db))" "rr_group_id x = Some k" for x k
      using rows [OF that(1)] that(2) d(8) grp unfolding h group_ref_ok_iff by metis
    show "rr_id x \<le> db_result_seq (set_row i f db)" if "x \<in> set (db_results (set_row i f db))" for x
      using rows [OF that] d(11) id by (auto simp: set_row_def)
  qed (use d ids in \<open>simp_all add: h, simp_all add: set_row_def\<close>)
qed

lemma db_ok_Update_result: "db_ok db \<Longrightarrow> Update r db = Inr db' \<Longrightarrow> db_ok db'"
  by (auto simp: Update_def group_ref_ok_def split: if_splits intro!: db_ok_set_row)

lemma db_ok_UpdatePermissions:
  "db_ok db \<Longrightarrow> UpdatePermissions i a b c g db = Inr db' \<Longrightarrow> db_ok db'"
  by (auto simp: UpdatePermissions_def group_ref_ok_def split: if_splits intro!: db_ok_set_row)

lemma db_ok_ChangeOwner: "db_ok db \<Longrightarrow> ChangeOwner i u g db = Inr db' \<Longrightarrow> db_ok db'"
  by (auto simp: ChangeOwner_def group_ref_ok_def split: if_splits intro!: db_ok_set_row)

lemma db_ok_Delete_result: "db_ok db \<Longrightarrow> Delete i db = Inr db' \<Longrightarrow> db_ok db'"
  by (auto simp: Delete_def db_ok_delete_results split: if_splits)

lemma same_but_acls:
  assumes "db_ok db" "distinct (map acl_key as)"
    "\<And>a. a \<in> set as \<Longrightarrow> has_result db (ar_result_id a) \<and> has_user db (ar_user_id a)"
  shows "db_ok (db\<lparr>db_acls := as\<rparr>)"
  using assms unfolding db_ok_def has_user_def has_group_def has_result_def group_ref_ok_def
  by (simp split: option.splits)

lemma db_ok_AddACL: "db_ok db \<Longrightarrow> AddACL a db = Inr db' \<Longrightarrow> db_ok db'"
  by (auto simp: AddACL_def split: if_splits intro!: same_but_acls distinct_map_filter
      dest: db_okD(5,9,10))

lemma db_ok_RemoveACL: "db_ok db \<Longrightarrow> RemoveACL i u db = Inr db' \<Longrightarrow> db_ok db'"
  by (auto simp: RemoveACL_def split: if_splits intro!: same_but_acls dest: db_okD(5,9,10))

lemma db_ok_import: "db_ok db \<Longrightarrow> db_ok (snd (import_results rs n db))"
proof (induction rs arbitrary: n db)
  case (Cons r rs)
  then show ?case
    by (auto split: sum.split option.split intro!: Cons.IH intro: db_ok_Save)
qed simp

section \<open>What the store promises\<close>

lemma Get_after_Save:
  assumes ok: "db_ok db" and s: "Save r db = Inr (i, db')"
  shows "Get k db' = (if k = i then Inr (Some (r\<lparr>ID := i, Results := map json_match (Results r)\<rparr>)) else Get k db)"
proof -
  have none: "\<not> (\<exists>x. x \<in> set (db_results db) \<and> rr_id x = i)"
    using db_okD(11) [OF ok] SaveD(4) [OF s] by fastforce
  have "find (\<lambda>x. rr_id x = k) (db_results db') =
      (if k = i then Some (inserted_row r i) else find (\<lambda>x. rr_id x = k) (db_results db))"
    using none find_None_iff [of "\<lambda>x. rr_id x = i" "db_results db"] unfolding SaveD(5) [OF s]
    by (cases "k = i") (simp_all add: find_append split: option.split)
  then show ?thesis by (simp add: Get_def query_row_def scan_inserted_row)
qed

text \<open>
  C31: Saving a result and reading it back. After a successful \<open>Save\<close> that returns the id
  \<open>i\<close>, which was not in use, \<open>Get i\<close> returns the saved value with \<open>i\<close> as its id; its
  matches are as JSON keeps them, that is unchanged when their symbols are ASCII (or were
  themselves read from JSON). The table of results has one row more at its end, whose
  columns are those of the value, and every other table (users, groups, members, ACL
  entries, limit overrides) and every other result is exactly as before.
\<close>

theorem save_then_get:
  assumes "db_ok db" "Save r db = Inr (i, db')"
  shows "Get i db' = Inr (Some (r\<lparr>ID := i, Results := map json_match (Results r)\<rparr>)) \<and>
    (list_all (\<lambda>m. list_all (\<lambda>c. of_char c < (128 :: nat)) (m_Symbol m)) (Results r) \<longrightarrow>
      Get i db' = Inr (Some (r\<lparr>ID := i\<rparr>))) \<and>
    (\<exists>x. rr_id x = i \<and> db_results db' = db_results db @ [x]) \<and>
    db'\<lparr>db_results := db_results db, db_result_seq := db_result_seq db\<rparr> = db \<and>
    (\<forall>k. k \<noteq> i \<longrightarrow> Get k db' = Get k db) \<and> Get i db = Inr None \<and> db_ok db'"
proof -
  have "\<not> (\<exists>x. x \<in> set (db_results db) \<and> rr_id x = i)"
    using db_okD(11) [OF assms(1)] SaveD(4) [OF assms(2)] by fastforce
  then have "find (\<lambda>x. rr_id x = i) (db_results db) = None" unfolding find_None_iff by blast
  then have "Get i db = Inr None" by (simp add: Get_def query_row_def)
  moreover have "map json_match (Results r) = Results r"
    if "list_all (\<lambda>m. list_all (\<lambda>c. of_char c < (128 :: nat)) (m_Symbol m)) (Results r)"
    using that by (induction "Results r" rule: list.induct) (auto simp: list_all_iff json_match_def json_text_ascii intro!: map_idI)
  then have "r\<lparr>ID := i, Results := map json_match (Results r)\<rparr> = r\<lparr>ID := i\<rparr>"
    if "list_all (\<lambda>m. list_all (\<lambda>c. of_char c < (128 :: nat)) (m_Symbol m)) (Results r)"
    using that by simp
  ultimately show ?thesis
    using Get_after_Save [OF assms] db_ok_Save [OF assms] by (auto simp: SaveD(5) [OF assms(2)])
qed

text \<open>A user with a group, and the result they save in it.\<close>

definition one_user :: database where
  "one_user = empty_db
     \<lparr>db_users := [\<lparr>ur_id = ''ann'', ur_name = ''Ann'', ur_role_id = ''user'', ur_pass_hash = '''',
        ur_disabled = False, ur_nlp_enabled = True, ur_nlp_daily_limit = 10\<rparr>],
      db_groups := [\<lparr>gr_id = ''g1'', gr_name = ''swing'', gr_description = '''', gr_owner_id = ''ann'',
        gr_created_at = 1\<rparr>]\<rparr>"

definition ann_result :: saved_result where
  "ann_result = \<lparr>ID = 0, UserID = ''ann'', StudyID = ''golden'', SnapshotDate = 20240105,
     Results = [\<lparr>m_Symbol = ''AAA'', m_Close = Fin 12, m_RSI14 = Fin 55, m_Ret3m = Fin (1 / 4),
       m_DollarVol = Fin 9000000\<rparr>], CreatedAt = 7, Name = '''', Notes = '''', PermOwner = 7, PermGroup = 4, PermAll = 0,
     GroupID = ''g1''\<rparr>"

lemma one_user_ok: "db_ok one_user"
  by (simp add: db_ok_def one_user_def empty_db_def)

definition one_result :: database where
  "one_result = one_user\<lparr>db_results := [inserted_row ann_result 1], db_result_seq := 1\<rparr>"

lemma save_ann: "Save ann_result one_user = Inr (1, one_result)"
  by (simp add: Save_def one_result_def ann_result_def one_user_def empty_db_def has_user_def
      has_group_def Let_def marshals_def finite_float_def)

lemma read_ann: "scan_result (inserted_row ann_result 1) = Inr (ann_result\<lparr>ID := 1\<rparr>)"
proof -
  have "json_text ''AAA'' = ''AAA''" by (rule json_text_ascii) simp
  then show ?thesis by (simp add: scan_inserted_row ann_result_def json_match_def del: json_text.simps)
qed

theorem save_then_get_witness:
  "Get 1 one_result = Inr (Some (ann_result\<lparr>ID := 1\<rparr>)) \<and> Get 1 one_user = Inr None \<and>
   db_groups one_result = db_groups one_user"
proof -
  have ascii: "list_all (\<lambda>m. list_all (\<lambda>c. of_char c < (128 :: nat)) (m_Symbol m)) (Results ann_result)"
    by (simp add: ann_result_def)
  note saved = save_then_get [OF one_user_ok save_ann]
  from saved have "Get 1 one_result = Inr (Some (ann_result\<lparr>ID := 1\<rparr>))"
    by (elim conjE) (erule mp, rule ascii)
  moreover from saved have "Get 1 one_user = Inr None" by (elim conjE)
  moreover have "db_groups one_result = db_groups one_user" by (simp add: one_result_def)
  ultimately show ?thesis by (intro conjI)
qed

text \<open>
  A result without a group cannot be written. As long as no group has the empty
  id, \<open>Save\<close>, \<open>Update\<close>, \<open>UpdatePermissions\<close> and \<open>ChangeOwner\<close> fail whenever the group id
  they are given is empty, the value of a private result: the empty string is
  written to the foreign key column instead of \<open>NULL\<close>.
\<close>

theorem no_group_no_write:
  assumes "\<not> has_group db ''''"
  shows "(GroupID r = '''' \<longrightarrow> isl (Save r db) \<and> isl (Update r db)) \<and>
    isl (UpdatePermissions i p q a '''' db) \<and> isl (ChangeOwner i u '''' db)"
  using assms by (simp add: Save_def Update_def UpdatePermissions_def ChangeOwner_def)

theorem no_group_no_write_witness:
  "isl (Save (ann_result\<lparr>GroupID := ''''\<rparr>) one_user) \<and> isl (UpdatePermissions 1 7 0 0 '''' one_user)"
proof -
  have "\<not> has_group one_user ''''" by (simp add: has_group_def one_user_def)
  from no_group_no_write [OF this, of "ann_result\<lparr>GroupID := ''''\<rparr>"] show ?thesis by simp
qed

section \<open>Export and import\<close>

lemma import_known:
  assumes "\<And>r. r \<in> set rs \<Longrightarrow>
      \<exists>old. GetByStudyAndDate (UserID r) (StudyID r) (SnapshotDate r) db = Inr (Some old)"
  shows "import_results rs n db = ((n, None), db)"
  using assms by (induction rs) force+

text \<open>
  Export, then import. An export holds the user's fifty newest results at most
  (the comment in the code says all of them), each one stored in the database. When
  the user has no more than fifty, importing the export back writes nothing, reports
  no error and counts zero.
\<close>

theorem export_then_import:
  assumes x: "Export now u db = Inr x"
  shows "length (x_Results x) \<le> 50 \<and>
    (\<forall>r \<in> set (x_Results x). UserID r = u \<and> has_result db (ID r)) \<and>
    (length (filter (\<lambda>r. rr_user_id r = u) (db_results db)) \<le> 50 \<longrightarrow>
       length (x_Results x) = length (filter (\<lambda>r. rr_user_id r = u) (db_results db)) \<and>
       Import x db = ((0, None), db))"
proof -
  let ?mine = "filter (\<lambda>r. rr_user_id r = u) (db_results db)"
  let ?page = "take 50 (sort_stable newest_first ?mine)"
  from x have rs: "map_res scan_result ?page = Inr (x_Results x)"
    by (auto simp: Export_def List_def page_def bind_res_eq_Inr_iff)
  then have len: "length (x_Results x) = length ?page" by (rule map_res_length)
  have row: "\<exists>y \<in> set ?page. scan_result y = Inr r" if "r \<in> set (x_Results x)" for r
    using map_res_mem [OF rs] that by blast
  show ?thesis
  proof (intro conjI ballI impI)
    show "length (x_Results x) \<le> 50" using len by simp
  next
    fix r assume "r \<in> set (x_Results x)"
    then obtain y where "y \<in> set ?mine" "scan_result y = Inr r"
      using row by (metis in_set_takeD set_sort_stable)
    then show "UserID r = u" "has_result db (ID r)"
      using scan_result_Inr [of y r] by (auto simp: has_result_def intro!: rev_image_eqI)
  next
    assume "length ?mine \<le> 50"
    then have all: "?page = sort_stable newest_first ?mine" by simp
    then show "length (x_Results x) = length ?mine" using len by simp
    show "Import x db = ((0, None), db)"
      unfolding Import_def
    proof (rule import_known)
      fix r assume "r \<in> set (x_Results x)"
      then obtain y where y: "y \<in> set ?mine" "scan_result y = Inr r"
        using row all by (metis set_sort_stable)
      then obtain z where z: "find (\<lambda>q. rr_user_id q = UserID r \<and> rr_study_id q = StudyID r \<and>
          rr_snapshot_date q = SnapshotDate r) (db_results db) = Some z"
          "z \<in> set (db_results db)" "rr_user_id z = UserID r"
        using find_exists [of y "db_results db" "\<lambda>q. rr_user_id q = UserID r \<and>
          rr_study_id q = StudyID r \<and> rr_snapshot_date q = SnapshotDate r"]
          scan_result_Inr [OF y(2)] by auto
      have "z \<in> set ?page"
        using z y scan_result_Inr [OF y(2)] unfolding all by auto
      then obtain old where "scan_result z = Inr old"
        using map_res_ok_iff [of scan_result ?page] rs by blast
      then show "\<exists>old. GetByStudyAndDate (UserID r) (StudyID r) (SnapshotDate r) db = Inr (Some old)"
        by (simp add: GetByStudyAndDate_def query_row_def z(1))
    qed
  qed
qed

theorem export_then_import_witness:
  "Import \<lparr>x_Version = ''1.0'', x_ExportedAt = 9, x_UserID = ''ann'', x_Results = [ann_result\<lparr>ID := 1\<rparr>]\<rparr>
     one_result = ((0, None), one_result)"
proof -
  have rows: "db_results one_result = [inserted_row ann_result 1]" by (simp add: one_result_def)
  have user: "rr_user_id (inserted_row ann_result 1) = ''ann''"
    by (simp add: inserted_row_def ann_result_def)
  have mine: "filter (\<lambda>r. rr_user_id r = ''ann'') (db_results one_result) = [inserted_row ann_result 1]"
    unfolding rows by (simp add: user)
  have few: "length (filter (\<lambda>r. rr_user_id r = ''ann'') (db_results one_result)) \<le> 50"
    unfolding mine by simp
  have "List ''ann'' 0 0 one_result = Inr [ann_result\<lparr>ID := 1\<rparr>]"
    unfolding List_def mine by (simp add: page_def read_ann)
  then have e: "Export 9 ''ann'' one_result = Inr \<lparr>x_Version = ''1.0'', x_ExportedAt = 9,
      x_UserID = ''ann'', x_Results = [ann_result\<lparr>ID := 1\<rparr>]\<rparr>"
    by (simp only: Export_def bind_res_simps)
  show ?thesis
    using export_then_import [OF e, THEN conjunct2, THEN conjunct2, THEN mp, OF few] by (rule conjunct2)
qed

end
