(* ===== verification/Access_Control.thy ===== *)
theory Access_Control
  imports Group_Store Result_Store
begin

text \<open>
  \<open>internal/permissions\<close>: the permission bits, the \<open>Checker\<close> over the
  \<open>AccessChecker\<close> interface, and \<open>DBAccessChecker\<close>, its implementation on the tables.
  The interface is a record of functions; its contract is the locale
  \<open>access_policy\<close>, which relates it to an abstract policy (who is an admin, who owns a
  resource, which bits it carries, who is in a group, which ACL entries exist).
\<close>

unbundle bit_operations_syntax

section \<open>Permission bits\<close>

definition PermRead :: int where "PermRead = 4"
definition PermWrite :: int where "PermWrite = 2"
definition PermDelete :: int where "PermDelete = 1"
definition PermNone :: int where "PermNone = 0"
definition PermFull :: int where "PermFull = 7"

definition DefaultPermissions :: "int \<times> int \<times> int" where
  "DefaultPermissions = (PermFull, PermNone, PermNone)"

definition HasPermission :: "int \<Rightarrow> int \<Rightarrow> bool" where
  "HasPermission perms action \<longleftrightarrow> perms AND action = action"

definition AddPermission :: "int \<Rightarrow> int \<Rightarrow> int" where
  "AddPermission perms action = perms OR action"

definition RemovePermission :: "int \<Rightarrow> int \<Rightarrow> int" where
  "RemovePermission perms action = perms AND NOT action"

definition PermissionString :: "int \<Rightarrow> string" where
  "PermissionString perms =
     (if HasPermission perms PermRead then ''r'' else ''-'') @
     (if HasPermission perms PermWrite then ''w'' else ''-'') @
     (if HasPermission perms PermDelete then ''x'' else ''-'')"

definition ParsePermissionString :: "string \<Rightarrow> int" where
  "ParsePermissionString s =
     (if length s \<noteq> 3 then 0
      else
        let perms = 0;
            perms = (if s ! 0 = CHR ''r'' then perms OR PermRead else perms);
            perms = (if s ! 1 = CHR ''w'' then perms OR PermWrite else perms);
            perms = (if s ! 2 = CHR ''x'' then perms OR PermDelete else perms)
        in perms)"

definition ValidPermission :: "int \<Rightarrow> bool" where
  "ValidPermission perms \<longleftrightarrow> perms \<ge> 0 \<and> perms \<le> 7"

section \<open>The checker\<close>

record access_checker =
  IsAdmin :: "string \<Rightarrow> (sql_error, bool) result"
  IsOwner :: "string \<Rightarrow> int \<Rightarrow> (sql_error, bool) result"
  IsGroupMember :: "string \<Rightarrow> string \<Rightarrow> (sql_error, bool) result"
  GetResourcePermissions :: "int \<Rightarrow> (sql_error, int \<times> int \<times> int \<times> string) result"
  GetACLPermission :: "string \<Rightarrow> int \<Rightarrow> (sql_error, int \<times> bool) result"

definition check_bits ::
    "access_checker \<Rightarrow> string \<Rightarrow> int \<Rightarrow> int \<times> int \<times> int \<times> string \<Rightarrow> (sql_error, bool) result" where
  "check_bits c u action p = (case p of (ownerPerm, groupPerm, allPerm, groupID) \<Rightarrow>
     bind_res (if groupID \<noteq> '''' then IsGroupMember c u groupID else Inr False) (\<lambda>isMember.
     if isMember \<and> HasPermission groupPerm action then Inr True
     else Inr (HasPermission allPerm action)))"

definition CanAccess :: "access_checker \<Rightarrow> string \<Rightarrow> int \<Rightarrow> int \<Rightarrow> (sql_error, bool) result" where
  "CanAccess c u i action =
     bind_res (IsAdmin c u) (\<lambda>isAdmin.
     if isAdmin then Inr True
     else
       bind_res (GetACLPermission c u i) (\<lambda>(aclPerm, hasACL).
       if hasACL \<and> HasPermission aclPerm action then Inr True
       else
         bind_res (IsOwner c u i) (\<lambda>isOwner.
         if isOwner then
           bind_res (GetResourcePermissions c i) (\<lambda>p. Inr (HasPermission (fst p) action))
         else
           bind_res (GetResourcePermissions c i) (check_bits c u action))))"

definition CanRead :: "access_checker \<Rightarrow> string \<Rightarrow> int \<Rightarrow> (sql_error, bool) result" where
  "CanRead c u i = CanAccess c u i PermRead"

definition CanWrite :: "access_checker \<Rightarrow> string \<Rightarrow> int \<Rightarrow> (sql_error, bool) result" where
  "CanWrite c u i = CanAccess c u i PermWrite"

definition CanDelete :: "access_checker \<Rightarrow> string \<Rightarrow> int \<Rightarrow> (sql_error, bool) result" where
  "CanDelete c u i = CanAccess c u i PermDelete"

section \<open>The checker on the database\<close>

definition db_IsAdmin :: "database \<Rightarrow> string \<Rightarrow> (sql_error, bool) result" where
  "db_IsAdmin db u = (case find (\<lambda>x. ur_id x = u) (db_users db) of
     None \<Rightarrow> Inr False
   | Some x \<Rightarrow> Inr (ur_role_id x = ''admin''))"

definition db_IsOwner :: "database \<Rightarrow> string \<Rightarrow> int \<Rightarrow> (sql_error, bool) result" where
  "db_IsOwner db u i = (case find (\<lambda>r. rr_id r = i) (db_results db) of
     None \<Rightarrow> Inr False
   | Some r \<Rightarrow> Inr (rr_user_id r = u))"

definition db_IsGroupMember :: "database \<Rightarrow> string \<Rightarrow> string \<Rightarrow> (sql_error, bool) result" where
  "db_IsGroupMember db u g =
     Inr (length (filter (\<lambda>m. member_key m = (g, u)) (db_members db)) > 0)"

definition db_GetResourcePermissions ::
    "database \<Rightarrow> int \<Rightarrow> (sql_error, int \<times> int \<times> int \<times> string) result" where
  "db_GetResourcePermissions db i = (case find (\<lambda>r. rr_id r = i) (db_results db) of
     None \<Rightarrow> Inl NotFound
   | Some r \<Rightarrow> (case rr_group_id r of
         None \<Rightarrow> Inl NullIntoString
       | Some g \<Rightarrow> Inr (rr_perm_owner r, rr_perm_group r, rr_perm_all r, g)))"

definition db_GetACLPermission :: "database \<Rightarrow> string \<Rightarrow> int \<Rightarrow> (sql_error, int \<times> bool) result" where
  "db_GetACLPermission db u i = (case find (\<lambda>a. acl_key a = (i, u)) (db_acls db) of
     None \<Rightarrow> Inr (0, False)
   | Some a \<Rightarrow> Inr (ar_permission a, True))"

definition db_checker :: "database \<Rightarrow> access_checker" where
  "db_checker db =
     \<lparr>IsAdmin = db_IsAdmin db, IsOwner = db_IsOwner db, IsGroupMember = db_IsGroupMember db,
      GetResourcePermissions = db_GetResourcePermissions db,
      GetACLPermission = db_GetACLPermission db\<rparr>"

section \<open>The contract of the interface\<close>

record resource =
  owned_by :: string
  bits :: "(int \<times> int \<times> int \<times> string) option"

locale access_policy =
  fixes c :: access_checker
    and admin :: "string \<Rightarrow> bool"
    and res :: "int \<Rightarrow> resource option"
    and member :: "string \<Rightarrow> string \<Rightarrow> bool"
    and acl :: "string \<Rightarrow> int \<Rightarrow> int option"
  assumes tells_admin: "IsAdmin c u = Inr (admin u)"
    and tells_owner: "IsOwner c u i = Inr (\<exists>r. res i = Some r \<and> owned_by r = u)"
    and tells_member: "IsGroupMember c u g = Inr (member u g)"
    and tells_acl: "GetACLPermission c u i = (case acl u i of None \<Rightarrow> Inr (0, False) | Some p \<Rightarrow> Inr (p, True))"
    and tells_bits: "GetResourcePermissions c i = Inr p \<longleftrightarrow> (\<exists>r. res i = Some r \<and> bits r = Some p)"
begin

definition acl_grants :: "string \<Rightarrow> int \<Rightarrow> int \<Rightarrow> bool" where
  "acl_grants u i action \<longleftrightarrow> (\<exists>p. acl u i = Some p \<and> HasPermission p action)"

definition bits_grant :: "string \<Rightarrow> resource \<Rightarrow> int \<Rightarrow> bool" where
  "bits_grant u r action \<longleftrightarrow> (\<exists>po pg pa g. bits r = Some (po, pg, pa, g) \<and>
     (if owned_by r = u then HasPermission po action
      else g \<noteq> '''' \<and> member u g \<and> HasPermission pg action \<or> HasPermission pa action))"

lemma acl_lookup: "GetACLPermission c u i = Inr (p, h) \<Longrightarrow>
    (h \<and> HasPermission p action) = acl_grants u i action"
  by (auto simp: tells_acl acl_grants_def split: option.splits)

lemma acl_total: "\<exists>p h. GetACLPermission c u i = Inr (p, h)"
  by (auto simp: tells_acl split: option.split)

lemma check_bits_total:
  "check_bits c u action (po, pg, pa, g) =
     Inr (g \<noteq> '''' \<and> member u g \<and> HasPermission pg action \<or> HasPermission pa action)"
  by (auto simp: check_bits_def tells_member)

lemma grants_after_acl:
  "(bind_res (IsOwner c u i) (\<lambda>isOwner.
      if isOwner then bind_res (GetResourcePermissions c i) (\<lambda>p. Inr (HasPermission (fst p) action))
      else bind_res (GetResourcePermissions c i) (check_bits c u action)) = Inr True)
   \<longleftrightarrow> (\<exists>r. res i = Some r \<and> bits_grant u r action)"
proof (cases "GetResourcePermissions c i")
  case (Inl e)
  then have "\<not> (\<exists>r p. res i = Some r \<and> bits r = Some p)" by (metis tells_bits sum.distinct(1))
  with Inl show ?thesis by (auto simp: tells_owner bits_grant_def)
next
  case (Inr p)
  then obtain r where r: "res i = Some r" "bits r = Some p" using tells_bits by blast
  obtain po pg pa g where "p = (po, pg, pa, g)" by (cases p)
  with r Inr show ?thesis by (simp add: tells_owner bits_grant_def check_bits_total)
qed

lemma granted_iff:
  "CanAccess c u i action = Inr True \<longleftrightarrow>
     admin u \<or> acl_grants u i action \<or> (\<exists>r. res i = Some r \<and> bits_grant u r action)"
proof -
  obtain p h where acl: "GetACLPermission c u i = Inr (p, h)" using acl_total by blast
  show ?thesis
    using acl_lookup [OF acl, of action] grants_after_acl [of u i action]
    by (auto simp: CanAccess_def tells_admin acl)
qed

lemma refused_or_error:
  assumes "\<not> admin u" "\<not> acl_grants u i action" "res i = Some r" "bits r = Some p"
  shows "\<exists>b. CanAccess c u i action = Inr b"
proof -
  obtain q h where acl: "GetACLPermission c u i = Inr (q, h)" using acl_total by blast
  have "GetResourcePermissions c i = Inr p" using assms(3,4) tells_bits by blast
  then show ?thesis
    using acl_lookup [OF acl, of action]
    by (cases p) (auto simp: CanAccess_def tells_admin acl tells_owner tells_member check_bits_def)
qed

lemma unreadable:
  assumes "\<not> admin u" "\<not> acl_grants u i action" "\<And>p. GetResourcePermissions c i \<noteq> Inr p"
  shows "\<exists>e. CanAccess c u i action = Inl e"
proof -
  obtain q h where acl: "GetACLPermission c u i = Inr (q, h)" using acl_total by blast
  obtain e where "GetResourcePermissions c i = Inl e"
    using assms(3) by (cases "GetResourcePermissions c i") auto
  then show ?thesis
    using acl_lookup [OF acl, of action] assms(1,2)
    by (auto simp: CanAccess_def tells_admin acl tells_owner)
qed

end

section \<open>The database keeps the contract\<close>

definition db_admin :: "database \<Rightarrow> string \<Rightarrow> bool" where
  "db_admin db u \<longleftrightarrow> (\<exists>x. find (\<lambda>x. ur_id x = u) (db_users db) = Some x \<and> ur_role_id x = ''admin'')"

definition db_resource :: "database \<Rightarrow> int \<Rightarrow> resource option" where
  "db_resource db i = map_option (\<lambda>r. \<lparr>owned_by = rr_user_id r,
       bits = map_option (\<lambda>g. (rr_perm_owner r, rr_perm_group r, rr_perm_all r, g)) (rr_group_id r)\<rparr>)
     (find (\<lambda>r. rr_id r = i) (db_results db))"

definition db_acl :: "database \<Rightarrow> string \<Rightarrow> int \<Rightarrow> int option" where
  "db_acl db u i = map_option ar_permission (find (\<lambda>a. acl_key a = (i, u)) (db_acls db))"

interpretation on_db: access_policy "db_checker db" "db_admin db" "db_resource db"
    "\<lambda>u g. has_member db g u" "db_acl db" for db
proof unfold_locales
  show "IsGroupMember (db_checker db) u g = Inr (has_member db g u)" for u g
    by (simp add: db_checker_def db_IsGroupMember_def IsMember_def flip: IsMember_iff)
qed (auto simp: db_checker_def db_IsAdmin_def db_IsOwner_def db_GetResourcePermissions_def
      db_GetACLPermission_def db_admin_def db_resource_def db_acl_def split: option.splits)

section \<open>Permission strings\<close>

lemma valid_permission_cases: "ValidPermission p \<Longrightarrow> p \<in> set [0, 1, 2, 3, 4, 5, 6, 7]"
  by (auto simp: ValidPermission_def)

definition bits_lawful :: "int \<Rightarrow> int \<Rightarrow> int \<Rightarrow> bool" where
  "bits_lawful p a b \<longleftrightarrow> ParsePermissionString (PermissionString p) = p \<and>
    ValidPermission (AddPermission p a) \<and> ValidPermission (RemovePermission p a) \<and>
    HasPermission (AddPermission p a) b = (b = a \<or> HasPermission p b) \<and>
    HasPermission (RemovePermission p a) b = (b \<noteq> a \<and> HasPermission p b)"

lemma all_bits_lawful:
  "list_all (\<lambda>p. list_all (\<lambda>a. list_all (bits_lawful p a) [PermRead, PermWrite, PermDelete])
     [PermRead, PermWrite, PermDelete]) [0, 1, 2, 3, 4, 5, 6, 7]"
  by code_simp

text \<open>
  The permission mask is what its string says. For every valid mask the
  string parses back to the mask, and adding an action grants it, removing one of the
  three actions revokes it, and neither changes the answer for the other actions.
\<close>

theorem permission_roundtrip:
  assumes "ValidPermission p" "a \<in> {PermRead, PermWrite, PermDelete}" "b \<in> {PermRead, PermWrite, PermDelete}"
  shows "ParsePermissionString (PermissionString p) = p \<and>
    ValidPermission (AddPermission p a) \<and> ValidPermission (RemovePermission p a) \<and>
    HasPermission (AddPermission p a) b = (b = a \<or> HasPermission p b) \<and>
    HasPermission (RemovePermission p a) b = (b \<noteq> a \<and> HasPermission p b)"
proof -
  have "bits_lawful p a b"
    using all_bits_lawful valid_permission_cases [OF assms(1)] assms(2,3)
    unfolding list_all_iff by fastforce
  then show ?thesis unfolding bits_lawful_def .
qed

theorem permission_roundtrip_witness:
  "ParsePermissionString (PermissionString 6) = 6 \<and> HasPermission (RemovePermission 6 PermWrite) PermRead"
proof -
  have "ValidPermission 6" by (simp add: ValidPermission_def)
  from permission_roundtrip [OF this, of PermWrite PermRead] show ?thesis
    by (simp add: PermRead_def PermWrite_def HasPermission_def)
qed

section \<open>Who may do what\<close>

lemma and_one_bit: "(p :: int) AND 2 ^ n = (if bit p n then 2 ^ n else 0)"
  by (rule bit_eqI) (auto simp: bit_and_iff bit_exp_iff)

lemma and_four: "(p :: int) AND 4 = 0 \<or> p AND 4 = 4"
  using and_one_bit [of p 2] by (simp split: if_splits)


lemma db_admin_iff:
  assumes "db_ok db"
  shows "db_admin db u \<longleftrightarrow> (\<exists>x \<in> set (db_users db). ur_id x = u \<and> ur_role_id x = ''admin'')"
  by (auto simp: db_admin_def find_key_iff [OF db_okD(1) [OF assms]])

lemma db_acl_iff:
  assumes "db_ok db"
  shows "db_acl db u i = Some p \<longleftrightarrow>
    (\<exists>a \<in> set (db_acls db). ar_result_id a = i \<and> ar_user_id a = u \<and> ar_permission a = p)"
proof -
  have "db_acl db u i = Some p \<longleftrightarrow> (\<exists>a \<in> set (db_acls db). acl_key a = (i, u) \<and> ar_permission a = p)"
    by (auto simp: db_acl_def find_key_iff [OF db_okD(5) [OF assms]])
  then show ?thesis by (auto simp: acl_key_def)
qed

lemma db_resource_iff:
  assumes "db_ok db"
  shows "db_resource db i = Some x \<longleftrightarrow> (\<exists>r \<in> set (db_results db). rr_id r = i \<and>
     x = \<lparr>owned_by = rr_user_id r,
       bits = map_option (\<lambda>g. (rr_perm_owner r, rr_perm_group r, rr_perm_all r, g)) (rr_group_id r)\<rparr>)"
  by (auto simp: db_resource_def find_key_iff [OF db_okD(4) [OF assms]])

definition admin_in :: "database \<Rightarrow> string \<Rightarrow> bool" where
  "admin_in db u \<longleftrightarrow> (\<exists>x \<in> set (db_users db). ur_id x = u \<and> ur_role_id x = ''admin'')"

definition acl_allows :: "database \<Rightarrow> string \<Rightarrow> int \<Rightarrow> int \<Rightarrow> bool" where
  "acl_allows db u i action \<longleftrightarrow>
     (\<exists>e \<in> set (db_acls db). ar_result_id e = i \<and> ar_user_id e = u \<and> HasPermission (ar_permission e) action)"

definition row_allows :: "database \<Rightarrow> string \<Rightarrow> result_row \<Rightarrow> int \<Rightarrow> bool" where
  "row_allows db u r action \<longleftrightarrow>
     (\<exists>g. rr_group_id r = Some g \<and>
        (if rr_user_id r = u then HasPermission (rr_perm_owner r) action
         else g \<noteq> '''' \<and> has_member db g u \<and> HasPermission (rr_perm_group r) action \<or>
              HasPermission (rr_perm_all r) action))"

lemma bits_of_row:
  "on_db.bits_grant db u \<lparr>owned_by = rr_user_id r,
     bits = map_option (\<lambda>g. (rr_perm_owner r, rr_perm_group r, rr_perm_all r, g)) (rr_group_id r)\<rparr> action
   \<longleftrightarrow> row_allows db u r action"
  by (cases "rr_group_id r") (simp_all add: on_db.bits_grant_def row_allows_def)

lemma policy_facts:
  assumes "db_ok db"
  shows "db_admin db u \<longleftrightarrow> admin_in db u"
    "on_db.acl_grants db u i action \<longleftrightarrow> acl_allows db u i action"
    "(\<exists>x. db_resource db i = Some x \<and> on_db.bits_grant db u x action) \<longleftrightarrow>
       (\<exists>r \<in> set (db_results db). rr_id r = i \<and> row_allows db u r action)"
proof -
  show "db_admin db u \<longleftrightarrow> admin_in db u" by (simp only: db_admin_iff [OF assms] admin_in_def)
  show "on_db.acl_grants db u i action \<longleftrightarrow> acl_allows db u i action"
    by (auto simp: on_db.acl_grants_def db_acl_iff [OF assms] acl_allows_def)
  show "(\<exists>x. db_resource db i = Some x \<and> on_db.bits_grant db u x action) \<longleftrightarrow>
       (\<exists>r \<in> set (db_results db). rr_id r = i \<and> row_allows db u r action)"
    unfolding db_resource_iff [OF assms] using bits_of_row [of db u _ action] by metis
qed


lemma db_granted_iff:
  assumes "db_ok db"
  shows "CanAccess (db_checker db) u i action = Inr True \<longleftrightarrow>
    admin_in db u \<or> acl_allows db u i action \<or>
    (\<exists>r \<in> set (db_results db). rr_id r = i \<and> row_allows db u r action)"
  using on_db.granted_iff [of db u i action] policy_facts [OF assms] by metis

text \<open>
  C4: The access decision. In a database that satisfies the schema's constraints,
  access is granted exactly to an admin, to a holder of an ACL entry with the action's
  bit, to the owner when the owner bits have it, and to anyone else when the public
  bits have it or the user is a member of the result's group and the group bits have
  it. Nothing else grants, an ACL entry never takes a right away, and a missing
  result or a result whose group is \<open>NULL\<close> grants by its bits to nobody.
\<close>

theorem access_granted_iff:
  assumes "db_ok db"
  shows "CanAccess (db_checker db) u i action = Inr True \<longleftrightarrow>
    (\<exists>x \<in> set (db_users db). ur_id x = u \<and> ur_role_id x = ''admin'') \<or>
    (\<exists>e \<in> set (db_acls db). ar_result_id e = i \<and> ar_user_id e = u \<and>
       HasPermission (ar_permission e) action) \<or>
    (\<exists>r \<in> set (db_results db). rr_id r = i \<and> (\<exists>g. rr_group_id r = Some g \<and>
       (if rr_user_id r = u then HasPermission (rr_perm_owner r) action
        else g \<noteq> '''' \<and> has_member db g u \<and> HasPermission (rr_perm_group r) action \<or>
             HasPermission (rr_perm_all r) action)))"
  using db_granted_iff [OF assms, of u i action]
  unfolding admin_in_def acl_allows_def row_allows_def .

lemma one_result_ok: "db_ok one_result"
  by (rule db_ok_Save [OF one_user_ok save_ann])

theorem access_granted_iff_witness:
  "CanAccess (db_checker one_result) ''ann'' 1 PermDelete = Inr True \<and>
   CanAccess (db_checker one_result) ''bob'' 1 PermRead \<noteq> Inr True"
  by (simp add: access_granted_iff [OF one_result_ok])
     (simp add: one_result_def one_user_def empty_db_def inserted_row_def ann_result_def
      HasPermission_def PermDelete_def PermRead_def has_member_def)

lemma in_basic_actions: "a \<in> {PermRead, PermWrite, PermDelete} \<Longrightarrow> HasPermission PermFull a \<and> \<not> HasPermission PermNone a"
  by (auto simp: PermRead_def PermWrite_def PermDelete_def PermFull_def PermNone_def HasPermission_def)

text \<open>
  A new result is private. After a \<open>Save\<close> with the default permissions, every
  action on the new result is answered without an error: yes for its owner and for
  admins, no for everybody else.
\<close>

theorem private_by_default:
  assumes ok: "db_ok db" and s: "Save r db = Inr (i, db')"
    and p: "(PermOwner r, PermGroup r, PermAll r) = DefaultPermissions"
    and a: "a \<in> {PermRead, PermWrite, PermDelete}"
  shows "CanAccess (db_checker db') u i a =
    Inr (u = UserID r \<or> (\<exists>x \<in> set (db_users db). ur_id x = u \<and> ur_role_id x = ''admin''))"
proof -
  note ok' = db_ok_Save [OF ok s] and db' = SaveD(5) [OF s]
  let ?row = "inserted_row r i"
  have fresh: "rr_id x \<noteq> i" if "x \<in> set (db_results db)" for x
    using db_okD(11) [OF ok that] SaveD(4) [OF s] by simp
  have only: "x = ?row" if "x \<in> set (db_results db')" "rr_id x = i" for x
    using that fresh by (auto simp: db')
  have bits: "row_allows db' u ?row a \<longleftrightarrow> u = UserID r"
    using p in_basic_actions [OF a]
    by (auto simp: row_allows_def inserted_row_def DefaultPermissions_def)
  have no_acl: "\<not> acl_allows db' u i a"
    using db_okD(9) [OF ok] fresh unfolding acl_allows_def has_result_def db' by fastforce
  have adm: "admin_in db' u \<longleftrightarrow> (\<exists>x \<in> set (db_users db). ur_id x = u \<and> ur_role_id x = ''admin'')"
    by (simp add: admin_in_def db')
  have row: "?row \<in> set (db_results db')" by (simp add: db')
  have granted: "CanAccess (db_checker db') u i a = Inr True \<longleftrightarrow> admin_in db' u \<or> u = UserID r"
  proof -
    have "(\<exists>x \<in> set (db_results db'). rr_id x = i \<and> row_allows db' u x a) \<longleftrightarrow> row_allows db' u ?row a"
      by (rule iffI) (auto dest: only intro!: bexI [of _ ?row] simp: row)
    then show ?thesis using db_granted_iff [OF ok', of u i a] no_acl bits by simp
  qed
  have "\<exists>b. CanAccess (db_checker db') u i a = Inr b" if "\<not> admin_in db' u"
  proof (rule on_db.refused_or_error)
    show "\<not> db_admin db' u" using that policy_facts(1) [OF ok'] by blast
    show "\<not> on_db.acl_grants db' u i a" using no_acl policy_facts(2) [OF ok'] by blast
    show "db_resource db' i = Some \<lparr>owned_by = UserID r,
        bits = Some (PermOwner r, PermGroup r, PermAll r, GroupID r)\<rparr>"
      using row by (force simp: db_resource_iff [OF ok'] inserted_row_def)
  qed simp
  then have "CanAccess (db_checker db') u i a = Inr (admin_in db' u \<or> u = UserID r)"
    using granted by (cases "admin_in db' u"; cases "u = UserID r") auto
  then show ?thesis using adm by (simp add: disj_commute)
qed

theorem private_by_default_witness:
  "\<exists>db. CanAccess (db_checker db) ''ann'' 1 PermRead = Inr True \<and>
     CanAccess (db_checker db) ''bob'' 1 PermRead = Inr False"
proof -
  let ?r = "ann_result\<lparr>PermGroup := 0\<rparr>"
  have s: "Save ?r one_user = Inr (1, one_user\<lparr>db_results := [inserted_row ?r 1], db_result_seq := 1\<rparr>)"
    by (simp add: marshals_def finite_float_def Save_def ann_result_def one_user_def empty_db_def has_user_def has_group_def Let_def)
  have p: "(PermOwner ?r, PermGroup ?r, PermAll ?r) = DefaultPermissions"
    by (simp add: ann_result_def DefaultPermissions_def PermFull_def PermNone_def)
  have a: "PermRead \<in> {PermRead, PermWrite, PermDelete}" by simp
  from private_by_default [OF one_user_ok s p a, of "''ann''"]
    private_by_default [OF one_user_ok s p a, of "''bob''"]
  show ?thesis by (auto simp: ann_result_def one_user_def)
qed

lemma NULL_group_row:
  assumes "db_ok db" "r \<in> set (db_results db)" "rr_id r = i" "rr_group_id r = Some g"
    "Group_Store.Delete g db = Inr db'"
  shows "r\<lparr>rr_group_id := None\<rparr> \<in> set (db_results db')" "db_ok db'"
    "admin_in db' u \<longleftrightarrow> admin_in db u" "acl_allows db' u i action \<longleftrightarrow> acl_allows db u i action"
proof -
  from assms(5) have db': "db' = delete_group g db" by (auto simp: Group_Store.Delete_def split: if_splits)
  show "r\<lparr>rr_group_id := None\<rparr> \<in> set (db_results db')"
    using assms(2,4) by (force simp: db' delete_group_def)
  show "db_ok db'" using assms(1) by (simp add: db' db_ok_delete_group)
  show "admin_in db' u \<longleftrightarrow> admin_in db u" "acl_allows db' u i action \<longleftrightarrow> acl_allows db u i action"
    by (simp_all add: admin_in_def acl_allows_def db' delete_group_def)
qed

text \<open>
  Deleting a group locks everyone but admins out of its results. The schema sets
  the group of the results to \<open>NULL\<close>, and the code reads the column into a string:
  afterwards \<open>Get\<close> of the result, the listing of its owner (on the page that holds
  it) and every access check, the owner's included, end in an error, unless the user is
  an admin or an ACL entry grants the action.
\<close>

theorem group_deletion_locks_out:
  assumes ok: "db_ok db" and r: "r \<in> set (db_results db)" "rr_id r = i" "rr_group_id r = Some g"
    and del: "Group_Store.Delete g db = Inr db'"
    and u: "\<not> (\<exists>x \<in> set (db_users db). ur_id x = u \<and> ur_role_id x = ''admin'')"
      "\<not> (\<exists>e \<in> set (db_acls db). ar_result_id e = i \<and> ar_user_id e = u \<and>
         HasPermission (ar_permission e) action)"
  shows "isl (CanAccess (db_checker db') u i action) \<and> Result_Store.Get i db' = Inl NullIntoString \<and>
    (length (filter (\<lambda>x. rr_user_id x = rr_user_id r) (db_results db')) \<le> 50 \<longrightarrow>
       isl (Result_Store.List (rr_user_id r) 0 0 db'))"
proof -
  note n = NULL_group_row [OF ok r del]
  let ?r = "r\<lparr>rr_group_id := None\<rparr>"
  have find: "find (\<lambda>x. rr_id x = i) (db_results db') = Some ?r"
    using find_key_iff [OF db_okD(4) [OF n(2)]] n(1) r(2) by simp
  have bits: "db_GetResourcePermissions db' i = Inl NullIntoString"
    by (simp add: db_GetResourcePermissions_def find)
  have "\<exists>e. CanAccess (db_checker db') u i action = Inl e"
  proof (rule on_db.unreadable)
    show "\<not> db_admin db' u"
      using u(1) n(3) [of u] policy_facts(1) [OF n(2)] unfolding admin_in_def by blast
    show "\<not> on_db.acl_grants db' u i action"
      using u(2) n(4) [of u action] policy_facts(2) [OF n(2)] unfolding acl_allows_def by blast
    show "GetResourcePermissions (db_checker db') i \<noteq> Inr p" for p
      by (simp add: db_checker_def bits)
  qed
  moreover have "Result_Store.Get i db' = Inl NullIntoString"
    by (simp add: Result_Store.Get_def query_row_def find scan_result_def)
  moreover have "isl (Result_Store.List (rr_user_id r) 0 0 db')"
    if "length (filter (\<lambda>x. rr_user_id x = rr_user_id r) (db_results db')) \<le> 50"
  proof -
    let ?page = "sort_stable newest_first (filter (\<lambda>x. rr_user_id x = rr_user_id r) (db_results db'))"
    have "?r \<in> set ?page" using n(1) by simp
    moreover have "scan_result ?r = Inl NullIntoString" by (simp add: scan_result_def)
    ultimately have "\<not> (\<exists>ys. map_res scan_result ?page = Inr ys)"
      unfolding map_res_ok_iff by force
    then show ?thesis
      using that by (cases "map_res scan_result ?page") (auto simp: Result_Store.List_def page_def)
  qed
  ultimately show ?thesis by auto
qed

theorem group_deletion_locks_out_witness:
  "isl (CanAccess (db_checker (delete_group ''g1'' one_result)) ''ann'' 1 PermRead) \<and>
   Result_Store.Get 1 (delete_group ''g1'' one_result) = Inl NullIntoString"
proof -
  have e: "db_results one_result = [inserted_row ann_result 1]" "db_acls one_result = []"
    "map ur_role_id (db_users one_result) = [''user'']" "has_group one_result ''g1''"
    by (simp_all add: one_result_def one_user_def empty_db_def has_group_def)
  have d: "Group_Store.Delete ''g1'' one_result = Inr (delete_group ''g1'' one_result)"
    by (simp add: Group_Store.Delete_def e)
  have r: "inserted_row ann_result 1 \<in> set (db_results one_result)" "rr_id (inserted_row ann_result 1) = 1"
    "rr_group_id (inserted_row ann_result 1) = Some ''g1''"
    by (simp_all add: e inserted_row_def ann_result_def)
  have u: "\<not> (\<exists>x \<in> set (db_users one_result). ur_id x = ''ann'' \<and> ur_role_id x = ''admin'')"
    by (simp add: one_result_def one_user_def empty_db_def)
  have a: "\<not> (\<exists>x \<in> set (db_acls one_result). ar_result_id x = 1 \<and> ar_user_id x = ''ann'' \<and>
      HasPermission (ar_permission x) PermRead)" by (simp add: e)
  from group_deletion_locks_out [OF one_result_ok r d u a] show ?thesis by blast
qed

text \<open>A listing long enough for every result shows the accessible ones, and only when each has a group.\<close>

lemma listed_results:
  assumes "ListAccessible u limit 0 db = Inr rs" "int (length (db_results db)) \<le> limit" "r \<in> set (db_results db)"
    and "db_ok db"
  shows "rr_id r \<in> set (map ID rs) \<longleftrightarrow> accessible_row u db r" and "accessible_row u db r \<Longrightarrow> rr_group_id r \<noteq> None"
proof -
  let ?rows = "sort_stable newest_first (filter (accessible_row u db) (db_results db))"
  have "length ?rows \<le> nat limit" using assms(2) length_filter_le [of "accessible_row u db" "db_results db"]
    by (metis length_sort_stable nat_int nat_mono order_trans)
  moreover have "limit > 0" using assms(2,3) by (cases "db_results db") auto
  ultimately have "page limit 0 ?rows = ?rows" by (simp add: page_def)
  with assms(1) have m: "map_res scan_result ?rows = Inr rs" by (simp add: ListAccessible_def)
  note mem = map_res_mem [OF m]
  have scan: "scan_result x = Inr y \<Longrightarrow> ID y = rr_id x" for x y
    by (auto simp: scan_result_def split: option.splits)
  have inj: "x = r" if "x \<in> set (db_results db)" "rr_id x = rr_id r" for x
    using db_okD(4) [OF assms(4)] that assms(3) by (auto simp: distinct_map dest: inj_onD)
  show acc: "rr_group_id r \<noteq> None" if "accessible_row u db r"
  proof -
    have "r \<in> set ?rows" using that assms(3) by simp
    then obtain y where "scan_result r = Inr y" using m map_res_ok_iff [of scan_result ?rows] by auto
    then show ?thesis by (auto simp: scan_result_def split: option.splits)
  qed
  show "rr_id r \<in> set (map ID rs) \<longleftrightarrow> accessible_row u db r"
  proof
    assume "rr_id r \<in> set (map ID rs)"
    then obtain y where y: "y \<in> set rs" "ID y = rr_id r" by auto
    with mem obtain x where "x \<in> set (db_results db)" "accessible_row u db x" "scan_result x = Inr y" by auto
    with y scan inj show "accessible_row u db r" by metis
  next
    assume a: "accessible_row u db r"
    then have "r \<in> set ?rows" using assms(3) by simp
    moreover obtain y where "scan_result r = Inr y" using acc [OF a] by (auto simp: scan_result_def)
    ultimately have "y \<in> set rs" "ID y = rr_id r" using mem scan by auto
    then show "rr_id r \<in> set (map ID rs)" by (metis image_eqI set_map)
  qed
qed



end
