(* ===== verification/Base64.thy ===== *)
theory Base64
  imports Prelude
begin

text \<open>
  What the code uses of \<open>encoding/base64\<close>: the unpadded encodings over the standard and
  the URL alphabet (\<open>RawStdEncoding\<close> of the password hashes, \<open>RawURLEncoding\<close> of the
  tokens). The locale \<open>base64\<close> states what an alphabet must satisfy, and its lemmas
  hold for both.
\<close>

section \<open>Encoding and decoding\<close>

definition std_alphabet :: string where
  "std_alphabet = ''ABCDEFGHIJKLMNOPQRSTUVWXYZabcdefghijklmnopqrstuvwxyz0123456789+/''"

definition url_alphabet :: string where
  "url_alphabet = ''ABCDEFGHIJKLMNOPQRSTUVWXYZabcdefghijklmnopqrstuvwxyz0123456789-_''"

definition b64_char :: "string \<Rightarrow> nat \<Rightarrow> char" where
  "b64_char al n = al ! n"

definition b64_val :: "string \<Rightarrow> char \<Rightarrow> nat option" where
  "b64_val al c = (let i = length (takeWhile (\<lambda>x. x \<noteq> c) al) in if i < 64 then Some i else None)"

fun sextets :: "nat list \<Rightarrow> nat list" where
  "sextets [] = []"
| "sextets [a] = [a div 4, a mod 4 * 16]"
| "sextets [a, b] = [a div 4, a mod 4 * 16 + b div 16, b mod 16 * 4]"
| "sextets (a # b # c # bs) =
     a div 4 # (a mod 4 * 16 + b div 16) # (b mod 16 * 4 + c div 64) # c mod 64 # sextets bs"

text \<open>The decoder drops the bits that do not fill a byte and refuses a single leftover.\<close>

fun octets :: "nat list \<Rightarrow> nat list option" where
  "octets [] = Some []"
| "octets [p] = None"
| "octets [p, q] = Some [p * 4 + q div 16]"
| "octets [p, q, r] = Some [p * 4 + q div 16, q mod 16 * 16 + r div 4]"
| "octets (p # q # r # s # ss) =
     map_option (\<lambda>bs. (p * 4 + q div 16) # (q mod 16 * 16 + r div 4) # (r mod 4 * 64 + s) # bs) (octets ss)"

definition b64_encode :: "string \<Rightarrow> string \<Rightarrow> string" where
  "b64_encode al s = map (b64_char al) (sextets (map of_char s))"

text \<open>Line breaks are skipped.\<close>

definition b64_decode :: "string \<Rightarrow> string \<Rightarrow> string option" where
  "b64_decode al s = (case those (map (b64_val al) (filter (\<lambda>c. c \<noteq> CHR 0x0D \<and> c \<noteq> CHR 0x0A) s)) of
     None \<Rightarrow> None
   | Some ns \<Rightarrow> map_option (map char_of) (octets ns))"

section \<open>Bits\<close>

lemma sextets_small: "\<forall>b \<in> set bs. b < 256 \<Longrightarrow> n \<in> set (sextets bs) \<Longrightarrow> n < 64"
  by (induction bs rule: sextets.induct) auto

lemma octets_sextets: "\<forall>b \<in> set bs. b < 256 \<Longrightarrow> octets (sextets bs) = Some bs"
proof (induction bs rule: sextets.induct)
  case (2 a) then show ?case by simp
next
  case (3 a b)
  have "(a mod 4 * 16 + b div 16) div 16 = a mod 4" "(a mod 4 * 16 + b div 16) mod 16 = b div 16"
    using 3 by auto
  then show ?case using 3 by simp
next
  case (4 a b c bs)
  have "(a mod 4 * 16 + b div 16) div 16 = a mod 4" "(a mod 4 * 16 + b div 16) mod 16 = b div 16"
    "(b mod 16 * 4 + c div 64) div 4 = b mod 16" "(b mod 16 * 4 + c div 64) mod 4 = c div 64"
    using 4 by auto
  then show ?case using 4 by simp
qed simp

lemma those_inverse: "(\<And>x. x \<in> set xs \<Longrightarrow> f (g x) = Some x) \<Longrightarrow> those (map f (map g xs)) = Some xs"
  by (induction xs) auto

lemma b64_bytes: "\<forall>b \<in> set (map of_char s :: nat list). b < 256"
  by auto

section \<open>Alphabets\<close>

locale base64 =
  fixes al :: string
  assumes val_char: "n < 64 \<Longrightarrow> b64_val al (b64_char al n) = Some n"
    and no_break: "n < 64 \<Longrightarrow> b64_char al n \<noteq> CHR 0x0D \<and> b64_char al n \<noteq> CHR 0x0A"
begin

lemma encoded_chars: "c \<in> set (b64_encode al s) \<Longrightarrow> \<exists>n < 64. c = b64_char al n"
  using sextets_small [OF b64_bytes] by (auto simp: b64_encode_def)

lemma roundtrip: "b64_decode al (b64_encode al s) = Some s"
proof -
  have "filter (\<lambda>c. c \<noteq> CHR 0x0D \<and> c \<noteq> CHR 0x0A) (b64_encode al s) = b64_encode al s"
    using encoded_chars no_break by (intro filter_True ballI) metis
  moreover have "those (map (b64_val al) (b64_encode al s)) = Some (sextets (map of_char s))"
    unfolding b64_encode_def
    by (rule those_inverse) (use sextets_small [OF b64_bytes] val_char in blast)
  moreover have "map char_of (map (of_char :: char \<Rightarrow> nat) s) = s" by (simp add: map_idI)
  ultimately show ?thesis
    by (simp only: b64_decode_def option.case octets_sextets [OF b64_bytes] option.map)
qed

end

lemma all_below: "list_all P [0..<n] \<Longrightarrow> i < n \<Longrightarrow> P i"
  by (simp add: list_all_iff)

lemma std_lawful: "list_all (\<lambda>n. b64_val std_alphabet (b64_char std_alphabet n) = Some n \<and>
    b64_char std_alphabet n \<noteq> CHR 0x0D \<and> b64_char std_alphabet n \<noteq> CHR 0x0A \<and>
    b64_char std_alphabet n \<noteq> CHR ''$'') [0..<64]"
  by code_simp

lemma url_lawful: "list_all (\<lambda>n. b64_val url_alphabet (b64_char url_alphabet n) = Some n \<and>
    b64_char url_alphabet n \<noteq> CHR 0x0D \<and> b64_char url_alphabet n \<noteq> CHR 0x0A \<and>
    b64_char url_alphabet n \<noteq> CHR ''.'') [0..<64]"
  by code_simp

interpretation std: base64 std_alphabet
  by unfold_locales (use all_below [OF std_lawful] in blast)+

interpretation url: base64 url_alphabet
  by unfold_locales (use all_below [OF url_lawful] in blast)+

lemma std_no_dollar: "CHR ''$'' \<notin> set (b64_encode std_alphabet s)"
  using std.encoded_chars all_below [OF std_lawful] by metis

lemma url_no_dot: "CHR ''.'' \<notin> set (b64_encode url_alphabet s)"
  using url.encoded_chars all_below [OF url_lawful] by metis

end
