(* ===== verification/Passwords.thy ===== *)
theory Passwords
  imports Base64
begin

text \<open>
  \<open>internal/auth/hash.go\<close> and the password part of \<open>internal/user/user.go\<close>: the stored
  form of a password hash, its parser, and the check. What the code uses of the
  standard library's encodings is defined here (\<open>hex\<close>, \<open>strconv.Atoi\<close>) and in
  \<open>Base64\<close>; the two hash functions are arguments: \<open>kdf\<close> is
  \<open>pbkdf2.Key\<close> with SHA-256 (\<open>None\<close> for its error) and \<open>sha\<close> is \<open>sha256.Sum256\<close>.
  The random salt is an argument of the operation that draws it.
\<close>

section \<open>hex and strconv.Atoi\<close>

definition hex_val :: "char \<Rightarrow> nat option" where
  "hex_val c = (let n = of_char c in
     if 48 \<le> n \<and> n \<le> 57 then Some (n - 48)
     else if 97 \<le> n \<and> n \<le> 102 then Some (n - 87)
     else if 65 \<le> n \<and> n \<le> 70 then Some (n - 55) else None)"

fun hex_decode :: "string \<Rightarrow> string option" where
  "hex_decode [] = Some []"
| "hex_decode [c] = None"
| "hex_decode (c # d # s) = (case (hex_val c, hex_val d) of
     (Some h, Some l) \<Rightarrow> map_option (\<lambda>bs. char_of (16 * h + l) # bs) (hex_decode s)
   | _ \<Rightarrow> None)"

definition digits_val :: "string \<Rightarrow> nat option" where
  "digits_val s =
     (if s \<noteq> [] \<and> list_all (\<lambda>c. 48 \<le> (of_char c :: nat) \<and> (of_char c :: nat) \<le> 57) s
      then Some (foldl (\<lambda>v c. 10 * v + (of_char c - 48)) 0 s) else None)"

text \<open>An optional sign, decimal digits, and the range of a 64-bit \<open>int\<close>.\<close>

definition atoi :: "string \<Rightarrow> int option" where
  "atoi s =
     (let (sign, ds) = (case s of
            [] \<Rightarrow> (1, [])
          | c # cs \<Rightarrow> if c = CHR ''-'' then (-1, cs) else if c = CHR ''+'' then (1, cs) else (1, s))
      in case digits_val ds of
           None \<Rightarrow> None
         | Some v \<Rightarrow> (let i = sign * int v in
             if - (2 ^ 63) \<le> i \<and> i < 2 ^ 63 then Some i else None))"

section \<open>Hashing and checking\<close>

type_synonym kdf = "string \<Rightarrow> string \<Rightarrow> int \<Rightarrow> nat \<Rightarrow> string option"

definition pbkdf2Iter :: int where "pbkdf2Iter = 600000"

text \<open>An error of the key derivation is dropped: the derived key is then empty.\<close>

definition HashPassword :: "kdf \<Rightarrow> string \<Rightarrow> string \<Rightarrow> string" where
  "HashPassword kdf salt pw =
     (let dk = (case kdf pw salt pbkdf2Iter 32 of None \<Rightarrow> [] | Some dk \<Rightarrow> dk)
      in ''pbkdf2_sha256'' @ ''$'' @ show_int pbkdf2Iter @ ''$'' @ b64_encode std_alphabet salt @ ''$'' @ b64_encode std_alphabet dk)"

definition checkPBKDF2 :: "kdf \<Rightarrow> string \<Rightarrow> string \<Rightarrow> bool" where
  "checkPBKDF2 kdf stored pw =
     (let parts = split_byte (CHR ''$'') stored in
      if length parts \<noteq> 4 \<or> parts ! 0 \<noteq> ''pbkdf2_sha256'' then False
      else case atoi (parts ! 1) of
        None \<Rightarrow> False
      | Some iter \<Rightarrow> if iter < 1 then False
      else case b64_decode std_alphabet (parts ! 2) of
        None \<Rightarrow> False
      | Some salt \<Rightarrow>
      case b64_decode std_alphabet (parts ! 3) of
        None \<Rightarrow> False
      | Some want \<Rightarrow>
      case kdf pw salt iter (length want) of
        None \<Rightarrow> False
      | Some dk \<Rightarrow> dk = want)"

definition CheckPassword :: "(string \<Rightarrow> string) \<Rightarrow> kdf \<Rightarrow> string \<Rightarrow> string \<Rightarrow> bool" where
  "CheckPassword sha kdf hash pw =
     (if hash = '''' then False
      else if has_prefix hash ''pbkdf2_sha256$'' then checkPBKDF2 kdf hash pw
      else case hex_decode hash of None \<Rightarrow> False | Some want \<Rightarrow> sha pw = want)"

section \<open>Round trips\<close>

lemma iter_string: "show_int pbkdf2Iter = ''600000''" "atoi ''600000'' = Some pbkdf2Iter"
proof -
  have "show_nat 600000 = map (\<lambda>d. char_of (48 + d :: nat)) [6, 0, 0, 0, 0, 0]"
    by (simp add: show_nat.simps)
  moreover have "map (\<lambda>d. char_of (48 + d :: nat)) [6, 0, 0, 0, 0, 0] = ''600000''" by code_simp
  ultimately show "show_int pbkdf2Iter = ''600000''" by (simp add: show_int_def pbkdf2Iter_def)
  have "digits_val ''600000'' = Some 600000" by (simp add: digits_val_def)
  then show "atoi ''600000'' = Some pbkdf2Iter" by (simp add: atoi_def pbkdf2Iter_def)
qed

lemma hash_parts:
  "split_byte (CHR ''$'') (''pbkdf2_sha256'' @ ''$'' @ ''600000'' @ ''$'' @ b64_encode std_alphabet salt @ ''$'' @ b64_encode std_alphabet dk) =
     [''pbkdf2_sha256'', ''600000'', b64_encode std_alphabet salt, b64_encode std_alphabet dk]"
  using split_byte_append [of "CHR ''$''" "''pbkdf2_sha256''"] split_byte_append [of "CHR ''$''" "''600000''"]
    split_byte_append [of "CHR ''$''" "b64_encode std_alphabet salt"]
  by (simp add: split_byte_single std_no_dollar)

lemma checkPBKDF2_hash:
  assumes "kdf pw salt pbkdf2Iter 32 = Some dk" "length dk = 32"
    and "\<exists>d. kdf pw' salt pbkdf2Iter 32 = Some d"
  shows "checkPBKDF2 kdf (HashPassword kdf salt pw) pw' \<longleftrightarrow>
    kdf pw' salt pbkdf2Iter 32 = kdf pw salt pbkdf2Iter 32"
proof -
  obtain d where d: "kdf pw' salt pbkdf2Iter 32 = Some d" using assms(3) by blast
  have "\<not> pbkdf2Iter < 1" by (simp add: pbkdf2Iter_def)
  then show ?thesis
    unfolding checkPBKDF2_def HashPassword_def Let_def assms(1) option.case iter_string hash_parts
    by (simp add: iter_string std.roundtrip assms(2) d)
qed

text \<open>
  C32: A password hash checks exactly the passwords that derive its key. Provided the
  key derivation answers with keys of the length asked for, \<open>CheckPassword\<close> of a hash
  made by \<open>HashPassword\<close> accepts the same password, and another one only if PBKDF2 maps
  both to the same key under the hash's salt: the stored form loses nothing.
\<close>

theorem hash_then_check:
  assumes "\<And>p. \<exists>dk. kdf p salt pbkdf2Iter 32 = Some dk \<and> length dk = 32"
  shows "CheckPassword sha kdf (HashPassword kdf salt pw) pw' \<longleftrightarrow>
    kdf pw' salt pbkdf2Iter 32 = kdf pw salt pbkdf2Iter 32"
proof -
  obtain dk where dk: "kdf pw salt pbkdf2Iter 32 = Some dk" "length dk = 32" using assms by blast
  have ex: "\<exists>d. kdf pw' salt pbkdf2Iter 32 = Some d" using assms by blast
  have "has_prefix (HashPassword kdf salt pw) ''pbkdf2_sha256$''" "HashPassword kdf salt pw \<noteq> ''''"
    by (simp_all add: HashPassword_def Let_def has_prefix_def)
  then show ?thesis using checkPBKDF2_hash [of kdf pw salt, OF dk ex] by (simp add: CheckPassword_def)
qed

definition pad_kdf :: kdf where
  "pad_kdf pw salt iter n = Some (take n (pw @ replicate n (CHR 0x00)))"

theorem hash_then_check_witness:
  "CheckPassword (\<lambda>_. []) pad_kdf (HashPassword pad_kdf ''salt'' ''secret'') ''secret'' \<and>
   \<not> CheckPassword (\<lambda>_. []) pad_kdf (HashPassword pad_kdf ''salt'' ''secret'') ''Secret''"
proof -
  have "\<exists>dk. pad_kdf p ''salt'' pbkdf2Iter 32 = Some dk \<and> length dk = 32" for p
    by (simp add: pad_kdf_def)
  note h = hash_then_check [of pad_kdf "''salt''", OF this]
  have "pad_kdf ''Secret'' ''salt'' pbkdf2Iter 32 \<noteq> pad_kdf ''secret'' ''salt'' pbkdf2Iter 32"
    by (simp add: pad_kdf_def)
  then show ?thesis unfolding h by blast
qed

end
