(* ===== verification/Keyed_Store.thy ===== *)
theory Keyed_Store
  imports Prelude
begin

text \<open>
  The shape the user store and the study store share: a slice of the entries in
  insertion order next to a map from key to entry, both updated by every operation.
  \<open>in_step\<close> says that the two agree. The locale \<open>keyed_store\<close> is the contract of
  the in-memory effect of the operations, \<open>put\<close> (create, replace, mutate) and \<open>del\<close>;
  its lemmas show that any sequence of them behaves as updates of an abstract map.
\<close>

definition in_step :: "('a \<Rightarrow> 'k) \<Rightarrow> 'a list \<Rightarrow> ('k \<Rightarrow> 'a option) \<Rightarrow> bool" where
  "in_step key xs m \<longleftrightarrow> distinct (map key xs) \<and> (\<forall>k. m k = find (\<lambda>x. key x = k) xs)"

lemma in_step_lookup:
  "in_step key xs m \<Longrightarrow> m k = Some x \<longleftrightarrow> x \<in> set xs \<and> key x = k"
  by (simp add: in_step_def find_key_iff)

lemma in_step_None: "in_step key xs m \<Longrightarrow> m k = None \<longleftrightarrow> k \<notin> key ` set xs"
  by (auto simp: in_step_def find_None_iff)

lemma in_step_Nil [simp]: "in_step key [] Map.empty"
  by (simp add: in_step_def)

lemma in_step_append:
  assumes "in_step key xs m" "key x \<notin> key ` set xs"
  shows "in_step key (xs @ [x]) (m(key x \<mapsto> x))"
proof -
  have "find (\<lambda>y. key y = key x) xs = None" using assms(2) unfolding find_None_iff by (metis imageI)
  then show ?thesis using assms by (auto simp: in_step_def find_append split: option.split)
qed

text \<open>Replacing the entry with the key of \<open>x\<close> where it stands.\<close>

definition replace_key :: "('a \<Rightarrow> 'k) \<Rightarrow> 'a \<Rightarrow> 'a list \<Rightarrow> 'a list" where
  "replace_key key x xs = map (\<lambda>y. if key y = key x then x else y) xs"

lemma keys_replace_key [simp]: "map key (replace_key key x xs) = map key xs"
  by (auto simp: replace_key_def)

lemma find_replace_key:
  "find (\<lambda>y. key y = k) (replace_key key x xs) =
     (if k = key x \<and> k \<in> key ` set xs then Some x else find (\<lambda>y. key y = k) xs)"
  by (induction xs) (auto simp: replace_key_def)

lemma in_step_replace:
  assumes "in_step key xs m" "key x \<in> key ` set xs"
  shows "in_step key (replace_key key x xs) (m(key x \<mapsto> x))"
  using assms by (simp add: in_step_def find_replace_key)

lemma in_step_remove:
  assumes "in_step key xs m"
  shows "in_step key (filter (\<lambda>x. key x \<noteq> k) xs) (m(k := None))"
proof -
  have "find (\<lambda>x. key x = j) (filter (\<lambda>x. key x \<noteq> k) xs) = (if j = k then None else find (\<lambda>x. key x = j) xs)"
    for j by (induction xs) (auto simp: find_None_iff)
  then show ?thesis using assms by (auto simp: in_step_def distinct_map_filter)
qed

section \<open>The contract\<close>

datatype ('k, 'a) store_op = Put 'a | Del 'k

primrec map_step :: "('a \<Rightarrow> 'k) \<Rightarrow> ('k, 'a) store_op \<Rightarrow> ('k \<Rightarrow> 'a option) \<Rightarrow> 'k \<Rightarrow> 'a option" where
  "map_step key (Put x) m = m(key x \<mapsto> x)"
| "map_step key (Del k) m = m(k := None)"

locale keyed_store =
  fixes key :: "'a \<Rightarrow> 'k"
    and items :: "'s \<Rightarrow> 'a list"
    and lookup :: "'s \<Rightarrow> 'k \<Rightarrow> 'a option"
    and put :: "'a \<Rightarrow> 's \<Rightarrow> 's"
    and del :: "'k \<Rightarrow> 's \<Rightarrow> 's"
  assumes put_in_step: "in_step key (items s) (lookup s) \<Longrightarrow> in_step key (items (put x s)) (lookup (put x s))"
    and put_lookup: "in_step key (items s) (lookup s) \<Longrightarrow> lookup (put x s) = (lookup s)(key x \<mapsto> x)"
    and del_in_step: "in_step key (items s) (lookup s) \<Longrightarrow> in_step key (items (del k s)) (lookup (del k s))"
    and del_lookup: "in_step key (items s) (lookup s) \<Longrightarrow> lookup (del k s) = (lookup s)(k := None)"
begin

primrec step :: "('k, 'a) store_op \<Rightarrow> 's \<Rightarrow> 's" where
  "step (Put x) s = put x s"
| "step (Del k) s = del k s"


lemma step_refines:
  assumes "in_step key (items s) (lookup s)"
  shows "in_step key (items (step e s)) (lookup (step e s)) \<and> lookup (step e s) = map_step key e (lookup s)"
proof (cases e)
  case (Put x)
  then show ?thesis using put_in_step [OF assms, of x] put_lookup [OF assms, of x] by simp
next
  case (Del k)
  then show ?thesis using del_in_step [OF assms, of k] del_lookup [OF assms, of k] by simp
qed

lemma run_refines:
  assumes "in_step key (items s) (lookup s)"
  shows "in_step key (items (fold step es s)) (lookup (fold step es s)) \<and>
    lookup (fold step es s) = fold (map_step key) es (lookup s)"
  using assms
proof (induction es arbitrary: s)
  case (Cons e es)
  note one = step_refines [OF Cons.prems, of e]
  show ?case
    using Cons.IH [OF one [THEN conjunct1]] unfolding fold_simps one [THEN conjunct2, symmetric] .
qed simp

lemma items_are_the_map:
  assumes "in_step key (items s) (lookup s)"
  shows "set (items s) = ran (lookup s) \<and> length (items s) = card (dom (lookup s))"
proof
  show "set (items s) = ran (lookup s)"
    using in_step_lookup [OF assms] by (auto simp: ran_def)
  have "dom (lookup s) = key ` set (items s)"
    using in_step_lookup [OF assms] by (auto simp: dom_def)
  moreover have "distinct (map key (items s))" using assms by (simp add: in_step_def)
  ultimately show "length (items s) = card (dom (lookup s))"
    by (metis distinct_card length_map set_map)
qed

end

end
