(* ===== verification/User_Store.thy ===== *)
theory User_Store
  imports Keyed_Store Passwords Database
begin

text \<open>
  \<open>internal/user/user.go\<close>: the user record, its tier, role and password methods, and the
  store that keeps the users in memory (a slice and a map) and writes every change to
  the \<open>users\<close> table. A state is the store with the database, \<open>None\<close> for the legacy
  mode without one. An operation returns its error, if any, with the state it leaves:
  memory is changed before SQL, so an error can leave the two apart. The lines of a
  JSONL file come from the scanner, their JSON decoder is the argument \<open>decode\<close>.
\<close>

section \<open>Users\<close>

record user =
  u_ID :: string
  u_Name :: string
  u_Tier :: string
  u_Role :: string
  u_RoleID :: string
  u_Groups :: "string list"
  u_PassHash :: string
  u_PassSHA256 :: string
  u_Disabled :: bool
  u_NLPEnabled :: bool
  u_NLPDailyLimit :: int

definition TierFree :: string where "TierFree = ''free''"
definition TierPro :: string where "TierPro = ''pro''"
definition RoleUser :: string where "RoleUser = ''user''"
definition RoleAdmin :: string where "RoleAdmin = ''admin''"

definition Rank :: "string \<Rightarrow> int" where
  "Rank t = (if t = TierPro then 1 else 0)"

definition IsAdmin :: "user \<Rightarrow> bool" where
  "IsAdmin u \<longleftrightarrow> u_Role u = RoleAdmin"

definition InGroup :: "user \<Rightarrow> string \<Rightarrow> bool" where
  "InGroup u g \<longleftrightarrow> list_ex (\<lambda>x. x = g) (u_Groups u)"

definition set_password :: "kdf \<Rightarrow> string \<Rightarrow> string \<Rightarrow> user \<Rightarrow> user" where
  "set_password kdf salt pw u = u\<lparr>u_PassHash := HashPassword kdf salt pw, u_PassSHA256 := ''''\<rparr>"

definition HasPassword :: "user \<Rightarrow> bool" where
  "HasPassword u \<longleftrightarrow> u_PassHash u \<noteq> '''' \<or> u_PassSHA256 u \<noteq> ''''"

definition user_CheckPassword :: "(string \<Rightarrow> string) \<Rightarrow> kdf \<Rightarrow> user \<Rightarrow> string \<Rightarrow> bool" where
  "user_CheckPassword sha kdf u pw =
     (if u_Disabled u then False
      else if u_PassHash u \<noteq> '''' then checkPBKDF2 kdf (u_PassHash u) pw
      else if u_PassSHA256 u \<noteq> '''' then
        (case hex_decode (u_PassSHA256 u) of None \<Rightarrow> False | Some want \<Rightarrow> sha pw = want)
      else False)"

definition GlobalID :: string where "GlobalID = ''global''"

definition Global :: user where
  "Global = \<lparr>u_ID = GlobalID, u_Name = ''Global'', u_Tier = TierPro, u_Role = RoleAdmin, u_RoleID = '''',
     u_Groups = [], u_PassHash = '''', u_PassSHA256 = '''', u_Disabled = False, u_NLPEnabled = False,
     u_NLPDailyLimit = 0\<rparr>"

section \<open>JSONL\<close>

datatype user_error =
    IdRequired
  | AlreadyExists string
  | UserNotFound string
  | DeleteFailed sql_error
  | BadLine nat
  | MissingId nat

definition with_defaults :: "user \<Rightarrow> user" where
  "with_defaults u =
     (let u = (if u_Tier u = '''' then u\<lparr>u_Tier := TierFree\<rparr> else u)
      in if u_Role u = '''' then u\<lparr>u_Role := RoleUser\<rparr> else u)"

fun load_users :: "(string \<Rightarrow> user option) \<Rightarrow> nat \<Rightarrow> string list \<Rightarrow> (user_error, user list) result" where
  "load_users decode n [] = Inr []"
| "load_users decode n (line # lines) =
     (let n = n + 1; t = trim_space line in
      if t = '''' \<or> has_prefix t ''#'' then load_users decode n lines
      else case decode t of
        None \<Rightarrow> Inl (BadLine n)
      | Some u \<Rightarrow>
          if u_ID u = '''' then Inl (MissingId n)
          else bind_res (load_users decode n lines) (\<lambda>us. Inr (with_defaults u # us)))"

definition LoadJSONL :: "(string \<Rightarrow> user option) \<Rightarrow> string list \<Rightarrow> (user_error, user list) result" where
  "LoadJSONL decode lines = load_users decode 0 lines"

section \<open>The store\<close>

record user_store =
  us_all :: "user list"
  us_byID :: "string \<Rightarrow> user option"

type_synonym user_state = "user_store \<times> database option"

definition empty_users :: user_store where
  "empty_users = \<lparr>us_all = [], us_byID = Map.empty\<rparr>"

definition remember :: "user_store \<Rightarrow> user \<Rightarrow> user_store" where
  "remember s u = \<lparr>us_all = us_all s @ [u], us_byID = (us_byID s)(u_ID u \<mapsto> u)\<rparr>"

text \<open>The file behind a path: no path given, no such file, or its lines.\<close>

datatype jsonl = NoPath | Missing | Lines "string list"

definition importJSONLFile ::
    "(string \<Rightarrow> user option) \<Rightarrow> jsonl \<Rightarrow> user_store \<Rightarrow> (user_error, user_store) result" where
  "importJSONLFile decode f s = (case f of
     Lines ls \<Rightarrow> bind_res (LoadJSONL decode ls) (\<lambda>us. Inr (foldl remember s us))
   | _ \<Rightarrow> Inr s)"

definition sql_user :: "user_row \<Rightarrow> user" where
  "sql_user r = \<lparr>u_ID = ur_id r, u_Name = ur_name r, u_Tier = '''', u_Role = ur_role_id r,
     u_RoleID = ur_role_id r, u_Groups = [], u_PassHash = ur_pass_hash r, u_PassSHA256 = '''',
     u_Disabled = ur_disabled r, u_NLPEnabled = ur_nlp_enabled r, u_NLPDailyLimit = ur_nlp_daily_limit r\<rparr>"

definition loadFromSQL :: "database \<Rightarrow> user_store" where
  "loadFromSQL db = foldl remember empty_users
     (map sql_user (sort_stable (\<lambda>a b. text_less (ur_id a) (ur_id b)) (db_users db)))"

definition saved_role :: "user \<Rightarrow> string" where
  "saved_role u =
     (if u_RoleID u = '''' then (if u_Role u = '''' then ''user'' else u_Role u) else u_RoleID u)"

definition user_row_of :: "user \<Rightarrow> user_row" where
  "user_row_of u = \<lparr>ur_id = u_ID u, ur_name = u_Name u, ur_role_id = saved_role u,
     ur_pass_hash = u_PassHash u, ur_disabled = u_Disabled u, ur_nlp_enabled = u_NLPEnabled u,
     ur_nlp_daily_limit = u_NLPDailyLimit u\<rparr>"

definition saveToSQL :: "user \<Rightarrow> database option \<Rightarrow> database option" where
  "saveToSQL u db = map_option (replace_user (user_row_of u)) db"

definition OpenStore :: "(string \<Rightarrow> user option) \<Rightarrow> jsonl \<Rightarrow> (user_error, user_store) result" where
  "OpenStore decode f = importJSONLFile decode f empty_users"

definition OpenStoreWithDB ::
    "(string \<Rightarrow> user option) \<Rightarrow> jsonl \<Rightarrow> database \<Rightarrow> (user_error, user_store \<times> database) result" where
  "OpenStoreWithDB decode f db =
     (let s = loadFromSQL db;
          needPasswords = list_ex (\<lambda>u. \<not> HasPassword u) (us_all s)
      in if (us_all s = [] \<or> needPasswords) \<and> f \<noteq> NoPath
         then bind_res (importJSONLFile decode f empty_users) (\<lambda>s.
                Inr (s, foldl (\<lambda>db u. replace_user (user_row_of u) db) db (us_all s)))
         else Inr (s, db))"

definition Find :: "string \<Rightarrow> user_store \<Rightarrow> user option" where
  "Find i s = us_byID s i"

definition Create :: "user \<Rightarrow> user_state \<Rightarrow> user_error option \<times> user_state" where
  "Create u st = (case st of (s, db) \<Rightarrow>
     if trim_space (u_ID u) = '''' then (Some IdRequired, st)
     else if us_byID s (u_ID u) \<noteq> None then (Some (AlreadyExists (u_ID u)), st)
     else let u = with_defaults u in (None, (remember s u, saveToSQL u db)))"

fun mutate_first :: "string \<Rightarrow> (user \<Rightarrow> user) \<Rightarrow> user list \<Rightarrow> (user \<times> user list) option" where
  "mutate_first i f [] = None"
| "mutate_first i f (u # us) =
     (if u_ID u = i then Some (f u, f u # us)
      else map_option (\<lambda>(v, vs). (v, u # vs)) (mutate_first i f us))"

definition mutate :: "string \<Rightarrow> (user \<Rightarrow> user) \<Rightarrow> user_state \<Rightarrow> user_error option \<times> user_state" where
  "mutate i f st = (case st of (s, db) \<Rightarrow> (case mutate_first i f (us_all s) of
     None \<Rightarrow> (Some (UserNotFound i), st)
   | Some (u, us) \<Rightarrow> (None, (\<lparr>us_all = us, us_byID = (us_byID s)(i \<mapsto> u)\<rparr>, saveToSQL u db))))"

definition SetDisabled :: "string \<Rightarrow> bool \<Rightarrow> user_state \<Rightarrow> user_error option \<times> user_state" where
  "SetDisabled i d = mutate i (\<lambda>u. u\<lparr>u_Disabled := d\<rparr>)"

definition SetName :: "string \<Rightarrow> string \<Rightarrow> user_state \<Rightarrow> user_error option \<times> user_state" where
  "SetName i n = mutate i (\<lambda>u. u\<lparr>u_Name := n\<rparr>)"

definition SetTier :: "string \<Rightarrow> string \<Rightarrow> user_state \<Rightarrow> user_error option \<times> user_state" where
  "SetTier i t = mutate i (\<lambda>u. u\<lparr>u_Tier := t\<rparr>)"

definition SetRole :: "string \<Rightarrow> string \<Rightarrow> user_state \<Rightarrow> user_error option \<times> user_state" where
  "SetRole i r = mutate i (\<lambda>u. u\<lparr>u_Role := r\<rparr>)"

definition SetPassword ::
    "kdf \<Rightarrow> string \<Rightarrow> string \<Rightarrow> string \<Rightarrow> user_state \<Rightarrow> user_error option \<times> user_state" where
  "SetPassword kdf salt i pw = mutate i (set_password kdf salt pw)"

definition SetGroups :: "string \<Rightarrow> string list \<Rightarrow> user_state \<Rightarrow> user_error option \<times> user_state" where
  "SetGroups i gs = mutate i (\<lambda>u. u\<lparr>u_Groups := gs\<rparr>)"

definition SetNLPEnabled :: "string \<Rightarrow> bool \<Rightarrow> user_state \<Rightarrow> user_error option \<times> user_state" where
  "SetNLPEnabled i e = mutate i (\<lambda>u. u\<lparr>u_NLPEnabled := e\<rparr>)"

definition SetNLPDailyLimit :: "string \<Rightarrow> int \<Rightarrow> user_state \<Rightarrow> user_error option \<times> user_state" where
  "SetNLPDailyLimit i n = mutate i (\<lambda>u. u\<lparr>u_NLPDailyLimit := n\<rparr>)"

definition Delete :: "string \<Rightarrow> user_state \<Rightarrow> user_error option \<times> user_state" where
  "Delete i st = (case st of (s, db) \<Rightarrow>
     if us_byID s i = None then (Some (UserNotFound i), st)
     else
       let s1 = s\<lparr>us_byID := (us_byID s)(i := None)\<rparr>;
           s2 = s1\<lparr>us_all := filter (\<lambda>u. u_ID u \<noteq> i) (us_all s1)\<rparr>
       in case db of
            None \<Rightarrow> (None, (s2, None))
          | Some d \<Rightarrow> (case sql_delete_user i d of
                Inl e \<Rightarrow> (Some (DeleteFailed e), (s1, db))
              | Inr d' \<Rightarrow> (None, (s2, Some d'))))"

definition ImportJSONL ::
    "(string \<Rightarrow> user option) \<Rightarrow> jsonl \<Rightarrow> user_store \<Rightarrow> (user_error, user_store) result" where
  "ImportJSONL decode f s = importJSONLFile decode f s"

definition ImportJSON :: "user list \<Rightarrow> user_state \<Rightarrow> nat \<times> user_state" where
  "ImportJSON us st =
     foldl (\<lambda>(n, st) u. case Create u st of (None, st') \<Rightarrow> (n + 1, st') | (Some e, st') \<Rightarrow> (n, st'))
       (0, st) us"

section \<open>Memory follows the contract\<close>

definition user_put :: "user \<Rightarrow> user_store \<Rightarrow> user_store" where
  "user_put u s =
     (if us_byID s (u_ID u) = None then remember s u
      else fst (snd (mutate (u_ID u) (\<lambda>_. u) (s, None))))"

definition user_del :: "string \<Rightarrow> user_store \<Rightarrow> user_store" where
  "user_del i s = fst (snd (Delete i (s, None)))"

lemma mutate_first_find:
  assumes "distinct (map u_ID us)" "\<And>u. u_ID (f u) = u_ID u \<or> u_ID (f u) = i"
  shows "mutate_first i f us = (case find (\<lambda>u. u_ID u = i) us of
     None \<Rightarrow> None | Some u \<Rightarrow> Some (f u, replace_key u_ID (f u) us))"
  using assms(1)
proof (induction us)
  case (Cons u us)
  show ?case
  proof (cases "u_ID u = i")
    case True
    with assms(2) [of u] have k: "u_ID (f u) = i" by simp
    have "map (\<lambda>y. if u_ID y = i then f u else y) us = us"
      using Cons.prems True by (intro map_idI) (force simp: image_iff)
    with True k show ?thesis by (simp add: replace_key_def)
  next
    case False
    have "u_ID (f v) = i" if "find (\<lambda>u. u_ID u = i) us = Some v" for v
      using find_SomeD [OF that] assms(2) [of v] by auto
    with False Cons show ?thesis by (auto simp: replace_key_def split: option.split)
  qed
qed simp

lemma mutate_in_step:
  assumes s: "in_step u_ID (us_all s) (us_byID s)" and f: "\<And>u. u_ID (f u) = u_ID u"
  shows "mutate i f (s, db) = (case us_byID s i of
     None \<Rightarrow> (Some (UserNotFound i), (s, db))
   | Some u \<Rightarrow> (None, (\<lparr>us_all = replace_key u_ID (f u) (us_all s), us_byID = (us_byID s)(i \<mapsto> f u)\<rparr>,
       saveToSQL (f u) db)))"
proof -
  have "mutate_first i f (us_all s) = (case us_byID s i of
      None \<Rightarrow> None | Some u \<Rightarrow> Some (f u, replace_key u_ID (f u) (us_all s)))"
    using s mutate_first_find [of "us_all s" f i] f unfolding in_step_def by (simp only: simp_thms)
  then show ?thesis by (simp add: mutate_def split: option.split)
qed

lemma user_put_eq:
  assumes s: "in_step u_ID (us_all s) (us_byID s)"
  shows "user_put u s = (if us_byID s (u_ID u) = None then remember s u
     else \<lparr>us_all = replace_key u_ID u (us_all s), us_byID = (us_byID s)(u_ID u \<mapsto> u)\<rparr>)"
proof (cases "us_byID s (u_ID u)")
  case (Some v)
  have "mutate_first (u_ID u) (\<lambda>_. u) (us_all s) = Some (u, replace_key u_ID u (us_all s))"
    using s Some by (simp add: in_step_def mutate_first_find)
  with Some show ?thesis by (simp add: user_put_def mutate_def)
qed (simp add: user_put_def)

lemma user_del_eq:
  assumes s: "in_step u_ID (us_all s) (us_byID s)"
  shows "user_del i s = \<lparr>us_all = filter (\<lambda>u. u_ID u \<noteq> i) (us_all s), us_byID = (us_byID s)(i := None)\<rparr>"
proof (cases "us_byID s i")
  case None
  then have "filter (\<lambda>u. u_ID u \<noteq> i) (us_all s) = us_all s"
    using in_step_None [OF s] by (intro filter_True) auto
  moreover have "(us_byID s)(i := None) = us_byID s" using None by (rule fun_upd_idem)
  moreover have "user_del i s = s" using None by (simp add: user_del_def Delete_def)
  ultimately show ?thesis by (simp only:) simp
qed (simp add: user_del_def Delete_def Let_def)

interpretation users: keyed_store u_ID us_all us_byID user_put user_del
proof unfold_locales
  fix s :: user_store and u :: user and i
  assume s: "in_step u_ID (us_all s) (us_byID s)"
  have ids: "u_ID u \<in> u_ID ` set (us_all s) \<longleftrightarrow> us_byID s (u_ID u) \<noteq> None"
    using in_step_None [OF s, of "u_ID u"] by simp
  show "in_step u_ID (us_all (user_put u s)) (us_byID (user_put u s))"
  proof (cases "us_byID s (u_ID u) = None")
    case True
    then show ?thesis using in_step_append [OF s, of u] ids by (simp add: user_put_eq [OF s] remember_def)
  next
    case False
    then show ?thesis
      using in_step_replace [OF s, of u] ids unfolding user_put_eq [OF s] if_not_P [OF False]
      by simp
  qed
  show "us_byID (user_put u s) = (us_byID s)(u_ID u \<mapsto> u)"
    by (simp add: user_put_eq [OF s] remember_def)
  show "in_step u_ID (us_all (user_del i s)) (us_byID (user_del i s))"
    using in_step_remove [OF s, of i] by (simp add: user_del_eq [OF s])
  show "us_byID (user_del i s) = (us_byID s)(i := None)"
    by (simp add: user_del_eq [OF s])
qed

section \<open>Sequences of operations\<close>

datatype user_change =
    ChDisabled bool
  | ChName string
  | ChTier string
  | ChRole string
  | ChPassword string string
  | ChGroups "string list"
  | ChNLPEnabled bool
  | ChNLPDailyLimit int

datatype user_op = CreateOp user | ChangeOp string user_change | DeleteOp string

primrec change_op :: "kdf \<Rightarrow> string \<Rightarrow> user_change \<Rightarrow> user_state \<Rightarrow> user_error option \<times> user_state" where
  "change_op kdf i (ChDisabled d) = SetDisabled i d"
| "change_op kdf i (ChName n) = SetName i n"
| "change_op kdf i (ChTier t) = SetTier i t"
| "change_op kdf i (ChRole r) = SetRole i r"
| "change_op kdf i (ChPassword salt pw) = SetPassword kdf salt i pw"
| "change_op kdf i (ChGroups gs) = SetGroups i gs"
| "change_op kdf i (ChNLPEnabled e) = SetNLPEnabled i e"
| "change_op kdf i (ChNLPDailyLimit n) = SetNLPDailyLimit i n"

primrec exec_op :: "kdf \<Rightarrow> user_op \<Rightarrow> user_state \<Rightarrow> user_error option \<times> user_state" where
  "exec_op kdf (CreateOp u) = Create u"
| "exec_op kdf (ChangeOp i ch) = change_op kdf i ch"
| "exec_op kdf (DeleteOp i) = Delete i"

definition exec_all :: "kdf \<Rightarrow> user_op list \<Rightarrow> user_state \<Rightarrow> user_state" where
  "exec_all kdf ops st = fold (\<lambda>e st. snd (exec_op kdf e st)) ops st"

text \<open>What the operations mean on a map from ids to users.\<close>

primrec changed :: "kdf \<Rightarrow> user_change \<Rightarrow> user \<Rightarrow> user" where
  "changed kdf (ChDisabled d) u = u\<lparr>u_Disabled := d\<rparr>"
| "changed kdf (ChName n) u = u\<lparr>u_Name := n\<rparr>"
| "changed kdf (ChTier t) u = u\<lparr>u_Tier := t\<rparr>"
| "changed kdf (ChRole r) u = u\<lparr>u_Role := r\<rparr>"
| "changed kdf (ChPassword salt pw) u = set_password kdf salt pw u"
| "changed kdf (ChGroups gs) u = u\<lparr>u_Groups := gs\<rparr>"
| "changed kdf (ChNLPEnabled e) u = u\<lparr>u_NLPEnabled := e\<rparr>"
| "changed kdf (ChNLPDailyLimit n) u = u\<lparr>u_NLPDailyLimit := n\<rparr>"

primrec map_op :: "kdf \<Rightarrow> user_op \<Rightarrow> (string \<Rightarrow> user option) \<Rightarrow> string \<Rightarrow> user option" where
  "map_op kdf (CreateOp u) m =
     (if trim_space (u_ID u) = '''' \<or> m (u_ID u) \<noteq> None then m else m(u_ID u \<mapsto> with_defaults u))"
| "map_op kdf (ChangeOp i ch) m = (case m i of None \<Rightarrow> m | Some u \<Rightarrow> m(i \<mapsto> changed kdf ch u))"
| "map_op kdf (DeleteOp i) m = m(i := None)"

lemma changed_ID [simp]: "u_ID (changed kdf ch u) = u_ID u"
  by (cases ch) (simp_all add: set_password_def)

lemma with_defaults_ID [simp]: "u_ID (with_defaults u) = u_ID u"
  by (simp add: with_defaults_def Let_def)

lemma changed_eta:
  "changed kdf (ChDisabled d) = (\<lambda>u. u\<lparr>u_Disabled := d\<rparr>)"
  "changed kdf (ChName n) = (\<lambda>u. u\<lparr>u_Name := n\<rparr>)"
  "changed kdf (ChTier t) = (\<lambda>u. u\<lparr>u_Tier := t\<rparr>)"
  "changed kdf (ChRole r) = (\<lambda>u. u\<lparr>u_Role := r\<rparr>)"
  "changed kdf (ChPassword salt pw) = set_password kdf salt pw"
  "changed kdf (ChGroups gs) = (\<lambda>u. u\<lparr>u_Groups := gs\<rparr>)"
  "changed kdf (ChNLPEnabled e) = (\<lambda>u. u\<lparr>u_NLPEnabled := e\<rparr>)"
  "changed kdf (ChNLPDailyLimit k) = (\<lambda>u. u\<lparr>u_NLPDailyLimit := k\<rparr>)"
  by (simp_all add: fun_eq_iff)

lemma change_op_mutate: "change_op kdf i ch = mutate i (changed kdf ch)"
  by (cases ch) (simp_all add: SetDisabled_def SetName_def SetTier_def SetRole_def SetPassword_def
      SetGroups_def SetNLPEnabled_def SetNLPDailyLimit_def changed_eta)

text \<open>Memory in step, and the table holds the rows of the users in memory.\<close>

definition in_table :: "user list \<Rightarrow> database \<Rightarrow> bool" where
  "in_table us d \<longleftrightarrow> db_limits d = [] \<and> distinct (map ur_id (db_users d)) \<and>
     set (db_users d) = user_row_of ` set us"

definition users_ok :: "user_state \<Rightarrow> bool" where
  "users_ok st \<longleftrightarrow> (case st of (s, db) \<Rightarrow>
     in_step u_ID (us_all s) (us_byID s) \<and> (\<forall>d. db = Some d \<longrightarrow> in_table (us_all s) d))"

lemma user_row_of_id [simp]: "ur_id (user_row_of u) = u_ID u"
  by (simp add: user_row_of_def)

lemma replace_user_rows:
  "distinct (map ur_id (db_users d)) \<Longrightarrow> distinct (map ur_id (db_users (replace_user r d)))"
  "set (db_users (replace_user r d)) = insert r {x \<in> set (db_users d). ur_id x \<noteq> ur_id r}"
  by (auto simp: replace_user_def Let_def delete_fields has_user_def distinct_map_filter
      intro: rev_image_eqI)

lemma in_table_put:
  assumes s: "in_step u_ID (us_all s) (us_byID s)" and d: "in_table (us_all s) d"
  shows "in_table (us_all (user_put u s)) (replace_user (user_row_of u) d)"
proof -
  have "set (us_all (user_put u s)) = insert u {v \<in> set (us_all s). u_ID v \<noteq> u_ID u}"
  proof -
    have "v \<in> set (us_all (user_put u s)) \<longleftrightarrow> v = u \<or> v \<in> set (us_all s) \<and> u_ID v \<noteq> u_ID u" for v
      using in_step_lookup [OF users.put_in_step [OF s, of u], of "u_ID v" v]
        in_step_lookup [OF s, of "u_ID v" v] users.put_lookup [OF s, of u]
      by (auto split: if_splits)
    then show ?thesis by blast
  qed
  then have "user_row_of ` set (us_all (user_put u s)) =
      insert (user_row_of u) {x \<in> user_row_of ` set (us_all s). ur_id x \<noteq> u_ID u}"
    by auto
  then show ?thesis
    using d by (simp add: in_table_def limits_fields replace_user_rows)
qed

lemma in_table_del:
  assumes s: "in_step u_ID (us_all s) (us_byID s)" and d: "in_table (us_all s) d"
  shows "in_table (us_all (user_del i s)) (delete_user i d)"
  using d by (auto simp: in_table_def limits_fields delete_fields user_del_eq [OF s] distinct_map_filter)

lemma exec_refines:
  assumes ok: "users_ok st"
  shows "users_ok (snd (exec_op kdf e st)) \<and>
    us_byID (fst (snd (exec_op kdf e st))) = map_op kdf e (us_byID (fst st))"
proof -
  obtain s db where st: "st = (s, db)" by (cases st)
  have s: "in_step u_ID (us_all s) (us_byID s)" and t: "\<And>d. db = Some d \<Longrightarrow> in_table (us_all s) d"
    using ok by (auto simp: users_ok_def st)
  have put: "users_ok (user_put u s, saveToSQL u db)" for u
    using users.put_in_step [OF s] in_table_put [OF s t] by (auto simp: users_ok_def saveToSQL_def)
  show ?thesis
  proof (cases e)
    case (CreateOp u)
    show ?thesis
    proof (cases "trim_space (u_ID u) = '''' \<or> us_byID s (u_ID u) \<noteq> None")
      case True
      then show ?thesis using ok by (auto simp: CreateOp st Create_def)
    next
      case False
      then have "exec_op kdf e st = (None, (user_put (with_defaults u) s, saveToSQL (with_defaults u) db))"
        by (simp add: CreateOp st Create_def user_put_def Let_def)
      then show ?thesis
        using put [of "with_defaults u"] False users.put_lookup [OF s, of "with_defaults u"]
        by (simp add: CreateOp st)
    qed
  next
    case (ChangeOp i ch)
    show ?thesis
    proof (cases "us_byID s i")
      case None
      then show ?thesis
        using ok mutate_in_step [OF s, of "changed kdf ch" i db]
        by (simp add: ChangeOp st change_op_mutate)
    next
      case (Some u)
      then have i: "u_ID u = i" using in_step_lookup [OF s] by blast
      have "exec_op kdf e st = (None, (user_put (changed kdf ch u) s, saveToSQL (changed kdf ch u) db))"
        using Some i mutate_in_step [OF s, of "changed kdf ch" i db] user_put_eq [OF s, of "changed kdf ch u"]
        by (simp add: ChangeOp st change_op_mutate)
      then show ?thesis
        using put [of "changed kdf ch u"] Some i users.put_lookup [OF s, of "changed kdf ch u"]
        by (simp add: ChangeOp st)
    qed
  next
    case (DeleteOp i)
    show ?thesis
    proof (cases "us_byID s i = None")
      case True
      then show ?thesis using ok by (auto simp: DeleteOp st Delete_def fun_upd_idem)
    next
      case False
      have "exec_op kdf e st = (None, (user_del i s, map_option (delete_user i) db))"
        using False t by (auto simp: DeleteOp st Delete_def user_del_eq [OF s] Let_def sql_delete_user_def
            in_table_def split: option.split)
      then show ?thesis
        using users.del_in_step [OF s, of i] users.del_lookup [OF s, of i] in_table_del [OF s t]
        by (auto simp: DeleteOp st users_ok_def)
    qed
  qed
qed

lemma exec_all_refines:
  assumes "users_ok st"
  shows "users_ok (exec_all kdf ops st) \<and>
    us_byID (fst (exec_all kdf ops st)) = fold (map_op kdf) ops (us_byID (fst st))"
  using assms
proof (induction ops arbitrary: st)
  case (Cons e ops)
  note one = exec_refines [OF Cons.prems, of kdf e]
  show ?case
    using Cons.IH [OF one [THEN conjunct1]] one by (simp add: exec_all_def)
qed (simp add: exec_all_def)

lemma start_ok: "users_ok (empty_users, Some empty_db)" "users_ok (empty_users, None)"
  by (simp_all add: users_ok_def empty_users_def in_table_def empty_db_def)

text \<open>
  C16: The user store is a map. After any sequence of creations, changes and deletions,
  with or without a database, \<open>Find\<close> answers as the map of the successful operations
  does, the slice behind \<open>All\<close> holds exactly the users of that map, one per id, and
  the \<open>users\<close> table, when there is one, holds their rows.
\<close>

theorem user_store_refines_map:
  fixes kdf ops db0
  defines "st \<equiv> exec_all kdf ops (empty_users, db0)"
  assumes "db0 = None \<or> db0 = Some empty_db"
  shows "(\<forall>i. Find i (fst st) = fold (map_op kdf) ops Map.empty i) \<and>
    set (us_all (fst st)) = ran (fold (map_op kdf) ops Map.empty) \<and>
    distinct (map u_ID (us_all (fst st))) \<and>
    (\<forall>d. snd st = Some d \<longrightarrow> set (db_users d) = user_row_of ` ran (fold (map_op kdf) ops Map.empty))"
proof -
  have "users_ok (empty_users, db0)" using assms(2) start_ok by auto
  note r = exec_all_refines [OF this, of kdf ops, folded st_def]
  have m: "us_byID (fst st) = fold (map_op kdf) ops Map.empty" using r by (simp add: empty_users_def)
  have s: "in_step u_ID (us_all (fst st)) (us_byID (fst st))"
    and t: "\<And>d. snd st = Some d \<Longrightarrow> in_table (us_all (fst st)) d"
    using r by (auto simp: users_ok_def split: prod.splits)
  show ?thesis
    using users.items_are_the_map [OF s] s t by (auto simp: m Find_def in_step_def in_table_def)
qed

definition ann :: user where
  "ann = \<lparr>u_ID = ''ann'', u_Name = ''Ann'', u_Tier = '''', u_Role = '''', u_RoleID = '''', u_Groups = [],
     u_PassHash = ''x'', u_PassSHA256 = '''', u_Disabled = False, u_NLPEnabled = True, u_NLPDailyLimit = 10\<rparr>"

lemma ann_id: "trim_space ''ann'' \<noteq> ''''"
  by code_simp

theorem user_store_refines_map_witness:
  "u_Tier (the (Find ''ann'' (fst (exec_all pad_kdf [CreateOp ann, ChangeOp ''ann'' (ChTier ''pro'')]
     (empty_users, Some empty_db))))) = ''pro''"
proof -
  have "fold (map_op pad_kdf) [CreateOp ann, ChangeOp ''ann'' (ChTier ''pro'')] Map.empty ''ann'' =
      Some (with_defaults ann\<lparr>u_Tier := ''pro''\<rparr>)"
    using ann_id by (simp add: ann_def)
  then show ?thesis
    using user_store_refines_map [of "Some empty_db" pad_kdf "[CreateOp ann, ChangeOp ''ann'' (ChTier ''pro'')]"]
    by simp
qed

section \<open>Restarting\<close>

text \<open>What the table keeps of a user.\<close>

lemma sql_user_of_row:
  "sql_user (user_row_of u) = u\<lparr>u_Tier := '''', u_Role := saved_role u, u_RoleID := saved_role u,
     u_Groups := [], u_PassSHA256 := ''''\<rparr>"
  by (cases u) (simp add: sql_user_def user_row_of_def saved_role_def)

lemma remember_all:
  "us_all (foldl remember s us) = us_all s @ us \<and>
   us_byID (foldl remember s us) = foldl (\<lambda>m u. m(u_ID u \<mapsto> u)) (us_byID s) us"
  by (induction us arbitrary: s) (simp_all add: remember_def)

lemma index_by_in_step:
  assumes "distinct (map key xs)"
  shows "index_by key xs = (\<lambda>k. find (\<lambda>x. key x = k) xs)"
proof
  fix k
  have same: "index_by key xs k = Some x \<longleftrightarrow> find (\<lambda>x. key x = k) xs = Some x" for x
    using index_by_distinct [OF assms, of k x] find_key_iff [OF assms, of k x] by simp
  show "index_by key xs k = find (\<lambda>x. key x = k) xs"
  proof (cases "index_by key xs k")
    case None
    then show ?thesis using same by (metis not_Some_eq)
  next
    case (Some x)
    then show ?thesis using same [of x] by simp
  qed
qed

lemma loadFromSQL_in_step:
  assumes "in_table us d"
  shows "in_step u_ID (us_all (loadFromSQL d)) (us_byID (loadFromSQL d)) \<and>
    set (us_all (loadFromSQL d)) = (\<lambda>u. sql_user (user_row_of u)) ` set us"
proof -
  let ?rows = "sort_stable (\<lambda>a b. text_less (ur_id a) (ur_id b)) (db_users d)"
  let ?us = "map sql_user ?rows"
  have l: "us_all (loadFromSQL d) = ?us" "us_byID (loadFromSQL d) = index_by u_ID ?us"
    using remember_all [of empty_users ?us]
    by (simp_all add: loadFromSQL_def empty_users_def index_by_def)
  have "distinct (map ur_id ?rows)"
    using assms unfolding in_table_def distinct_map by (metis set_sort_stable distinct_sort_stable)
  moreover have "map u_ID ?us = map ur_id ?rows" by (simp add: sql_user_def)
  ultimately have dist: "distinct (map u_ID ?us)" by (simp only:)
  have "index_by u_ID ?us k = find (\<lambda>x. u_ID x = k) ?us" for k
    by (rule fun_cong [OF index_by_in_step [OF dist]])
  then show ?thesis
    using dist assms unfolding l by (auto simp: in_step_def in_table_def image_image)
qed

text \<open>
  What a restart forgets. Take any history of the store over an empty
  database and open it again from the database alone: the same ids are found, each
  user with name, password hash, the disabled flag and the NLP settings as before, but
  with the empty tier (which ranks as free), no groups, no legacy password, and the
  saved role id as the role.
\<close>

theorem restart_forgets_tier_and_groups:
  fixes kdf ops
  defines "st \<equiv> exec_all kdf ops (empty_users, Some empty_db)"
  shows "\<exists>d s'. snd st = Some d \<and> OpenStoreWithDB decode NoPath d = Inr (s', d) \<and>
    (\<forall>i. Find i s' = map_option (\<lambda>u. u\<lparr>u_Tier := '''', u_Role := saved_role u, u_RoleID := saved_role u,
       u_Groups := [], u_PassSHA256 := ''''\<rparr>) (Find i (fst st)))"
proof -
  have "users_ok st" unfolding st_def using exec_all_refines [OF start_ok(1)] by blast
  moreover have "snd st \<noteq> None"
  proof -
    have "snd (snd (exec_op kdf e x)) \<noteq> None" if "snd x \<noteq> None" for e and x :: user_state
      using that by (cases e; cases x) (auto simp: Create_def change_op_mutate mutate_def Delete_def
          saveToSQL_def Let_def split: option.split sum.split)
    then have "snd x \<noteq> None \<Longrightarrow> snd (exec_all kdf ops x) \<noteq> None" for x
      by (induction ops arbitrary: x) (simp_all add: exec_all_def)
    then show ?thesis by (simp add: st_def)
  qed
  ultimately obtain s d where st: "st = (s, Some d)" and s: "in_step u_ID (us_all s) (us_byID s)"
    and t: "in_table (us_all s) d" by (cases st) (auto simp: users_ok_def)
  note l = loadFromSQL_in_step [OF t]
  have "Find i (loadFromSQL d) = map_option (\<lambda>u. sql_user (user_row_of u)) (Find i s)" for i
  proof (cases "us_byID s i")
    case None
    then have "i \<notin> u_ID ` set (us_all s)" using in_step_None [OF s, of i] by blast
    moreover have "u_ID (sql_user (user_row_of u)) = u_ID u" for u :: user by (simp add: sql_user_def)
    ultimately have "i \<notin> u_ID ` set (us_all (loadFromSQL d))"
      unfolding l [THEN conjunct2] by (simp add: image_image)
    then show ?thesis
      using None in_step_None [OF l [THEN conjunct1], of i] by (simp add: Find_def)
  next
    case (Some u)
    then have "u \<in> set (us_all s)" "u_ID u = i" using in_step_lookup [OF s, of i u] by auto
    moreover have "u_ID (sql_user (user_row_of u)) = u_ID u" by (simp add: sql_user_def)
    ultimately have "us_byID (loadFromSQL d) i = Some (sql_user (user_row_of u))"
      using in_step_lookup [OF l [THEN conjunct1], of i "sql_user (user_row_of u)"]
      unfolding l [THEN conjunct2] by simp
    then show ?thesis using Some by (simp add: Find_def)
  qed
  moreover have "OpenStoreWithDB decode NoPath d = Inr (loadFromSQL d, d)"
    by (simp add: OpenStoreWithDB_def Let_def)
  ultimately show ?thesis
    unfolding st snd_conv fst_conv sql_user_of_row by blast
qed

section \<open>What a change does to the database\<close>

lemma change_writes:
  assumes s: "in_step u_ID (us_all s) (us_byID s)" and u: "Find i s = Some u"
  shows "change_op kdf i ch (s, Some d) =
    (None, (user_put (changed kdf ch u) s, Some (replace_user (user_row_of (changed kdf ch u)) d)))"
proof -
  have u: "us_byID s i = Some u" "u_ID u = i" using u in_step_lookup [OF s] by (auto simp: Find_def)
  then show ?thesis
    using mutate_in_step [OF s, of "changed kdf ch" i "Some d"] user_put_eq [OF s, of "changed kdf ch u"]
    by (simp add: change_op_mutate saveToSQL_def)
qed

text \<open>
  Changing a user throws their results away. Any successful change of a user whose
  row is in the table (a new name, a new password, the NLP limit) deletes every saved
  result and every ACL entry of that user and, by the cascade, the ACL entries on those
  results: the change is written with \<open>INSERT OR REPLACE\<close>, which deletes the old row
  first. Results of other users stay.
\<close>

theorem user_change_wipes_results:
  assumes s: "in_step u_ID (us_all s) (us_byID s)" and u: "Find i s = Some u" and d: "has_user d i"
  shows "\<exists>s' d'. change_op kdf i ch (s, Some d) = (None, (s', Some d')) \<and>
    db_results d' = filter (\<lambda>r. rr_user_id r \<noteq> i) (db_results d) \<and>
    (\<forall>a \<in> set (db_acls d'). ar_user_id a \<noteq> i) \<and>
    (\<forall>a \<in> set (db_acls d'). \<forall>r \<in> set (db_results d). rr_user_id r = i \<longrightarrow> ar_result_id a \<noteq> rr_id r)"
proof -
  have "u_ID u = i" using u in_step_lookup [OF s] by (auto simp: Find_def)
  then show ?thesis
    unfolding change_writes [OF s u]
    using d by (auto simp: replace_user_def Let_def delete_fields)
qed

definition ann_store :: user_store where
  "ann_store = \<lparr>us_all = [ann], us_byID = [''ann'' \<mapsto> ann]\<rparr>"

lemma ann_store_ok: "in_step u_ID (us_all ann_store) (us_byID ann_store)" "Find ''ann'' ann_store = Some ann"
  by (simp_all add: ann_store_def in_step_def Find_def ann_def)

definition ann_db :: database where
  "ann_db = empty_db
     \<lparr>db_users := [user_row_of ann],
      db_results := [\<lparr>rr_id = 1, rr_user_id = ''ann'', rr_study_id = ''golden'', rr_snapshot_date = 7,
        rr_results = [], rr_created_at = 7, rr_name = '''', rr_notes = '''', rr_perm_owner = 7,
        rr_perm_group = 0, rr_perm_all = 0, rr_group_id = None\<rparr>],
      db_limits := [\<lparr>ul_user_id = ''ann'', ul_limits_json = ''{}'', ul_updated_at = 3\<rparr>]\<rparr>"

theorem user_change_wipes_results_witness:
  "\<exists>s' d'. SetName ''ann'' ''Anne'' (ann_store, Some ann_db) = (None, (s', Some d')) \<and>
     db_results d' = [] \<and> length (db_results ann_db) = 1"
proof -
  have "has_user ann_db ''ann''" by (simp add: has_user_def ann_db_def ann_def)
  from user_change_wipes_results [OF ann_store_ok this, of pad_kdf "ChName ''Anne''"]
  show ?thesis by (auto simp: ann_db_def)
qed

text \<open>
  A change of role is not saved for a user who has a role id. Every user read from
  the table has one, and the table keeps the old one after \<open>SetRole\<close>, although
  memory shows the new role: the permission checks on the table go on with the old
  role, and so does the next start.
\<close>

theorem role_change_not_saved:
  assumes s: "in_step u_ID (us_all s) (us_byID s)" and u: "Find i s = Some u" and r: "u_RoleID u \<noteq> ''''"
  shows "\<exists>s' d'. SetRole i role (s, Some d) = (None, (s', Some d')) \<and>
    map_option u_Role (Find i s') = Some role \<and>
    (\<exists>x \<in> set (db_users d'). ur_id x = i \<and> ur_role_id x = u_RoleID u)"
proof -
  let ?u = "changed pad_kdf (ChRole role) u"
  have id: "u_ID u = i" using u in_step_lookup [OF s] by (auto simp: Find_def)
  have "SetRole i role (s, Some d) = (None, (user_put ?u s, Some (replace_user (user_row_of ?u) d)))"
    using change_writes [OF s u, of pad_kdf "ChRole role" d] by simp
  moreover have "user_row_of ?u \<in> set (db_users (replace_user (user_row_of ?u) d))"
    by (simp add: replace_user_rows(2))
  moreover have "ur_id (user_row_of ?u) = i" "ur_role_id (user_row_of ?u) = u_RoleID u"
    using r id by (simp_all add: user_row_of_def saved_role_def)
  moreover have "map_option u_Role (Find i (user_put ?u s)) = Some role"
    using users.put_lookup [OF s, of ?u] id by (simp add: Find_def)
  ultimately show ?thesis by blast
qed

theorem role_change_not_saved_witness:
  "\<exists>s' d'. SetRole ''ann'' ''user'' (\<lparr>us_all = [ann\<lparr>u_RoleID := ''admin''\<rparr>],
      us_byID = [''ann'' \<mapsto> ann\<lparr>u_RoleID := ''admin''\<rparr>]\<rparr>, Some ann_db) = (None, (s', Some d')) \<and>
     (\<exists>x \<in> set (db_users d'). ur_id x = ''ann'' \<and> ur_role_id x = ''admin'')"
proof -
  let ?a = "ann\<lparr>u_RoleID := ''admin''\<rparr>"
  let ?s = "\<lparr>us_all = [?a], us_byID = [''ann'' \<mapsto> ?a]\<rparr>"
  have s: "in_step u_ID (us_all ?s) (us_byID ?s)" "Find ''ann'' ?s = Some ?a" "u_RoleID ?a \<noteq> ''''"
    by (simp_all add: in_step_def Find_def ann_def)
  from role_change_not_saved [OF s, of "''user''" ann_db] show ?thesis by auto
qed

text \<open>
  A deletion that fails tears the store apart. When the user has an entry in
  \<open>user_limits\<close>, whose foreign key has no action, \<open>Delete\<close> returns an error and the
  table keeps the user, but \<open>Find\<close> no longer knows them while \<open>All\<close> still lists them.
\<close>

theorem failed_delete_tears_apart:
  assumes s: "in_step u_ID (us_all s) (us_byID s)" and u: "Find i s = Some u"
    and l: "i \<in> set (map ul_user_id (db_limits d))"
  shows "\<exists>s'. Delete i (s, Some d) = (Some (DeleteFailed ForeignKeyViolation), (s', Some d)) \<and>
    Find i s' = None \<and> u \<in> set (us_all s') \<and> \<not> in_step u_ID (us_all s') (us_byID s')"
proof -
  let ?s = "s\<lparr>us_byID := (us_byID s)(i := None)\<rparr>"
  have m: "u \<in> set (us_all s)" "u_ID u = i" using u in_step_lookup [OF s] by (auto simp: Find_def)
  have "\<not> in_step u_ID (us_all ?s) (us_byID ?s)"
    using in_step_None [of u_ID "us_all ?s" "us_byID ?s" i] m by auto
  then show ?thesis
    using u l m by (auto simp: Delete_def Find_def sql_delete_user_def Let_def)
qed

theorem failed_delete_tears_apart_witness:
  "\<exists>s'. Delete ''ann'' (ann_store, Some ann_db) = (Some (DeleteFailed ForeignKeyViolation), (s', Some ann_db)) \<and>
     Find ''ann'' s' = None \<and> ann \<in> set (us_all s')"
proof -
  have "''ann'' \<in> set (map ul_user_id (db_limits ann_db))" by (simp add: ann_db_def)
  from failed_delete_tears_apart [OF ann_store_ok this] show ?thesis by blast
qed

text \<open>
  One account without a password and a missing file empty the store. If the table
  holds a user without a password hash and the JSONL path names no file, the store
  opens without an error and without any user, whatever the table holds.
\<close>

theorem missing_file_empties_store:
  assumes "x \<in> set (db_users d)" "ur_pass_hash x = ''''"
  shows "OpenStoreWithDB decode Missing d = Inr (empty_users, d)"
proof -
  let ?rows = "sort_stable (\<lambda>a b. text_less (ur_id a) (ur_id b)) (db_users d)"
  have "us_all (loadFromSQL d) = map sql_user ?rows"
    using remember_all [of empty_users "map sql_user ?rows"] by (simp add: loadFromSQL_def empty_users_def)
  moreover have "\<not> HasPassword (sql_user x)" using assms(2) by (simp add: HasPassword_def sql_user_def)
  ultimately have "list_ex (\<lambda>u. \<not> HasPassword u) (us_all (loadFromSQL d))"
    using assms(1) by (auto simp: list_ex_iff)
  then show ?thesis
    by (simp add: OpenStoreWithDB_def importJSONLFile_def Let_def empty_users_def)
qed

theorem missing_file_empties_store_witness:
  "\<exists>d. length (db_users d) = 2 \<and> OpenStoreWithDB (\<lambda>_. None) Missing d = Inr (empty_users, d)"
proof -
  let ?d = "empty_db\<lparr>db_users := [user_row_of ann, user_row_of Global]\<rparr>"
  have "user_row_of Global \<in> set (db_users ?d)" "ur_pass_hash (user_row_of Global) = ''''"
    by (simp_all add: user_row_of_def Global_def)
  from missing_file_empties_store [OF this, of "\<lambda>_. None"] show ?thesis
    by (intro exI [of _ ?d]) simp
qed

end
