(* ===== verification/Study_Store.thy ===== *)
theory Study_Store
  imports User_Store
begin

text \<open>
  \<open>internal/study/study.go\<close> and \<open>store.go\<close>: saved studies, who may run them, the denylist
  for clauses of untrusted authors, and the study store (slice, map and the table
  \<open>studies\<close>). The table has no foreign key and is part of the state of this store;
  \<open>None\<close> is the legacy mode without a database.
\<close>

section \<open>Studies\<close>

record study =
  st_Owner :: string
  st_Visibility :: string
  st_Group :: string
  st_Tier :: string
  st_Key :: string
  st_Title :: string
  st_Emoji :: string
  st_Where :: string
  st_OrderBy :: string
  st_Limit :: int

definition VisPrivate :: string where "VisPrivate = ''private''"
definition VisGroup :: string where "VisGroup = ''group''"
definition VisPublic :: string where "VisPublic = ''public''"

definition study_defaults :: "study \<Rightarrow> study" where
  "study_defaults s =
     (let s = (if st_Owner s = '''' then s\<lparr>st_Owner := GlobalID\<rparr> else s);
          s = (if st_Tier s = '''' then s\<lparr>st_Tier := TierFree\<rparr> else s)
      in if st_Visibility s = ''''
         then (if st_Owner s = GlobalID then s\<lparr>st_Visibility := VisPublic\<rparr>
               else s\<lparr>st_Visibility := VisPrivate\<rparr>)
         else s)"

datatype study_error = KeyRequired | WhereRequired | StudyNotFound string | BadStudyLine nat

fun load_studies :: "(string \<Rightarrow> study option) \<Rightarrow> nat \<Rightarrow> string list \<Rightarrow> (study_error, study list) result" where
  "load_studies decode n [] = Inr []"
| "load_studies decode n (line # lines) =
     (let n = n + 1; t = trim_space line in
      if t = '''' \<or> has_prefix t ''#'' then load_studies decode n lines
      else case decode t of
        None \<Rightarrow> Inl (BadStudyLine n)
      | Some s \<Rightarrow> bind_res (load_studies decode n lines) (\<lambda>ss. Inr (study_defaults s # ss)))"

definition LoadJSONL :: "(string \<Rightarrow> study option) \<Rightarrow> string list \<Rightarrow> (study_error, study list) result" where
  "LoadJSONL decode lines = load_studies decode 0 lines"

definition visibleTo :: "study \<Rightarrow> user \<Rightarrow> bool" where
  "visibleTo s u \<longleftrightarrow>
     (if st_Visibility s = VisPublic then True
      else if st_Visibility s = VisGroup then InGroup u (st_Group s)
      else if st_Visibility s = VisPrivate then False
      else st_Owner s = GlobalID)"

definition Accessible :: "study list \<Rightarrow> user \<Rightarrow> study list" where
  "Accessible studies u =
     foldl (\<lambda>out s.
       if IsAdmin u then out @ [s]
       else if st_Owner s = u_ID u then out @ [s]
       else if \<not> visibleTo s u then out
       else if Rank (st_Tier s) > Rank (u_Tier u) then out
       else out @ [s]) [] studies"

definition bad_words :: "string list" where
  "bad_words =
     [''--'', ''/*'', ''*/'',
      ''attach'', ''detach'', ''pragma'', ''load_extension'',
      ''union'', ''select'',
      ''insert'', ''delete'', ''update'', ''replace'',
      ''create'', ''drop'', ''alter'',
      ''exec'', ''trigger'', ''savepoint'']"

text \<open>\<open>None\<close> is the nil error, \<open>Some\<close> the fragment that is not allowed.\<close>

definition ValidateClause :: "string \<Rightarrow> string option" where
  "ValidateClause clause =
     (if contains clause '';'' then Some '';''
      else find (\<lambda>bad. contains (to_lower clause) bad) bad_words)"

section \<open>The store\<close>

record study_store =
  ss_all :: "study list"
  ss_byKey :: "string \<Rightarrow> study option"

type_synonym study_state = "study_store \<times> study list option"

definition empty_studies :: study_store where
  "empty_studies = \<lparr>ss_all = [], ss_byKey = Map.empty\<rparr>"

definition keep_study :: "study_store \<Rightarrow> study \<Rightarrow> study_store" where
  "keep_study s x = \<lparr>ss_all = ss_all s @ [x], ss_byKey = (ss_byKey s)(st_Key x \<mapsto> x)\<rparr>"

definition importJSONLFile ::
    "(string \<Rightarrow> study option) \<Rightarrow> jsonl \<Rightarrow> study_store \<Rightarrow> (study_error, study_store) result" where
  "importJSONLFile decode f s = (case f of
     Lines ls \<Rightarrow> bind_res (LoadJSONL decode ls) (\<lambda>xs. Inr (foldl keep_study s xs))
   | _ \<Rightarrow> Inr s)"

definition loadFromSQL :: "study list \<Rightarrow> study_store" where
  "loadFromSQL rows = foldl keep_study empty_studies
     (sort_stable (\<lambda>a b. text_less (st_Key a) (st_Key b)) rows)"

text \<open>\<open>INSERT OR REPLACE INTO studies\<close>.\<close>

definition study_row :: "study \<Rightarrow> study" where
  "study_row x =
     (let x = (if st_Visibility x = '''' then x\<lparr>st_Visibility := ''private''\<rparr> else x)
      in if st_Tier x = '''' then x\<lparr>st_Tier := ''free''\<rparr> else x)"

definition write_study :: "study \<Rightarrow> study list \<Rightarrow> study list" where
  "write_study x rows = filter (\<lambda>r. st_Key r \<noteq> st_Key x) rows @ [study_row x]"

definition saveToSQL :: "study \<Rightarrow> study list option \<Rightarrow> study list option" where
  "saveToSQL x db = map_option (write_study x) db"

definition OpenStore :: "(string \<Rightarrow> study option) \<Rightarrow> jsonl \<Rightarrow> (study_error, study_store) result" where
  "OpenStore decode f = importJSONLFile decode f empty_studies"

definition OpenStoreWithDB ::
    "(string \<Rightarrow> study option) \<Rightarrow> jsonl \<Rightarrow> study list \<Rightarrow> (study_error, study_store \<times> study list) result" where
  "OpenStoreWithDB decode f rows =
     (let s = loadFromSQL rows
      in if ss_all s = [] \<and> f \<noteq> NoPath
         then bind_res (importJSONLFile decode f empty_studies) (\<lambda>s.
                Inr (s, foldl (\<lambda>rows x. write_study x rows) rows (ss_all s)))
         else Inr (s, rows))"

definition Get :: "string \<Rightarrow> study_store \<Rightarrow> study option" where
  "Get k s = ss_byKey s k"

fun replace_first :: "study \<Rightarrow> study list \<Rightarrow> study list" where
  "replace_first x [] = []"
| "replace_first x (y # ys) = (if st_Key y = st_Key x then x # ys else y # replace_first x ys)"

definition put_study :: "study \<Rightarrow> study_store \<Rightarrow> study_store" where
  "put_study x s =
     \<lparr>ss_all = (if ss_byKey s (st_Key x) \<noteq> None then replace_first x (ss_all s) else ss_all s @ [x]),
      ss_byKey = (ss_byKey s)(st_Key x \<mapsto> x)\<rparr>"

definition Upsert :: "study \<Rightarrow> study_state \<Rightarrow> study_error option \<times> study_state" where
  "Upsert x st = (case st of (s, db) \<Rightarrow>
     let x = x\<lparr>st_Key := trim_space (st_Key x)\<rparr> in
     if st_Key x = '''' then (Some KeyRequired, st)
     else if trim_space (st_Where x) = '''' then (Some WhereRequired, st)
     else let x = study_defaults x in (None, (put_study x s, saveToSQL x db)))"

definition Delete :: "string \<Rightarrow> study_state \<Rightarrow> study_error option \<times> study_state" where
  "Delete k st = (case st of (s, db) \<Rightarrow>
     if ss_byKey s k = None then (Some (StudyNotFound k), st)
     else (None, (\<lparr>ss_all = filter (\<lambda>x. st_Key x \<noteq> k) (ss_all s), ss_byKey = (ss_byKey s)(k := None)\<rparr>,
             map_option (filter (\<lambda>r. st_Key r \<noteq> k)) db)))"

definition ImportJSONL ::
    "(string \<Rightarrow> study option) \<Rightarrow> jsonl \<Rightarrow> study_store \<Rightarrow> (study_error, study_store) result" where
  "ImportJSONL decode f s = importJSONLFile decode f s"

definition ImportJSON :: "study list \<Rightarrow> study_state \<Rightarrow> nat \<times> study_state" where
  "ImportJSON xs st =
     foldl (\<lambda>(n, st) x. case Upsert x st of (None, st') \<Rightarrow> (n + 1, st') | (Some e, st') \<Rightarrow> (n, st'))
       (0, st) xs"

section \<open>Who may run a study\<close>

lemma foldl_collect: "foldl (\<lambda>out s. if P s then out @ [s] else out) acc xs = acc @ filter P xs"
  by (induction xs arbitrary: acc) auto

text \<open>
  Which studies a user may run. In the order of the store, exactly the studies that
  the user owns, that any user may see (public, or shared with one of the user's
  groups, or of no known visibility and owned by the system) at a tier not above the
  user's, and all of them for an admin. Without a higher tier no study of that tier
  owned by others is ever listed.
\<close>

theorem accessible_exactly:
  "Accessible studies u =
     filter (\<lambda>s. IsAdmin u \<or> st_Owner s = u_ID u \<or>
        (visibleTo s u \<and> (st_Tier s = TierPro \<longrightarrow> u_Tier u = TierPro))) studies"
proof -
  have "Accessible studies u = foldl (\<lambda>out s. if IsAdmin u \<or> st_Owner s = u_ID u \<or>
      (visibleTo s u \<and> Rank (st_Tier s) \<le> Rank (u_Tier u)) then out @ [s] else out) [] studies"
    unfolding Accessible_def by (rule arg_cong [where f = "\<lambda>f. foldl f [] studies"]) (auto simp: fun_eq_iff)
  then show ?thesis
    unfolding foldl_collect by (auto simp: Rank_def TierPro_def intro!: filter_cong)
qed

definition plain_study :: study where
  "plain_study = \<lparr>st_Owner = ''bob'', st_Visibility = VisPublic, st_Group = '''', st_Tier = TierPro,
     st_Key = ''k'', st_Title = '''', st_Emoji = '''', st_Where = ''close > 5'', st_OrderBy = '''', st_Limit = 10\<rparr>"

theorem accessible_exactly_witness:
  "Accessible [plain_study, plain_study\<lparr>st_Tier := TierFree\<rparr>, plain_study\<lparr>st_Owner := ''ann''\<rparr>] ann =
     [plain_study\<lparr>st_Tier := TierFree\<rparr>, plain_study\<lparr>st_Owner := ''ann''\<rparr>]"
  unfolding accessible_exactly
  by (simp add: plain_study_def ann_def IsAdmin_def RoleAdmin_def visibleTo_def TierPro_def TierFree_def)

section \<open>Memory follows the contract\<close>

definition del_study :: "string \<Rightarrow> study_store \<Rightarrow> study_store" where
  "del_study k s = fst (snd (Delete k (s, None)))"

lemma replace_first_key:
  "distinct (map st_Key xs) \<Longrightarrow> replace_first x xs = replace_key st_Key x xs"
proof (induction xs)
  case (Cons y ys)
  have "map (\<lambda>z. if st_Key z = st_Key x then x else z) ys = ys" if "st_Key y = st_Key x"
    using Cons.prems that by (intro map_idI) (force simp: image_iff)
  with Cons show ?case by (auto simp: replace_key_def)
qed (simp add: replace_key_def)

lemma del_study_eq:
  assumes s: "in_step st_Key (ss_all s) (ss_byKey s)"
  shows "del_study k s = \<lparr>ss_all = filter (\<lambda>x. st_Key x \<noteq> k) (ss_all s), ss_byKey = (ss_byKey s)(k := None)\<rparr>"
proof (cases "ss_byKey s k")
  case None
  then have "filter (\<lambda>x. st_Key x \<noteq> k) (ss_all s) = ss_all s"
    using in_step_None [OF s] by (intro filter_True) auto
  moreover have "(ss_byKey s)(k := None) = ss_byKey s" using None by (rule fun_upd_idem)
  moreover have "del_study k s = s" using None by (simp add: del_study_def Delete_def)
  ultimately show ?thesis by (simp only:) simp
qed (simp add: del_study_def Delete_def)

interpretation studies: keyed_store st_Key ss_all ss_byKey put_study del_study
proof unfold_locales
  fix s :: study_store and x :: study and k
  assume s: "in_step st_Key (ss_all s) (ss_byKey s)"
  have ids: "st_Key x \<in> st_Key ` set (ss_all s) \<longleftrightarrow> ss_byKey s (st_Key x) \<noteq> None"
    using in_step_None [OF s, of "st_Key x"] by simp
  have dist: "distinct (map st_Key (ss_all s))" using s by (simp add: in_step_def)
  show "in_step st_Key (ss_all (put_study x s)) (ss_byKey (put_study x s))"
  proof (cases "ss_byKey s (st_Key x) = None")
    case True
    then show ?thesis using in_step_append [OF s, of x] ids by (simp add: put_study_def)
  next
    case False
    then show ?thesis
      using in_step_replace [OF s, of x] ids unfolding put_study_def replace_first_key [OF dist] by simp
  qed
  show "ss_byKey (put_study x s) = (ss_byKey s)(st_Key x \<mapsto> x)" by (simp add: put_study_def)
  show "in_step st_Key (ss_all (del_study k s)) (ss_byKey (del_study k s))"
    using in_step_remove [OF s, of k] by (simp add: del_study_eq [OF s])
  show "ss_byKey (del_study k s) = (ss_byKey s)(k := None)" by (simp add: del_study_eq [OF s])
qed

end
