(* ===== verification/Snapshot.thy ===== *)
theory Snapshot
  imports Screen_Row Prelude
begin

text \<open>
  \<open>internal/snapshot/snapshot.go\<close>: the table of snapshot rows and the methods that
  load, list, select and clean up its dates. The table is its number of columns and
  its rows; a row holds one SQL value per column of \<open>createTableSQL\<close>. As the comment
  of \<open>ensureTable\<close> says, a table of another layout is recognised by its number of
  columns. Dates are Unix seconds; the clock is the argument \<open>now\<close>.
\<close>

section \<open>The table\<close>

datatype sql_type = INTEGER | REAL | TEXT

datatype sqlval = Null | Integer int | Real float64 | Text string

definition createTableColumns :: "(string \<times> sql_type) list" where
  "createTableColumns =
     [(''snapshot_date'', INTEGER), (''symbol'', TEXT), (''timestamp'', INTEGER),
      (''close'', REAL), (''high'', REAL), (''low'', REAL), (''open'', REAL),
      (''sma5'', REAL), (''sma10'', REAL), (''sma20'', REAL), (''sma30'', REAL),
      (''sma50'', REAL), (''sma100'', REAL), (''sma200'', REAL), (''ema10'', REAL),
      (''ema21'', REAL), (''ema50'', REAL), (''ema100'', REAL), (''ema200'', REAL),
      (''pct_from_sma50'', REAL), (''pct_from_sma200'', REAL), (''ma_stack'', INTEGER),
      (''rsi14'', REAL), (''macd'', REAL), (''macd_signal'', REAL), (''macd_hist'', REAL),
      (''stoch_k'', REAL), (''stoch_d'', REAL), (''willr14'', REAL), (''cci20'', REAL),
      (''roc10'', REAL), (''roc20'', REAL), (''adx14'', REAL), (''di_plus'', REAL),
      (''di_minus'', REAL), (''atr14'', REAL), (''atr_pct'', REAL), (''bb_upper'', REAL),
      (''bb_mid'', REAL), (''bb_lower'', REAL), (''bb_bandwidth'', REAL),
      (''bb_pct_b'', REAL), (''hist_vol20'', REAL), (''high_52w'', REAL),
      (''low_52w'', REAL), (''is_52w_high'', INTEGER), (''is_52w_low'', INTEGER),
      (''gap_pct'', REAL), (''true_range'', REAL), (''pct_off_52w_high'', REAL),
      (''pct_above_52w_low'', REAL), (''ret_1d'', REAL), (''ret_5d'', REAL),
      (''ret_1m'', REAL), (''ret_3m'', REAL), (''ret_6m'', REAL), (''ret_1y'', REAL),
      (''dollar_vol'', REAL), (''avg_dollar_vol20'', REAL), (''rel_volume'', REAL),
      (''obv'', REAL), (''vwap_dist'', REAL), (''mfi14'', REAL),
      (''golden_cross'', INTEGER), (''oversold_bounce'', INTEGER), (''psar'', REAL),
      (''aroon_up'', REAL), (''aroon_down'', REAL), (''aroon_osc'', REAL),
      (''keltner_upper'', REAL), (''keltner_mid'', REAL), (''keltner_lower'', REAL),
      (''cmf20'', REAL), (''ultimate_osc'', REAL)]"

definition columns :: "string list" where
  "columns =
     [''snapshot_date'', ''symbol'', ''timestamp'', ''close'', ''high'', ''low'', ''open'',
      ''sma5'', ''sma10'', ''sma20'', ''sma30'', ''sma50'', ''sma100'', ''sma200'',
      ''ema10'', ''ema21'', ''ema50'', ''ema100'', ''ema200'', ''pct_from_sma50'',
      ''pct_from_sma200'', ''ma_stack'', ''rsi14'', ''macd'', ''macd_signal'',
      ''macd_hist'', ''stoch_k'', ''stoch_d'', ''willr14'', ''cci20'', ''roc10'',
      ''roc20'', ''adx14'', ''di_plus'', ''di_minus'', ''atr14'', ''atr_pct'',
      ''bb_upper'', ''bb_mid'', ''bb_lower'', ''bb_bandwidth'', ''bb_pct_b'',
      ''hist_vol20'', ''high_52w'', ''low_52w'', ''is_52w_high'', ''is_52w_low'',
      ''gap_pct'', ''true_range'', ''pct_off_52w_high'', ''pct_above_52w_low'', ''ret_1d'',
      ''ret_5d'', ''ret_1m'', ''ret_3m'', ''ret_6m'', ''ret_1y'', ''dollar_vol'',
      ''avg_dollar_vol20'', ''rel_volume'', ''obv'', ''vwap_dist'', ''mfi14'',
      ''golden_cross'', ''oversold_bounce'', ''psar'', ''aroon_up'', ''aroon_down'',
      ''aroon_osc'', ''keltner_upper'', ''keltner_mid'', ''keltner_lower'', ''cmf20'',
      ''ultimate_osc'']"

definition nz :: "float64 \<Rightarrow> sqlval" where
  "nz v = (if isnan v then Null else Real v)"

definition boolToInt :: "bool \<Rightarrow> sqlval" where
  "boolToInt b = (if b then Integer 1 else Integer 0)"

text \<open>The values of one insert, in the order of \<open>columns\<close>; the four statements of the file agree on it.\<close>

definition insert_values :: "int \<Rightarrow> int \<Rightarrow> snapshot_row \<Rightarrow> sqlval list" where
  "insert_values snapshotDate barTs r =
     [Integer snapshotDate, Text (r_Symbol r), Integer barTs, nz (r_Close r), nz (r_High r),
      nz (r_Low r), nz (r_Open r), nz (r_SMA5 r), nz (r_SMA10 r), nz (r_SMA20 r),
      nz (r_SMA30 r), nz (r_SMA50 r), nz (r_SMA100 r), nz (r_SMA200 r), nz (r_EMA10 r),
      nz (r_EMA21 r), nz (r_EMA50 r), nz (r_EMA100 r), nz (r_EMA200 r),
      nz (r_PctFromSMA50 r), nz (r_PctFromSMA200 r), boolToInt (r_MAStack r),
      nz (r_RSI14 r), nz (r_MACD r), nz (r_MACDSignal r), nz (r_MACDHist r),
      nz (r_StochK r), nz (r_StochD r), nz (r_WilliamsR r), nz (r_CCI20 r), nz (r_ROC10 r),
      nz (r_ROC20 r), nz (r_ADX14 r), nz (r_DIPlus r), nz (r_DIMinus r), nz (r_ATR14 r),
      nz (r_ATRPct r), nz (r_BBUpper r), nz (r_BBMiddle r), nz (r_BBLower r),
      nz (r_BBWidth r), nz (r_BBPctB r), nz (r_HistVol20 r), nz (r_High52w r),
      nz (r_Low52w r), boolToInt (r_Is52wHigh r), boolToInt (r_Is52wLow r),
      nz (r_GapPct r), nz (r_TrueRange r), nz (r_PctOff52wHigh r), nz (r_PctAbove52wLow r),
      nz (r_Ret1d r), nz (r_Ret5d r), nz (r_Ret1m r), nz (r_Ret3m r), nz (r_Ret6m r),
      nz (r_Ret1y r), nz (r_DollarVol r), nz (r_AvgDollarVol20 r), nz (r_RelVolume r),
      nz (r_OBV r), nz (r_VWAPDist r), nz (r_MFI14 r), boolToInt (r_IsGoldenCross r),
      boolToInt (r_IsOversoldBounce r), nz (r_PSAR r), nz (r_AroonUp r),
      nz (r_AroonDown r), nz (r_AroonOsc r), nz (r_KeltnerUpper r), nz (r_KeltnerMid r),
      nz (r_KeltnerLower r), nz (r_CMF20 r), nz (r_UltimateOsc r)]"

record snap_table =
  tb_width :: nat
  tb_rows :: "sqlval list list"

record snap_db =
  sd_table :: "snap_table option"
  sd_snapshotID :: string
  sd_symbolCount :: nat
  sd_snapshotDate :: int
  sd_activeDate :: int

record snapshot_batch =
  sb_Rows :: "snapshot_row list"
  sb_BarTs :: int
  sb_SnapshotDate :: int

record metadata =
  md_SnapshotID :: string
  md_SymbolCount :: nat
  md_SnapshotDate :: int

datatype snap_error = NoTable | UniqueFailed | DateNotFound int | NoRows | NullScan

text \<open>The value of a row in a named column.\<close>

definition cell :: "string \<Rightarrow> sqlval list \<Rightarrow> sqlval" where
  "cell c r = (case map_of (zip (map fst createTableColumns) r) c of None \<Rightarrow> Null | Some v \<Rightarrow> v)"

text \<open>\<open>INSERT INTO snapshot(columns) VALUES(...)\<close> puts every value under its name.\<close>

definition stored_row :: "sqlval list \<Rightarrow> sqlval list" where
  "stored_row vals =
     map (\<lambda>(c, ty). case map_of (zip columns vals) c of None \<Rightarrow> Null | Some v \<Rightarrow> v) createTableColumns"

definition row_key :: "sqlval list \<Rightarrow> sqlval \<times> sqlval" where
  "row_key r = (cell ''snapshot_date'' r, cell ''symbol'' r)"

definition make_row :: "int \<Rightarrow> int \<Rightarrow> snapshot_row \<Rightarrow> sqlval list" where
  "make_row date ts r = stored_row (insert_values date ts r)"

text \<open>\<open>INSERT\<close> stops at the first duplicate key, \<open>INSERT OR IGNORE\<close> leaves it out.\<close>

fun insert_rows :: "sqlval list list \<Rightarrow> sqlval list list \<Rightarrow> (snap_error, sqlval list list) result" where
  "insert_rows [] t = Inr t"
| "insert_rows (r # rs) t =
     (if list_ex (\<lambda>x. row_key x = row_key r) t then Inl UniqueFailed else insert_rows rs (t @ [r]))"

definition ignore_row :: "sqlval list list \<Rightarrow> sqlval list \<Rightarrow> sqlval list list" where
  "ignore_row t r = (if list_ex (\<lambda>x. row_key x = row_key r) t then t else t @ [r])"

definition insert_or_ignore :: "sqlval list list \<Rightarrow> sqlval list list \<Rightarrow> sqlval list list" where
  "insert_or_ignore rs t = foldl ignore_row t rs"

definition on_date :: "int \<Rightarrow> sqlval list \<Rightarrow> bool" where
  "on_date d r \<longleftrightarrow> cell ''snapshot_date'' r = Integer d"

section \<open>Loading\<close>

definition ensureTable :: "snap_db \<Rightarrow> snap_db" where
  "ensureTable s =
     (let count = (case sd_table s of None \<Rightarrow> 0 | Some t \<Rightarrow> tb_width t);
          kept = (if 0 < count \<and> count \<noteq> length columns then None else sd_table s)
      in s\<lparr>sd_table := (case kept of
             None \<Rightarrow> Some \<lparr>tb_width = length createTableColumns, tb_rows = []\<rparr> | Some t \<Rightarrow> Some t)\<rparr>)"

definition fresh_db :: "snap_table option \<Rightarrow> snap_db" where
  "fresh_db t = \<lparr>sd_table = t, sd_snapshotID = '''', sd_symbolCount = 0, sd_snapshotDate = 0, sd_activeDate = 0\<rparr>"

definition Open :: "snap_table option \<Rightarrow> snap_db" where
  "Open t = ensureTable (fresh_db t)"

definition rows_of :: "snap_db \<Rightarrow> sqlval list list" where
  "rows_of s = (case sd_table s of None \<Rightarrow> [] | Some t \<Rightarrow> tb_rows t)"

definition set_rows :: "sqlval list list \<Rightarrow> snap_db \<Rightarrow> snap_db" where
  "set_rows rs s = s\<lparr>sd_table := map_option (\<lambda>t. t\<lparr>tb_rows := rs\<rparr>) (sd_table s)\<rparr>"

definition loaded :: "int \<Rightarrow> nat \<Rightarrow> snap_db \<Rightarrow> snap_db" where
  "loaded date n s = s\<lparr>sd_snapshotDate := date, sd_activeDate := date, sd_symbolCount := n,
     sd_snapshotID := show_int date\<rparr>"

text \<open>
  The deletion is a statement of its own, before the transaction of the inserts: a
  failed insert rolls back the inserts only.
\<close>

definition LoadHistory :: "snapshot_row list \<Rightarrow> int \<Rightarrow> int \<Rightarrow> snap_db \<Rightarrow> snap_error option \<times> snap_db" where
  "LoadHistory rows barTs snapshotDate s =
     (let s = ensureTable s;
          kept = filter (\<lambda>r. \<not> on_date snapshotDate r) (rows_of s)
      in case insert_rows (map (make_row snapshotDate barTs) rows) kept of
           Inl e \<Rightarrow> (Some e, set_rows kept s)
         | Inr t \<Rightarrow> (None, loaded snapshotDate (length rows) (set_rows t s)))"

definition Load :: "snapshot_row list \<Rightarrow> int \<Rightarrow> snap_db \<Rightarrow> snap_error option \<times> snap_db" where
  "Load rows ts s =
     (let s = ensureTable s;
          kept = filter (\<lambda>r. \<not> on_date ts r) (rows_of s)
      in case insert_rows (map (make_row ts ts) rows) kept of
           Inl e \<Rightarrow> (Some e, set_rows kept s)
         | Inr t \<Rightarrow> (None, loaded ts (length rows) (set_rows t s)))"

definition LoadHistoryInsert :: "snapshot_row list \<Rightarrow> int \<Rightarrow> int \<Rightarrow> snap_db \<Rightarrow> snap_db" where
  "LoadHistoryInsert rows barTs snapshotDate s =
     (let s = ensureTable s
      in loaded snapshotDate (length rows)
           (set_rows (insert_or_ignore (map (make_row snapshotDate barTs) rows) (rows_of s)) s))"

definition batch_rows :: "snapshot_batch \<Rightarrow> sqlval list list" where
  "batch_rows b = map (make_row (sb_SnapshotDate b) (sb_BarTs b)) (sb_Rows b)"

definition LoadHistoryBatch :: "snapshot_batch list \<Rightarrow> snap_db \<Rightarrow> snap_db" where
  "LoadHistoryBatch snapshots s =
     (if snapshots = [] then s
      else let s = ensureTable s;
               t = foldl (\<lambda>t b. insert_or_ignore (batch_rows b) t) (rows_of s) snapshots;
               b = last snapshots
           in loaded (sb_SnapshotDate b) (length (sb_Rows b)) (set_rows t s))"

section \<open>Selecting, listing and cleaning up\<close>

definition count_date :: "int \<Rightarrow> sqlval list list \<Rightarrow> nat" where
  "count_date d rs = length (filter (on_date d) rs)"

definition HasSnapshot :: "int \<Rightarrow> snap_db \<Rightarrow> (snap_error, bool) result" where
  "HasSnapshot d s = (case sd_table s of None \<Rightarrow> Inl NoTable | Some t \<Rightarrow> Inr (0 < count_date d (tb_rows t)))"

fun int_of :: "sqlval \<Rightarrow> int option" where
  "int_of (Integer i) = Some i"
| "int_of _ = None"

definition dates_of :: "sqlval list list \<Rightarrow> int list" where
  "dates_of rs = List.map_filter (\<lambda>r. int_of (cell ''snapshot_date'' r)) rs"

definition ListSnapshots :: "snap_db \<Rightarrow> (snap_error, int list) result" where
  "ListSnapshots s = (case sd_table s of None \<Rightarrow> Inl NoTable
     | Some t \<Rightarrow> Inr (rev (sort (remdups (dates_of (tb_rows t))))))"

definition SetActive :: "int \<Rightarrow> snap_db \<Rightarrow> snap_error option \<times> snap_db" where
  "SetActive d s = (case sd_table s of None \<Rightarrow> (Some NoTable, s)
     | Some t \<Rightarrow> if count_date d (tb_rows t) = 0 then (Some (DateNotFound d), s)
                 else (None, s\<lparr>sd_activeDate := d\<rparr>))"

definition Cleanup :: "int \<Rightarrow> int \<Rightarrow> snap_db \<Rightarrow> (snap_error, nat) result \<times> snap_db" where
  "Cleanup now keepDays s =
     (if keepDays \<le> 0 then (Inr 0, s)
      else case sd_table s of None \<Rightarrow> (Inl NoTable, s)
        | Some t \<Rightarrow>
            let before = length (remdups (dates_of (tb_rows t)));
                cutoff = now - 86400 * keepDays;
                kept = filter (\<lambda>r. case int_of (cell ''snapshot_date'' r) of
                                     None \<Rightarrow> True | Some d \<Rightarrow> \<not> d < cutoff) (tb_rows t);
                after = length (remdups (dates_of kept))
            in (Inr (before - after), set_rows kept s))"

definition Metadata :: "snap_db \<Rightarrow> metadata" where
  "Metadata s = \<lparr>md_SnapshotID = sd_snapshotID s, md_SymbolCount = sd_symbolCount s,
     md_SnapshotDate = sd_snapshotDate s\<rparr>"

definition SymbolClose :: "string \<Rightarrow> int \<Rightarrow> snap_db \<Rightarrow> (snap_error, float64) result" where
  "SymbolClose symbol date s = (case sd_table s of None \<Rightarrow> Inl NoTable
     | Some t \<Rightarrow> (case find (\<lambda>r. row_key r = (Integer date, Text symbol)) (tb_rows t) of
          None \<Rightarrow> Inl NoRows
        | Some r \<Rightarrow> (case cell ''close'' r of Real v \<Rightarrow> Inr v | _ \<Rightarrow> Inl NoRows)))"

text \<open>\<open>MIN\<close> over no rows is one row holding NULL, which \<open>Scan\<close> cannot store in an \<open>int64\<close>.\<close>

definition NearestDate :: "int \<Rightarrow> snap_db \<Rightarrow> (snap_error, int) result" where
  "NearestDate from_date s = (case sd_table s of None \<Rightarrow> Inl NoTable
     | Some t \<Rightarrow> (case filter (\<lambda>d. from_date \<le> d) (dates_of (tb_rows t)) of
          [] \<Rightarrow> Inl NullScan
        | d # ds \<Rightarrow> Inr (foldl min d ds)))"

section \<open>The columns\<close>

text \<open>The exported fields of \<open>screen.SnapshotRow\<close> under their JSON names, in the order of the struct.\<close>

definition tagged :: "snapshot_row \<Rightarrow> (string \<times> sqlval) list" where
  "tagged r =
    [(''symbol'', Text (r_Symbol r)), (''close'', nz (r_Close r)),
     (''high'', nz (r_High r)), (''low'', nz (r_Low r)), (''open'', nz (r_Open r)),
     (''sma5'', nz (r_SMA5 r)), (''sma10'', nz (r_SMA10 r)), (''sma20'', nz (r_SMA20 r)),
     (''sma30'', nz (r_SMA30 r)), (''sma50'', nz (r_SMA50 r)),
     (''sma100'', nz (r_SMA100 r)), (''sma200'', nz (r_SMA200 r)),
     (''ema10'', nz (r_EMA10 r)), (''ema21'', nz (r_EMA21 r)),
     (''ema50'', nz (r_EMA50 r)), (''ema100'', nz (r_EMA100 r)),
     (''ema200'', nz (r_EMA200 r)), (''pct_from_sma50'', nz (r_PctFromSMA50 r)),
     (''pct_from_sma200'', nz (r_PctFromSMA200 r)),
     (''ma_stack'', boolToInt (r_MAStack r)), (''rsi14'', nz (r_RSI14 r)),
     (''macd'', nz (r_MACD r)), (''macd_signal'', nz (r_MACDSignal r)),
     (''macd_hist'', nz (r_MACDHist r)), (''stoch_k'', nz (r_StochK r)),
     (''stoch_d'', nz (r_StochD r)), (''willr14'', nz (r_WilliamsR r)),
     (''cci20'', nz (r_CCI20 r)), (''roc10'', nz (r_ROC10 r)),
     (''roc20'', nz (r_ROC20 r)), (''adx14'', nz (r_ADX14 r)),
     (''di_plus'', nz (r_DIPlus r)), (''di_minus'', nz (r_DIMinus r)),
     (''atr14'', nz (r_ATR14 r)), (''atr_pct'', nz (r_ATRPct r)),
     (''bb_upper'', nz (r_BBUpper r)), (''bb_mid'', nz (r_BBMiddle r)),
     (''bb_lower'', nz (r_BBLower r)), (''bb_bandwidth'', nz (r_BBWidth r)),
     (''bb_pct_b'', nz (r_BBPctB r)), (''hist_vol20'', nz (r_HistVol20 r)),
     (''high_52w'', nz (r_High52w r)), (''low_52w'', nz (r_Low52w r)),
     (''is_52w_high'', boolToInt (r_Is52wHigh r)),
     (''is_52w_low'', boolToInt (r_Is52wLow r)), (''gap_pct'', nz (r_GapPct r)),
     (''true_range'', nz (r_TrueRange r)), (''pct_off_52w_high'', nz (r_PctOff52wHigh r)),
     (''pct_above_52w_low'', nz (r_PctAbove52wLow r)), (''ret_1d'', nz (r_Ret1d r)),
     (''ret_5d'', nz (r_Ret5d r)), (''ret_1m'', nz (r_Ret1m r)),
     (''ret_3m'', nz (r_Ret3m r)), (''ret_6m'', nz (r_Ret6m r)),
     (''ret_1y'', nz (r_Ret1y r)), (''dollar_vol'', nz (r_DollarVol r)),
     (''avg_dollar_vol20'', nz (r_AvgDollarVol20 r)),
     (''rel_volume'', nz (r_RelVolume r)), (''obv'', nz (r_OBV r)),
     (''vwap_dist'', nz (r_VWAPDist r)), (''mfi14'', nz (r_MFI14 r)),
     (''golden_cross'', boolToInt (r_IsGoldenCross r)),
     (''oversold_bounce'', boolToInt (r_IsOversoldBounce r)), (''psar'', nz (r_PSAR r)),
     (''aroon_up'', nz (r_AroonUp r)), (''aroon_down'', nz (r_AroonDown r)),
     (''aroon_osc'', nz (r_AroonOsc r)), (''keltner_upper'', nz (r_KeltnerUpper r)),
     (''keltner_mid'', nz (r_KeltnerMid r)), (''keltner_lower'', nz (r_KeltnerLower r)),
     (''cmf20'', nz (r_CMF20 r)), (''ultimate_osc'', nz (r_UltimateOsc r))]"

fun fits :: "sql_type \<Rightarrow> sqlval \<Rightarrow> bool" where
  "fits ty Null = True"
| "fits ty (Integer i) = (ty = INTEGER)"
| "fits ty (Real v) = (ty = REAL \<and> v \<noteq> NaN)"
| "fits ty (Text t) = (ty = TEXT)"

lemma columns_distinct: "distinct columns"
  by code_simp

lemma columns_created: "map fst createTableColumns = columns"
  by code_simp

lemma map_of_zip_all:
  "distinct ks \<Longrightarrow> length ks = length vs \<Longrightarrow> map (\<lambda>k. map_of (zip ks vs) k) ks = map Some vs"
  by (rule nth_equalityI) (simp_all add: map_of_zip_nth)

lemma length_values: "length (insert_values d b r) = length columns"
  by (simp add: insert_values_def columns_def)

lemma stored_row_id:
  assumes "length vals = length columns"
  shows "stored_row vals = vals"
proof -
  have "stored_row vals =
      map (\<lambda>c. case map_of (zip columns vals) c of None \<Rightarrow> Null | Some v \<Rightarrow> v) (map fst createTableColumns)"
    by (simp add: stored_row_def case_prod_beta o_def)
  also have "\<dots> = map (\<lambda>x. case x of None \<Rightarrow> Null | Some v \<Rightarrow> v) (map (map_of (zip columns vals)) columns)"
    by (simp add: columns_created o_def)
  also have "map (map_of (zip columns vals)) columns = map Some vals"
    using map_of_zip_all [OF columns_distinct, of vals] assms by simp
  finally show ?thesis by (simp add: o_def)
qed

lemma make_row_values: "make_row d b r = insert_values d b r"
  by (simp add: make_row_def stored_row_id length_values)

lemma cells_of_row:
  assumes "length r = length columns"
  shows "map (\<lambda>c. cell c r) columns = r"
proof -
  have "map (\<lambda>c. cell c r) columns =
      map (\<lambda>x. case x of None \<Rightarrow> Null | Some v \<Rightarrow> v) (map (map_of (zip columns r)) columns)"
    by (simp add: cell_def columns_created)
  also have "map (map_of (zip columns r)) columns = map Some r"
    using map_of_zip_all [OF columns_distinct, of r] assms by simp
  finally show ?thesis by (simp add: o_def)
qed

lemma cell_values: "map (\<lambda>c. cell c (make_row d b r)) columns = insert_values d b r"
  unfolding make_row_values by (rule cells_of_row) (rule length_values)

lemma cell_nth:
  assumes "length r = length columns" "i < length columns"
  shows "cell (columns ! i) r = r ! i"
  using arg_cong [OF cells_of_row [OF assms(1)], of "\<lambda>xs. xs ! i"] assms(2) by simp

lemma key_cells:
  assumes "length r = length columns"
  shows "cell ''snapshot_date'' r = r ! 0" "cell ''symbol'' r = r ! 1" "cell ''timestamp'' r = r ! 2"
    "cell ''close'' r = r ! 3"
  using cell_nth [OF assms, of 0] cell_nth [OF assms, of 1] cell_nth [OF assms, of 2]
    cell_nth [OF assms, of 3]
  by (simp_all add: columns_def)

lemma length_make_row [simp]: "length (make_row d b r) = length columns"
  by (simp add: make_row_values length_values)

lemma make_row_cells [simp]:
  "cell ''snapshot_date'' (make_row d b r) = Integer d"
  "cell ''symbol'' (make_row d b r) = Text (r_Symbol r)"
  "cell ''timestamp'' (make_row d b r) = Integer b"
  "cell ''close'' (make_row d b r) = nz (r_Close r)"
  by (simp_all add: key_cells) (simp_all add: make_row_values insert_values_def)

lemma make_row_key [simp]: "row_key (make_row d b r) = (Integer d, Text (r_Symbol r))"
  by (simp add: row_key_def)

lemma on_date_make_row [simp]: "on_date e (make_row d b r) \<longleftrightarrow> d = e"
  by (auto simp: on_date_def)

lemma tagged_columns: "map fst (tagged r) = ''symbol'' # drop 3 columns"
  by (simp add: tagged_def columns_def)

lemma tagged_values: "map snd (tagged r) = insert_values d b r ! 1 # drop 3 (insert_values d b r)"
  by (simp add: tagged_def insert_values_def)

lemma fits_nz [simp]: "fits ty (nz v) \<longleftrightarrow> isnan v \<or> ty = REAL"
  by (simp add: nz_def isnan_def)

lemma fits_boolToInt [simp]: "fits ty (boolToInt b) \<longleftrightarrow> ty = INTEGER"
  by (simp add: boolToInt_def)

lemma make_row_fits: "list_all2 fits (map snd createTableColumns) (make_row d b r)"
  by (simp add: make_row_values insert_values_def createTableColumns_def)

lemma zip_map_self: "zip xs (map f xs) = map (\<lambda>x. (x, f x)) xs"
  by (induction xs) auto

text \<open>
  No value lands in the wrong one of the 74 columns. Read back by column name, an
  inserted row is the date, the bar's timestamp and every field of the snapshot row
  under its JSON name, NaN as NULL and flags as 0 or 1, and every value has the type
  its column is declared with.
\<close>

theorem snapshot_columns_aligned:
  "map (\<lambda>c. (c, cell c (make_row d b r))) columns =
     (''snapshot_date'', Integer d) # hd (tagged r) # (''timestamp'', Integer b) # tl (tagged r) \<and>
   map fst createTableColumns = columns \<and>
   list_all2 fits (map snd createTableColumns) (make_row d b r)"
proof -
  have "map (\<lambda>c. (c, cell c (make_row d b r))) columns = zip columns (insert_values d b r)"
    by (simp only: cell_values [of d b r, symmetric] zip_map_self)
  also have "\<dots> = (''snapshot_date'', Integer d) # hd (tagged r) # (''timestamp'', Integer b) # tl (tagged r)"
    by (simp add: columns_def insert_values_def tagged_def)
  finally show ?thesis using columns_created make_row_fits by blast
qed

end
