(* ===== verification/Study_Run.thy ===== *)
theory Study_Run
  imports Study_Laws Study_Store Snapshot
begin

text \<open>
  \<open>DB.Run\<close> of \<open>internal/snapshot/snapshot.go\<close>: a study's clauses become the text of one
  query over the active date. SQLite is an argument: \<open>explain\<close> compiles a text against
  the table, \<open>query\<close> evaluates it. \<open>read_where\<close> is SQL's reading of a condition with
  AND binding tighter than OR, so that what the query selects can be stated.
\<close>

section \<open>Running a study\<close>

datatype 'e run_error = InvalidSQL string 'e | QueryFailed string 'e

type_synonym 'e explain = "string \<Rightarrow> int \<Rightarrow> snap_table option \<Rightarrow> 'e option"
type_synonym 'e query = "string \<Rightarrow> int \<Rightarrow> snap_table option \<Rightarrow>
  ('e, (string \<times> float64 option \<times> float64 option \<times> float64 option \<times> float64 option) list) result"

definition run_where :: "string \<Rightarrow> string" where
  "run_where clause = (let where = trim_space clause in if where = '''' then ''1=1'' else where)"

definition run_condition :: "string \<Rightarrow> string" where
  "run_condition clause = ''snapshot_date = ? AND ('' @ run_where clause @ '')''"

definition run_order :: "study \<Rightarrow> string" where
  "run_order s = (if st_OrderBy s \<noteq> '''' then '' ORDER BY '' @ st_OrderBy s else '''')"

definition run_limit :: "study \<Rightarrow> string" where
  "run_limit s = (if st_Limit s > 0 then '' LIMIT '' @ show_int (st_Limit s) else '''')"

definition run_test :: "study \<Rightarrow> string" where
  "run_test s = ''EXPLAIN SELECT 1 FROM snapshot WHERE '' @ run_condition (st_Where s) @ run_order s @
     (if st_Limit s > 0 then run_limit s else '' LIMIT 0'')"

definition run_query :: "study \<Rightarrow> string" where
  "run_query s = ''SELECT symbol, close, rsi14, ret_3m, dollar_vol FROM snapshot WHERE '' @
     run_condition (st_Where s) @ run_order s @ run_limit s"

text \<open>A NULL column reads as the zero of \<open>sql.NullFloat64\<close>.\<close>

definition null_float :: "float64 option \<Rightarrow> float64" where
  "null_float v = (case v of None \<Rightarrow> Zero False | Some x \<Rightarrow> x)"

definition match_of ::
    "string \<times> float64 option \<times> float64 option \<times> float64 option \<times> float64 option \<Rightarrow> match" where
  "match_of = (\<lambda>(sy, c, rs, rt, dv). \<lparr>m_Symbol = sy, m_Close = null_float c, m_RSI14 = null_float rs,
     m_Ret3m = null_float rt, m_DollarVol = null_float dv\<rparr>)"

definition Run :: "'e explain \<Rightarrow> 'e query \<Rightarrow> study \<Rightarrow> snap_db \<Rightarrow> ('e run_error, match list) result" where
  "Run explain query s d =
     (case explain (run_test s) (sd_activeDate d) (sd_table d) of
        Some e \<Rightarrow> Inl (InvalidSQL (st_Key s) e)
      | None \<Rightarrow> (case query (run_query s) (sd_activeDate d) (sd_table d) of
          Inl e \<Rightarrow> Inl (QueryFailed (st_Key s) e)
        | Inr rows \<Rightarrow> Inr (map match_of rows)))"

section \<open>SQL's reading of a condition\<close>

type_synonym reader = "string list \<Rightarrow> (sql_expr \<times> string list) option"

text \<open>A chain of operands joined by one connector, to the left; the number bounds its length.\<close>

primrec chain_tail :: "nat \<Rightarrow> string \<Rightarrow> reader \<Rightarrow> sql_expr \<Rightarrow> reader" where
  "chain_tail 0 c p l ts = None"
| "chain_tail (Suc n) c p l ts =
     (case ts of
        [] \<Rightarrow> Some (l, [])
      | t # ts1 \<Rightarrow> if t = c then (case p ts1 of None \<Rightarrow> None | Some (r, ts2) \<Rightarrow> chain_tail n c p (Conn l c r) ts2)
                  else Some (l, ts))"

definition chain :: "nat \<Rightarrow> string \<Rightarrow> reader \<Rightarrow> reader" where
  "chain n c p ts = (case p ts of None \<Rightarrow> None | Some (l, ts1) \<Rightarrow> chain_tail n c p l ts1)"

primrec read_prim :: "nat \<Rightarrow> reader" where
  "read_prim 0 ts = None"
| "read_prim (Suc n) ts =
     (case ts of
        [] \<Rightarrow> None
      | t # ts1 \<Rightarrow>
          if t = ''('' then (case chain n ''OR'' (chain n ''AND'' (read_prim n)) ts1 of
              Some (e, t2 # ts2) \<Rightarrow> if t2 = '')'' then Some (e, ts2) else None
            | _ \<Rightarrow> None)
          else (case ts1 of op # b # ts2 \<Rightarrow> Some (Cmp t op b, ts2) | _ \<Rightarrow> None))"

definition read_where :: "string \<Rightarrow> sql_expr option" where
  "read_where s =
     (let ts = lex [] s; n = length ts + 2
      in case chain n ''OR'' (chain n ''AND'' (read_prim n)) ts of Some (e, []) \<Rightarrow> Some e | _ \<Rightarrow> None)"

lemma chain_one:
  assumes "p ts = Some (e, us)" "us = [] \<or> hd us \<noteq> c"
  shows "chain (Suc n) c p ts = Some (e, us)"
  using assms by (cases us) (auto simp: chain_def)

lemma chain_two:
  assumes "p ts = Some (l, c # us)" "p us = Some (r, vs)" "vs = [] \<or> hd vs \<noteq> c"
  shows "chain (Suc (Suc n)) c p ts = Some (Conn l c r, vs)"
  using assms by (cases vs) (auto simp: chain_def)

lemma read_bracketed:
  "wf_expr e \<Longrightarrow> length (tokens e) \<le> n \<Longrightarrow> read_prim n (tokens e @ ts) = Some (e, ts)"
proof (induction e arbitrary: n ts)
  case (Cmp a op b)
  then show ?case by (cases n) (auto dest: atom_not_bracket)
next
  case (Conn l c r)
  define m where "m = n - 3"
  have n: "n = Suc (Suc (Suc m))" using Conn.prems by (simp add: m_def)
  let ?p = "read_prim (Suc (Suc m))"
  have l: "?p (tokens l @ us) = Some (l, us)" for us
    using Conn.IH(1) [of "Suc (Suc m)" us] Conn.prems n by simp
  have r: "?p (tokens r @ us) = Some (r, us)" for us
    using Conn.IH(2) [of "Suc (Suc m)" us] Conn.prems n by simp
  let ?rest = "tokens r @ '')'' # ts"
  have "chain (Suc (Suc m)) ''OR'' (chain (Suc (Suc m)) ''AND'' ?p) (tokens l @ c # ?rest) =
      Some (Conn l c r, '')'' # ts)"
  proof (cases "c = ''AND''")
    case True
    have "chain (Suc (Suc m)) ''AND'' ?p (tokens l @ c # ?rest) = Some (Conn l ''AND'' r, '')'' # ts)"
      unfolding True by (rule chain_two) (rule l, rule r, simp)
    then show ?thesis unfolding True by (rule chain_one) simp
  next
    case False
    then have c: "c = ''OR''" using Conn.prems by simp
    have "chain (Suc (Suc m)) ''AND'' ?p (tokens l @ c # ?rest) = Some (l, ''OR'' # ?rest)"
      unfolding c by (rule chain_one) (rule l, simp)
    moreover have "chain (Suc (Suc m)) ''AND'' ?p ?rest = Some (r, '')'' # ts)"
      by (rule chain_one) (rule r, simp)
    ultimately show ?thesis unfolding c by (rule chain_two) simp
  qed
  then show ?case by (simp add: n del: read_prim.simps(2)) simp
qed

lemma read_in_brackets:
  assumes "wf_expr e" "length (tokens e) + 2 \<le> n"
  shows "read_prim n (''('' # tokens e @ '')'' # ts) = Some (e, ts)"
proof -
  define m where "m = n - 2"
  have n: "n = Suc (Suc m)" using assms(2) by (simp add: m_def)
  have "read_prim (Suc m) (tokens e @ us) = Some (e, us)" for us
    using read_bracketed [of e "Suc m" us] assms n by simp
  then have "chain (Suc m) ''AND'' (read_prim (Suc m)) (tokens e @ '')'' # ts) = Some (e, '')'' # ts)"
    by (rule chain_one) simp
  then have "chain (Suc m) ''OR'' (chain (Suc m) ''AND'' (read_prim (Suc m))) (tokens e @ '')'' # ts) =
      Some (e, '')'' # ts)"
    by (rule chain_one) simp
  then show ?thesis by (simp add: n del: read_prim.simps(2)) simp
qed

lemma lex_condition:
  assumes "wf_expr e"
  shows "lex [] (''snapshot_date = ? AND ('' @ render e @ '')'') =
    [''snapshot_date'', ''='', ''?'', ''AND'', ''(''] @ tokens e @ [ '')'']"
  using lex_render [OF assms, of "'')''"] by (simp add: flush_def)

lemma read_condition:
  assumes "wf_expr e" "trim_space (render e) = render e" "render e \<noteq> []"
  shows "read_where (run_condition (render e)) =
    Some (Conn (Cmp ''snapshot_date'' ''='' ''?'') ''AND'' e)"
proof -
  let ?ts = "[''snapshot_date'', ''='', ''?'', ''AND'', ''(''] @ tokens e @ [ '')'']"
  have lx: "lex [] (run_condition (render e)) = ?ts"
    unfolding run_condition_def run_where_def assms(2) Let_def using assms lex_condition by simp
  define m where "m = length (tokens e) + 6"
  have fuel: "length ?ts + 2 = Suc (Suc m)" by (simp add: m_def)
  let ?p = "read_prim (Suc (Suc m))"
  have 1: "?p ?ts = Some (Cmp ''snapshot_date'' ''='' ''?'', ''AND'' # ''('' # tokens e @ [ '')''])"
    by simp
  have 2: "?p (''('' # tokens e @ [ '')'']) = Some (e, [])"
    by (rule read_in_brackets) (use assms(1) m_def in simp_all)
  have "chain (Suc (Suc m)) ''AND'' ?p ?ts = Some (Conn (Cmp ''snapshot_date'' ''='' ''?'') ''AND'' e, [])"
    by (rule chain_two [OF 1 2]) simp
  then have "chain (Suc (Suc m)) ''OR'' (chain (Suc (Suc m)) ''AND'' ?p) ?ts =
      Some (Conn (Cmp ''snapshot_date'' ''='' ''?'') ''AND'' e, [])"
    by (rule chain_one) simp
  then show ?thesis unfolding read_where_def lx Let_def fuel by simp
qed


section \<open>What a compiled study selects\<close>

text \<open>Text that begins and ends with no byte of a white space rune is left alone by \<open>TrimSpace\<close>.\<close>

definition edge_ok :: "string \<Rightarrow> bool" where
  "edge_ok s \<longleftrightarrow> s \<noteq> [] \<and> hd s \<notin> set (map hd space_runes) \<and> last s \<notin> set (map last space_runes)"

lemma strip_front_id:
  assumes "s \<noteq> []" "hd s \<notin> hd ` set rs"
  shows "strip_front rs s = s"
proof -
  have "\<not> has_prefix s r" if "r \<in> set rs" "r \<noteq> []" for r
    using assms that by (cases s; cases r) (auto simp: has_prefix_iff image_iff)
  then have "find (\<lambda>r. r \<noteq> [] \<and> has_prefix s r) rs = None"
    by (auto simp: find_None_iff)
  then show ?thesis by (subst strip_front.simps) simp
qed

lemma space_runes_ne: "r \<in> set space_runes \<Longrightarrow> r \<noteq> []"
  by (auto simp: space_runes_def)

lemma trim_edge: "edge_ok s \<Longrightarrow> trim_space s = s"
proof -
  assume e: "edge_ok s"
  then have "strip_front space_runes s = s" by (intro strip_front_id) (auto simp: edge_ok_def)
  moreover have "strip_front (map rev space_runes) (rev s) = rev s"
  proof (rule strip_front_id)
    show "rev s \<noteq> []" using e by (simp add: edge_ok_def)
    have "hd ` set (map rev space_runes) = last ` set space_runes"
      using space_runes_ne by (auto simp: hd_rev image_iff)
    then show "hd (rev s) \<notin> hd ` set (map rev space_runes)"
      using e by (simp add: edge_ok_def hd_rev)
  qed
  ultimately show ?thesis by (simp add: trim_space_def)
qed

lemma registry_edges:
  "list_all (\<lambda>f. hd (f_SQLExpr f) \<notin> set (map hd space_runes)) Features"
  "list_all (\<lambda>x. last (o_SQLExpr x) \<notin> set (map last space_runes)) Operands"
  "edge_ok ''()''"
  by code_simp+

lemma Conn_edges: "edge_ok (render (Conn l c r))"
  using registry_edges(3) by (simp add: edge_ok_def)

lemma study_tree_Conn: "length ts = length cs \<Longrightarrow> \<exists>l c r. study_tree (Conn a b d # ts) cs = Conn l c r"
proof (induction ts cs arbitrary: a b d rule: list_induct2)
  case Nil
  then show ?case by (simp add: study_tree_def)
next
  case (Cons u ts c cs)
  then show ?case by (simp add: study_tree_Cons)
qed

lemma rule_tree_edges:
  assumes "rule_tree q = Some t"
  shows "edge_ok (render t)"
proof -
  from assms obtain f op x where e: "rule_entry q = Some (f, op, x)" "t = entry_tree f op x"
    by (auto simp: rule_tree_def)
  note m = rule_entry_members(1,3) [OF e(1)]
  from m registry_atoms have "f_SQLExpr f \<noteq> []" "o_SQLExpr x \<noteq> []"
    by (auto simp: list_all_iff atom_def)
  moreover from m registry_edges(1,2) have "hd (f_SQLExpr f) \<notin> set (map hd space_runes)"
    "last (o_SQLExpr x) \<notin> set (map last space_runes)" by (simp_all add: list_all_iff)
  ultimately have "edge_ok (render (Cmp (f_SQLExpr f) (op_SQL op) (o_SQLExpr x)))"
    by (auto simp: edge_ok_def)
  then show ?thesis
    by (cases "op_Down op"; cases "op_Cross op") (simp_all only: e(2) entry_tree_def Conn_edges if_True if_False)
qed

lemma map_Some_mem:
  assumes "map f xs = map Some ys"
  shows "y \<in> set ys \<Longrightarrow> \<exists>x \<in> set xs. f x = Some y" "x \<in> set xs \<Longrightarrow> \<exists>y \<in> set ys. f x = Some y"
proof -
  have img: "f ` set xs = Some ` set ys" using arg_cong [OF assms, of set] by simp
  show "\<exists>x \<in> set xs. f x = Some y" if "y \<in> set ys" using that img by (metis imageE imageI)
  show "\<exists>y \<in> set ys. f x = Some y" if "x \<in> set xs" using that img by (metis imageE imageI)
qed

lemma Compile_where_edges:
  assumes "Compile sha def limit = Inr c"
  shows "edge_ok (Where c)"
proof -
  obtain ts ss where t: "map rule_tree (d_Rules def) = map Some ts" "length ts = Suc (length ss)"
    "Where c = render (study_tree ts ss)"
    using Compile_tree [OF assms] by metis
  from t(2) obtain u us where u: "ts = u # us" by (cases ts) auto
  show ?thesis
  proof (cases us)
    case Nil
    then have "study_tree ts ss = u" using u by (simp add: study_tree_def)
    moreover from map_Some_mem(1) [OF t(1), of u] u obtain q where "rule_tree q = Some u"
      by auto
    ultimately show ?thesis using t(3) rule_tree_edges by simp
  next
    case (Cons v vs)
    with t(2) u obtain k ks where k: "ss = k # ks" "length vs = length ks" by (cases ss) auto
    from study_tree_Conn [OF k(2), of u k v] obtain l m r where
      "study_tree ts ss = Conn l m r" by (auto simp: u Cons k(1) study_tree_Cons)
    then show ?thesis using t(3) Conn_edges by simp
  qed
qed

text \<open>
  C18: a study built in the browser selects rows of the active date only. The condition
  \<open>Run\<close> makes of a compiled study, read with SQL's precedence, is true of a row exactly
  when the row's date is the bound date and the rules of the study hold of the row.
\<close>

theorem compiled_study_scoped:
  assumes "Compile sha def limit = Inr c"
  shows "\<exists>t. read_where (run_condition (Where c)) = Some t \<and>
    (\<forall>row. sem row t = Some True \<longleftrightarrow>
       row ''snapshot_date'' \<noteq> None \<and> row ''snapshot_date'' = row ''?'' \<and> def_sem row def = Some True)"
proof -
  obtain ts ss where t: "wf_expr (study_tree ts ss)" "Where c = render (study_tree ts ss)"
    "\<And>row. sem row (study_tree ts ss) = def_sem row def"
    using Compile_tree [OF assms] by metis
  have e: "edge_ok (Where c)" by (rule Compile_where_edges [OF assms])
  then have "read_where (run_condition (Where c)) =
      Some (Conn (Cmp ''snapshot_date'' ''='' ''?'') ''AND'' (study_tree ts ss))"
    unfolding t(2) by (intro read_condition t(1) trim_edge) (simp_all add: edge_ok_def)
  moreover have "tri_and x y = Some True \<longleftrightarrow> x = Some True \<and> y = Some True" for x y
    by (cases "(x, y)" rule: tri_and.cases) auto
  ultimately show ?thesis
    by (auto simp: t(3) tri_conn_def cmp_sem_def cmp_op_def split: option.splits)
qed

theorem compiled_study_scoped_witness:
  "\<exists>t. read_where (run_condition (Where sample_out)) = Some t \<and>
    (\<forall>row. sem row t = Some True \<longleftrightarrow> row ''snapshot_date'' \<noteq> None \<and>
       row ''snapshot_date'' = row ''?'' \<and> def_sem row sample_def = Some True)"
  by (rule compiled_study_scoped [OF sample_compiles])


definition escape_clause :: string where
  "escape_clause = ''rsi14 < 30) OR (rsi14 >= 0''"

text \<open>
  The denylist for untrusted authors does not keep a study on the active date. The
  clause \<open>rsi14 < 30) OR (rsi14 >= 0\<close> passes \<open>ValidateClause\<close>, and because \<open>Run\<close> pastes
  it between brackets, the condition it makes reads as \<open>(date and ...) or ...\<close>: its
  second half selects rows of every date.
\<close>

theorem clause_escapes_active_date:
  "ValidateClause escape_clause = None \<and>
   map_option (\<lambda>t row. sem row t) (read_where (run_condition escape_clause)) =
     Some (\<lambda>row. tri_or
       (tri_and (cmp_sem row ''snapshot_date'' ''='' ''?'') (cmp_sem row ''rsi14'' ''<'' ''30''))
       (cmp_sem row ''rsi14'' ''>='' ''0''))"
proof
  show "ValidateClause escape_clause = None" by code_simp
  have "read_where (run_condition escape_clause) =
      Some (Conn (Conn (Cmp ''snapshot_date'' ''='' ''?'') ''AND'' (Cmp ''rsi14'' ''<'' ''30'')) ''OR''
        (Cmp ''rsi14'' ''>='' ''0''))"
    by code_simp
  then show "map_option (\<lambda>t row. sem row t) (read_where (run_condition escape_clause)) =
     Some (\<lambda>row. tri_or
       (tri_and (cmp_sem row ''snapshot_date'' ''='' ''?'') (cmp_sem row ''rsi14'' ''<'' ''30''))
       (cmp_sem row ''rsi14'' ''>='' ''0''))"
    by (simp add: tri_conn_def)
qed

text \<open>The columns a condition names: its words that begin with a letter, but for the connectors.\<close>

definition is_name :: "string \<Rightarrow> bool" where
  "is_name w \<longleftrightarrow> w \<noteq> [] \<and> 97 \<le> (of_char (hd w) :: nat) \<and> (of_char (hd w) :: nat) \<le> 122"

definition names :: "string \<Rightarrow> string list" where
  "names clause = filter is_name (lex [] clause)"

lemma registry_names:
  "list_all (\<lambda>f. is_name (f_SQLExpr f) \<longrightarrow> f_SQLExpr f \<in> set columns) Features"
  "list_all (\<lambda>x. is_name (o_SQLExpr x) \<longrightarrow> o_SQLExpr x \<in> set columns) Operands"
  "list_all (\<lambda>f. f_PrevExpr f = [] \<or> is_name (f_PrevExpr f) \<and> f_PrevExpr f \<notin> set columns) Features"
  "list_all (\<lambda>op. \<not> is_name (op_SQL op)) Operators"
  "list_all (\<lambda>w. \<not> is_name w) [''AND'', ''OR'', ''('', '')'', ''<'', ''>'', ''<='', ''>='']"
  by code_simp+

definition cross_rule :: "rule \<Rightarrow> bool" where
  "cross_rule r \<longleftrightarrow> OperatorID r \<in> set crossOps"

lemma names_render: "wf_expr t \<Longrightarrow> names (render t) = filter is_name (tokens t)"
  using lex_render [of t "[]"] by (simp add: names_def flush_def)

lemma rule_names:
  assumes "rule_tree r = Some t"
  shows "set (filter is_name (tokens t)) \<subseteq> set columns \<longleftrightarrow> \<not> cross_rule r"
proof -
  from assms obtain f op x where e: "rule_entry r = Some (f, op, x)" "t = entry_tree f op x"
    by (auto simp: rule_tree_def)
  note m = rule_entry_members [OF e(1)]
  have id: "op_ID op = OperatorID r"
    using e(1) by (auto simp: rule_entry_def dest!: lookup_members split: option.splits if_splits)
  have "list_all (\<lambda>op. (op_Cross op \<or> op_Down op) \<longleftrightarrow> op_ID op \<in> set crossOps) Operators"
    by code_simp
  with m(2) id have c: "cross_rule r \<longleftrightarrow> op_Cross op \<or> op_Down op"
    by (simp add: list_all_iff cross_rule_def)
  have f: "is_name (f_SQLExpr f) \<longrightarrow> f_SQLExpr f \<in> set columns"
    "f_PrevExpr f = [] \<or> is_name (f_PrevExpr f) \<and> f_PrevExpr f \<notin> set columns"
    and x: "is_name (o_SQLExpr x) \<longrightarrow> o_SQLExpr x \<in> set columns"
    and o': "\<not> is_name (op_SQL op)"
    using registry_names m(1-3) by (simp_all add: list_all_iff)
  show ?thesis
  proof (cases "op_Cross op \<or> op_Down op")
    case True
    with m(4) f(2) have "is_name (f_PrevExpr f)" "f_PrevExpr f \<notin> set columns" by auto
    moreover have "f_PrevExpr f \<in> set (tokens t)" using True by (auto simp: e(2) entry_tree_def)
    ultimately show ?thesis using True c by auto
  next
    case False
    then have "tokens t = [f_SQLExpr f, op_SQL op, o_SQLExpr x]" by (simp add: e(2) entry_tree_def)
    then show ?thesis using False c f(1) x o' by auto
  qed
qed

lemma study_tree_tokens_all:
  "length ts = length cs \<Longrightarrow> u \<in> {t} \<union> set ts \<Longrightarrow>
     set (tokens u) \<subseteq> set (tokens (study_tree (t # ts) cs))"
proof (induction ts cs arbitrary: t u rule: list_induct2)
  case Nil
  then show ?case by (simp add: study_tree_def)
next
  case (Cons v ts c cs)
  show ?case
  proof (cases "u \<in> set ts")
    case True
    then show ?thesis using Cons.IH [of u "Conn t c v"] by (simp add: study_tree_Cons)
  next
    case False
    then have "set (tokens u) \<subseteq> set (tokens (Conn t c v))" using Cons.prems by auto
    moreover have "set (tokens (Conn t c v)) \<subseteq> set (tokens (study_tree (Conn t c v # ts) cs))"
      using Cons.IH [of "Conn t c v" "Conn t c v"] by blast
    ultimately show ?thesis unfolding study_tree_Cons by (rule subset_trans)
  qed
qed

text \<open>
  No compiled study with a cross rule can run. Every column the condition of a
  compiled study names exists in the snapshot table exactly if no rule of the study is a
  cross: the prior-bar columns the compiler emits for crosses are not in the table.
\<close>

theorem cross_rules_name_missing_columns:
  assumes "Compile sha def limit = Inr c"
  shows "set (names (Where c)) \<subseteq> set columns \<longleftrightarrow> list_all (\<lambda>r. \<not> cross_rule r) (d_Rules def)"
proof -
  obtain ts ss where t: "map rule_tree (d_Rules def) = map Some ts" "set ss \<subseteq> {''AND'', ''OR''}"
    "length ts = Suc (length ss)" "wf_expr (study_tree ts ss)" "Where c = render (study_tree ts ss)"
    by (rule Compile_tree [OF assms])
  obtain u us where u: "ts = u # us" "length us = length ss" using t(3) by (cases ts) auto
  have nm: "set (names (Where c)) = {w \<in> set (tokens (study_tree (u # us) ss)). is_name w}"
    using names_render [OF t(4)] by (simp only: t(5) u(1) set_filter)
  have "set (names (Where c)) = (\<Union>v \<in> set ts. set (filter is_name (tokens v)))"
  proof
    show "set (names (Where c)) \<subseteq> (\<Union>v \<in> set ts. set (filter is_name (tokens v)))"
      using study_tree_tokens [OF u(2), of u] t(2) registry_names(5) unfolding nm u(1) by auto
    show "(\<Union>v \<in> set ts. set (filter is_name (tokens v))) \<subseteq> set (names (Where c))"
    proof -
      have "set (tokens v) \<subseteq> set (tokens (study_tree (u # us) ss))" if "v \<in> set ts" for v
        using study_tree_tokens_all [OF u(2), of v u] that by (simp add: u(1))
      then show ?thesis unfolding nm by auto
    qed
  qed
  moreover have "(\<forall>v \<in> set ts. set (filter is_name (tokens v)) \<subseteq> set columns) \<longleftrightarrow>
      (\<forall>r \<in> set (d_Rules def). \<not> cross_rule r)"
    using map_Some_mem [OF t(1)] rule_names by meson
  ultimately show ?thesis by (simp add: list_all_iff UN_subset_iff)
qed

theorem cross_rules_name_missing_columns_witness:
  "\<not> set (names (Where sample_out)) \<subseteq> set columns"
  using cross_rules_name_missing_columns [OF sample_compiles]
  by (simp add: sample_def_def cross_rule_def crossOps_def OpCrossUp_def)

end
