(* ===== verification/Snapshot_Laws.thy ===== *)
theory Snapshot_Laws
  imports Snapshot
begin

text \<open>
  The properties of the snapshot table: what a load leaves behind, also when it fails,
  that history inserts are incremental, and the invariant of every table reachable
  through the methods of \<open>internal/snapshot/snapshot.go\<close>.
\<close>

section \<open>Inserting rows\<close>

lemma list_ex_key: "list_ex (\<lambda>x. row_key x = k) t \<longleftrightarrow> k \<in> row_key ` set t"
  by (auto simp: list_ex_iff)

lemma insert_rows_eq:
  "insert_rows rs t =
     (if distinct (map row_key rs) \<and> row_key ` set rs \<inter> row_key ` set t = {}
      then Inr (t @ rs) else Inl UniqueFailed)"
proof (induction rs arbitrary: t)
  case Nil
  then show ?case by simp
next
  case (Cons r rs)
  then show ?case by (auto simp: list_ex_key)
qed

lemma make_rows_distinct:
  "distinct (map row_key (map (make_row d b) rows)) \<longleftrightarrow> distinct (map r_Symbol rows)"
proof -
  have "map row_key (map (make_row d b) rows) = map (\<lambda>s. (Integer d, Text s)) (map r_Symbol rows)"
    by simp
  moreover have "inj (\<lambda>s. (Integer d, Text s))" by (auto simp: inj_def)
  ultimately show ?thesis by (simp add: distinct_map inj_on_subset [OF _ subset_UNIV] del: map_map)
qed

lemma insert_made_rows:
  assumes "\<forall>x \<in> set t. \<not> on_date d x"
  shows "insert_rows (map (make_row d b) rows) t =
    (if distinct (map r_Symbol rows) then Inr (t @ map (make_row d b) rows) else Inl UniqueFailed)"
proof -
  have "row_key ` set (map (make_row d b) rows) \<inter> row_key ` set t = {}"
    using assms by (auto simp: row_key_def on_date_def)
  then show ?thesis by (simp only: insert_rows_eq make_rows_distinct) simp
qed

lemma rows_of_set_rows [simp]: "sd_table s \<noteq> None \<Longrightarrow> rows_of (set_rows t s) = t"
  by (cases "sd_table s") (simp_all add: rows_of_def set_rows_def)

lemma set_rows_fields [simp]:
  "sd_table (set_rows t s) = map_option (\<lambda>x. x\<lparr>tb_rows := t\<rparr>) (sd_table s)"
  "sd_activeDate (set_rows t s) = sd_activeDate s"
  "Metadata (set_rows t s) = Metadata s"
  by (simp_all add: set_rows_def Metadata_def)

lemma loaded_fields [simp]:
  "sd_table (loaded d n s) = sd_table s" "sd_activeDate (loaded d n s) = d"
  "rows_of (loaded d n s) = rows_of s"
  by (simp_all add: loaded_def rows_of_def)

lemma ensureTable_fields [simp]:
  "sd_activeDate (ensureTable s) = sd_activeDate s" "Metadata (ensureTable s) = Metadata s"
  by (simp_all add: ensureTable_def Let_def Metadata_def)

lemma ensureTable_some [simp]: "sd_table (ensureTable s) \<noteq> None"
  by (simp add: ensureTable_def Let_def split: option.split)

section \<open>The invariant\<close>

text \<open>
  A table the methods have built: the declared width, one row per date and symbol, and
  in every row the declared types, a date and a symbol.
\<close>

definition row_ok :: "sqlval list \<Rightarrow> bool" where
  "row_ok r \<longleftrightarrow> list_all2 fits (map snd createTableColumns) r \<and>
     (\<exists>d s. row_key r = (Integer d, Text s))"

definition rows_ok :: "sqlval list list \<Rightarrow> bool" where
  "rows_ok t \<longleftrightarrow> distinct (map row_key t) \<and> (\<forall>r \<in> set t. row_ok r)"

definition snap_ok :: "snap_db \<Rightarrow> bool" where
  "snap_ok s \<longleftrightarrow> (\<exists>t. sd_table s = Some t \<and> tb_width t = length columns \<and> rows_ok (tb_rows t))"

lemma row_ok_make_row [simp]: "row_ok (make_row d b r)"
  by (simp add: row_ok_def make_row_fits)

lemma columns_pos: "0 < length columns" "length createTableColumns = length columns"
  using arg_cong [OF columns_created, of length] by (simp_all add: columns_def)

lemma ensureTable_id: "snap_ok s \<Longrightarrow> ensureTable s = s"
  by (auto simp: snap_ok_def ensureTable_def Let_def)

lemma snap_ok_rows: "snap_ok s \<Longrightarrow> rows_ok (rows_of s)"
  by (auto simp: snap_ok_def rows_of_def)

lemma snap_ok_table: "snap_ok s \<Longrightarrow> \<exists>t. sd_table s = Some t \<and> tb_rows t = rows_of s"
  by (auto simp: snap_ok_def rows_of_def)

lemma snap_ok_set_rows: "snap_ok s \<Longrightarrow> snap_ok (set_rows t s) \<longleftrightarrow> rows_ok t"
  by (auto simp: snap_ok_def)

lemma snap_ok_loaded [simp]: "snap_ok (loaded d n s) \<longleftrightarrow> snap_ok s"
  by (simp add: snap_ok_def)

lemma rows_ok_filter: "rows_ok t \<Longrightarrow> rows_ok (filter P t)"
  by (auto simp: rows_ok_def distinct_map_filter)

lemma rows_ok_append_made:
  assumes "rows_ok t" "\<forall>x \<in> set t. \<not> on_date d x" "distinct (map r_Symbol rows)"
  shows "rows_ok (t @ map (make_row d b) rows)"
proof -
  have "row_key ` set t \<inter> row_key ` set (map (make_row d b) rows) = {}"
    using assms(2) by (auto simp: row_key_def on_date_def)
  with assms make_rows_distinct [of d b rows] show ?thesis
    by (auto simp: rows_ok_def simp del: map_map)
qed

lemma ignore_row_ok: "rows_ok t \<Longrightarrow> row_ok r \<Longrightarrow> rows_ok (ignore_row t r)"
  by (auto simp: ignore_row_def rows_ok_def list_ex_key)

lemma insert_or_ignore_ok:
  "rows_ok t \<Longrightarrow> \<forall>r \<in> set rs. row_ok r \<Longrightarrow> rows_ok (insert_or_ignore rs t)"
  unfolding insert_or_ignore_def by (induction rs arbitrary: t) (simp_all add: ignore_row_ok)

section \<open>Loading a date\<close>

definition other_dates :: "int \<Rightarrow> snap_db \<Rightarrow> sqlval list list" where
  "other_dates d s = filter (\<lambda>r. \<not> on_date d r) (rows_of s)"

lemma load_result:
  assumes "snap_ok s"
  shows "LoadHistory rows b d s =
    (if distinct (map r_Symbol rows)
     then (None, loaded d (length rows) (set_rows (other_dates d s @ map (make_row d b) rows) s))
     else (Some UniqueFailed, set_rows (other_dates d s) s))"
  unfolding LoadHistory_def Let_def ensureTable_id [OF assms]
  by (simp add: insert_made_rows other_dates_def)

lemma Load_is_LoadHistory: "Load rows d s = LoadHistory rows d d s"
  by (simp add: Load_def LoadHistory_def Let_def)

lemma load_ok: "snap_ok s \<Longrightarrow> snap_ok (snd (LoadHistory rows b d s))"
  by (simp add: load_result snap_ok_set_rows rows_ok_filter rows_ok_append_made snap_ok_rows
      other_dates_def)

text \<open>What the readers see, over the rows.\<close>

definition close_in :: "sqlval list list \<Rightarrow> int \<Rightarrow> string \<Rightarrow> (snap_error, float64) result" where
  "close_in t d tick = (case find (\<lambda>r. row_key r = (Integer d, Text tick)) t of
      None \<Rightarrow> Inl NoRows | Some r \<Rightarrow> (case cell ''close'' r of Real v \<Rightarrow> Inr v | _ \<Rightarrow> Inl NoRows))"

lemma readers:
  assumes "sd_table s \<noteq> None"
  shows "SymbolClose tick d s = close_in (rows_of s) d tick"
    "HasSnapshot d s = Inr (\<exists>r \<in> set (rows_of s). on_date d r)"
    "ListSnapshots s = Inr (rev (sort (remdups (dates_of (rows_of s)))))"
  using assms by (auto simp: SymbolClose_def close_in_def HasSnapshot_def ListSnapshots_def rows_of_def
      count_date_def filter_empty_conv)

lemma find_other_dates:
  "find (\<lambda>r. row_key r = (Integer e, Text tick)) (other_dates d s) =
     (if e = d then None else find (\<lambda>r. row_key r = (Integer e, Text tick)) (rows_of s))"
proof -
  have "find (\<lambda>r. row_key r = (Integer e, Text tick)) (filter (\<lambda>r. \<not> on_date d r) t) =
     (if e = d then None else find (\<lambda>r. row_key r = (Integer e, Text tick)) t)" for t
    by (induction t) (auto simp: on_date_def row_key_def)
  then show ?thesis by (simp add: other_dates_def)
qed

lemma find_made_rows:
  "find (\<lambda>r. row_key r = (Integer e, Text tick)) (map (make_row d b) rows) =
     (if e = d then map_option (make_row d b) (find (\<lambda>r. r_Symbol r = tick) rows) else None)"
  by (induction rows) auto

text \<open>
  A successful load replaces its date and touches no other. Afterwards the date is
  the active one and exists exactly if there were rows, the close of a symbol on it is
  the close of its row (no rows for NaN, which is NULL), and every other date answers as
  before.
\<close>

theorem load_replaces_date:
  assumes "snap_ok s" and "LoadHistory rows b d s = (None, s')"
  shows "sd_activeDate s' = d \<and> Metadata s' = \<lparr>md_SnapshotID = show_int d,
      md_SymbolCount = length rows, md_SnapshotDate = d\<rparr> \<and>
    HasSnapshot e s' = (if e = d then Inr (rows \<noteq> []) else HasSnapshot e s) \<and>
    SymbolClose tick e s' =
      (if e = d then
         (case find (\<lambda>r. r_Symbol r = tick) rows of
            None \<Rightarrow> Inl NoRows
          | Some r \<Rightarrow> if isnan (r_Close r) then Inl NoRows else Inr (r_Close r))
       else SymbolClose tick e s)"
proof -
  from snap_ok_table [OF assms(1)] have tb: "sd_table s \<noteq> None" by auto
  from assms have s': "s' = loaded d (length rows)
      (set_rows (other_dates d s @ map (make_row d b) rows) s)"
    by (simp add: load_result split: if_splits)
  have tb': "sd_table s' \<noteq> None" using tb s' by simp
  have rows': "rows_of s' = other_dates d s @ map (make_row d b) rows" using tb s' by simp
  have "HasSnapshot e s' = (if e = d then Inr (rows \<noteq> []) else HasSnapshot e s)"
    unfolding readers(2) [OF tb] readers(2) [OF tb'] rows'
    by (cases rows) (auto simp: other_dates_def on_date_def bex_Un)
  moreover have "SymbolClose tick e s' =
      (if e = d then
         (case find (\<lambda>r. r_Symbol r = tick) rows of
            None \<Rightarrow> Inl NoRows
          | Some r \<Rightarrow> if isnan (r_Close r) then Inl NoRows else Inr (r_Close r))
       else SymbolClose tick e s)"
    unfolding readers(1) [OF tb] readers(1) [OF tb'] rows' close_in_def
    by (simp add: find_append find_other_dates find_made_rows nz_def split: option.split)
  moreover have "Metadata s' = \<lparr>md_SnapshotID = show_int d,
      md_SymbolCount = length rows, md_SnapshotDate = d\<rparr>"
    by (simp add: s' Metadata_def loaded_def)
  ultimately show ?thesis by (simp add: s')
qed

text \<open>
  A load that fails loses the date. It fails only when a symbol comes twice, and
  then the rows the date had before are gone, because they were deleted outside the
  transaction; the active date and the metadata still name what they named before.
\<close>

theorem failed_load_loses_date:
  assumes "snap_ok s"
    and "LoadHistory rows b d s = (Some e, s')"
  shows "\<not> distinct (map r_Symbol rows) \<and> HasSnapshot d s' = Inr False \<and>
      SymbolClose tick d s' = Inl NoRows \<and>
      sd_activeDate s' = sd_activeDate s \<and> Metadata s' = Metadata s"
proof -
  from snap_ok_table [OF assms(1)] have tb: "sd_table s \<noteq> None" by auto
  from assms have eq: "\<not> distinct (map r_Symbol rows)" "s' = set_rows (other_dates d s) s"
    by (simp_all add: load_result split: if_splits)
  have tb': "sd_table s' \<noteq> None" using tb eq by simp
  have rows': "rows_of s' = other_dates d s" using tb eq by simp
  show "\<not> distinct (map r_Symbol rows) \<and> HasSnapshot d s' = Inr False \<and>
      SymbolClose tick d s' = Inl NoRows \<and>
      sd_activeDate s' = sd_activeDate s \<and> Metadata s' = Metadata s"
    unfolding readers(1,2) [OF tb'] rows' close_in_def
    by (simp add: eq find_other_dates) (simp add: other_dates_def)
qed

section \<open>History inserts\<close>

lemma ignore_row_present: "row_key r \<in> row_key ` set t \<Longrightarrow> ignore_row t r = t"
  by (simp add: ignore_row_def list_ex_key)

lemma ignore_row_grows: "\<exists>new. ignore_row t r = t @ new" "row_key r \<in> row_key ` set (ignore_row t r)"
  by (auto simp: ignore_row_def list_ex_key)

lemma insert_or_ignore_grows: "\<exists>new. insert_or_ignore rs t = t @ new"
proof (induction rs rule: rev_induct)
  case Nil
  then show ?case by (simp add: insert_or_ignore_def)
next
  case (snoc r rs)
  then obtain new where "insert_or_ignore rs t = t @ new" by blast
  with ignore_row_grows(1) [of "t @ new" r] show ?case
    by (auto simp: insert_or_ignore_def)
qed

lemma insert_or_ignore_keys: "row_key ` set rs \<subseteq> row_key ` set (insert_or_ignore rs t)"
proof (induction rs rule: rev_induct)
  case Nil
  then show ?case by simp
next
  case (snoc r rs)
  let ?t = "insert_or_ignore rs t"
  have eq: "insert_or_ignore (rs @ [r]) t = ignore_row ?t r" by (simp add: insert_or_ignore_def)
  from ignore_row_grows(1) [of ?t r] have "row_key ` set ?t \<subseteq> row_key ` set (ignore_row ?t r)" by auto
  with snoc ignore_row_grows(2) [of r ?t] show ?case unfolding eq by auto
qed

lemma insert_or_ignore_present:
  "row_key ` set rs \<subseteq> row_key ` set t \<Longrightarrow> insert_or_ignore rs t = t"
  unfolding insert_or_ignore_def by (induction rs) (simp_all add: ignore_row_present)

lemma insert_or_ignore_append:
  "insert_or_ignore (rs @ qs) t = insert_or_ignore qs (insert_or_ignore rs t)"
  by (simp add: insert_or_ignore_def)

definition all_rows :: "snapshot_batch list \<Rightarrow> sqlval list list" where
  "all_rows bs = concat (map batch_rows bs)"

lemma batch_all_rows: "foldl (\<lambda>t b. insert_or_ignore (batch_rows b) t) t bs = insert_or_ignore (all_rows bs) t"
  by (induction bs arbitrary: t)
     (simp_all add: all_rows_def insert_or_ignore_append, simp add: insert_or_ignore_def)

lemma ensureTable_idem [simp]: "ensureTable (ensureTable s) = ensureTable s"
  by (auto simp: ensureTable_def Let_def columns_pos split: option.splits if_splits)

lemma ensureTable_commutes:
  assumes "ensureTable s = s"
  shows "ensureTable (loaded d n (set_rows t s)) = loaded d n (set_rows t s)"
proof (cases "sd_table s")
  case None
  with assms show ?thesis using ensureTable_some [of s] by simp
next
  case (Some tb)
  have "\<not> (0 < tb_width tb \<and> tb_width tb \<noteq> length columns)"
  proof
    assume c: "0 < tb_width tb \<and> tb_width tb \<noteq> length columns"
    with Some have "sd_table (ensureTable s) = Some \<lparr>tb_width = length columns, tb_rows = []\<rparr>"
      by (simp add: ensureTable_def Let_def columns_pos)
    with c Some assms show False by auto
  qed
  with Some show ?thesis
    by (auto simp: ensureTable_def Let_def loaded_def set_rows_def)
qed

lemma reload: "loaded d n (set_rows t (loaded e m (set_rows u s))) = loaded d n (set_rows t s)"
  by (cases "sd_table s") (simp_all add: loaded_def set_rows_def)

definition history_step :: "snapshot_batch \<Rightarrow> snap_db \<Rightarrow> snap_db" where
  "history_step b = LoadHistoryInsert (sb_Rows b) (sb_BarTs b) (sb_SnapshotDate b)"

lemma history_step_eq:
  "history_step b s = loaded (sb_SnapshotDate b) (length (sb_Rows b))
     (set_rows (insert_or_ignore (batch_rows b) (rows_of (ensureTable s))) (ensureTable s))"
  by (simp add: history_step_def LoadHistoryInsert_def Let_def batch_rows_def)

lemma batch_eq:
  "bs \<noteq> [] \<Longrightarrow> LoadHistoryBatch bs s = loaded (sb_SnapshotDate (last bs)) (length (sb_Rows (last bs)))
     (set_rows (insert_or_ignore (all_rows bs) (rows_of (ensureTable s))) (ensureTable s))"
  by (simp add: LoadHistoryBatch_def Let_def batch_all_rows)

lemma batch_snoc: "LoadHistoryBatch (bs @ [b]) s = history_step b (LoadHistoryBatch bs s)"
proof (cases "bs = []")
  case True
  then show ?thesis
    by (simp add: batch_eq history_step_eq all_rows_def) (simp add: LoadHistoryBatch_def)
next
  case False
  have "ensureTable (LoadHistoryBatch bs s) = LoadHistoryBatch bs s"
    unfolding batch_eq [OF False] by (rule ensureTable_commutes) simp
  with False show ?thesis
    by (simp add: batch_eq history_step_eq all_rows_def insert_or_ignore_append reload)
qed

lemma batch_fold: "LoadHistoryBatch bs s = fold history_step bs s"
  by (induction bs rule: rev_induct) (simp add: LoadHistoryBatch_def, simp add: batch_snoc)

lemma batch_again: "LoadHistoryBatch bs (LoadHistoryBatch bs s) = LoadHistoryBatch bs s"
proof (cases "bs = []")
  case True
  then show ?thesis by (simp add: LoadHistoryBatch_def)
next
  case False
  have en: "ensureTable (LoadHistoryBatch bs s) = LoadHistoryBatch bs s"
    unfolding batch_eq [OF False] by (rule ensureTable_commutes) simp
  have rows: "rows_of (LoadHistoryBatch bs s) = insert_or_ignore (all_rows bs) (rows_of (ensureTable s))"
    by (simp add: batch_eq False)
  have "insert_or_ignore (all_rows bs) (rows_of (LoadHistoryBatch bs s)) = rows_of (LoadHistoryBatch bs s)"
    unfolding rows by (rule insert_or_ignore_present) (rule insert_or_ignore_keys)
  then have "LoadHistoryBatch bs (LoadHistoryBatch bs s) =
      loaded (sb_SnapshotDate (last bs)) (length (sb_Rows (last bs)))
        (set_rows (rows_of (LoadHistoryBatch bs s)) (LoadHistoryBatch bs s))"
    by (subst batch_eq [OF False]) (simp only: en)
  also have "\<dots> = LoadHistoryBatch bs s"
    unfolding rows by (simp add: batch_eq [OF False] reload)
  finally show ?thesis .
qed

text \<open>
  A history batch is incremental. It is one \<open>LoadHistoryInsert\<close> per snapshot in
  order, it only appends, so no stored row is ever changed or removed, and running it a
  second time changes nothing at all.
\<close>

theorem history_batch_incremental:
  assumes "snap_ok s"
  shows "LoadHistoryBatch bs s =
      fold (\<lambda>b. LoadHistoryInsert (sb_Rows b) (sb_BarTs b) (sb_SnapshotDate b)) bs s \<and>
    (\<exists>new. rows_of (LoadHistoryBatch bs s) = rows_of s @ new) \<and>
    LoadHistoryBatch bs (LoadHistoryBatch bs s) = LoadHistoryBatch bs s"
proof (intro conjI)
  show "LoadHistoryBatch bs s =
      fold (\<lambda>b. LoadHistoryInsert (sb_Rows b) (sb_BarTs b) (sb_SnapshotDate b)) bs s"
    using batch_fold [of bs s] by (simp add: history_step_def [abs_def])
  show "\<exists>new. rows_of (LoadHistoryBatch bs s) = rows_of s @ new"
  proof (cases "bs = []")
    case True
    then show ?thesis by (simp add: LoadHistoryBatch_def)
  next
    case False
    then show ?thesis
      using insert_or_ignore_grows snap_ok_table [OF assms]
      by (auto simp: batch_eq ensureTable_id assms)
  qed
  show "LoadHistoryBatch bs (LoadHistoryBatch bs s) = LoadHistoryBatch bs s" by (rule batch_again)
qed

section \<open>A concrete table\<close>

text \<open>A snapshot row with a close and nothing else computed yet.\<close>

definition priced_row :: "string \<Rightarrow> float64 \<Rightarrow> snapshot_row" where
  "priced_row tick v = \<lparr>r_Symbol = tick, r_Close = v, r_High = NaN, r_Low = NaN,
     r_Open = NaN, r_SMA5 = NaN, r_SMA10 = NaN, r_SMA20 = NaN, r_SMA30 = NaN, r_SMA50 = NaN,
     r_SMA100 = NaN, r_SMA200 = NaN, r_EMA10 = NaN, r_EMA21 = NaN, r_EMA50 = NaN, r_EMA100 = NaN,
     r_EMA200 = NaN, r_PctFromSMA50 = NaN, r_PctFromSMA200 = NaN, r_MAStack = False,
     r_RSI14 = NaN, r_MACD = NaN, r_MACDSignal = NaN, r_MACDHist = NaN, r_StochK = NaN,
     r_StochD = NaN, r_WilliamsR = NaN, r_CCI20 = NaN, r_ROC10 = NaN, r_ROC20 = NaN,
     r_ADX14 = NaN, r_DIPlus = NaN, r_DIMinus = NaN, r_ATR14 = NaN, r_ATRPct = NaN,
     r_BBUpper = NaN, r_BBMiddle = NaN, r_BBLower = NaN, r_BBWidth = NaN, r_BBPctB = NaN,
     r_HistVol20 = NaN, r_High52w = NaN, r_Low52w = NaN, r_Is52wHigh = False, r_Is52wLow = False,
     r_GapPct = NaN, r_TrueRange = NaN, r_PctOff52wHigh = NaN, r_PctAbove52wLow = NaN,
     r_Ret1d = NaN, r_Ret5d = NaN, r_Ret1m = NaN, r_Ret3m = NaN, r_Ret6m = NaN, r_Ret1y = NaN,
     r_DollarVol = NaN, r_AvgDollarVol20 = NaN, r_RelVolume = NaN, r_OBV = NaN, r_VWAPDist = NaN,
     r_MFI14 = NaN, r_IsGoldenCross = False, r_IsOversoldBounce = False, r_PSAR = NaN,
     r_AroonUp = NaN, r_AroonDown = NaN, r_AroonOsc = NaN, r_KeltnerUpper = NaN,
     r_KeltnerMid = NaN, r_KeltnerLower = NaN, r_CMF20 = NaN, r_UltimateOsc = NaN\<rparr>"


definition two_rows :: "snapshot_row list" where
  "two_rows = [priced_row ''AAA'' (Fin 10), priced_row ''BBB'' NaN]"

definition day1 :: snap_db where
  "day1 = snd (LoadHistory two_rows 100 100 (Open None))"

lemma Open_ok: "snap_ok (Open None)"
  using columns_pos(2)
  by (simp add: Open_def fresh_db_def ensureTable_def Let_def snap_ok_def rows_ok_def)

lemma day1_ok: "snap_ok day1"
  unfolding day1_def by (rule load_ok) (rule Open_ok)

theorem load_replaces_date_witness:
  "sd_activeDate day1 = 100 \<and> Metadata day1 = \<lparr>md_SnapshotID = show_int 100,
      md_SymbolCount = 2, md_SnapshotDate = 100\<rparr> \<and>
    HasSnapshot 100 day1 = Inr True \<and> SymbolClose ''AAA'' 100 day1 = Inr (Fin 10)"
proof -
  have "LoadHistory two_rows 100 100 (Open None) = (None, day1)"
    unfolding day1_def by (simp add: load_result Open_ok two_rows_def priced_row_def)
  from load_replaces_date [OF Open_ok this, of 100 "''AAA''"] show ?thesis
    by (simp add: two_rows_def priced_row_def isnan_def)
qed

definition day1_broken :: snap_db where
  "day1_broken = snd (LoadHistory (two_rows @ two_rows) 100 100 day1)"

theorem failed_load_loses_date_witness:
  "HasSnapshot 100 day1_broken = Inr False \<and> SymbolClose ''AAA'' 100 day1_broken = Inl NoRows \<and>
   sd_activeDate day1_broken = sd_activeDate day1"
proof -
  have "LoadHistory (two_rows @ two_rows) 100 100 day1 = (Some UniqueFailed, day1_broken)"
    unfolding day1_broken_def by (simp add: load_result day1_ok two_rows_def)
  from failed_load_loses_date [OF day1_ok this, of "''AAA''"] show ?thesis by blast
qed

theorem history_batch_incremental_witness:
  "\<exists>new. rows_of (LoadHistoryBatch [\<lparr>sb_Rows = two_rows, sb_BarTs = 200, sb_SnapshotDate = 200\<rparr>] day1)
     = rows_of day1 @ new"
  using history_batch_incremental [OF day1_ok,
      of "[\<lparr>sb_Rows = two_rows, sb_BarTs = 200, sb_SnapshotDate = 200\<rparr>]"] by blast

section \<open>Every reachable table\<close>

text \<open>
  A fresh database, a file with a table of an older layout, and any sequence of method
  calls and reopenings of the file.
\<close>

inductive snap_reachable :: "snap_db \<Rightarrow> bool" where
  new: "snap_reachable (Open None)"
| stale: "tb_width t \<noteq> length columns \<Longrightarrow> 0 < tb_width t \<Longrightarrow> snap_reachable (Open (Some t))"
| reopen: "snap_reachable s \<Longrightarrow> snap_reachable (Open (sd_table s))"
| load: "snap_reachable s \<Longrightarrow> snap_reachable (snd (Load rows ts s))"
| load_history: "snap_reachable s \<Longrightarrow> snap_reachable (snd (LoadHistory rows b d s))"
| history_insert: "snap_reachable s \<Longrightarrow> snap_reachable (LoadHistoryInsert rows b d s)"
| batch: "snap_reachable s \<Longrightarrow> snap_reachable (LoadHistoryBatch bs s)"
| set_active: "snap_reachable s \<Longrightarrow> snap_reachable (snd (SetActive d s))"
| cleanup: "snap_reachable s \<Longrightarrow> snap_reachable (snd (Cleanup now k s))"

lemma insert_history_ok: "snap_ok s \<Longrightarrow> snap_ok (history_step b s)"
  unfolding history_step_eq
  by (auto simp: snap_ok_set_rows ensureTable_id batch_rows_def snap_ok_rows
      intro!: insert_or_ignore_ok)

lemma batch_ok: "snap_ok s \<Longrightarrow> snap_ok (LoadHistoryBatch bs s)"
  unfolding batch_fold by (induction bs arbitrary: s) (simp_all add: insert_history_ok)

lemma snap_ok_active: "snap_ok (s\<lparr>sd_activeDate := d\<rparr>) \<longleftrightarrow> snap_ok s"
  by (simp add: snap_ok_def)

lemma Open_table_ok: "snap_ok s \<Longrightarrow> snap_ok (Open (sd_table s))"
  by (auto simp: Open_def fresh_db_def snap_ok_def ensureTable_def Let_def)

lemma Open_stale: "tb_width t \<noteq> length columns \<Longrightarrow> 0 < tb_width t \<Longrightarrow> Open (Some t) = Open None"
  by (simp add: Open_def fresh_db_def ensureTable_def Let_def)

lemma Cleanup_ok: "snap_ok s \<Longrightarrow> snap_ok (snd (Cleanup now k s))"
  using snap_ok_table [of s] snap_ok_rows [of s]
  by (auto simp: Cleanup_def Let_def snap_ok_set_rows rows_ok_filter split: option.split)

lemma reachable_ok: "snap_reachable s \<Longrightarrow> snap_ok s"
proof (induction rule: snap_reachable.induct)
  case new
  then show ?case by (rule Open_ok)
next
  case (stale t)
  then show ?case by (simp add: Open_stale Open_ok)
next
  case (reopen s)
  then show ?case by (simp add: Open_table_ok)
next
  case (load s rows ts)
  then show ?case by (simp add: Load_is_LoadHistory load_ok)
next
  case (load_history s rows b d)
  then show ?case by (simp add: load_ok)
next
  case (history_insert s rows b d)
  then show ?case
    using insert_history_ok [of s "\<lparr>sb_Rows = rows, sb_BarTs = b, sb_SnapshotDate = d\<rparr>"]
    by (simp add: history_step_def)
next
  case (batch s bs)
  then show ?case by (simp add: batch_ok)
next
  case (set_active s d)
  then show ?case by (auto simp: SetActive_def snap_ok_active split: option.split)
next
  case (cleanup s now k)
  then show ?case by (simp add: Cleanup_ok)
qed

lemma dates_of_set: "d \<in> set (dates_of t) \<longleftrightarrow> (\<exists>r \<in> set t. on_date d r)"
proof -
  have "int_of v = Some d \<longleftrightarrow> v = Integer d" for v by (cases v) auto
  then show ?thesis
    by (auto simp: dates_of_def on_date_def List.map_filter_def image_iff)
qed

definition listed :: "snap_db \<Rightarrow> int list" where
  "listed s = rev (sort (remdups (dates_of (rows_of s))))"

lemma strictly_sorted: "sorted_wrt (<) (sort (remdups (xs :: int list)))"
  using sorted_sort [of "remdups xs"] by (simp add: strict_sorted_iff)

lemma listed_facts:
  "sorted_wrt (>) (listed s)" "d \<in> set (listed s) \<longleftrightarrow> (\<exists>r \<in> set (rows_of s). on_date d r)"
  using strictly_sorted by (auto simp: listed_def sorted_wrt_rev dates_of_set)

lemma count_date_pos: "count_date d t = 0 \<longleftrightarrow> \<not> (\<exists>r \<in> set t. on_date d r)"
  by (auto simp: count_date_def filter_empty_conv)

lemma listed_consistent:
  assumes "snap_reachable s"
  shows "ListSnapshots s = Inr (listed s)" "HasSnapshot d s = Inr True \<longleftrightarrow> d \<in> set (listed s)"
    "fst (SetActive d s) = None \<longleftrightarrow> d \<in> set (listed s)"
proof -
  from snap_ok_table [OF reachable_ok [OF assms]]
  obtain t where t: "sd_table s = Some t" "tb_rows t = rows_of s" by blast
  show "ListSnapshots s = Inr (listed s)" using t readers(3) [of s] by (simp add: listed_def)
  show "HasSnapshot d s = Inr True \<longleftrightarrow> d \<in> set (listed s)"
    using t readers(2) [of s] by (simp add: listed_facts(2))
  show "fst (SetActive d s) = None \<longleftrightarrow> d \<in> set (listed s)"
    using t by (simp add: SetActive_def listed_facts(2) count_date_pos)
qed

text \<open>
  C22: in every state the methods can reach, from a fresh file or from one with a table
  of an older layout, there is one row per date and symbol, every value has its
  column's type, and the three readers agree: the dates listed are strictly descending
  and are exactly those \<open>HasSnapshot\<close> reports and \<open>SetActive\<close> accepts.
\<close>

theorem reachable_table_sound:
  assumes "snap_reachable s"
  shows "distinct (map row_key (rows_of s)) \<and>
    (\<forall>r \<in> set (rows_of s). list_all2 fits (map snd createTableColumns) r) \<and>
    ListSnapshots s = Inr (listed s) \<and> sorted_wrt (>) (listed s) \<and>
    (\<forall>d. (HasSnapshot d s = Inr True \<longleftrightarrow> d \<in> set (listed s)) \<and>
         (fst (SetActive d s) = None \<longleftrightarrow> d \<in> set (listed s)))"
  using snap_ok_rows [OF reachable_ok [OF assms]] listed_facts(1) [of s] listed_consistent [OF assms]
  by (simp add: rows_ok_def row_ok_def)

lemma day1_reachable: "snap_reachable day1"
  unfolding day1_def by (intro snap_reachable.intros)

lemma Open_rows: "rows_of (Open None) = []"
  by (simp add: Open_def fresh_db_def ensureTable_def Let_def rows_of_def)

lemma day1_rows: "rows_of day1 = map (make_row 100 100) two_rows"
  using snap_ok_table [OF Open_ok]
  by (auto simp: day1_def load_result Open_ok Open_rows two_rows_def priced_row_def other_dates_def)

lemma day1_listed: "listed day1 = [100]"
  by (simp add: listed_def day1_rows two_rows_def dates_of_def List.map_filter_def)

theorem reachable_table_sound_witness:
  "distinct (map row_key (rows_of day1)) \<and> rows_of day1 \<noteq> [] \<and> ListSnapshots day1 = Inr [100]"
  using reachable_table_sound [OF day1_reachable] day1_listed by (simp add: day1_rows two_rows_def)


lemma dates_of_filter:
  "dates_of (filter (\<lambda>r. case int_of (cell ''snapshot_date'' r) of None \<Rightarrow> True | Some d \<Rightarrow> P d) t) =
     filter P (dates_of t)"
  by (induction t) (auto simp: dates_of_def List.map_filter_def split: option.splits)

text \<open>
  \<open>Cleanup\<close> removes exactly the dates before the cutoff, which is \<open>keepDays\<close> days
  of 86400 seconds before now, and returns how many dates that were; a keep of zero or
  fewer days removes nothing.
\<close>

theorem cleanup_removes_old_dates:
  assumes "snap_reachable s"
  shows "ListSnapshots (snd (Cleanup now k s)) =
      Inr (filter (\<lambda>d. k \<le> 0 \<or> now - 86400 * k \<le> d) (listed s)) \<and>
    fst (Cleanup now k s) =
      Inr (if k \<le> 0 then 0 else length (filter (\<lambda>d. d < now - 86400 * k) (listed s)))"
proof -
  note ok = reachable_ok [OF assms]
  from snap_ok_table [OF ok] obtain t where t: "sd_table s = Some t" "tb_rows t = rows_of s" by blast
  show ?thesis
  proof (cases "k \<le> 0")
    case True
    then show ?thesis using t readers(3) [of s] by (simp add: Cleanup_def listed_def)
  next
    case False
    let ?keep = "\<lambda>d. \<not> d < now - 86400 * k"
    let ?kept = "filter (\<lambda>r. case int_of (cell ''snapshot_date'' r) of None \<Rightarrow> True | Some d \<Rightarrow> ?keep d) (rows_of s)"
    let ?ds = "remdups (dates_of (rows_of s))"
    have res: "Cleanup now k s =
        (Inr (length ?ds - length (remdups (dates_of ?kept))), set_rows ?kept s)"
      using False t by (simp add: Cleanup_def Let_def)
    have kept: "remdups (dates_of ?kept) = filter ?keep ?ds"
      by (simp only: dates_of_filter remdups_filter)
    have tb: "sd_table (set_rows ?kept s) \<noteq> None" using t by simp
    have "rows_of (set_rows ?kept s) = ?kept" using t by simp
    then have "ListSnapshots (set_rows ?kept s) = Inr (rev (sort (filter ?keep ?ds)))"
      using readers(3) [OF tb] kept by (simp only:)
    also have "rev (sort (filter ?keep ?ds)) = filter ?keep (listed s)"
      by (simp only: listed_def rev_filter [symmetric] filter_sort)
    finally have 1: "ListSnapshots (set_rows ?kept s) = Inr (filter ?keep (listed s))" .
    have "length (filter (\<lambda>d. \<not> ?keep d) (listed s)) = length (filter (\<lambda>d. \<not> ?keep d) (rev (listed s)))"
      by (simp add: rev_filter [symmetric])
    also have "\<dots> = length (filter (\<lambda>d. \<not> ?keep d) ?ds)"
      using filter_sort [of "\<lambda>d. \<not> ?keep d" "\<lambda>x. x" ?ds] length_sort
      by (simp add: listed_def)
    also have "\<dots> = length ?ds - length (filter ?keep ?ds)"
      using sum_length_filter_compl [of ?keep ?ds] by simp
    finally show ?thesis using False 1 res kept by (simp add: not_less not_le)
  qed
qed

theorem cleanup_removes_old_dates_witness:
  "ListSnapshots (snd (Cleanup 200000 1 day1)) = Inr [] \<and> fst (Cleanup 200000 1 day1) = Inr 1 \<and>
   ListSnapshots (snd (Cleanup 200000 2 day1)) = Inr []"
proof -
  show ?thesis
    using day1_listed cleanup_removes_old_dates [OF day1_reachable, of 200000 1]
      cleanup_removes_old_dates [OF day1_reachable, of 200000 2] by simp
qed

lemma foldl_min: "foldl min (d :: int) ds \<in> insert d (set ds) \<and> (\<forall>e \<in> insert d (set ds). foldl min d ds \<le> e)"
proof (induction ds arbitrary: d)
  case Nil
  then show ?case by simp
next
  case (Cons e ds)
  from Cons [of "min d e"] show ?case by (auto simp: min_def split: if_splits)
qed

text \<open>
  \<open>NearestDate\<close> returns the earliest stored date that is not before the given one.
  When there is none it fails on the NULL of \<open>MIN\<close>, and never with the \<open>ErrNoRows\<close> its
  comment promises.
\<close>

theorem nearest_date_exact:
  assumes "snap_reachable s"
  shows "(NearestDate d s = Inr e \<longleftrightarrow>
      e \<in> set (listed s) \<and> d \<le> e \<and> (\<forall>x \<in> set (listed s). d \<le> x \<longrightarrow> e \<le> x)) \<and>
    (NearestDate d s = Inl NullScan \<longleftrightarrow> (\<forall>x \<in> set (listed s). x < d)) \<and>
    NearestDate d s \<noteq> Inl NoRows"
proof -
  note ok = reachable_ok [OF assms]
  from snap_ok_table [OF ok] obtain t where t: "sd_table s = Some t" "tb_rows t = rows_of s" by blast
  have mem: "x \<in> set (listed s) \<longleftrightarrow> x \<in> set (dates_of (rows_of s))" for x
    by (simp add: listed_def)
  show ?thesis
  proof (cases "filter (\<lambda>x. d \<le> x) (dates_of (rows_of s))")
    case Nil
    then have "\<forall>x \<in> set (listed s). x < d" using mem by (auto simp: filter_empty_conv not_le)
    with Nil t show ?thesis by (force simp: NearestDate_def)
  next
    case (Cons x xs)
    have set_eq: "insert x (set xs) = {x \<in> set (listed s). d \<le> x}"
      using arg_cong [OF Cons, of set] mem by auto
    let ?m = "foldl min x xs"
    have n: "NearestDate d s = Inr ?m" using Cons t by (simp add: NearestDate_def)
    have m: "?m \<in> set (listed s)" "d \<le> ?m" "\<forall>y \<in> set (listed s). d \<le> y \<longrightarrow> ?m \<le> y"
      using foldl_min [of x xs] unfolding set_eq by auto
    have "?m = e" if "e \<in> set (listed s)" "d \<le> e" "\<forall>y \<in> set (listed s). d \<le> y \<longrightarrow> e \<le> y"
      using m that by (auto intro: antisym)
    with n m have "NearestDate d s = Inr e \<longleftrightarrow>
      e \<in> set (listed s) \<and> d \<le> e \<and> (\<forall>x \<in> set (listed s). d \<le> x \<longrightarrow> e \<le> x)" by auto
    moreover have "\<exists>y \<in> set (listed s). \<not> y < d" using m(1,2) by (intro bexI [of _ ?m]) auto
    ultimately show ?thesis by (simp add: n)
  qed
qed

theorem nearest_date_exact_witness:
  "NearestDate 50 day1 = Inr 100 \<and> NearestDate 101 day1 = Inl NullScan"
proof -
  show ?thesis
    using day1_listed nearest_date_exact [OF day1_reachable, of 50 100]
      nearest_date_exact [OF day1_reachable, of 101] by simp
qed

end
