(* ===== verification/Alerts.thy ===== *)
theory Alerts
  imports Study_Run Snapshot_Laws
begin

text \<open>
  \<open>internal/alert/alert.go\<close>: which symbols entered and left a study between two stored
  dates. The detector works on the shared snapshot store: it selects each date with
  \<open>SetActive\<close> and runs the study there.
\<close>

section \<open>The detector\<close>

record alert_entry =
  en_Symbol :: string
  en_StudyKey :: string
  en_Date :: int
  en_PrevDate :: int

record alert_exit =
  ex_Symbol :: string
  ex_StudyKey :: string
  ex_Date :: int
  ex_PrevDate :: int

datatype 'e alert_error = ActiveError snap_error | RunError "'e run_error"

definition DetectEntries ::
    "'e explain \<Rightarrow> 'e query \<Rightarrow> study \<Rightarrow> int \<Rightarrow> int \<Rightarrow> snap_db \<Rightarrow>
     ('e alert_error, alert_entry list) result \<times> snap_db" where
  "DetectEntries explain query s date prevDate d =
     (case SetActive date d of
        (Some e, d) \<Rightarrow> (Inl (ActiveError e), d)
      | (None, d) \<Rightarrow>
     (case Run explain query s d of
        Inl e \<Rightarrow> (Inl (RunError e), d)
      | Inr currentMatches \<Rightarrow>
     (case SetActive prevDate d of
        (Some _, d) \<Rightarrow>
          (Inr (map (\<lambda>m. \<lparr>en_Symbol = m_Symbol m, en_StudyKey = st_Key s, en_Date = date, en_PrevDate = 0\<rparr>)
             currentMatches), d)
      | (None, d) \<Rightarrow>
     (case Run explain query s d of
        Inl e \<Rightarrow> (Inl (RunError e), d)
      | Inr prevMatches \<Rightarrow>
          (let prevSet = set (map m_Symbol prevMatches)
           in (Inr (map (\<lambda>m. \<lparr>en_Symbol = m_Symbol m, en_StudyKey = st_Key s, en_Date = date,
                               en_PrevDate = prevDate\<rparr>)
                 (filter (\<lambda>m. m_Symbol m \<notin> prevSet) currentMatches)), d))))))"

definition DetectExits ::
    "'e explain \<Rightarrow> 'e query \<Rightarrow> study \<Rightarrow> int \<Rightarrow> int \<Rightarrow> snap_db \<Rightarrow>
     ('e alert_error, alert_exit list) result \<times> snap_db" where
  "DetectExits explain query s date prevDate d =
     (case SetActive date d of
        (Some e, d) \<Rightarrow> (Inl (ActiveError e), d)
      | (None, d) \<Rightarrow>
     (case Run explain query s d of
        Inl e \<Rightarrow> (Inl (RunError e), d)
      | Inr currentMatches \<Rightarrow>
     (case SetActive prevDate d of
        (Some _, d) \<Rightarrow> (Inr [], d)
      | (None, d) \<Rightarrow>
     (case Run explain query s d of
        Inl e \<Rightarrow> (Inl (RunError e), d)
      | Inr prevMatches \<Rightarrow>
          (let currentSet = set (map m_Symbol currentMatches)
           in (Inr (map (\<lambda>m. \<lparr>ex_Symbol = m_Symbol m, ex_StudyKey = st_Key s, ex_Date = date,
                               ex_PrevDate = prevDate\<rparr>)
                 (filter (\<lambda>m. m_Symbol m \<notin> currentSet) prevMatches)), d))))))"

definition DetectChanges ::
    "'e explain \<Rightarrow> 'e query \<Rightarrow> study \<Rightarrow> int \<Rightarrow> int \<Rightarrow> snap_db \<Rightarrow>
     ('e alert_error, alert_entry list \<times> alert_exit list) result \<times> snap_db" where
  "DetectChanges explain query s date prevDate d =
     (case DetectEntries explain query s date prevDate d of
        (Inl e, d) \<Rightarrow> (Inl e, d)
      | (Inr entries, d) \<Rightarrow>
     (case DetectExits explain query s date prevDate d of
        (Inl e, d) \<Rightarrow> (Inl e, d)
      | (Inr exits, d) \<Rightarrow> (Inr (entries, exits), d)))"

section \<open>Selecting a date\<close>

definition at_date :: "int \<Rightarrow> snap_db \<Rightarrow> snap_db" where
  "at_date e d = d\<lparr>sd_activeDate := e\<rparr>"

lemma at_date_simps [simp]:
  "sd_activeDate (at_date e d) = e" "sd_table (at_date e d) = sd_table d"
  "at_date e (at_date f d) = at_date e d" "rows_of (at_date e d) = rows_of d"
  by (simp_all add: at_date_def rows_of_def)

lemma SetActive_stored:
  assumes "HasSnapshot e d = Inr True"
  shows "SetActive e d = (None, at_date e d)" "HasSnapshot e (at_date f d) = Inr True"
  using assms by (auto simp: HasSnapshot_def SetActive_def at_date_def split: option.splits)

lemma SetActive_missing:
  assumes "HasSnapshot e d \<noteq> Inr True"
  shows "snd (SetActive e d) = d" "fst (SetActive e d) \<noteq> None"
  using assms by (auto simp: HasSnapshot_def SetActive_def split: option.splits)

text \<open>
  C37: the alerts account for the whole difference between two stored dates. A study
  runs on both or the detection fails; then the symbols matched now are the symbols
  matched before, less the exits, plus the entries, an entry was not matched before and
  an exit is not matched now, and every alert names the study and the two dates.
  Afterwards the store is left with the \<^emph>\<open>previous\<close> date active.
\<close>

theorem changes_explain_difference:
  assumes "HasSnapshot date d = Inr True" "HasSnapshot prev d = Inr True"
    and "Run explain query s (at_date date d) = Inr now" "Run explain query s (at_date prev d) = Inr before"
  shows "\<exists>entries exits. DetectChanges explain query s date prev d = (Inr (entries, exits), at_date prev d) \<and>
    m_Symbol ` set now = (m_Symbol ` set before - ex_Symbol ` set exits) \<union> en_Symbol ` set entries \<and>
    en_Symbol ` set entries \<inter> m_Symbol ` set before = {} \<and>
    ex_Symbol ` set exits \<subseteq> m_Symbol ` set before - m_Symbol ` set now \<and>
    (\<forall>e \<in> set entries. en_StudyKey e = st_Key s \<and> en_Date e = date \<and> en_PrevDate e = prev) \<and>
    (\<forall>e \<in> set exits. ex_StudyKey e = st_Key s \<and> ex_Date e = date \<and> ex_PrevDate e = prev)"
proof -
  note act = SetActive_stored [OF assms(1)] SetActive_stored [OF assms(2)]
  note act' = SetActive_stored [OF act(2)] SetActive_stored [OF act(4)]
  let ?en = "map (\<lambda>m. \<lparr>en_Symbol = m_Symbol m, en_StudyKey = st_Key s, en_Date = date, en_PrevDate = prev\<rparr>)
      (filter (\<lambda>m. m_Symbol m \<notin> set (map m_Symbol before)) now)"
  let ?ex = "map (\<lambda>m. \<lparr>ex_Symbol = m_Symbol m, ex_StudyKey = st_Key s, ex_Date = date, ex_PrevDate = prev\<rparr>)
      (filter (\<lambda>m. m_Symbol m \<notin> set (map m_Symbol now)) before)"
  have en: "DetectEntries explain query s date prev e = (Inr ?en, at_date prev d)"
    if "e = d \<or> e = at_date prev d" for e
    using that by (auto simp: DetectEntries_def act act' assms(3,4))
  have ex: "DetectExits explain query s date prev (at_date prev d) = (Inr ?ex, at_date prev d)"
    by (simp add: DetectExits_def act act' assms(3,4))
  have "DetectChanges explain query s date prev d = (Inr (?en, ?ex), at_date prev d)"
    using en [of d] ex by (simp add: DetectChanges_def)
  moreover have "en_Symbol ` set ?en = m_Symbol ` set now - m_Symbol ` set before"
    "ex_Symbol ` set ?ex = m_Symbol ` set before - m_Symbol ` set now"
    by (auto simp: image_iff)
  ultimately show ?thesis by (intro exI [of _ ?en] exI [of _ ?ex]) auto
qed

text \<open>Two days of one table, and an engine that returns the symbols of the active date.\<close>

definition day2 :: snap_db where
  "day2 = snd (LoadHistory [priced_row ''BBB'' (Fin 20), priced_row ''CCC'' (Fin 30)] 200 200 day1)"

definition date_rows :: "nat query" where
  "date_rows q date t = Inr (case t of None \<Rightarrow> []
     | Some t \<Rightarrow> map (\<lambda>r. ((case cell ''symbol'' r of Text x \<Rightarrow> x | _ \<Rightarrow> ''''), None, None, None, None))
         (filter (on_date date) (tb_rows t)))"

definition any_study :: study where
  "any_study = plain_study\<lparr>st_Where := ''close > 0''\<rparr>"

lemma day2_reachable: "snap_reachable day2"
  unfolding day2_def by (intro snap_reachable.load_history day1_reachable)

lemma day2_rows: "rows_of day2 = map (make_row 100 100) two_rows @
    map (make_row 200 200) [priced_row ''BBB'' (Fin 20), priced_row ''CCC'' (Fin 30)]"
  using snap_ok_table [OF day1_ok]
  by (auto simp: day2_def load_result day1_ok day1_rows two_rows_def priced_row_def other_dates_def)

lemma day2_table: "\<exists>t. sd_table day2 = Some t \<and> tb_rows t = rows_of day2"
  by (rule snap_ok_table [OF reachable_ok [OF day2_reachable]])

lemma day2_runs:
  "HasSnapshot 100 day2 = Inr True" "HasSnapshot 200 day2 = Inr True"
  "\<exists>ms. Run (\<lambda>_ _ _. None) date_rows any_study (at_date 100 day2) = Inr ms \<and> map m_Symbol ms = [''AAA'', ''BBB'']"
  "\<exists>ms. Run (\<lambda>_ _ _. None) date_rows any_study (at_date 200 day2) = Inr ms \<and> map m_Symbol ms = [''BBB'', ''CCC'']"
proof -
  obtain t where t: "sd_table day2 = Some t" "tb_rows t = rows_of day2" using day2_table by blast
  then show "HasSnapshot 100 day2 = Inr True" "HasSnapshot 200 day2 = Inr True"
    by (simp_all add: HasSnapshot_def count_date_def day2_rows two_rows_def)
  show "\<exists>ms. Run (\<lambda>_ _ _. None) date_rows any_study (at_date 100 day2) = Inr ms \<and> map m_Symbol ms = [''AAA'', ''BBB'']"
    "\<exists>ms. Run (\<lambda>_ _ _. None) date_rows any_study (at_date 200 day2) = Inr ms \<and> map m_Symbol ms = [''BBB'', ''CCC'']"
    using t by (simp_all add: Run_def date_rows_def day2_rows two_rows_def match_of_def priced_row_def)
qed

theorem changes_explain_difference_witness:
  "\<exists>entries exits. DetectChanges (\<lambda>_ _ _. None) date_rows any_study 200 100 day2 =
      (Inr (entries, exits), at_date 100 day2) \<and>
    {''BBB'', ''CCC''} = ({''AAA'', ''BBB''} - ex_Symbol ` set exits) \<union> en_Symbol ` set entries"
proof -
  from day2_runs(3) obtain a where
    a: "Run (\<lambda>_ _ _. None) date_rows any_study (at_date 100 day2) = Inr a" "map m_Symbol a = [''AAA'', ''BBB'']"
    by (elim exE conjE)
  from day2_runs(4) obtain b where
    b: "Run (\<lambda>_ _ _. None) date_rows any_study (at_date 200 day2) = Inr b" "map m_Symbol b = [''BBB'', ''CCC'']"
    by (elim exE conjE)
  have "m_Symbol ` set a = {''AAA'', ''BBB''}" "m_Symbol ` set b = {''BBB'', ''CCC''}"
    using arg_cong [OF a(2), of set] arg_cong [OF b(2), of set] by simp_all
  with changes_explain_difference [OF day2_runs(2,1) b(1) a(1)] show ?thesis by auto
qed

end
