(* ===== verification/Backtest.thy ===== *)
theory Backtest
  imports Alerts
begin

text \<open>
  \<open>internal/backtest/backtest.go\<close>: a study replayed over the stored dates, one trade per
  match, and the summary of the trades. Every step that fails is skipped.
\<close>

section \<open>The engine\<close>

record trade =
  bt_Symbol :: string
  bt_Date :: int
  bt_EntryPx :: float64
  bt_ExitPx :: float64
  bt_Return :: float64
  bt_HoldDays :: int

record summary =
  bs_StudyKey :: string
  bs_StartDate :: int
  bs_EndDate :: int
  bs_TotalTrades :: nat
  bs_WinningTrades :: nat
  bs_LosingTrades :: nat
  bs_WinRate :: float64
  bs_AvgReturn :: float64
  bs_TotalReturn :: float64
  bs_Results :: "trade list"

text \<open>Go's integer division truncates toward zero, and its \<open>int\<close> and \<open>int64\<close> wrap.\<close>

definition quot_day :: "int \<Rightarrow> int" where
  "quot_day n = (if n < 0 then - ((- n) div 86400) else n div 86400)"

definition calculateReturn :: "string \<Rightarrow> int \<Rightarrow> int \<Rightarrow> snap_db \<Rightarrow> (snap_error, trade) result" where
  "calculateReturn symbol entryDate holdDays d =
     bind_res (SymbolClose symbol entryDate d) (\<lambda>entryPx.
     bind_res (NearestDate (wrap64 (entryDate + wrap64 (holdDays * 86400))) d) (\<lambda>actualExitDate.
     bind_res (SymbolClose symbol actualExitDate d) (\<lambda>exitPx.
       Inr \<lparr>bt_Symbol = symbol, bt_Date = entryDate, bt_EntryPx = entryPx, bt_ExitPx = exitPx,
            bt_Return = fdiv (fsub exitPx entryPx) entryPx,
            bt_HoldDays = quot_day (wrap64 (actualExitDate - entryDate))\<rparr>)))"

definition ok_values :: "('e, 'a) result list \<Rightarrow> 'a list" where
  "ok_values rs = List.map_filter (\<lambda>r. case r of Inl _ \<Rightarrow> None | Inr x \<Rightarrow> Some x) rs"

text \<open>One turn of the loop over the dates.\<close>

definition backtest_date ::
    "'e explain \<Rightarrow> 'e query \<Rightarrow> study \<Rightarrow> int \<Rightarrow> int \<Rightarrow> int \<Rightarrow> trade list \<times> snap_db \<Rightarrow> int \<Rightarrow> trade list \<times> snap_db" where
  "backtest_date explain query s startDate endDate holdDays acc date =
     (case acc of (results, d) \<Rightarrow>
        if date < startDate \<or> date > endDate then (results, d)
        else (case SetActive date d of
          (Some _, d) \<Rightarrow> (results, d)
        | (None, d) \<Rightarrow> (case Run explain query s d of
            Inl _ \<Rightarrow> (results, d)
          | Inr matches \<Rightarrow>
              (results @ ok_values (map (\<lambda>m. calculateReturn (m_Symbol m) date holdDays d) matches), d))))"

definition is_win :: "trade \<Rightarrow> bool" where
  "is_win r \<longleftrightarrow> flt (lit 0) (bt_Return r)"

definition calculateSummary :: "summary \<Rightarrow> summary" where
  "calculateSummary s =
     (let rs = bs_Results s;
          s = s\<lparr>bs_TotalTrades := length rs\<rparr>
      in if rs = [] then s
         else let totalReturn = foldl (\<lambda>t r. fadd t (bt_Return r)) (lit 0) rs;
                  wins = foldl (\<lambda>n r. if is_win r then n + 1 else n) (bs_WinningTrades s) rs;
                  losses = foldl (\<lambda>n r. if is_win r then n else n + 1) (bs_LosingTrades s) rs
              in s\<lparr>bs_WinningTrades := wins, bs_LosingTrades := losses,
                   bs_AvgReturn := fdiv totalReturn (of_int64 (int (length rs))),
                   bs_WinRate := fdiv (of_int64 (int wins)) (of_int64 (int (length rs))),
                   bs_TotalReturn := totalReturn\<rparr>)"

definition RunBacktest ::
    "'e explain \<Rightarrow> 'e query \<Rightarrow> study \<Rightarrow> int \<Rightarrow> int \<Rightarrow> int \<Rightarrow> snap_db \<Rightarrow> (snap_error, summary) result \<times> snap_db" where
  "RunBacktest explain query s startDate endDate holdDays d =
     (case ListSnapshots d of
        Inl e \<Rightarrow> (Inl e, d)
      | Inr dates \<Rightarrow>
          (let (results, d) = foldl (backtest_date explain query s startDate endDate holdDays) ([], d) dates
           in (Inr (calculateSummary
                 \<lparr>bs_StudyKey = st_Key s, bs_StartDate = startDate, bs_EndDate = endDate,
                  bs_TotalTrades = 0, bs_WinningTrades = 0, bs_LosingTrades = 0, bs_WinRate = Zero False,
                  bs_AvgReturn = Zero False, bs_TotalReturn = Zero False, bs_Results = results\<rparr>), d)))"

definition RunPointInTime ::
    "'e explain \<Rightarrow> 'e query \<Rightarrow> study \<Rightarrow> int \<Rightarrow> snap_db \<Rightarrow> ('e alert_error, match list) result \<times> snap_db" where
  "RunPointInTime explain query s date d =
     (case SetActive date d of
        (Some e, d) \<Rightarrow> (Inl (ActiveError e), d)
      | (None, d) \<Rightarrow> (case Run explain query s d of
          Inl e \<Rightarrow> (Inl (RunError e), d)
        | Inr ms \<Rightarrow> (Inr ms, d)))"

section \<open>What the engine reports\<close>

text \<open>The dates of the range, and the trades of one date, on the table as it stands.\<close>

definition in_range :: "int \<Rightarrow> int \<Rightarrow> int \<Rightarrow> bool" where
  "in_range a b date \<longleftrightarrow> a \<le> date \<and> date \<le> b"

definition trades_on :: "'e explain \<Rightarrow> 'e query \<Rightarrow> study \<Rightarrow> int \<Rightarrow> snap_db \<Rightarrow> int \<Rightarrow> trade list" where
  "trades_on explain query s holdDays d date =
     (case Run explain query s (at_date date d) of
        Inl _ \<Rightarrow> []
      | Inr matches \<Rightarrow> ok_values (map (\<lambda>m. calculateReturn (m_Symbol m) date holdDays d) matches))"

lemma calculateReturn_at_date [simp]:
  "calculateReturn tick e h (at_date f d) = calculateReturn tick e h d"
  by (simp add: calculateReturn_def SymbolClose_def NearestDate_def)

lemma backtest_dates:
  assumes "\<forall>x \<in> set dates. HasSnapshot x d = Inr True"
  shows "\<exists>f. foldl (backtest_date explain query s a b h) (rs, at_date e d) dates =
    (rs @ concat (map (trades_on explain query s h d) (filter (in_range a b) dates)), at_date f d)"
  using assms
proof (induction dates arbitrary: rs e)
  case Nil
  then show ?case by auto
next
  case (Cons x xs)
  let ?go = "foldl (backtest_date explain query s a b h)"
  show ?case
  proof (cases "in_range a b x")
    case False
    then have "?go (rs, at_date e d) (x # xs) = ?go (rs, at_date e d) xs"
      by (auto simp: backtest_date_def in_range_def)
    with Cons False show ?thesis by simp
  next
    case True
    have "HasSnapshot x (at_date e d) = Inr True"
      using Cons.prems SetActive_stored(2) by simp
    from SetActive_stored(1) [OF this]
    have "?go (rs, at_date e d) (x # xs) = ?go (rs @ trades_on explain query s h d x, at_date x d) xs"
      using True by (auto simp: backtest_date_def in_range_def trades_on_def split: sum.split)
    then show ?thesis
      using Cons.IH [of "rs @ trades_on explain query s h d x" x] Cons.prems True by simp
  qed
qed

lemma at_date_self: "at_date (sd_activeDate d) d = d"
  by (simp add: at_date_def)

lemma foldl_wins: "foldl (\<lambda>n r. if is_win r then n + 1 else n) k rs = k + length (filter is_win rs)"
  by (induction rs arbitrary: k) auto

lemma foldl_losses: "foldl (\<lambda>n r. if is_win r then n else n + 1) k rs = k + length (filter (\<lambda>r. \<not> is_win r) rs)"
  by (induction rs arbitrary: k) auto

text \<open>
  The trade of one symbol spelled out: entered at its close of the date, left at its close
  of the first stored date not before the end of the holding period, which is computed in
  64 bits.
\<close>

definition first_stored :: "snap_db \<Rightarrow> int \<Rightarrow> int \<Rightarrow> bool" where
  "first_stored d from_date e \<longleftrightarrow>
     e \<in> set (listed d) \<and> from_date \<le> e \<and> (\<forall>x \<in> set (listed d). from_date \<le> x \<longrightarrow> e \<le> x)"

definition is_trade :: "snap_db \<Rightarrow> int \<Rightarrow> int \<Rightarrow> string \<Rightarrow> trade \<Rightarrow> bool" where
  "is_trade d h date tick t \<longleftrightarrow> (\<exists>entry out exit.
     SymbolClose tick date d = Inr entry \<and>
     first_stored d (wrap64 (date + wrap64 (h * 86400))) out \<and> SymbolClose tick out d = Inr exit \<and>
     t = \<lparr>bt_Symbol = tick, bt_Date = date, bt_EntryPx = entry, bt_ExitPx = exit,
          bt_Return = fdiv (fsub exit entry) entry, bt_HoldDays = quot_day (wrap64 (out - date))\<rparr>)"

lemma calculateReturn_exact:
  assumes "snap_reachable d"
  shows "calculateReturn tick date h d = Inr t \<longleftrightarrow> is_trade d h date tick t"
proof -
  have n: "NearestDate a d = Inr e \<longleftrightarrow> first_stored d a e" for a e
    using nearest_date_exact [OF assms, of a e] by (simp add: first_stored_def)
  show ?thesis
    unfolding is_trade_def calculateReturn_def bind_res_eq_Inr_iff n by (auto simp: eq_commute)
qed

lemma mem_ok_values: "t \<in> set (ok_values rs) \<longleftrightarrow> Inr t \<in> set rs"
  by (force simp: ok_values_def List.map_filter_def split: sum.splits)

lemma mem_trades_on:
  assumes "snap_reachable d"
  shows "t \<in> set (trades_on explain query s h d date) \<longleftrightarrow>
    (\<exists>ms. \<exists>m \<in> set ms. Run explain query s (at_date date d) = Inr ms \<and> is_trade d h date (m_Symbol m) t)"
  using calculateReturn_exact [OF assms]
  by (force simp: trades_on_def mem_ok_values split: sum.splits)

lemma calculateReturn_date: "calculateReturn tick date h d = Inr t \<Longrightarrow> bt_Date t = date"
  by (auto simp: calculateReturn_def bind_res_eq_Inr_iff)

lemma trade_dates: "t \<in> set (trades_on explain query s h d date) \<Longrightarrow> bt_Date t = date"
  by (auto simp: trades_on_def mem_ok_values split: sum.splits dest!: calculateReturn_date [OF sym])

lemma newest_first:
  "sorted_wrt (\<lambda>x y. y \<le> x) dates \<Longrightarrow>
     sorted_wrt (\<lambda>t u. bt_Date u \<le> bt_Date t) (concat (map (trades_on explain query s h d) dates))"
proof (induction dates)
  case (Cons x xs)
  have "sorted_wrt (\<lambda>t u. bt_Date u \<le> bt_Date t) (trades_on explain query s h d x)"
    by (rule sorted_wrt_mono_rel [where P = "\<lambda>t u. True"]) (auto dest!: trade_dates simp: sorted_wrt_true)
  with Cons show ?case by (auto simp: sorted_wrt_append dest!: trade_dates)
qed simp

text \<open>
  C27: a backtest reports exactly the trades it could price. On any reachable table it
  returns a summary whose results are, newest date first and in the order of the matches
  within a date, the trades of every stored date of the range: a trade is in them exactly
  if the study runs on its date and matches its symbol there, and it is entered at the
  symbol's close of that date, left at the symbol's close of the first stored date not
  before the end of the holding period (the 64-bit sum of the code) and returns the
  change over the entry price. Dates on which the study does not run, and symbols without
  one of these prices or dates, give no trade and no error. Every trade is a win or a
  loss, and the counts, the total and the averages say so.
\<close>

theorem backtest_reports_exactly:
  assumes "snap_reachable d"
  shows "\<exists>sm e. RunBacktest explain query s a b h d = (Inr sm, at_date e d) \<and>
    bs_Results sm = concat (map (trades_on explain query s h d) (filter (in_range a b) (listed d))) \<and>
    (\<forall>t. t \<in> set (bs_Results sm) \<longleftrightarrow>
      (\<exists>date ms m entry out exit. date \<in> set (listed d) \<and> a \<le> date \<and> date \<le> b \<and>
        Run explain query s (at_date date d) = Inr ms \<and> m \<in> set ms \<and>
        SymbolClose (m_Symbol m) date d = Inr entry \<and>
        first_stored d (wrap64 (date + wrap64 (h * 86400))) out \<and> SymbolClose (m_Symbol m) out d = Inr exit \<and>
        t = \<lparr>bt_Symbol = m_Symbol m, bt_Date = date, bt_EntryPx = entry, bt_ExitPx = exit,
             bt_Return = fdiv (fsub exit entry) entry, bt_HoldDays = quot_day (wrap64 (out - date))\<rparr>)) \<and>
    sorted_wrt (\<lambda>t u. bt_Date u \<le> bt_Date t) (bs_Results sm) \<and>
    bs_TotalTrades sm = length (bs_Results sm) \<and>
    bs_WinningTrades sm = length (filter (\<lambda>t. flt (lit 0) (bt_Return t)) (bs_Results sm)) \<and>
    bs_WinningTrades sm + bs_LosingTrades sm = bs_TotalTrades sm \<and>
    (bs_Results sm \<noteq> [] \<longrightarrow>
      bs_TotalReturn sm = foldl (\<lambda>x t. fadd x (bt_Return t)) (lit 0) (bs_Results sm) \<and>
      bs_AvgReturn sm = fdiv (bs_TotalReturn sm) (of_int64 (int (bs_TotalTrades sm))) \<and>
      bs_WinRate sm = fdiv (of_int64 (int (bs_WinningTrades sm))) (of_int64 (int (bs_TotalTrades sm))))"
proof -
  have sound: "ListSnapshots d = Inr (listed d)" "\<forall>x \<in> set (listed d). HasSnapshot x d = Inr True"
    using listed_consistent [OF assms] by auto
  let ?ds = "filter (in_range a b) (listed d)"
  let ?rs = "concat (map (trades_on explain query s h d) ?ds)"
  from backtest_dates [OF sound(2), of explain query s a b h "[]" "sd_activeDate d"]
  obtain f where f: "foldl (backtest_date explain query s a b h) ([], d) (listed d) = (?rs, at_date f d)"
    by (auto simp: at_date_self)
  have mem: "t \<in> set ?rs \<longleftrightarrow>
      (\<exists>date ms m entry out exit. date \<in> set (listed d) \<and> a \<le> date \<and> date \<le> b \<and>
        Run explain query s (at_date date d) = Inr ms \<and> m \<in> set ms \<and>
        SymbolClose (m_Symbol m) date d = Inr entry \<and>
        first_stored d (wrap64 (date + wrap64 (h * 86400))) out \<and> SymbolClose (m_Symbol m) out d = Inr exit \<and>
        t = \<lparr>bt_Symbol = m_Symbol m, bt_Date = date, bt_EntryPx = entry, bt_ExitPx = exit,
             bt_Return = fdiv (fsub exit entry) entry, bt_HoldDays = quot_day (wrap64 (out - date))\<rparr>)" for t
    by (simp add: mem_trades_on [OF assms] in_range_def is_trade_def) blast
  have order: "sorted_wrt (\<lambda>t u. bt_Date u \<le> bt_Date t) ?rs"
    by (rule newest_first) (auto simp: listed_def sorted_wrt_rev intro: sorted_wrt_filter)
  have "length (filter is_win ?rs) + length (filter (\<lambda>r. \<not> is_win r) ?rs) = length ?rs"
    by (rule sum_length_filter_compl)
  note sum = RunBacktest_def sound(1) f calculateSummary_def Let_def foldl_wins foldl_losses this
  have win: "(\<lambda>t. flt (lit 0) (bt_Return t)) = is_win" by (simp add: is_win_def fun_eq_iff)
  obtain sm where sm: "RunBacktest explain query s a b h d = (Inr sm, at_date f d)" "bs_Results sm = ?rs"
    by (simp add: sum split: if_splits)
  have counts: "bs_TotalTrades sm = length ?rs \<and> bs_WinningTrades sm = length (filter is_win ?rs) \<and>
      bs_WinningTrades sm + bs_LosingTrades sm = bs_TotalTrades sm \<and>
      (?rs \<noteq> [] \<longrightarrow> bs_TotalReturn sm = foldl (\<lambda>x t. fadd x (bt_Return t)) (lit 0) ?rs \<and>
        bs_AvgReturn sm = fdiv (bs_TotalReturn sm) (of_int64 (int (bs_TotalTrades sm))) \<and>
        bs_WinRate sm = fdiv (of_int64 (int (bs_WinningTrades sm))) (of_int64 (int (bs_TotalTrades sm))))"
    using sm(1) by (auto simp: sum)
  show ?thesis unfolding win using sm(1) mem order counts unfolding sm(2) [symmetric] by blast
qed

theorem backtest_reports_exactly_witness:
  "\<exists>sm e. RunBacktest (\<lambda>_ _ _. None) date_rows any_study 0 300 1 day2 = (Inr sm, at_date e day2) \<and>
    sorted_wrt (\<lambda>t u. bt_Date u \<le> bt_Date t) (bs_Results sm) \<and>
    bs_WinningTrades sm + bs_LosingTrades sm = bs_TotalTrades sm"
  using backtest_reports_exactly [OF day2_reachable, of "\<lambda>_ _ _. None" date_rows any_study 0 300 1] by blast

text \<open>The request may ask for any number of days: the end of a long enough hold wraps to before its start.\<close>

theorem long_hold_ends_before_it_begins: "wrap64 (100 + wrap64 (106751991167301 * 86400)) < 100"
  by (simp add: wrap64_def)

end
