(* ===== verification/Roles.thy ===== *)
theory Roles
  imports Database Keyed_Store
begin

text \<open>
  \<open>internal/roles/roles.go\<close>: roles with their capabilities, limits and default
  permissions, and the role store over the table \<open>roles\<close>. Three columns hold JSON text;
  the encoder and decoder of \<open>encoding/json\<close> for them are arguments (a codec). The
  clock is the argument \<open>now\<close>.
\<close>

section \<open>Data\<close>

record limits =
  APICallsPerMinute :: int
  APICallsPerHour :: int
  APICallsPerDay :: int
  MaxStudies :: int
  MaxSavedResults :: int
  MaxGroups :: int
  MaxGroupMembers :: int
  ReplayDays :: int
  MaxSymbolsPerScan :: int
  ExportMaxResults :: int

record permissions =
  p_Owner :: int
  p_Group :: int
  p_All :: int

record role =
  ro_ID :: string
  ro_Name :: string
  ro_Description :: string
  ro_Capabilities :: "string list"
  ro_Limits :: limits
  ro_DefaultPermissions :: permissions
  ro_CanManageUsers :: bool
  ro_CanManageGroups :: bool
  ro_BypassThrottling :: bool
  ro_CreatedAt :: int
  ro_UpdatedAt :: int

record role_row =
  rl_id :: string
  rl_name :: string
  rl_description :: string
  rl_capabilities_json :: string
  rl_limits_json :: string
  rl_default_permissions_json :: string
  rl_can_manage_users :: bool
  rl_can_manage_groups :: bool
  rl_bypass_throttling :: bool
  rl_created_at :: int
  rl_updated_at :: int

text \<open>\<open>json.Marshal\<close> and \<open>json.Unmarshal\<close> of the three columns.\<close>

record codec =
  enc_caps :: "string list \<Rightarrow> string"
  dec_caps :: "string \<Rightarrow> string list option"
  enc_limits :: "limits \<Rightarrow> string"
  dec_limits :: "string \<Rightarrow> limits option"
  enc_perms :: "permissions \<Rightarrow> string"
  dec_perms :: "string \<Rightarrow> permissions option"

definition zero_limits :: limits where
  "zero_limits = \<lparr>APICallsPerMinute = 0, APICallsPerHour = 0, APICallsPerDay = 0, MaxStudies = 0,
     MaxSavedResults = 0, MaxGroups = 0, MaxGroupMembers = 0, ReplayDays = 0, MaxSymbolsPerScan = 0,
     ExportMaxResults = 0\<rparr>"

section \<open>The store\<close>

type_synonym role_table = "role_row list"

definition role_row_of :: "codec \<Rightarrow> role \<Rightarrow> role_row" where
  "role_row_of c r = \<lparr>rl_id = ro_ID r, rl_name = ro_Name r, rl_description = ro_Description r,
     rl_capabilities_json = enc_caps c (ro_Capabilities r), rl_limits_json = enc_limits c (ro_Limits r),
     rl_default_permissions_json = enc_perms c (ro_DefaultPermissions r),
     rl_can_manage_users = ro_CanManageUsers r, rl_can_manage_groups = ro_CanManageGroups r,
     rl_bypass_throttling = ro_BypassThrottling r, rl_created_at = ro_CreatedAt r,
     rl_updated_at = ro_UpdatedAt r\<rparr>"

text \<open>\<open>Get\<close> replaces a column it cannot decode by a default, \<open>List\<close> by the zero value.\<close>

definition role_with :: "codec \<Rightarrow> permissions \<Rightarrow> role_row \<Rightarrow> role" where
  "role_with c perms r = \<lparr>ro_ID = rl_id r, ro_Name = rl_name r, ro_Description = rl_description r,
     ro_Capabilities = (case dec_caps c (rl_capabilities_json r) of None \<Rightarrow> [] | Some x \<Rightarrow> x),
     ro_Limits = (case dec_limits c (rl_limits_json r) of None \<Rightarrow> zero_limits | Some x \<Rightarrow> x),
     ro_DefaultPermissions = (case dec_perms c (rl_default_permissions_json r) of None \<Rightarrow> perms | Some x \<Rightarrow> x),
     ro_CanManageUsers = rl_can_manage_users r, ro_CanManageGroups = rl_can_manage_groups r,
     ro_BypassThrottling = rl_bypass_throttling r, ro_CreatedAt = rl_created_at r,
     ro_UpdatedAt = rl_updated_at r\<rparr>"

definition Get :: "codec \<Rightarrow> string \<Rightarrow> role_table \<Rightarrow> role option" where
  "Get c i t = map_option (role_with c \<lparr>p_Owner = 7, p_Group = 0, p_All = 0\<rparr>) (find (\<lambda>r. rl_id r = i) t)"

definition List :: "codec \<Rightarrow> role_table \<Rightarrow> role list" where
  "List c t = map (role_with c \<lparr>p_Owner = 0, p_Group = 0, p_All = 0\<rparr>)
     (sort_stable (\<lambda>a b. text_less (rl_name a) (rl_name b)) t)"

definition insert_role :: "role_row \<Rightarrow> role_table \<Rightarrow> (sql_error, role_table) result" where
  "insert_role r t = (if list_ex (\<lambda>x. rl_id x = rl_id r) t then Inl UniqueViolation else Inr (t @ [r]))"

definition Create :: "codec \<Rightarrow> int \<Rightarrow> role \<Rightarrow> role_table \<Rightarrow> (sql_error, role_table) result" where
  "Create c now r t = insert_role (role_row_of c (r\<lparr>ro_CreatedAt := now, ro_UpdatedAt := now\<rparr>)) t"

definition Update :: "codec \<Rightarrow> int \<Rightarrow> role \<Rightarrow> role_table \<Rightarrow> role_table" where
  "Update c now r t =
     (let r = r\<lparr>ro_UpdatedAt := now\<rparr>
      in map (\<lambda>x. if rl_id x = ro_ID r then (role_row_of c r)\<lparr>rl_created_at := rl_created_at x\<rparr> else x) t)"

definition Delete :: "string \<Rightarrow> role_table \<Rightarrow> role_table" where
  "Delete i t = filter (\<lambda>r. rl_id r \<noteq> i) t"

definition HasCapability :: "codec \<Rightarrow> string \<Rightarrow> string \<Rightarrow> role_table \<Rightarrow> bool" where
  "HasCapability c roleID capability t =
     (case Get c roleID t of None \<Rightarrow> False | Some r \<Rightarrow> list_ex (\<lambda>x. x = capability) (ro_Capabilities r))"

text \<open>The loop of \<open>Bootstrap\<close> stops at the first error and keeps what it inserted.\<close>

fun bootstrap_rows :: "codec \<Rightarrow> int \<Rightarrow> role list \<Rightarrow> role_table \<Rightarrow> sql_error option \<times> role_table" where
  "bootstrap_rows c now [] t = (None, t)"
| "bootstrap_rows c now (r # rs) t =
     (case Create c now r t of Inl e \<Rightarrow> (Some e, t) | Inr t \<Rightarrow> bootstrap_rows c now rs t)"

datatype bootstrap_error = ReadRoles | ParseRoles | InsertRole sql_error

text \<open>The file: \<open>None\<close> when it cannot be read, \<open>Some None\<close> when it does not parse.\<close>

definition Bootstrap ::
    "codec \<Rightarrow> int \<Rightarrow> role list option option \<Rightarrow> role_table \<Rightarrow> bootstrap_error option \<times> role_table" where
  "Bootstrap c now file t =
     (if 0 < length t then (None, t)
      else case file of None \<Rightarrow> (Some ReadRoles, t) | Some None \<Rightarrow> (Some ParseRoles, t)
        | Some (Some rs) \<Rightarrow> (case bootstrap_rows c now rs t of (e, t) \<Rightarrow> (map_option InsertRole e, t)))"

definition ImportJSON :: "codec \<Rightarrow> int \<Rightarrow> role list \<Rightarrow> role_table \<Rightarrow> nat \<times> role_table" where
  "ImportJSON c now rs t =
     foldl (\<lambda>(n, t) r. case Create c now r t of Inl _ \<Rightarrow> (n, t) | Inr t \<Rightarrow> (n + 1, t)) (0, t) rs"

section \<open>The store is a map\<close>

text \<open>What the store relies on in \<open>encoding/json\<close>: decoding gives back what was encoded.\<close>

definition codec_ok :: "codec \<Rightarrow> bool" where
  "codec_ok c \<longleftrightarrow> (\<forall>x. dec_caps c (enc_caps c x) = Some x) \<and> (\<forall>x. dec_limits c (enc_limits c x) = Some x) \<and>
     (\<forall>x. dec_perms c (enc_perms c x) = Some x)"

lemma role_with_row: "codec_ok c \<Longrightarrow> role_with c p (role_row_of c r) = r"
  by (simp add: codec_ok_def role_with_def role_row_of_def)

lemma Get_append: "Get c i (t @ [r]) = (case Get c i t of None \<Rightarrow> if rl_id r = i then Get c i [r] else None | x \<Rightarrow> x)"
  by (simp add: Get_def find_append split: option.split)

lemma Get_None_iff: "Get c i t = None \<longleftrightarrow> i \<notin> rl_id ` set t"
  by (auto simp: Get_def find_None_iff)

lemma find_delete: "find (\<lambda>r. rl_id r = j) (Delete i t) = (if j = i then None else find (\<lambda>r. rl_id r = j) t)"
  by (induction t) (auto simp: Delete_def)

lemma find_map_id:
  "(\<And>x. rl_id (f x) = rl_id x) \<Longrightarrow> find (\<lambda>r. rl_id r = j) (map f t) = map_option f (find (\<lambda>r. rl_id r = j) t)"
  by (induction t) auto

datatype role_op = CreateOp int role | UpdateOp int role | DeleteOp string

definition exec_role :: "codec \<Rightarrow> role_table \<Rightarrow> role_op \<Rightarrow> role_table" where
  "exec_role c t e = (case e of
     CreateOp now r \<Rightarrow> (case Create c now r t of Inl _ \<Rightarrow> t | Inr t \<Rightarrow> t)
   | UpdateOp now r \<Rightarrow> Update c now r t
   | DeleteOp i \<Rightarrow> Delete i t)"

definition role_spec :: "(string \<Rightarrow> role option) \<Rightarrow> role_op \<Rightarrow> string \<Rightarrow> role option" where
  "role_spec m e = (case e of
     CreateOp now r \<Rightarrow>
       (if m (ro_ID r) = None then m(ro_ID r \<mapsto> r\<lparr>ro_CreatedAt := now, ro_UpdatedAt := now\<rparr>) else m)
   | UpdateOp now r \<Rightarrow>
       (case m (ro_ID r) of None \<Rightarrow> m
        | Some old \<Rightarrow> m(ro_ID r \<mapsto> r\<lparr>ro_CreatedAt := ro_CreatedAt old, ro_UpdatedAt := now\<rparr>))
   | DeleteOp i \<Rightarrow> m(i := None))"

lemma exec_role_spec:
  assumes "codec_ok c"
  shows "(\<lambda>i. Get c i (exec_role c t e)) = role_spec (\<lambda>i. Get c i t) e"
proof (rule ext)
  fix i
  show "Get c i (exec_role c t e) = role_spec (\<lambda>i. Get c i t) e i"
  proof (cases e)
    case (CreateOp now r)
    let ?r = "r\<lparr>ro_CreatedAt := now, ro_UpdatedAt := now\<rparr>"
    have one: "Get c i [role_row_of c ?r] = (if i = ro_ID r then Some ?r else None)"
      by (simp add: Get_def role_with_row assms) (simp add: role_row_of_def)
    have id: "rl_id (role_row_of c ?r) = ro_ID r" by (simp add: role_row_of_def)
    have dup: "list_ex (\<lambda>x. rl_id x = ro_ID r) t \<longleftrightarrow> Get c (ro_ID r) t \<noteq> None"
      by (force simp: Get_None_iff list_ex_iff)
    show ?thesis
      by (auto simp: CreateOp exec_role_def role_spec_def Create_def insert_role_def id dup Get_append one
          split: option.split)
  next
    case (UpdateOp now r)
    let ?f = "\<lambda>x. if rl_id x = ro_ID r
        then (role_row_of c (r\<lparr>ro_UpdatedAt := now\<rparr>))\<lparr>rl_created_at := rl_created_at x\<rparr> else x"
    have f: "find (\<lambda>r. rl_id r = j) (map ?f t) = map_option ?f (find (\<lambda>r. rl_id r = j) t)" for j
      by (rule find_map_id) (simp add: role_row_of_def)
    have same: "role_with c p (?f x) = r\<lparr>ro_CreatedAt := rl_created_at x, ro_UpdatedAt := now\<rparr>"
      if "rl_id x = ro_ID r" for x p
      using that assms by (simp add: role_with_def role_row_of_def codec_ok_def)
    have other: "?f x = x" if "rl_id x \<noteq> ro_ID r" for x using that by simp
    have "Get c i (exec_role c t e) = map_option (\<lambda>x. role_with c \<lparr>p_Owner = 7, p_Group = 0, p_All = 0\<rparr> (?f x))
        (find (\<lambda>r. rl_id r = i) t)"
      by (simp add: UpdateOp exec_role_def Update_def Get_def f option.map_comp o_def)
    also have "\<dots> = role_spec (\<lambda>i. Get c i t) e i"
    proof (cases "find (\<lambda>r. rl_id r = i) t")
      case None
      then show ?thesis by (auto simp: UpdateOp role_spec_def Get_def split: option.split)
    next
      case (Some x)
      then have "rl_id x = i" using find_SomeD by fastforce
      then show ?thesis
        using Some same [of x] other [of x]
        by (cases "i = ro_ID r") (auto simp: UpdateOp role_spec_def Get_def role_with_def split: option.split)
    qed
    finally show ?thesis .
  next
    case (DeleteOp j)
    then show ?thesis by (simp add: exec_role_def role_spec_def Get_def find_delete)
  qed
qed

text \<open>
  C34: the role store is a map from identifiers to roles. After any sequence of creations,
  updates and deletions, looking a role up gives what the specification gives: a creation
  never overwrites, an update changes an existing role only and keeps its creation time,
  and everything but the two time stamps comes back as it was stored.
\<close>

theorem role_store_refines_map:
  assumes "codec_ok c"
  shows "(\<lambda>i. Get c i (foldl (exec_role c) t es)) = foldl role_spec (\<lambda>i. Get c i t) es"
proof (induction es arbitrary: t)
  case Nil
  then show ?case by simp
next
  case (Cons e es)
  then show ?case by (simp add: exec_role_spec [OF assms])
qed


section \<open>A concrete codec\<close>

text \<open>Lists of strings with every byte marked and every string ended; integers in unary.\<close>

definition enc_strings :: "string list \<Rightarrow> string" where
  "enc_strings ws = concat (map (\<lambda>w. concat (map (\<lambda>c. [CHR ''x'', c]) w) @ [CHR '';'']) ws)"

fun dec_strings :: "string \<Rightarrow> string \<Rightarrow> string list option" where
  "dec_strings w [] = (if w = [] then Some [] else None)"
| "dec_strings w (m # s) =
     (if m = CHR '';'' then map_option (\<lambda>ws. w # ws) (dec_strings [] s)
      else (case s of [] \<Rightarrow> None | c # s \<Rightarrow> dec_strings (w @ [c]) s))"

lemma dec_marked: "dec_strings v (concat (map (\<lambda>c. [CHR ''x'', c]) w) @ s) = dec_strings (v @ w) s"
  by (induction w arbitrary: v) auto

lemma dec_enc_strings: "dec_strings [] (enc_strings ws) = Some ws"
  by (induction ws) (simp_all add: enc_strings_def dec_marked)

definition unary :: "int \<Rightarrow> string" where
  "unary i = (if i < 0 then replicate (nat (- i)) (CHR ''-'') else replicate (nat i) (CHR ''+''))"

definition of_unary :: "string \<Rightarrow> int" where
  "of_unary s = (if CHR ''-'' \<in> set s then - int (length s) else int (length s))"

lemma of_unary [simp]: "of_unary (unary i) = i"
  by (auto simp: unary_def of_unary_def)

definition plain_codec :: codec where
  "plain_codec = \<lparr>enc_caps = enc_strings, dec_caps = dec_strings [],
     enc_limits = (\<lambda>l. enc_strings (map unary [APICallsPerMinute l, APICallsPerHour l, APICallsPerDay l,
       MaxStudies l, MaxSavedResults l, MaxGroups l, MaxGroupMembers l, ReplayDays l, MaxSymbolsPerScan l,
       ExportMaxResults l])),
     dec_limits = (\<lambda>s. case map_option (map of_unary) (dec_strings [] s) of
       Some [a, b, c, d, e, f, g, h, i, j] \<Rightarrow>
         Some \<lparr>APICallsPerMinute = a, APICallsPerHour = b, APICallsPerDay = c, MaxStudies = d,
           MaxSavedResults = e, MaxGroups = f, MaxGroupMembers = g, ReplayDays = h,
           MaxSymbolsPerScan = i, ExportMaxResults = j\<rparr>
     | _ \<Rightarrow> None),
     enc_perms = (\<lambda>p. enc_strings (map unary [p_Owner p, p_Group p, p_All p])),
     dec_perms = (\<lambda>s. case map_option (map of_unary) (dec_strings [] s) of
       Some [a, b, c] \<Rightarrow> Some \<lparr>p_Owner = a, p_Group = b, p_All = c\<rparr> | _ \<Rightarrow> None)\<rparr>"

lemma plain_codec_ok: "codec_ok plain_codec"
  by (simp add: codec_ok_def plain_codec_def dec_enc_strings)

definition viewer :: role where
  "viewer = \<lparr>ro_ID = ''viewer'', ro_Name = ''Viewer'', ro_Description = '''', ro_Capabilities = [''scan''],
     ro_Limits = zero_limits\<lparr>APICallsPerMinute := 2, APICallsPerHour := 3, APICallsPerDay := 100\<rparr>,
     ro_DefaultPermissions = \<lparr>p_Owner = 7, p_Group = 0, p_All = 0\<rparr>, ro_CanManageUsers = False,
     ro_CanManageGroups = False, ro_BypassThrottling = False, ro_CreatedAt = 0, ro_UpdatedAt = 0\<rparr>"

theorem role_store_refines_map_witness:
  "Get plain_codec ''viewer''
     (foldl (exec_role plain_codec) [] [CreateOp 5 viewer, UpdateOp 9 (viewer\<lparr>ro_Name := ''Reader''\<rparr>)]) =
   Some (viewer\<lparr>ro_Name := ''Reader'', ro_CreatedAt := 5, ro_UpdatedAt := 9\<rparr>)"
  using fun_cong [OF role_store_refines_map [OF plain_codec_ok, of "[]"
      "[CreateOp 5 viewer, UpdateOp 9 (viewer\<lparr>ro_Name := ''Reader''\<rparr>)]"], of "''viewer''"]
  by (simp add: role_spec_def viewer_def Get_def)

end
