(* ===== verification/Throttle.thy ===== *)
theory Throttle
  imports Roles Study_Store
begin

text \<open>
  \<open>internal/throttle/throttle.go\<close>: effective limits, quotas, the sliding rate limits and
  the usage counters. The clock is the argument \<open>now\<close> (Unix seconds), and \<open>day\<close> is the
  calendar date the standard library formats for it.
\<close>

section \<open>State\<close>

record usage_row =
  ug_user_id :: string
  ug_date :: string
  ug_api_calls :: int
  ug_studies_created :: int
  ug_results_saved :: int
  ug_replays_run :: int

record rate_row =
  rt_user_id :: string
  rt_timestamp :: int
  rt_action :: string

record throttle_db =
  td_db :: database
  td_studies :: "study list"
  td_roles :: role_table
  td_usage :: "usage_row list"
  td_rates :: "rate_row list"

datatype throttle_error =
    GetUserRole
  | RoleNotFound string
  | MinuteLimit int
  | HourLimit int
  | DayLimit int
  | CannotCheckLimits throttle_error
  | ResourceLimit string int int
  | UnknownResource string
  | LimitsForeignKey

section \<open>Limits\<close>

definition generous_limits :: limits where
  "generous_limits = \<lparr>APICallsPerMinute = 60, APICallsPerHour = 1000, APICallsPerDay = 10000,
     MaxStudies = 3, MaxSavedResults = 100, MaxGroups = 5, MaxGroupMembers = 20, ReplayDays = 7,
     MaxSymbolsPerScan = 1000, ExportMaxResults = 500\<rparr>"

definition role_of :: "string \<Rightarrow> throttle_db \<Rightarrow> string option" where
  "role_of u d = map_option ur_role_id (find (\<lambda>r. ur_id r = u) (db_users (td_db d)))"

definition GetEffectiveLimits :: "codec \<Rightarrow> string \<Rightarrow> throttle_db \<Rightarrow> (throttle_error, limits) result" where
  "GetEffectiveLimits c u d =
     (let own = (case find (\<lambda>r. ul_user_id r = u) (db_limits (td_db d)) of
                   None \<Rightarrow> None | Some r \<Rightarrow> dec_limits c (ul_limits_json r))
      in case own of
           Some l \<Rightarrow> Inr l
         | None \<Rightarrow> (case role_of u d of
             None \<Rightarrow> Inl GetUserRole
           | Some roleID \<Rightarrow> (case Roles.Get c roleID (td_roles d) of
               None \<Rightarrow> Inr generous_limits
             | Some role \<Rightarrow> Inr (ro_Limits role))))"

text \<open>The upsert of an override; a new row must name a user.\<close>

definition SetUserLimits :: "codec \<Rightarrow> int \<Rightarrow> string \<Rightarrow> limits \<Rightarrow> throttle_db \<Rightarrow> (throttle_error, throttle_db) result" where
  "SetUserLimits c now u l d =
     (let db = td_db d; json = enc_limits c l
      in if list_ex (\<lambda>r. ul_user_id r = u) (db_limits db)
         then Inr (d\<lparr>td_db := db\<lparr>db_limits := map (\<lambda>r. if ul_user_id r = u
                then r\<lparr>ul_limits_json := json, ul_updated_at := now\<rparr> else r) (db_limits db)\<rparr>\<rparr>)
         else if list_ex (\<lambda>r. ur_id r = u) (db_users db)
         then Inr (d\<lparr>td_db := db\<lparr>db_limits := db_limits db @
                [\<lparr>ul_user_id = u, ul_limits_json = json, ul_updated_at = now\<rparr>]\<rparr>\<rparr>)
         else Inl LimitsForeignKey)"

section \<open>Quotas\<close>

definition CheckCreate :: "codec \<Rightarrow> string \<Rightarrow> string \<Rightarrow> throttle_db \<Rightarrow> throttle_error option" where
  "CheckCreate c u resource d =
     (case GetEffectiveLimits c u d of
        Inl e \<Rightarrow> Some (CannotCheckLimits e)
      | Inr l \<Rightarrow>
         let quota = (if resource = ''study'' then
                        Some (length (filter (\<lambda>s. st_Owner s = u) (td_studies d)), MaxStudies l)
                      else if resource = ''result'' then
                        Some (length (filter (\<lambda>r. rr_user_id r = u) (db_results (td_db d))), MaxSavedResults l)
                      else if resource = ''group'' then
                        Some (length (filter (\<lambda>g. gr_owner_id g = u) (db_groups (td_db d))), MaxGroups l)
                      else None)
         in (case quota of
               None \<Rightarrow> None
             | Some (current, mx) \<Rightarrow>
                 if int current \<ge> mx then Some (ResourceLimit resource (int current) mx) else None))"

section \<open>Usage counters\<close>

definition new_usage :: "string \<Rightarrow> string \<Rightarrow> usage_row" where
  "new_usage u date = \<lparr>ug_user_id = u, ug_date = date, ug_api_calls = 0, ug_studies_created = 0,
     ug_results_saved = 0, ug_replays_run = 0\<rparr>"

text \<open>\<open>INSERT ... ON CONFLICT(user_id, date) DO UPDATE SET column = column + 1\<close>.\<close>

definition bump_usage :: "(usage_row \<Rightarrow> usage_row) \<Rightarrow> string \<Rightarrow> string \<Rightarrow> usage_row list \<Rightarrow> usage_row list" where
  "bump_usage f u date rows =
     (if list_ex (\<lambda>r. ug_user_id r = u \<and> ug_date r = date) rows
      then map (\<lambda>r. if ug_user_id r = u \<and> ug_date r = date then f r else r) rows
      else rows @ [f (new_usage u date)])"

definition find_usage :: "string \<Rightarrow> string \<Rightarrow> usage_row list \<Rightarrow> usage_row option" where
  "find_usage u date rows = find (\<lambda>r. ug_user_id r = u \<and> ug_date r = date) rows"

definition TrackAPIUsage :: "(int \<Rightarrow> string) \<Rightarrow> int \<Rightarrow> string \<Rightarrow> throttle_db \<Rightarrow> throttle_db" where
  "TrackAPIUsage day now u d =
     d\<lparr>td_rates := filter (\<lambda>r. \<not> rt_timestamp r < now - 3600)
         (td_rates d @ [\<lparr>rt_user_id = u, rt_timestamp = now, rt_action = ''api_call''\<rparr>]),
       td_usage := bump_usage (\<lambda>r. r\<lparr>ug_api_calls := ug_api_calls r + 1\<rparr>) u (day now) (td_usage d)\<rparr>"

definition TrackResourceUsage ::
    "(int \<Rightarrow> string) \<Rightarrow> int \<Rightarrow> string \<Rightarrow> string \<Rightarrow> throttle_db \<Rightarrow> throttle_error option \<times> throttle_db" where
  "TrackResourceUsage day now u resource d =
     (let bump = (if resource = ''study'' then Some (\<lambda>r. r\<lparr>ug_studies_created := ug_studies_created r + 1\<rparr>)
                  else if resource = ''result'' then Some (\<lambda>r. r\<lparr>ug_results_saved := ug_results_saved r + 1\<rparr>)
                  else if resource = ''replay'' then Some (\<lambda>r. r\<lparr>ug_replays_run := ug_replays_run r + 1\<rparr>)
                  else None)
      in case bump of
           None \<Rightarrow> (Some (UnknownResource resource), d)
         | Some f \<Rightarrow> (None, d\<lparr>td_usage := bump_usage f u (day now) (td_usage d)\<rparr>))"

definition TrackCreate :: "(int \<Rightarrow> string) \<Rightarrow> int \<Rightarrow> string \<Rightarrow> string \<Rightarrow> throttle_db \<Rightarrow> throttle_db" where
  "TrackCreate day now u resource d = snd (TrackResourceUsage day now u resource d)"

definition GetUserUsage :: "(int \<Rightarrow> string) \<Rightarrow> int \<Rightarrow> string \<Rightarrow> throttle_db \<Rightarrow> int \<times> int \<times> int \<times> int" where
  "GetUserUsage day now u d =
     (case find_usage u (day now) (td_usage d) of
        None \<Rightarrow> (0, 0, 0, 0)
      | Some r \<Rightarrow> (ug_api_calls r, ug_studies_created r, ug_results_saved r, ug_replays_run r))"

section \<open>Rate limits\<close>

definition calls_since :: "string \<Rightarrow> int \<Rightarrow> throttle_db \<Rightarrow> int" where
  "calls_since u t d = int (length (filter (\<lambda>r. rt_user_id r = u \<and> rt_timestamp r > t) (td_rates d)))"

definition day_count :: "string \<Rightarrow> string \<Rightarrow> throttle_db \<Rightarrow> int" where
  "day_count u date d = (case find_usage u date (td_usage d) of None \<Rightarrow> 0 | Some r \<Rightarrow> ug_api_calls r)"

definition CheckRateLimit ::
    "codec \<Rightarrow> (int \<Rightarrow> string) \<Rightarrow> int \<Rightarrow> string \<Rightarrow> throttle_db \<Rightarrow> throttle_error option" where
  "CheckRateLimit c day now u d =
     (case role_of u d of
        None \<Rightarrow> Some GetUserRole
      | Some roleID \<Rightarrow>
     (case Roles.Get c roleID (td_roles d) of
        None \<Rightarrow> Some (RoleNotFound roleID)
      | Some role \<Rightarrow>
     if ro_BypassThrottling role then None
     else (case GetEffectiveLimits c u d of
        Inl e \<Rightarrow> Some e
      | Inr l \<Rightarrow>
          if calls_since u (now - 60) d \<ge> APICallsPerMinute l then Some (MinuteLimit (APICallsPerMinute l))
          else if calls_since u (now - 3600) d \<ge> APICallsPerHour l then Some (HourLimit (APICallsPerHour l))
          else if day_count u (day now) d \<ge> APICallsPerDay l then Some (DayLimit (APICallsPerDay l))
          else None)))"

section \<open>What tracking records\<close>

lemma Track_tables [simp]:
  "td_db (TrackAPIUsage day now u d) = td_db d"
  "td_roles (TrackAPIUsage day now u d) = td_roles d"
  by (simp_all add: TrackAPIUsage_def)

lemma Track_keeps [simp]:
  "role_of v (TrackAPIUsage day now u d) = role_of v d"
  "GetEffectiveLimits c v (TrackAPIUsage day now u d) = GetEffectiveLimits c v d"
proof -
  show role: "role_of v (TrackAPIUsage day now u d) = role_of v d" by (simp add: role_of_def)
  show "GetEffectiveLimits c v (TrackAPIUsage day now u d) = GetEffectiveLimits c v d"
    unfolding GetEffectiveLimits_def role Track_tables ..
qed

lemma find_usage_bump:
  assumes "\<And>r. ug_user_id (f r) = ug_user_id r" "\<And>r. ug_date (f r) = ug_date r"
  shows "find_usage v e (bump_usage f u date rows) =
    (if v = u \<and> e = date then Some (f (case find_usage u date rows of None \<Rightarrow> new_usage u date | Some r \<Rightarrow> r))
     else find_usage v e rows)"
proof -
  let ?hit = "\<lambda>r. ug_user_id r = u \<and> ug_date r = date"
  have mp: "find_usage v e (map (\<lambda>r. if ?hit r then f r else r) rows) =
      map_option (\<lambda>r. if ?hit r then f r else r) (find_usage v e rows)"
    unfolding find_usage_def by (induction rows) (auto simp: assms)
  have key: "find_usage v e rows = Some r \<Longrightarrow> ug_user_id r = v \<and> ug_date r = e" for r v e
    unfolding find_usage_def by (auto dest!: find_SomeD)
  have none: "find_usage u date rows = None \<longleftrightarrow> \<not> list_ex ?hit rows"
    unfolding find_usage_def by (auto simp: find_None_iff list_ex_iff)
  show ?thesis
  proof (cases "list_ex ?hit rows")
    case True
    then obtain r where r: "find_usage u date rows = Some r" using none by auto
    show ?thesis
    proof (cases "v = u \<and> e = date")
      case eq: True
      with True r key [OF r] mp show ?thesis by (simp add: bump_usage_def)
    next
      case ne: False
      with True key [of v e] show ?thesis
        by (cases "find_usage v e rows") (auto simp: bump_usage_def mp)
    qed
  next
    case False
    then have "find_usage u date rows = None" using none by simp
    with False show ?thesis
      by (auto simp: bump_usage_def find_usage_def find_append new_usage_def assms split: option.split)
  qed
qed

lemma day_count_Track:
  "day_count v e (TrackAPIUsage day now u d) = day_count v e d + (if v = u \<and> e = day now then 1 else 0)"
  by (simp add: day_count_def TrackAPIUsage_def find_usage_bump new_usage_def split: option.split)


text \<open>
  A row keeps the time of its call for an hour after it: the table holds the calls since
  \<open>b\<close>, and tracking one more call keeps those of the last hour.
\<close>

lemma Track_rates:
  assumes "map (\<lambda>r. (rt_user_id r, rt_timestamp r)) (td_rates d) = filter (\<lambda>(v, s). b \<le> s) calls"
    and "b \<le> now - 3600"
  shows "map (\<lambda>r. (rt_user_id r, rt_timestamp r)) (td_rates (TrackAPIUsage day now v d)) =
    filter (\<lambda>(v, s). now - 3600 \<le> s) (calls @ [(v, now)])"
proof -
  have "map (\<lambda>r. (rt_user_id r, rt_timestamp r)) (filter (\<lambda>r. \<not> rt_timestamp r < now - 3600) rs) =
      filter (\<lambda>(v, s). now - 3600 \<le> s) (map (\<lambda>r. (rt_user_id r, rt_timestamp r)) rs)" for rs
    by (induction rs) auto
  from this [of "td_rates d @ [\<lparr>rt_user_id = v, rt_timestamp = now, rt_action = ''api_call''\<rparr>]"]
  have "map (\<lambda>r. (rt_user_id r, rt_timestamp r)) (td_rates (TrackAPIUsage day now v d)) =
      filter (\<lambda>(v, s). now - 3600 \<le> s) (filter (\<lambda>(v, s). b \<le> s) calls @ [(v, now)])"
    by (simp only: TrackAPIUsage_def throttle_db.simps map_append assms(1)) simp
  also have "filter (\<lambda>(v, s). now - 3600 \<le> s) (filter (\<lambda>(v, s). b \<le> s) calls) =
      filter (\<lambda>(v, s). now - 3600 \<le> s) calls"
    unfolding filter_filter by (rule filter_cong) (use assms(2) in auto)
  then have "filter (\<lambda>(v, s). now - 3600 \<le> s) (filter (\<lambda>(v, s). b \<le> s) calls @ [(v, now)]) =
      filter (\<lambda>(v, s). now - 3600 \<le> s) (calls @ [(v, now)])" by simp
  finally show ?thesis .
qed

text \<open>Calls tracked one after the other, each by a user at a time.\<close>

definition track_calls :: "(int \<Rightarrow> string) \<Rightarrow> (string \<times> int) list \<Rightarrow> throttle_db \<Rightarrow> throttle_db" where
  "track_calls day calls d = foldl (\<lambda>d (u, now). TrackAPIUsage day now u d) d calls"

lemma track_calls_tables:
  "td_db (track_calls day calls d) = td_db d" "td_roles (track_calls day calls d) = td_roles d"
  by (induction calls arbitrary: d) (auto simp: track_calls_def)

lemma GetUserUsage_Track:
  "GetUserUsage day t v (TrackAPIUsage day now u d) =
     (fst (GetUserUsage day t v d) + (if v = u \<and> day t = day now then 1 else 0), snd (GetUserUsage day t v d))"
  by (auto simp: GetUserUsage_def TrackAPIUsage_def find_usage_bump new_usage_def split: option.split)

lemma usage_of_calls:
  "GetUserUsage day t v (track_calls day calls d) =
     (fst (GetUserUsage day t v d) + int (length (filter (\<lambda>(u, s). u = v \<and> day s = day t) calls)),
      snd (GetUserUsage day t v d))"
proof (induction calls rule: rev_induct)
  case (snoc q qs)
  then show ?case by (cases q) (auto simp: track_calls_def GetUserUsage_Track)
qed (simp add: track_calls_def)

lemma rates_of_calls:
  assumes "sorted (map snd calls)" "td_rates d = []" "calls \<noteq> []"
  shows "map (\<lambda>r. (rt_user_id r, rt_timestamp r)) (td_rates (track_calls day calls d)) =
    filter (\<lambda>(u, s). snd (last calls) - 3600 \<le> s) calls"
  using assms
proof (induction calls rule: rev_induct)
  case (snoc q qs)
  obtain u now where q: "q = (u, now)" by (cases q)
  let ?b = "if qs = [] then now - 3600 else snd (last qs) - 3600"
  have "map (\<lambda>r. (rt_user_id r, rt_timestamp r)) (td_rates (track_calls day qs d)) = filter (\<lambda>(v, s). ?b \<le> s) qs"
    using snoc by (auto simp: track_calls_def sorted_append)
  moreover have "?b \<le> now - 3600"
    using snoc.prems(1) by (cases qs rule: rev_cases) (auto simp: q sorted_append)
  ultimately show ?case using Track_rates by (auto simp: track_calls_def q)
qed simp

end
