(* ===== verification/Login.thy ===== *)
theory Login
  imports User_Store
begin

text \<open>
  Signing in: the lockout of \<open>internal/auth/guard.go\<close>, the password policy of
  \<open>internal/auth/password.go\<close>, and from \<open>internal/serve\<close> the session store
  (\<open>server.go\<close>) with the handlers for login, logout, signup and the change of a
  password (\<open>handlers.go\<close>). Time is in nanoseconds and one request reads the clock once;
  the random token and salt, the key derivation and the Unicode character classes are
  arguments. Pages and cookies are left out: a handler returns what it decided.
\<close>

section \<open>Lockout\<close>

record audit_row =
  la_user_id :: string
  la_failures :: int
  la_locked_until :: int

record guard =
  maxFailures :: int
  lockoutSecs :: int

text \<open>\<open>INSERT OR REPLACE\<close> by the primary key.\<close>

definition put_audit :: "audit_row \<Rightarrow> audit_row list \<Rightarrow> audit_row list" where
  "put_audit r rows = filter (\<lambda>x. la_user_id x \<noteq> la_user_id r) rows @ [r]"

definition find_audit :: "string \<Rightarrow> audit_row list \<Rightarrow> audit_row option" where
  "find_audit u rows = find (\<lambda>r. la_user_id r = u) rows"

text \<open>The seconds an account stays locked, or \<open>None\<close>.\<close>

definition Check :: "int \<Rightarrow> string \<Rightarrow> audit_row list \<Rightarrow> int option" where
  "Check now u rows =
     (case find_audit u rows of
        None \<Rightarrow> None
      | Some r \<Rightarrow> if la_locked_until r > now then Some (la_locked_until r - now) else None)"

definition RecordFailure :: "guard \<Rightarrow> int \<Rightarrow> string \<Rightarrow> audit_row list \<Rightarrow> audit_row list" where
  "RecordFailure g now u rows =
     (let failures = (case find_audit u rows of None \<Rightarrow> 0 | Some r \<Rightarrow> la_failures r) + 1;
          locked = (if failures \<ge> maxFailures g then now + lockoutSecs g else 0)
      in put_audit \<lparr>la_user_id = u, la_failures = failures, la_locked_until = locked\<rparr> rows)"

definition RecordSuccess :: "string \<Rightarrow> audit_row list \<Rightarrow> audit_row list" where
  "RecordSuccess u rows = put_audit \<lparr>la_user_id = u, la_failures = 0, la_locked_until = 0\<rparr> rows"

lemma find_put_audit [simp]:
  "find_audit u (put_audit r rows) = (if u = la_user_id r then Some r else find_audit u rows)"
proof -
  have "find (\<lambda>x. la_user_id x = u) (filter (\<lambda>x. la_user_id x \<noteq> k) rows) =
      (if u = k then None else find (\<lambda>x. la_user_id x = u) rows)" for k
    by (induction rows) auto
  then show ?thesis by (simp add: find_audit_def put_audit_def find_append split: option.split)
qed

text \<open>Any history of failed and successful logins; the failures of a user since their last success.\<close>

datatype guard_event = Failed int string | Succeeded string

primrec guard_step :: "guard \<Rightarrow> audit_row list \<Rightarrow> guard_event \<Rightarrow> audit_row list" where
  "guard_step g rows (Failed now u) = RecordFailure g now u rows"
| "guard_step g rows (Succeeded u) = RecordSuccess u rows"

primrec streak_step :: "string \<Rightarrow> int list \<Rightarrow> guard_event \<Rightarrow> int list" where
  "streak_step u ts (Failed now v) = (if v = u then now # ts else ts)"
| "streak_step u ts (Succeeded v) = (if v = u then [] else ts)"

definition streak :: "string \<Rightarrow> guard_event list \<Rightarrow> int list" where
  "streak u es = foldl (streak_step u) [] es"

definition audit_of :: "guard \<Rightarrow> int list \<Rightarrow> int \<times> int" where
  "audit_of g ts = (case ts of [] \<Rightarrow> (0, 0)
     | t # _ \<Rightarrow> (int (length ts), if int (length ts) \<ge> maxFailures g then t + lockoutSecs g else 0))"

lemma guard_history:
  "(case find_audit u (foldl (guard_step g) [] es) of None \<Rightarrow> (0, 0) | Some r \<Rightarrow> (la_failures r, la_locked_until r)) =
     audit_of g (streak u es)"
proof (induction es rule: rev_induct)
  case Nil
  then show ?case by (simp add: find_audit_def streak_def audit_of_def)
next
  case (snoc e es)
  then show ?case
    by (cases e)
       (auto simp: streak_def RecordFailure_def RecordSuccess_def audit_of_def Let_def
         split: option.splits list.splits if_splits)
qed

text \<open>
  C21: when an account is locked. After any history of logins an attempt at a time is
  turned away exactly if the user's failures since their last success have reached the
  maximum and the latest of them is less than the lockout ago. The count is not reset
  when a lockout ends, so from then on every single failure locks the account again.
\<close>

theorem lockout_exact:
  assumes "0 \<le> now"
  shows "Check now u (foldl (guard_step g) [] es) \<noteq> None \<longleftrightarrow>
    (\<exists>t ts. streak u es = t # ts \<and> maxFailures g \<le> int (length (t # ts)) \<and> now < t + lockoutSecs g)"
  using guard_history [of u g es] assms
  by (cases "streak u es") (auto simp: Check_def audit_of_def split: option.splits if_splits)

definition strict_guard :: guard where
  "strict_guard = \<lparr>maxFailures = 2, lockoutSecs = 900\<rparr>"

theorem lockout_exact_witness:
  "Check 150 ''ann'' (foldl (guard_step strict_guard) [] [Failed 10 ''ann'', Failed 100 ''ann'']) \<noteq> None \<and>
   Check 1000 ''ann'' (foldl (guard_step strict_guard) [] [Failed 10 ''ann'', Failed 100 ''ann'']) = None \<and>
   Check 2500 ''ann'' (foldl (guard_step strict_guard) []
     [Failed 10 ''ann'', Failed 100 ''ann'', Failed 2000 ''ann'']) \<noteq> None"
proof -
  have "streak ''ann'' [Failed 10 ''ann'', Failed 100 ''ann''] = [100, 10]"
    "streak ''ann'' [Failed 10 ''ann'', Failed 100 ''ann'', Failed 2000 ''ann''] = [2000, 100, 10]"
    by (simp_all add: streak_def)
  then show ?thesis
    using lockout_exact [of 150 "''ann''" strict_guard "[Failed 10 ''ann'', Failed 100 ''ann'']"]
      lockout_exact [of 1000 "''ann''" strict_guard "[Failed 10 ''ann'', Failed 100 ''ann'']"]
      lockout_exact [of 2500 "''ann''" strict_guard "[Failed 10 ''ann'', Failed 100 ''ann'', Failed 2000 ''ann'']"]
    by (simp add: strict_guard_def)
qed

section \<open>Password policy\<close>

record policy =
  MinLength :: int
  RequireUpper :: bool
  RequireDigit :: bool

text \<open>Whether a string holds a rune of a class, by the tables of the package \<open>unicode\<close>.\<close>

record char_classes =
  hasUpper :: "string \<Rightarrow> bool"
  hasLower :: "string \<Rightarrow> bool"
  hasDigit :: "string \<Rightarrow> bool"
  hasSpecial :: "string \<Rightarrow> bool"

datatype password_error = TooShort int | NeedsUpper | NeedsDigit | TooCommon

definition DefaultPolicy :: policy where
  "DefaultPolicy = \<lparr>MinLength = 8, RequireUpper = True, RequireDigit = True\<rparr>"

definition commons :: "string list" where
  "commons =
     [''password'', ''password1'', ''password123'', ''12345678'', ''123456789'', ''qwerty123'',
      ''admin'', ''admin123'', ''administrator'', ''letmein'', ''welcome'', ''monkey'',
      ''abc123'', ''football'', ''iloveyou'', ''trustno1'', ''dragon'', ''master'',
      ''login'', ''princess'', ''qwerty'', ''solo'', ''starwars'', ''sunshine'',
      ''shadow'', ''passw0rd'', ''pass1234'']"

definition ValidatePassword :: "char_classes \<Rightarrow> string \<Rightarrow> policy \<Rightarrow> password_error option" where
  "ValidatePassword cls pw p =
     (if int (length pw) < MinLength p then Some (TooShort (MinLength p))
      else if RequireUpper p \<and> \<not> hasUpper cls pw then Some NeedsUpper
      else if RequireDigit p \<and> \<not> hasDigit cls pw \<and> \<not> hasSpecial cls pw then Some NeedsDigit
      else if to_lower pw \<in> set commons then Some TooCommon
      else None)"

definition StrengthScore :: "char_classes \<Rightarrow> string \<Rightarrow> int" where
  "StrengthScore cls pw =
     (if length pw = 0 then 0
      else let score = int (length pw) * 4;
               score = (if hasUpper cls pw then score + 10 else score);
               score = (if hasLower cls pw then score + 10 else score);
               score = (if hasDigit cls pw then score + 15 else score);
               score = (if hasSpecial cls pw then score + 20 else score);
               score = (if length pw \<ge> 12 then score + 10 else score);
               score = (if to_lower pw \<in> set commons then score else score + 10)
           in (if score > 100 then 100 else score))"

definition StrengthLabel :: "int \<Rightarrow> string" where
  "StrengthLabel score =
     (if score \<ge> 80 then ''Very Strong'' else if score \<ge> 60 then ''Strong''
      else if score \<ge> 40 then ''Fair'' else if score \<ge> 20 then ''Weak'' else ''Too Weak'')"

definition StrengthClass :: "int \<Rightarrow> string" where
  "StrengthClass score =
     (if score \<ge> 80 then ''strong'' else if score \<ge> 60 then ''good''
      else if score \<ge> 40 then ''fair'' else if score \<ge> 20 then ''weak'' else ''bad'')"

section \<open>Sessions\<close>

record session_entry =
  se_uid :: string
  se_exp :: int

type_synonym sessions = "string \<Rightarrow> session_entry option"

definition create_session :: "int \<Rightarrow> string \<Rightarrow> string \<Rightarrow> int \<Rightarrow> sessions \<Rightarrow> sessions" where
  "create_session now tok uid ttl m = m(tok \<mapsto> \<lparr>se_uid = uid, se_exp = now + ttl\<rparr>)"

definition get_session :: "int \<Rightarrow> string \<Rightarrow> sessions \<Rightarrow> string option \<times> sessions" where
  "get_session now tok m =
     (case m tok of
        None \<Rightarrow> (None, m)
      | Some e \<Rightarrow> if now > se_exp e then (None, m(tok := None)) else (Some (se_uid e), m))"

definition delete_session :: "string \<Rightarrow> sessions \<Rightarrow> sessions" where
  "delete_session tok m = m(tok := None)"

section \<open>The handlers\<close>

record login_config =
  LoginRateWindowSecs :: int
  LoginRateMaxAttempts :: int
  cfg_guard :: guard
  sessTTL :: int
  OpenSignup :: bool
  UsernameMinLength :: int
  UsernameMaxLength :: int
  cfg_policy :: policy
  ProxyMode :: bool

record server =
  sv_attempts :: "string \<Rightarrow> int list"
  sv_audit :: "audit_row list"
  sv_sessions :: sessions
  sv_users :: user_state

text \<open>What a handler decided: the page it shows or the session it started.\<close>

datatype reply =
    ToHome
  | TooManyAttempts
  | AccountLocked int
  | BadCredentials
  | Started string string
  | SignupClosed
  | SignupError string
  | LoggedOut

definition unix :: "int \<Rightarrow> int" where "unix now = now div 1000000000"

definition find_user :: "string \<Rightarrow> server \<Rightarrow> user option" where
  "find_user u s = Find u (fst (sv_users s))"

definition handleLogin ::
    "(string \<Rightarrow> string) \<Rightarrow> kdf \<Rightarrow> login_config \<Rightarrow> int \<Rightarrow> string \<Rightarrow> string \<Rightarrow> string \<Rightarrow> string \<Rightarrow> server \<Rightarrow>
     reply \<times> server" where
  "handleLogin sha kdf cfg now tok ip userID password s =
     (if ProxyMode cfg then (ToHome, s)
      else let recent = filter (\<lambda>t. t > now - LoginRateWindowSecs cfg * 1000000000) (sv_attempts s ip);
               s = s\<lparr>sv_attempts := (sv_attempts s)(ip := recent)\<rparr>
           in if int (length recent) \<ge> LoginRateMaxAttempts cfg then (TooManyAttempts, s)
              else (case Check (unix now) userID (sv_audit s) of
                Some secs \<Rightarrow> (AccountLocked secs, s)
              | None \<Rightarrow> (case find_user userID s of
                  Some u \<Rightarrow>
                    if user_CheckPassword sha kdf u password
                    then (Started tok (u_ID u),
                          s\<lparr>sv_audit := RecordSuccess userID (sv_audit s),
                            sv_sessions := create_session now tok (u_ID u) (sessTTL cfg) (sv_sessions s)\<rparr>)
                    else (BadCredentials,
                          s\<lparr>sv_attempts := (sv_attempts s)(ip := sv_attempts s ip @ [now]),
                            sv_audit := RecordFailure (cfg_guard cfg) (unix now) userID (sv_audit s)\<rparr>)
                | None \<Rightarrow>
                    (BadCredentials,
                     s\<lparr>sv_attempts := (sv_attempts s)(ip := sv_attempts s ip @ [now]),
                       sv_audit := RecordFailure (cfg_guard cfg) (unix now) userID (sv_audit s)\<rparr>))))"

definition handleLogout :: "login_config \<Rightarrow> string option \<Rightarrow> server \<Rightarrow> reply \<times> server" where
  "handleLogout cfg cookie s =
     (if ProxyMode cfg then (ToHome, s)
      else (LoggedOut, case cookie of None \<Rightarrow> s
              | Some tok \<Rightarrow> s\<lparr>sv_sessions := delete_session tok (sv_sessions s)\<rparr>))"

definition sessionUser :: "int \<Rightarrow> string option \<Rightarrow> server \<Rightarrow> user option \<times> server" where
  "sessionUser now cookie s =
     (case cookie of
        None \<Rightarrow> (None, s)
      | Some tok \<Rightarrow> (case get_session now tok (sv_sessions s) of
          (uid, m) \<Rightarrow>
            let s = s\<lparr>sv_sessions := m\<rparr>
            in (case uid of None \<Rightarrow> (None, s) | Some uid \<Rightarrow> (find_user uid s, s))))"

definition validUsername :: "string \<Rightarrow> bool" where
  "validUsername s = list_all (\<lambda>c. let n = (of_char c :: nat) in
     97 \<le> n \<and> n \<le> 122 \<or> 65 \<le> n \<and> n \<le> 90 \<or> 48 \<le> n \<and> n \<le> 57 \<or> c = CHR ''_'') s"

definition new_member :: "kdf \<Rightarrow> string \<Rightarrow> string \<Rightarrow> string \<Rightarrow> user" where
  "new_member kdf salt uid pw = \<lparr>u_ID = uid, u_Name = uid, u_Tier = '''', u_Role = RoleUser, u_RoleID = ''user'',
     u_Groups = [], u_PassHash = HashPassword kdf salt pw, u_PassSHA256 = '''', u_Disabled = False,
     u_NLPEnabled = False, u_NLPDailyLimit = 0\<rparr>"

definition handleSignup ::
    "char_classes \<Rightarrow> kdf \<Rightarrow> login_config \<Rightarrow> int \<Rightarrow> string \<Rightarrow> string \<Rightarrow> string \<Rightarrow> string \<Rightarrow> string \<Rightarrow> server \<Rightarrow>
     reply \<times> server" where
  "handleSignup cls kdf cfg now tok salt name pw confirm s =
     (if \<not> OpenSignup cfg then (SignupClosed, s)
      else let userID = trim_space name
           in if int (length userID) < UsernameMinLength cfg \<or> int (length userID) > UsernameMaxLength cfg
              then (SignupError ''length'', s)
              else if \<not> validUsername userID then (SignupError ''characters'', s)
              else if pw \<noteq> confirm then (SignupError ''confirm'', s)
              else if ValidatePassword cls pw (cfg_policy cfg) \<noteq> None then (SignupError ''password'', s)
              else if find_user userID s \<noteq> None then (SignupError ''taken'', s)
              else (case Create (new_member kdf salt userID pw) (sv_users s) of
                      (Some e, us) \<Rightarrow> (SignupError ''server'', s\<lparr>sv_users := us\<rparr>)
                    | (None, us) \<Rightarrow> (Started tok userID,
                        s\<lparr>sv_users := us,
                          sv_sessions := create_session now tok userID (sessTTL cfg) (sv_sessions s)\<rparr>)))"

text \<open>The change of a password: the message shown, empty on success.\<close>

definition handleProfile ::
    "(string \<Rightarrow> string) \<Rightarrow> char_classes \<Rightarrow> kdf \<Rightarrow> login_config \<Rightarrow> string \<Rightarrow> user \<Rightarrow> string \<Rightarrow> string \<Rightarrow> string \<Rightarrow>
     server \<Rightarrow> string \<times> server" where
  "handleProfile sha cls kdf cfg salt u current newPw confirm s =
     (if \<not> user_CheckPassword sha kdf u current then (''Current password is incorrect'', s)
      else if newPw \<noteq> confirm then (''Passwords do not match'', s)
      else if current = newPw then (''Must differ from current'', s)
      else if ValidatePassword cls newPw (cfg_policy cfg) \<noteq> None then (''policy'', s)
      else (case SetPassword kdf salt (u_ID u) newPw (sv_users s) of
              (Some e, us) \<Rightarrow> (''Update failed'', s\<lparr>sv_users := us\<rparr>)
            | (None, us) \<Rightarrow> ('''', s\<lparr>sv_users := us\<rparr>)))"


section \<open>What a session proves\<close>

text \<open>Requests and administrative changes, in any order.\<close>

datatype web_event =
    LoginTry string string string string
  | SignupTry string string string string string
  | LogoutWith "string option"
  | Visit "string option"
  | AdminChange user_op

fun web_step ::
    "(string \<Rightarrow> string) \<Rightarrow> char_classes \<Rightarrow> kdf \<Rightarrow> login_config \<Rightarrow> server \<Rightarrow> int \<times> web_event \<Rightarrow>
     reply option \<times> server" where
  "web_step sha cls kdf cfg s (now, LoginTry tok ip name pw) =
     map_prod Some id (handleLogin sha kdf cfg now tok ip name pw s)"
| "web_step sha cls kdf cfg s (now, SignupTry tok salt name pw confirm) =
     map_prod Some id (handleSignup cls kdf cfg now tok salt name pw confirm s)"
| "web_step sha cls kdf cfg s (now, LogoutWith cookie) = map_prod Some id (handleLogout cfg cookie s)"
| "web_step sha cls kdf cfg s (now, Visit cookie) = (None, snd (sessionUser now cookie s))"
| "web_step sha cls kdf cfg s (now, AdminChange op) = (None, s\<lparr>sv_users := snd (exec_op kdf op (sv_users s))\<rparr>)"

definition web_run ::
    "(string \<Rightarrow> string) \<Rightarrow> char_classes \<Rightarrow> kdf \<Rightarrow> login_config \<Rightarrow> server \<Rightarrow> (int \<times> web_event) list \<Rightarrow> server" where
  "web_run sha cls kdf cfg s es = foldl (\<lambda>s e. snd (web_step sha cls kdf cfg s e)) s es"

lemma web_run_simps [simp]:
  "web_run sha cls kdf cfg s [] = s"
  "web_run sha cls kdf cfg s (es @ [e]) = snd (web_step sha cls kdf cfg (web_run sha cls kdf cfg s es) e)"
  by (simp_all add: web_run_def)

lemma handleLogin_started:
  assumes "handleLogin sha kdf cfg now tok ip name pw s = (r, s')" "sv_sessions s' k = Some x"
  shows "sv_sessions s k = Some x \<or>
    r = Started k (se_uid x) \<and> k = tok \<and> se_exp x = now + sessTTL cfg"
  using assms
  by (auto simp: handleLogin_def Let_def create_session_def split: if_splits option.splits)

lemma handleSignup_started:
  assumes "handleSignup cls kdf cfg now tok salt name pw confirm s = (r, s')" "sv_sessions s' k = Some x"
  shows "sv_sessions s k = Some x \<or>
    r = Started k (se_uid x) \<and> k = tok \<and> se_exp x = now + sessTTL cfg"
  using assms
  by (auto simp: handleSignup_def Let_def create_session_def split: if_splits option.splits prod.splits)

lemma web_step_sessions:
  assumes "sv_sessions (snd (web_step sha cls kdf cfg s (now, e))) k = Some x" "\<not> ProxyMode cfg"
  shows "sv_sessions s k = Some x \<and> e \<noteq> LogoutWith (Some k) \<or>
    fst (web_step sha cls kdf cfg s (now, e)) = Some (Started k (se_uid x)) \<and> se_exp x = now + sessTTL cfg"
proof (cases e)
  case (LoginTry tok ip name pw)
  obtain r s' where h: "handleLogin sha kdf cfg now tok ip name pw s = (r, s')" by (cases "handleLogin sha kdf cfg now tok ip name pw s")
  with assms show ?thesis using handleLogin_started [OF h, of k x] by (auto simp: LoginTry)
next
  case (SignupTry tok salt name pw confirm)
  obtain r s' where h: "handleSignup cls kdf cfg now tok salt name pw confirm s = (r, s')"
    by (cases "handleSignup cls kdf cfg now tok salt name pw confirm s")
  with assms show ?thesis using handleSignup_started [OF h, of k x] by (auto simp: SignupTry)
next
  case (LogoutWith cookie)
  with assms show ?thesis
    by (auto simp: handleLogout_def delete_session_def split: option.splits if_splits)
next
  case (Visit cookie)
  with assms show ?thesis
    by (auto simp: sessionUser_def get_session_def Let_def split: option.splits if_splits)
next
  case (AdminChange op)
  with assms show ?thesis by simp
qed

definition started_by ::
    "(string \<Rightarrow> string) \<Rightarrow> char_classes \<Rightarrow> kdf \<Rightarrow> login_config \<Rightarrow> server \<Rightarrow> (int \<times> web_event) list \<Rightarrow>
     string \<Rightarrow> session_entry \<Rightarrow> bool" where
  "started_by sha cls kdf cfg s es k x \<longleftrightarrow>
     (\<exists>pre now e post. es = pre @ (now, e) # post \<and>
        fst (web_step sha cls kdf cfg (web_run sha cls kdf cfg s pre) (now, e)) = Some (Started k (se_uid x)) \<and>
        se_exp x = now + sessTTL cfg \<and> (\<forall>t. (t, LogoutWith (Some k)) \<notin> set post))"

lemma sessions_started:
  assumes "sv_sessions s = Map.empty" "\<not> ProxyMode cfg"
    and "sv_sessions (web_run sha cls kdf cfg s es) k = Some x"
  shows "started_by sha cls kdf cfg s es k x"
  using assms(3)
proof (induction es rule: rev_induct)
  case Nil
  then show ?case using assms(1) by simp
next
  case (snoc e es)
  obtain now ev where e: "e = (now, ev)" by (cases e)
  let ?s = "web_run sha cls kdf cfg s es"
  from web_step_sessions [OF snoc.prems [unfolded web_run_simps e] assms(2)]
  consider (old) "sv_sessions ?s k = Some x" "ev \<noteq> LogoutWith (Some k)"
    | (started) "fst (web_step sha cls kdf cfg ?s (now, ev)) = Some (Started k (se_uid x))" "se_exp x = now + sessTTL cfg"
    by blast
  then show ?case
  proof cases
    case old
    from snoc.IH [OF old(1)] obtain pre n v post where
      "es = pre @ (n, v) # post"
      "fst (web_step sha cls kdf cfg (web_run sha cls kdf cfg s pre) (n, v)) = Some (Started k (se_uid x))"
      "se_exp x = n + sessTTL cfg" "\<forall>t. (t, LogoutWith (Some k)) \<notin> set post"
      by (auto simp: started_by_def)
    with old(2) show ?thesis
      unfolding started_by_def
      by (intro exI [of _ pre] exI [of _ n] exI [of _ v] exI [of _ "post @ [e]"]) (simp add: e)
  next
    case started
    then show ?thesis
      unfolding started_by_def
      by (intro exI [of _ es] exI [of _ now] exI [of _ ev] exI [of _ "[]"]) (simp add: e)
  qed
qed

lemma login_reply:
  assumes "fst (handleLogin sha kdf cfg now tok ip name pw s) = Started k uid"
  shows "k = tok \<and> (\<exists>u. find_user name s = Some u \<and> user_CheckPassword sha kdf u pw \<and> uid = u_ID u) \<and>
    Check (unix now) name (sv_audit s) = None"
  using assms by (auto simp: handleLogin_def Let_def find_user_def split: if_splits option.splits)

lemma signup_reply:
  assumes "fst (handleSignup cls kdf cfg now tok salt name pw confirm s) = Started k uid"
  shows "k = tok \<and> uid = trim_space name \<and> find_user uid s = None \<and> OpenSignup cfg"
  using assms by (auto simp: handleSignup_def Let_def split: if_splits option.splits prod.splits)

text \<open>
  C13: a session proves a login. In any history of requests and administrative changes
  that starts without sessions, a cookie is taken for a user only if that very token was
  handed out less than the session lifetime ago and no logout with it came after; and it
  was handed out either to someone who gave the password the account had then, while
  the account was not locked, or to the new member of an open signup.
\<close>

theorem session_proves_login:
  assumes "sv_sessions s = Map.empty" and "\<not> ProxyMode cfg"
    and "fst (sessionUser now (Some tok) (web_run sha cls kdf cfg s es)) = Some u"
  shows "\<exists>pre n e post uid. es = pre @ (n, e) # post \<and> now \<le> n + sessTTL cfg \<and>
    (\<forall>t. (t, LogoutWith (Some tok)) \<notin> set post) \<and>
    find_user uid (web_run sha cls kdf cfg s es) = Some u \<and>
    (let before = web_run sha cls kdf cfg s pre in
      (\<exists>ip name pw v. e = LoginTry tok ip name pw \<and> find_user name before = Some v \<and> uid = u_ID v \<and>
         user_CheckPassword sha kdf v pw \<and> Check (unix n) name (sv_audit before) = None) \<or>
      (\<exists>salt name pw confirm. e = SignupTry tok salt name pw confirm \<and> uid = trim_space name \<and>
         find_user uid before = None \<and> OpenSignup cfg))"
proof -
  let ?s = "web_run sha cls kdf cfg s es"
  from assms(3) obtain x where x: "sv_sessions ?s tok = Some x" "now \<le> se_exp x"
    and u: "find_user (se_uid x) ?s = Some u"
    by (auto simp: sessionUser_def get_session_def find_user_def Let_def split: option.splits if_splits)
  from sessions_started [OF assms(1,2) x(1)] obtain pre n e post where
    e: "es = pre @ (n, e) # post" "se_exp x = n + sessTTL cfg" "\<forall>t. (t, LogoutWith (Some tok)) \<notin> set post"
    and r: "fst (web_step sha cls kdf cfg (web_run sha cls kdf cfg s pre) (n, e)) = Some (Started tok (se_uid x))"
    by (auto simp: started_by_def)
  let ?b = "web_run sha cls kdf cfg s pre"
  have "(\<exists>ip name pw v. e = LoginTry tok ip name pw \<and> find_user name ?b = Some v \<and> se_uid x = u_ID v \<and>
         user_CheckPassword sha kdf v pw \<and> Check (unix n) name (sv_audit ?b) = None) \<or>
      (\<exists>salt name pw confirm. e = SignupTry tok salt name pw confirm \<and> se_uid x = trim_space name \<and>
         find_user (se_uid x) ?b = None \<and> OpenSignup cfg)"
  proof (cases e)
    case (LoginTry k ip name pw)
    with r login_reply [of sha kdf cfg n k ip name pw ?b tok "se_uid x"] show ?thesis by auto
  next
    case (SignupTry k salt name pw confirm)
    with r signup_reply [of cls kdf cfg n k salt name pw confirm ?b tok "se_uid x"] show ?thesis by auto
  qed (use r in \<open>auto simp: handleLogout_def split: if_splits\<close>)
  then show ?thesis
    using e x(2) u by (intro exI [of _ pre] exI [of _ n] exI [of _ e] exI [of _ post] exI [of _ "se_uid x"]) (simp add: Let_def)
qed

lemma mutate_first_image: "mutate_first i f us = Some (v, vs) \<Longrightarrow> \<exists>u. v = f u"
  by (induction us arbitrary: vs) (auto split: if_splits)

text \<open>
  disabling an account does not end its sessions. While a session of the account is
  alive, a successful \<open>SetDisabled\<close> changes nothing for it: the cookie is still taken for
  the user, who is now marked as disabled.
\<close>

theorem disabled_user_keeps_session:
  assumes "sv_sessions s tok = Some x" and "now \<le> se_exp x"
    and "SetDisabled (se_uid x) True (sv_users s) = (None, us)"
  shows "\<exists>u. fst (sessionUser now (Some tok) (s\<lparr>sv_users := us\<rparr>)) = Some u \<and> u_Disabled u"
proof -
  have "\<exists>u. Find (se_uid x) (fst us) = Some u \<and> u_Disabled u"
    using assms(3)
    by (auto simp: SetDisabled_def mutate_def Find_def split: prod.splits option.splits
        dest!: mutate_first_image)
  then show ?thesis
    using assms(1,2) by (auto simp: sessionUser_def get_session_def find_user_def Let_def)
qed


section \<open>A concrete history\<close>

definition ann_pw :: user where
  "ann_pw = ann\<lparr>u_PassHash := HashPassword pad_kdf ''salt'' ''secret''\<rparr>"

definition site :: server where
  "site = \<lparr>sv_attempts = (\<lambda>_. []), sv_audit = [], sv_sessions = Map.empty,
     sv_users = (\<lparr>us_all = [ann_pw], us_byID = [''ann'' \<mapsto> ann_pw]\<rparr>, None)\<rparr>"

definition site_config :: login_config where
  "site_config = \<lparr>LoginRateWindowSecs = 60, LoginRateMaxAttempts = 5, cfg_guard = strict_guard, sessTTL = 1000,
     OpenSignup = False, UsernameMinLength = 3, UsernameMaxLength = 20, cfg_policy = DefaultPolicy, ProxyMode = False\<rparr>"

definition no_classes :: char_classes where
  "no_classes = \<lparr>hasUpper = (\<lambda>_. False), hasLower = (\<lambda>_. False), hasDigit = (\<lambda>_. False), hasSpecial = (\<lambda>_. False)\<rparr>"

lemma ann_checks: "user_CheckPassword (\<lambda>_. []) pad_kdf ann_pw ''secret''"
proof -
  have key: "pad_kdf ''secret'' ''salt'' pbkdf2Iter 32 = Some (take 32 (''secret'' @ replicate 32 (CHR 0x00)))"
    "length (take 32 (''secret'' @ replicate 32 (CHR 0x00))) = 32"
    by (simp_all add: pad_kdf_def)
  then have "\<exists>d. pad_kdf ''secret'' ''salt'' pbkdf2Iter 32 = Some d" by blast
  from checkPBKDF2_hash [of pad_kdf "''secret''" "''salt''", OF key this]
  have "checkPBKDF2 pad_kdf (u_PassHash ann_pw) ''secret''"
    unfolding ann_pw_def by simp
  moreover have "u_PassHash ann_pw \<noteq> ''''" by (simp add: ann_pw_def HashPassword_def)
  ultimately show ?thesis by (simp add: user_CheckPassword_def ann_pw_def ann_def)
qed


definition ann_login :: "int \<times> web_event" where
  "ann_login = (100, LoginTry ''tok'' ''1.2.3.4'' ''ann'' ''secret'')"

lemma ann_in: "sessionUser 200 (Some ''tok'') (web_run (\<lambda>_. []) no_classes pad_kdf site_config site [ann_login]) =
    (Some ann_pw, web_run (\<lambda>_. []) no_classes pad_kdf site_config site [ann_login])"
proof -
  have "find_user ''ann'' s = Some ann_pw" if "sv_users s = sv_users site" for s
    using that by (simp add: find_user_def site_def Find_def)
  moreover have "u_ID ann_pw = ''ann''" by (simp add: ann_pw_def ann_def)
  ultimately have "snd (handleLogin (\<lambda>_. []) pad_kdf site_config 100 ''tok'' ''1.2.3.4'' ''ann'' ''secret'' site) =
      site\<lparr>sv_attempts := (sv_attempts site)(''1.2.3.4'' := []), sv_audit := RecordSuccess ''ann'' [],
        sv_sessions := [''tok'' \<mapsto> \<lparr>se_uid = ''ann'', se_exp = 1100\<rparr>]\<rparr>"
    using ann_checks
    by (simp add: handleLogin_def Let_def site_config_def Check_def find_audit_def)
       (simp add: site_def create_session_def)
  then show ?thesis
    by (simp add: web_run_def ann_login_def sessionUser_def get_session_def find_user_def Find_def)
       (simp add: site_def)
qed

theorem session_proves_login_witness:
  "\<exists>pre n e post. [ann_login] = pre @ (n, e) # post \<and> 200 \<le> n + 1000 \<and>
     (\<exists>ip pw v. e = LoginTry ''tok'' ip ''ann'' pw \<and> user_CheckPassword (\<lambda>_. []) pad_kdf v pw)"
proof -
  have "sv_sessions site = Map.empty" "\<not> ProxyMode site_config"
    by (simp_all add: site_def site_config_def)
  note start = this
  have "fst (sessionUser 200 (Some ''tok'') (web_run (\<lambda>_. []) no_classes pad_kdf site_config site [ann_login])) =
      Some ann_pw" by (simp add: ann_in)
  from session_proves_login [OF start this] show ?thesis
    by (auto simp: Let_def ann_login_def Cons_eq_append_conv)
qed

theorem disabled_user_keeps_session_witness:
  "\<exists>u. fst (sessionUser 200 (Some ''tok'')
      (site\<lparr>sv_sessions := [''tok'' \<mapsto> \<lparr>se_uid = ''ann'', se_exp = 1100\<rparr>],
            sv_users := snd (SetDisabled ''ann'' True (sv_users site))\<rparr>)) = Some u \<and> u_Disabled u"
proof -
  let ?s = "site\<lparr>sv_sessions := [''tok'' \<mapsto> \<lparr>se_uid = ''ann'', se_exp = 1100\<rparr>]\<rparr>"
  have "SetDisabled (se_uid \<lparr>se_uid = ''ann'', se_exp = 1100\<rparr>) True (sv_users ?s) =
      (None, snd (SetDisabled ''ann'' True (sv_users site)))"
    by (simp add: SetDisabled_def mutate_def site_def ann_pw_def ann_def)
  from disabled_user_keeps_session [OF _ _ this, of "''tok''" 200] show ?thesis by simp
qed

end
