(* ===== verification/Study_Requests.thy ===== *)
theory Study_Requests
  imports Study_Store
begin

text \<open>
  What a signed-in user may do to studies through the web server
  (\<open>internal/serve/handlers.go\<close>, \<open>server.go\<close>): save, delete, import and export. The
  preview that runs a clause against the snapshot is the argument \<open>preview\<close> (its error,
  if any), and \<open>quota\<close> is the configured number of studies of the free tier.
\<close>

section \<open>Saving a study\<close>

datatype 'e apply_error =
    NoKey
  | NotYours string
  | NotMember string
  | BadWhere string
  | BadOrderBy string
  | StudyLimit int int
  | InvalidWhere 'e
  | StoreFailed study_error

definition studyQuota :: "int \<Rightarrow> user \<Rightarrow> int" where
  "studyQuota quota u = (if IsAdmin u \<or> u_Tier u = TierPro then 0 else quota)"

text \<open>What becomes of a study sent by someone who is not an admin.\<close>

definition member_study :: "user \<Rightarrow> study \<Rightarrow> ('e apply_error, study) result" where
  "member_study u st =
     (let st = st\<lparr>st_Owner := u_ID u, st_Tier := TierFree\<rparr>
      in if st_Visibility st = VisGroup \<and> \<not> InGroup u (st_Group st) then Inl (NotMember (st_Group st))
         else let st = (if st_Visibility st = VisGroup then st else st\<lparr>st_Visibility := VisPrivate\<rparr>)
              in (case ValidateClause (st_Where st) of
                    Some e \<Rightarrow> Inl (BadWhere e)
                  | None \<Rightarrow> (case ValidateClause (st_OrderBy st) of
                      Some e \<Rightarrow> Inl (BadOrderBy e)
                    | None \<Rightarrow> Inr st)))"

definition owned :: "string \<Rightarrow> study_store \<Rightarrow> study list" where
  "owned i s = filter (\<lambda>x. st_Owner x = i) (ss_all s)"

definition preview_of :: "study \<Rightarrow> study" where
  "preview_of st = \<lparr>st_Owner = '''', st_Visibility = '''', st_Group = '''', st_Tier = '''', st_Key = '''',
     st_Title = '''', st_Emoji = '''', st_Where = st_Where st, st_OrderBy = st_OrderBy st, st_Limit = 1\<rparr>"

definition applyStudy ::
    "int \<Rightarrow> (study \<Rightarrow> 'e option) \<Rightarrow> user \<Rightarrow> study \<Rightarrow> study_state \<Rightarrow> 'e apply_error option \<times> study_state" where
  "applyStudy quota preview u st state =
     (let st = st\<lparr>st_Key := trim_space (st_Key st)\<rparr>; existing = Get (st_Key st) (fst state)
      in if st_Key st = '''' then (Some NoKey, state)
         else if \<not> IsAdmin u \<and> (case existing of None \<Rightarrow> False | Some x \<Rightarrow> st_Owner x \<noteq> u_ID u)
         then (Some (NotYours (st_Key st)), state)
         else (case (if IsAdmin u then Inr st else member_study u st) of
             Inl e \<Rightarrow> (Some e, state)
           | Inr st \<Rightarrow>
               let q = studyQuota quota u; n = int (length (owned (u_ID u) (fst state)))
               in if \<not> IsAdmin u \<and> existing = None \<and> q > 0 \<and> n \<ge> q then (Some (StudyLimit n q), state)
                  else (case (if trim_space (st_Where st) \<noteq> '''' then preview (preview_of st) else None) of
                      Some e \<Rightarrow> (Some (InvalidWhere e), state)
                    | None \<Rightarrow> (case Upsert st state of
                        (None, state) \<Rightarrow> (None, state)
                      | (Some e, state) \<Rightarrow> (Some (StoreFailed e), state)))))"

section \<open>Requests\<close>

definition atoiOr :: "string \<Rightarrow> int \<Rightarrow> int" where
  "atoiOr s d = (case atoi (trim_space s) of Some n \<Rightarrow> n | None \<Rightarrow> d)"

text \<open>A form, its limit still as text; the lines of an import; the name of an action.\<close>

datatype study_request =
    SaveForm study string
  | DeleteKey string
  | ImportLines "string list"
  | OtherAction string

datatype 'e study_reply =
    Saved
  | SaveFailed "'e apply_error"
  | Forbidden
  | Deleted
  | DeleteFailed study_error
  | ParseError study_error
  | ImportFailed nat "'e apply_error"
  | Imported
  | Ignored

definition handleSave ::
    "int \<Rightarrow> (study \<Rightarrow> 'e option) \<Rightarrow> user \<Rightarrow> study \<Rightarrow> string \<Rightarrow> study_state \<Rightarrow> 'e study_reply \<times> study_state" where
  "handleSave quota preview u form limit state =
     (case applyStudy quota preview u (form\<lparr>st_Key := trim_space (st_Key form), st_Limit := atoiOr limit 0\<rparr>) state of
        (Some e, state) \<Rightarrow> (SaveFailed e, state)
      | (None, state) \<Rightarrow> (Saved, state))"

definition handleDelete :: "user \<Rightarrow> string \<Rightarrow> study_state \<Rightarrow> 'e study_reply \<times> study_state" where
  "handleDelete u key state =
     (let key = trim_space key
      in if \<not> IsAdmin u \<and> (case Get key (fst state) of None \<Rightarrow> False | Some x \<Rightarrow> st_Owner x \<noteq> u_ID u)
         then (Forbidden, state)
         else (case Delete key state of
             (Some e, state) \<Rightarrow> (DeleteFailed e, state)
           | (None, state) \<Rightarrow> (Deleted, state)))"

text \<open>How many were imported, how many failed, and the first error.\<close>

type_synonym 'e import_tally = "nat \<times> nat \<times> 'e apply_error option"

definition import_one ::
    "int \<Rightarrow> (study \<Rightarrow> 'e option) \<Rightarrow> user \<Rightarrow> 'e import_tally \<times> study_state \<Rightarrow> study \<Rightarrow>
     'e import_tally \<times> study_state" where
  "import_one quota preview u acc st =
     (case acc of ((imported, failed, firstErr), state) \<Rightarrow>
        (case applyStudy quota preview u st state of
           (Some e, state) \<Rightarrow> ((imported, failed + 1, if firstErr = None then Some e else firstErr), state)
         | (None, state) \<Rightarrow> ((imported + 1, failed, firstErr), state)))"

definition handleStudiesImport ::
    "(string \<Rightarrow> study option) \<Rightarrow> int \<Rightarrow> (study \<Rightarrow> 'e option) \<Rightarrow> user \<Rightarrow> string list \<Rightarrow> study_state \<Rightarrow>
     'e study_reply \<times> study_state" where
  "handleStudiesImport decode quota preview u lines state =
     (case LoadJSONL decode lines of
        Inl e \<Rightarrow> (ParseError e, state)
      | Inr xs \<Rightarrow> (case foldl (import_one quota preview u) ((0, 0, None), state) xs of
          ((imported, failed, firstErr), state) \<Rightarrow>
            (case firstErr of
               Some e \<Rightarrow> (if imported = 0 \<and> failed > 0 then ImportFailed failed e else Imported, state)
             | None \<Rightarrow> (Imported, state))))"

definition handleStudiesExport :: "user \<Rightarrow> study_store \<Rightarrow> study list" where
  "handleStudiesExport u s = filter (\<lambda>x. IsAdmin u \<or> st_Owner x = u_ID u) (ss_all s)"

definition handleStudies ::
    "(string \<Rightarrow> study option) \<Rightarrow> int \<Rightarrow> (study \<Rightarrow> 'e option) \<Rightarrow> study_state \<Rightarrow> user \<times> study_request \<Rightarrow>
     'e study_reply \<times> study_state" where
  "handleStudies decode quota preview state req =
     (case req of (u, r) \<Rightarrow> (case r of
        SaveForm form limit \<Rightarrow> handleSave quota preview u form limit state
      | DeleteKey key \<Rightarrow> handleDelete u key state
      | ImportLines lines \<Rightarrow> handleStudiesImport decode quota preview u lines state
      | OtherAction a \<Rightarrow> (Ignored, state)))"

definition serve_studies ::
    "(string \<Rightarrow> study option) \<Rightarrow> int \<Rightarrow> (study \<Rightarrow> 'e option) \<Rightarrow> study_state \<Rightarrow> (user \<times> study_request) list \<Rightarrow>
     study_state" where
  "serve_studies decode quota preview state reqs =
     foldl (\<lambda>state r. snd (handleStudies decode quota preview state r)) state reqs"

section \<open>What a member's request does\<close>

text \<open>
  One effect on the store: nothing, a study put in place, or one taken away. A request of
  a member \<open>u\<close> has only effects that \<open>member_effect\<close> allows.
\<close>

definition confined :: "user \<Rightarrow> study \<Rightarrow> bool" where
  "confined u x \<longleftrightarrow> st_Owner x = u_ID u \<and> st_Tier x = TierFree \<and>
     (st_Visibility x = VisPrivate \<or> st_Visibility x = VisGroup \<and> InGroup u (st_Group x)) \<and>
     ValidateClause (st_Where x) = None \<and> ValidateClause (st_OrderBy x) = None"

inductive member_effect :: "int \<Rightarrow> user \<Rightarrow> study_store \<Rightarrow> study_store \<Rightarrow> bool" for quota u where
  none: "member_effect quota u s s"
| put: "confined u x \<Longrightarrow> (case ss_byKey s (st_Key x) of
      None \<Rightarrow> studyQuota quota u > 0 \<longrightarrow> int (length (owned (u_ID u) s)) < studyQuota quota u
    | Some y \<Rightarrow> st_Owner y = u_ID u) \<Longrightarrow> member_effect quota u s (put_study x s)"
| del: "ss_byKey s k = Some y \<Longrightarrow> st_Owner y = u_ID u \<Longrightarrow> member_effect quota u s (del_study k s)"
| trans: "member_effect quota u s t \<Longrightarrow> member_effect quota u t v \<Longrightarrow> member_effect quota u s v"

lemma member_study_confined:
  assumes "member_study u st = Inr x"
  shows "confined u x \<and> st_Key x = st_Key st"
  using assms by (auto simp: member_study_def confined_def Let_def split: if_splits option.splits)

lemma defaults_confined:
  assumes "confined u x" "u_ID u \<noteq> ''''"
  shows "study_defaults x = x"
  using assms
  by (auto simp: confined_def study_defaults_def Let_def TierFree_def VisPrivate_def VisGroup_def)

lemma Upsert_result:
  "snd (Upsert x st) = (if trim_space (st_Key x) = '''' \<or> trim_space (st_Where x) = '''' then st
     else (put_study (study_defaults (x\<lparr>st_Key := trim_space (st_Key x)\<rparr>)) (fst st),
           saveToSQL (study_defaults (x\<lparr>st_Key := trim_space (st_Key x)\<rparr>)) (snd st)))"
  by (cases st) (simp add: Upsert_def Let_def)

lemma confined_key: "confined u (x\<lparr>st_Key := k\<rparr>) = confined u x"
  by (simp add: confined_def)

lemma strip_front_suffix: "\<exists>p. s = p @ strip_front rs s"
proof (induction rs s rule: strip_front.induct)
  case (1 rs s)
  show ?case
  proof (cases "find (\<lambda>r. r \<noteq> [] \<and> has_prefix s r) rs")
    case None
    then show ?thesis by (subst strip_front.simps) simp
  next
    case (Some r)
    then have "has_prefix s r" by (auto dest: find_SomeD)
    then have "s = r @ drop (length r) s" by (auto simp: has_prefix_iff)
    moreover from "1" [OF Some] obtain p where "drop (length r) s = p @ strip_front rs (drop (length r) s)"
      by blast
    ultimately have "s = (r @ p) @ strip_front rs (drop (length r) s)" by simp
    moreover have "strip_front rs s = strip_front rs (drop (length r) s)"
      using Some by (subst strip_front.simps) simp
    ultimately show ?thesis by metis
  qed
qed

lemma trim_space_idem [simp]: "trim_space (trim_space s) = trim_space s"
proof -
  define t where "t = strip_front space_runes s"
  define r where "r = strip_front (map rev space_runes) (rev t)"
  obtain p where "rev t = p @ r" using strip_front_suffix unfolding r_def by blast
  then have pre: "t = rev r @ rev p" by (metis rev_append rev_rev_ident)
  have "find (\<lambda>q. q \<noteq> [] \<and> has_prefix t q) space_runes = None"
    unfolding t_def by (rule strip_front_fixed)
  then have "find (\<lambda>q. q \<noteq> [] \<and> has_prefix (rev r) q) space_runes = None"
    unfolding find_None_iff pre by (auto simp: has_prefix_iff)
  then have "strip_front space_runes (rev r) = rev r" by (subst strip_front.simps) simp
  moreover have "strip_front (map rev space_runes) r = r" unfolding r_def by simp
  ultimately show ?thesis by (simp add: trim_space_def t_def [symmetric] r_def [symmetric])
qed

lemma snd_option_case:
  "snd (case r of (None, t) \<Rightarrow> (None, t) | (Some e, t) \<Rightarrow> (Some (f e), t)) = snd r"
  by (cases r) (simp split: option.split)

lemma applyStudy_member:
  fixes preview :: "study \<Rightarrow> 'e option"
  assumes "\<not> IsAdmin u"
    "member_study u (st\<lparr>st_Key := trim_space (st_Key st)\<rparr>) = (Inr x :: ('e apply_error, study) result)"
  shows "snd (applyStudy quota preview u st state) = state \<or>
    snd (applyStudy quota preview u st state) = snd (Upsert x state) \<and>
      (case Get (trim_space (st_Key st)) (fst state) of
         None \<Rightarrow> studyQuota quota u > 0 \<longrightarrow> int (length (owned (u_ID u) (fst state))) < studyQuota quota u
       | Some y \<Rightarrow> st_Owner y = u_ID u)"
  unfolding applyStudy_def Let_def
  by (cases "Get (trim_space (st_Key st)) (fst state)";
      cases "if trim_space (st_Where x) \<noteq> '''' then preview (preview_of x) else None")
    (auto simp: assms snd_option_case not_less)

lemma apply_effect:
  fixes preview :: "study \<Rightarrow> 'e option"
  assumes "\<not> IsAdmin u" "u_ID u \<noteq> ''''"
  shows "member_effect quota u (fst state) (fst (snd (applyStudy quota preview u st state)))"
proof -
  let ?k = "trim_space (st_Key st)"
  let ?r = "applyStudy quota preview u st state"
  show ?thesis
  proof (cases "member_study u (st\<lparr>st_Key := ?k\<rparr>) :: ('e apply_error, study) result")
    case (Inl e)
    then have "snd ?r = state" using assms(1) by (simp add: applyStudy_def Let_def)
    then show ?thesis by (simp add: member_effect.none)
  next
    case (Inr x)
    show ?thesis
    proof (cases "snd ?r = state")
      case True
      then show ?thesis by (simp add: member_effect.none)
    next
      case False
      with applyStudy_member [OF assms(1) Inr, of quota preview state]
      have x: "member_study u (st\<lparr>st_Key := ?k\<rparr>) = (Inr x :: ('e apply_error, study) result)"
          "snd ?r = snd (Upsert x state)"
        and q: "case Get ?k (fst state) of
         None \<Rightarrow> studyQuota quota u > 0 \<longrightarrow> int (length (owned (u_ID u) (fst state))) < studyQuota quota u
       | Some y \<Rightarrow> st_Owner y = u_ID u" using Inr by simp_all
    from member_study_confined [OF x(1)] have c: "confined u x" "st_Key x = ?k" by simp_all
    have "x\<lparr>st_Key := trim_space (st_Key x)\<rparr> = x" by (simp add: c(2))
    then have "study_defaults (x\<lparr>st_Key := trim_space (st_Key x)\<rparr>) = x"
      by (simp only: defaults_confined [OF c(1) assms(2)])
    then have "fst (snd (Upsert x state)) = fst state \<or> fst (snd (Upsert x state)) = put_study x (fst state)"
      unfolding Upsert_result by simp
    moreover have "member_effect quota u (fst state) (put_study x (fst state))"
      using c(1) q by (intro member_effect.put) (simp_all add: c(2) Get_def)
    ultimately show ?thesis unfolding x(2) by (auto intro: member_effect.none)
    qed
  qed
qed

lemma import_effect:
  assumes "\<not> IsAdmin u" "u_ID u \<noteq> ''''"
  shows "member_effect quota u (fst state) (fst (snd (foldl (import_one quota preview u) (tally, state) xs)))"
proof (induction xs arbitrary: tally state)
  case Nil
  then show ?case by (simp add: member_effect.none)
next
  case (Cons x xs)
  have "snd (import_one quota preview u (tally, state) x) = snd (applyStudy quota preview u x state)"
    by (auto simp: import_one_def split: option.split prod.split)
  then obtain tally' where one: "import_one quota preview u (tally, state) x =
      (tally', snd (applyStudy quota preview u x state))"
    by (metis prod.collapse)
  show ?case
    using member_effect.trans [OF apply_effect [OF assms, of quota state preview x] Cons.IH [of "snd (applyStudy quota preview u x state)" tally']]
    by (simp add: one)
qed

lemma request_effect:
  assumes "\<not> IsAdmin u" "u_ID u \<noteq> ''''" "in_step st_Key (ss_all (fst state)) (ss_byKey (fst state))"
  shows "member_effect quota u (fst state) (fst (snd (handleStudies decode quota preview state (u, r))))"
proof (cases r)
  case (SaveForm form limit)
  then show ?thesis
    using apply_effect [OF assms(1,2), of quota state preview
        "form\<lparr>st_Key := trim_space (st_Key form), st_Limit := atoiOr limit 0\<rparr>"]
    by (auto simp: handleStudies_def handleSave_def split: prod.splits option.splits)
next
  case (DeleteKey key)
  let ?k = "trim_space key"
  obtain s db where state: "state = (s, db)" by (cases state)
  show ?thesis
  proof (cases "ss_byKey s ?k")
    case None
    then show ?thesis
      by (simp add: DeleteKey state handleStudies_def handleDelete_def Let_def Get_def Delete_def member_effect.none)
  next
    case (Some y)
    have "fst (snd (Delete ?k (s, db))) = del_study ?k s"
      using Some by (simp add: Delete_def del_study_def)
    then show ?thesis
      using Some assms(1) member_effect.del [OF Some, of u quota]
      by (auto simp: DeleteKey state handleStudies_def handleDelete_def Let_def Get_def
          intro: member_effect.none split: prod.splits option.splits)
  qed
next
  case (ImportLines lines)
  then show ?thesis
    using import_effect [OF assms(1,2), of quota state preview "(0, 0, None)"]
    by (auto simp: handleStudies_def handleStudiesImport_def member_effect.none
        split: sum.split prod.split option.split) (metis fst_conv snd_conv)+
next
  case (OtherAction a)
  then show ?thesis by (simp add: handleStudies_def member_effect.none)
qed

lemma effect_in_step:
  assumes "member_effect quota u s t" "in_step st_Key (ss_all s) (ss_byKey s)"
  shows "in_step st_Key (ss_all t) (ss_byKey t)"
  using assms by (induction rule: member_effect.induct)
    (auto intro: studies.put_in_step studies.del_in_step)

lemma replace_owned:
  assumes "distinct (map st_Key xs)" "y \<in> set xs" "st_Key y = st_Key x"
    and "P x = P y"
  shows "length (filter P (replace_key st_Key x xs)) = length (filter P xs)"
    and "\<not> P x \<Longrightarrow> filter P (replace_key st_Key x xs) = filter P xs"
proof -
  have eq: "z = y" if "z \<in> set xs" "st_Key z = st_Key x" for z
    using assms(1-3) that by (auto simp: distinct_map inj_on_def)
  have P: "P (if st_Key z = st_Key x then x else z) = P z" if "z \<in> set xs" for z
    using eq [OF that] assms(4) by auto
  then show "length (filter P (replace_key st_Key x xs)) = length (filter P xs)"
    by (auto simp: replace_key_def filter_map comp_def cong: filter_cong)
  assume n: "\<not> P x"
  have "filter P (replace_key st_Key x xs) =
      map (\<lambda>z. if st_Key z = st_Key x then x else z) (filter P xs)"
    using P by (auto simp: replace_key_def filter_map comp_def cong: filter_cong)
  also have "\<dots> = filter P xs" using eq n assms(4) by (intro map_idI) auto
  finally show "filter P (replace_key st_Key x xs) = filter P xs" .
qed

lemma put_study_all:
  assumes "in_step st_Key (ss_all s) (ss_byKey s)"
  shows "ss_all (put_study x s) =
    (if ss_byKey s (st_Key x) = None then ss_all s @ [x] else replace_key st_Key x (ss_all s))"
  using assms by (simp add: put_study_def in_step_def replace_first_key)

text \<open>The studies of anyone else stay, in their order.\<close>

lemma effect_others:
  assumes "member_effect quota u s t" "in_step st_Key (ss_all s) (ss_byKey s)" "i \<noteq> u_ID u"
  shows "owned i t = owned i s"
  using assms
proof (induction rule: member_effect.induct)
  case (put x s)
  have x: "st_Owner x \<noteq> i" using put.hyps(1) put.prems(2) by (simp add: confined_def)
  show ?case
  proof (cases "ss_byKey s (st_Key x)")
    case None
    then show ?thesis using x by (simp add: owned_def put_study_all [OF put.prems(1)])
  next
    case (Some y)
    then have "y \<in> set (ss_all s)" "st_Key y = st_Key x" "st_Owner y = u_ID u"
      using put.hyps(2) in_step_lookup [OF put.prems(1), THEN iffD1, OF Some] by simp_all
    moreover have "distinct (map st_Key (ss_all s))" using put.prems(1) by (simp add: in_step_def)
    ultimately show ?thesis using x Some put.prems(2)
      by (simp add: owned_def put_study_all [OF put.prems(1)] replace_owned(2) [where P = "\<lambda>z. st_Owner z = i"])
  qed
next
  case (del s k y)
  have "st_Key x \<noteq> k" if "x \<in> set (ss_all s)" "st_Owner x = i" for x
    using that del.hyps del.prems in_step_lookup [OF del.prems(1), of "st_Key x" x] by auto
  then have "filter (\<lambda>x. st_Key x \<noteq> k \<and> st_Owner x = i) (ss_all s) = filter (\<lambda>x. st_Owner x = i) (ss_all s)"
    by (intro filter_cong) auto
  then show ?case by (simp add: owned_def del_study_eq [OF del.prems(1)])
next
  case (trans s t v)
  then show ?case using effect_in_step by metis
qed simp

text \<open>The member's own count stays within the quota, once it is.\<close>

lemma effect_quota:
  assumes "member_effect quota u s t" "in_step st_Key (ss_all s) (ss_byKey s)" "studyQuota quota u > 0"
    and "int (length (owned (u_ID u) s)) \<le> studyQuota quota u"
  shows "int (length (owned (u_ID u) t)) \<le> studyQuota quota u"
  using assms
proof (induction rule: member_effect.induct)
  case (put x s)
  show ?case
  proof (cases "ss_byKey s (st_Key x)")
    case None
    then show ?thesis using put by (simp add: owned_def put_study_all [OF put.prems(1)])
  next
    case (Some y)
    then have "y \<in> set (ss_all s)" "st_Key y = st_Key x" "st_Owner y = u_ID u"
      using put.hyps(2) in_step_lookup [OF put.prems(1), THEN iffD1, OF Some] by simp_all
    moreover have "st_Owner x = u_ID u" using put.hyps(1) by (simp add: confined_def)
    moreover have "distinct (map st_Key (ss_all s))" using put.prems(1) by (simp add: in_step_def)
    ultimately show ?thesis using Some put.prems(3)
      by (simp add: owned_def put_study_all [OF put.prems(1)] replace_owned(1) [where P = "\<lambda>z. st_Owner z = u_ID u"])
  qed
next
  case (del s k y)
  have "length (owned (u_ID u) (del_study k s)) \<le> length (owned (u_ID u) s)"
    by (simp add: owned_def del_study_eq [OF del.prems(1)])
      (metis (no_types, lifting) filter_filter length_filter_le conj_commute filter_cong)
  then show ?case using del.prems(3) by linarith
next
  case (trans s t v)
  then show ?case using effect_in_step by metis
qed simp

text \<open>Nothing new but confined studies.\<close>

lemma effect_confined:
  assumes "member_effect quota u s t" "in_step st_Key (ss_all s) (ss_byKey s)" "x \<in> set (ss_all t)"
  shows "x \<in> set (ss_all s) \<or> confined u x"
  using assms
proof (induction rule: member_effect.induct)
  case (put y s)
  then show ?case by (auto simp: put_study_all replace_key_def split: if_splits)
next
  case (del s k y)
  then show ?case by (simp add: del_study_eq)
next
  case (trans s t v)
  then show ?case using effect_in_step by metis
qed simp

section \<open>Sequences of requests\<close>

text \<open>A member: not an admin, and with an id.\<close>

definition member :: "user \<Rightarrow> bool" where
  "member u \<longleftrightarrow> \<not> IsAdmin u \<and> u_ID u \<noteq> ''''"

lemma serve_studies_step:
  "serve_studies decode quota preview state (r # rs) =
     serve_studies decode quota preview (snd (handleStudies decode quota preview state r)) rs"
  by (simp add: serve_studies_def)

lemma serve_induct:
  assumes "in_step st_Key (ss_all (fst state)) (ss_byKey (fst state))" "\<forall>(u, r) \<in> set reqs. member u"
    and "Q (fst state)"
    and step: "\<And>u r s t. (u, r) \<in> set reqs \<Longrightarrow> member u \<Longrightarrow> in_step st_Key (ss_all s) (ss_byKey s) \<Longrightarrow>
      member_effect quota u s t \<Longrightarrow> Q s \<Longrightarrow> Q t"
  shows "Q (fst (serve_studies decode quota preview state reqs))"
  using assms
proof (induction reqs arbitrary: state)
  case Nil
  then show ?case by (simp add: serve_studies_def)
next
  case (Cons ur reqs)
  obtain u r where ur: "ur = (u, r)" by (cases ur)
  let ?t = "snd (handleStudies decode quota preview state (u, r))"
  have m: "member u" using Cons.prems(2) ur by simp
  have eff: "member_effect quota u (fst state) (fst ?t)"
    using m Cons.prems(1) by (intro request_effect) (simp_all add: member_def)
  have "Q (fst (serve_studies decode quota preview ?t reqs))"
  proof (rule Cons.IH)
    show "in_step st_Key (ss_all (fst ?t)) (ss_byKey (fst ?t))" by (rule effect_in_step [OF eff Cons.prems(1)])
    show "\<forall>(u, r) \<in> set reqs. member u" using Cons.prems(2) by simp
    show "Q (fst ?t)" using Cons.prems(4) [OF _ m Cons.prems(1) eff Cons.prems(3)] ur by (metis list.set_intros(1))
    show "Q t'" if "(u', r') \<in> set reqs" "member u'" "in_step st_Key (ss_all s) (ss_byKey s)"
      "member_effect quota u' s t'" "Q s" for u' r' s t'
      using Cons.prems(4) [OF _ that(2-5)] that(1) by (metis list.set_intros(2))
  qed
  then show ?case by (simp add: serve_studies_step ur)
qed

text \<open>
  C19: On the study pages of the web server, requests of members (saves, deletes and imports
  of these pages, in any order and number) leave the studies of everyone else as they were,
  in their order: there a member cannot change, delete or take over a study of another
  owner, nor add one in another's name. Requests of admins are not covered, nor are the
  study handlers and the import of the API on the same server, which do let a member
  change the studies of others.
\<close>

theorem others_studies_untouched:
  assumes "in_step st_Key (ss_all (fst state)) (ss_byKey (fst state))"
    and "\<forall>(u, r) \<in> set reqs. member u \<and> u_ID u \<noteq> i"
  shows "owned i (fst (serve_studies decode quota preview state reqs)) = owned i (fst state)"
  by (rule serve_induct [where Q = "\<lambda>s. owned i s = owned i (fst state)", OF assms(1)])
    (use assms(2) effect_others in fastforce)+

definition bob_store :: study_store where
  "bob_store = \<lparr>ss_all = [plain_study], ss_byKey = [''k'' \<mapsto> plain_study]\<rparr>"

lemma bob_store_in_step: "in_step st_Key (ss_all bob_store) (ss_byKey bob_store)"
  by (simp add: bob_store_def in_step_def plain_study_def)

definition ann_requests :: "(user \<times> study_request) list" where
  "ann_requests = [(ann, SaveForm (plain_study\<lparr>st_Where := ''1''\<rparr>) ''5''), (ann, DeleteKey ''k''),
     (ann, SaveForm (plain_study\<lparr>st_Key := ''a'', st_Where := ''volume > 5''\<rparr>) ''5'')]"

lemma ann_requests_members: "\<forall>(u, r) \<in> set ann_requests. member u \<and> u_ID u \<noteq> ''bob''"
  by (simp add: ann_requests_def member_def ann_def IsAdmin_def RoleAdmin_def)

theorem others_studies_untouched_witness:
  "owned ''bob'' (fst (serve_studies (\<lambda>_. None) 3 (\<lambda>_. None :: string option) (bob_store, None) ann_requests)) =
     [plain_study]"
  using others_studies_untouched [of "(bob_store, None)" ann_requests "''bob''" "\<lambda>_. None" 3
      "\<lambda>_. None :: string option"] bob_store_in_step ann_requests_members
  by (simp add: owned_def bob_store_def plain_study_def)

text \<open>
  What members' requests add to the studies is confined: a study that was not there
  before belongs to one of the members who sent the requests, is of the free tier, is
  private or shared with a group that its owner is in, and its two clauses passed the
  checks of \<open>ValidateClause\<close>.
\<close>

theorem new_studies_confined:
  assumes "in_step st_Key (ss_all (fst state)) (ss_byKey (fst state))"
    and "\<forall>(u, r) \<in> set reqs. member u"
  shows "set (ss_all (fst (serve_studies decode quota preview state reqs))) \<subseteq>
    set (ss_all (fst state)) \<union> {x. \<exists>u \<in> fst ` set reqs. confined u x}"
proof (rule serve_induct [OF assms(1,2), where
      Q = "\<lambda>s. set (ss_all s) \<subseteq> set (ss_all (fst state)) \<union> {x. \<exists>u \<in> fst ` set reqs. confined u x}"])
  fix u r s t
  assume "(u, r) \<in> set reqs" "in_step st_Key (ss_all s) (ss_byKey s)" "member_effect quota u s t"
    "set (ss_all s) \<subseteq> set (ss_all (fst state)) \<union> {x. \<exists>u \<in> fst ` set reqs. confined u x}"
  then show "set (ss_all t) \<subseteq> set (ss_all (fst state)) \<union> {x. \<exists>u \<in> fst ` set reqs. confined u x}"
    using effect_confined [of quota u s t] by force
qed simp

theorem new_studies_confined_witness:
  "set (ss_all (fst (serve_studies (\<lambda>_. None) 3 (\<lambda>_. None :: string option) (bob_store, None) ann_requests))) \<subseteq>
     {plain_study} \<union> {x. confined ann x}"
  using new_studies_confined [of "(bob_store, None)" ann_requests "\<lambda>_. None" 3 "\<lambda>_. None :: string option"]
    bob_store_in_step ann_requests_members
  by (simp add: ann_requests_def bob_store_def)



end
