(* ===== verification/Isolation.thy ===== *)
theory Isolation
  imports Prelude
begin

text \<open>
  The contract behind access control: a step that is not allowed to touch an object
  leaves the part of the state that belongs to the object alone, and whether a step is
  allowed depends on that part only. The locale \<open>isolation\<close> states it for any step
  function with an invariant; its lemma carries it over to any sequence of steps: who
  may not touch the object at the start never will by their own steps.
\<close>

locale isolation =
  fixes step :: "'e \<Rightarrow> 's \<Rightarrow> 's"
    and inv :: "'s \<Rightarrow> bool"
    and same :: "'s \<Rightarrow> 's \<Rightarrow> bool"
    and may :: "'e \<Rightarrow> 's \<Rightarrow> bool"
  assumes same_refl: "same s s"
    and same_trans: "same s t \<Longrightarrow> same t v \<Longrightarrow> same s v"
    and keeps: "inv s \<Longrightarrow> \<not> may e s \<Longrightarrow> inv (step e s)"
    and respects: "inv s \<Longrightarrow> \<not> may e s \<Longrightarrow> same s (step e s)"
    and stable: "same s t \<Longrightarrow> may e t \<Longrightarrow> may e s"
begin

lemma run_isolated:
  assumes "inv s" "\<forall>e \<in> set es. \<not> may e s"
  shows "inv (fold step es s) \<and> same s (fold step es s)"
  using assms
proof (induction es arbitrary: s)
  case Nil
  then show ?case by (simp add: same_refl)
next
  case (Cons e es)
  then have e: "\<not> may e s" and same: "same s (step e s)" by (simp_all add: respects)
  have "\<forall>d \<in> set es. \<not> may d (step e s)" using Cons.prems(2) stable [OF same] by auto
  with Cons.IH [of "step e s"] keeps [OF Cons.prems(1) e]
  have "inv (fold step es (step e s))" "same (step e s) (fold step es (step e s))" by simp_all
  with same_trans [OF same] show ?case by simp
qed

end

end
