(* ===== verification/Api.thy ===== *)
theory Api
  imports Access_Control User_Store
begin

text \<open>
  What the handlers of \<open>internal/api\<close> share: responses, authentication
  (\<open>auth.go\<close>), and the checks that guard a handler. A response is an error with
  its status and code, or a status with the value that is encoded as JSON. A request that
  changes something returns the response with the state it leaves. A body that does not
  decode is \<open>None\<close>. The token verifier and the validator of session cookies are
  arguments, each \<open>None\<close> where the server runs without it.
\<close>

section \<open>Responses\<close>

datatype 'b response = Fail int string | Reply int 'b

definition ok_json :: "'b \<Rightarrow> 'b response" where "ok_json b = Reply 200 b"
definition created_json :: "'b \<Rightarrow> 'b response" where "created_json b = Reply 201 b"
definition no_content :: "unit response" where "no_content = Reply 204 ()"

text \<open>An answer of the permission checker: an error, a refusal, or leave to go on.\<close>

definition permitted :: "string \<Rightarrow> (sql_error, bool) result \<Rightarrow> 'b response option" where
  "permitted code r = (case r of
     Inl e \<Rightarrow> Some (Fail 500 ''PERMISSION_CHECK_FAILED'')
   | Inr False \<Rightarrow> Some (Fail 403 code)
   | Inr True \<Rightarrow> None)"

lemma permitted_None [simp]: "permitted code r = None \<longleftrightarrow> r = Inr True"
  by (auto simp: permitted_def split: sum.split bool.split)

text \<open>Query parameters that are missing, malformed or out of range keep the default.\<close>

definition query_limit :: "string \<Rightarrow> int" where
  "query_limit s = (if s = '''' then 50 else case atoi s of None \<Rightarrow> 50 | Some n \<Rightarrow> if n > 0 then n else 50)"

definition query_offset :: "string \<Rightarrow> int" where
  "query_offset s = (if s = '''' then 0 else case atoi s of None \<Rightarrow> 0 | Some n \<Rightarrow> if n \<ge> 0 then n else 0)"

section \<open>Authentication\<close>

record gate =
  verifier :: "(string \<Rightarrow> string option) option"
  session_validator :: "(string \<Rightarrow> string option) option"

record credentials =
  authorization :: string
  session_cookie :: "string option"

definition trim_prefix :: "string \<Rightarrow> string \<Rightarrow> string" where
  "trim_prefix s p = (if has_prefix s p then drop (length p) s else s)"

definition enabled_user :: "user_store \<Rightarrow> string \<Rightarrow> user option" where
  "enabled_user us i = (case Find i us of None \<Rightarrow> None | Some u \<Rightarrow> if u_Disabled u then None else Some u)"

definition bearer_token :: "string \<Rightarrow> string option" where
  "bearer_token auth =
     (let token = trim_prefix auth ''Bearer ''
      in if auth \<noteq> '''' \<and> token \<noteq> auth \<and> token \<noteq> '''' then Some token else None)"

definition bearer_user :: "gate \<Rightarrow> user_store \<Rightarrow> credentials \<Rightarrow> user option" where
  "bearer_user g us c = (case (verifier g, bearer_token (authorization c)) of
     (Some verify, Some token) \<Rightarrow> (case verify token of None \<Rightarrow> None | Some i \<Rightarrow> enabled_user us i)
   | _ \<Rightarrow> None)"

definition cookie_user :: "gate \<Rightarrow> user_store \<Rightarrow> credentials \<Rightarrow> user option" where
  "cookie_user g us c = (case (session_validator g, session_cookie c) of
     (Some valid, Some tok) \<Rightarrow> (case valid tok of None \<Rightarrow> None | Some i \<Rightarrow> enabled_user us i)
   | _ \<Rightarrow> None)"

definition requireAuth :: "gate \<Rightarrow> user_store \<Rightarrow> credentials \<Rightarrow> user option" where
  "requireAuth g us c = (case bearer_user g us c of Some u \<Rightarrow> Some u | None \<Rightarrow> cookie_user g us c)"

text \<open>A handler behind \<open>requireAuth\<close>: without a user it answers 401 and changes nothing.\<close>

definition authenticated ::
    "gate \<Rightarrow> user_store \<Rightarrow> credentials \<Rightarrow> (user \<Rightarrow> 's \<Rightarrow> 'b response \<times> 's) \<Rightarrow> 's \<Rightarrow> 'b response \<times> 's" where
  "authenticated g us c h s = (case requireAuth g us c of
     None \<Rightarrow> (Fail 401 ''UNAUTHORIZED'', s) | Some u \<Rightarrow> h u s)"

lemma bearer_token_iff: "bearer_token auth = Some t \<longleftrightarrow> auth = ''Bearer '' @ t \<and> t \<noteq> ''''"
proof (cases "has_prefix auth ''Bearer ''")
  case True
  then obtain s where s: "auth = ''Bearer '' @ s" unfolding has_prefix_iff by blast
  from True have "trim_prefix auth ''Bearer '' = s" by (simp add: trim_prefix_def s)
  with s show ?thesis by (auto simp: bearer_token_def Let_def)
next
  case False
  then have "auth \<noteq> ''Bearer '' @ t" by (metis has_prefix_append)
  with False show ?thesis by (simp add: bearer_token_def trim_prefix_def Let_def)
qed

lemma enabled_user_iff: "enabled_user us i = Some u \<longleftrightarrow> Find i us = Some u \<and> \<not> u_Disabled u"
  by (auto simp: enabled_user_def split: option.splits)

text \<open>The user a request names by its bearer token, or by its session cookie.\<close>

definition token_names :: "gate \<Rightarrow> credentials \<Rightarrow> string \<Rightarrow> bool" where
  "token_names g c i \<longleftrightarrow> (\<exists>verify token. verifier g = Some verify \<and>
     authorization c = ''Bearer '' @ token \<and> token \<noteq> '''' \<and> verify token = Some i)"

definition cookie_names :: "gate \<Rightarrow> credentials \<Rightarrow> string \<Rightarrow> bool" where
  "cookie_names g c i \<longleftrightarrow> (\<exists>valid token. session_validator g = Some valid \<and>
     session_cookie c = Some token \<and> valid token = Some i)"

lemma token_names_iff: "token_names g c i \<longleftrightarrow> (\<exists>verify token. verifier g = Some verify \<and>
    bearer_token (authorization c) = Some token \<and> verify token = Some i)"
  unfolding token_names_def bearer_token_iff by metis

lemma bearer_user_iff:
  "bearer_user g us c = Some u \<longleftrightarrow> (\<exists>i. token_names g c i \<and> Find i us = Some u \<and> \<not> u_Disabled u)"
  by (auto simp: bearer_user_def token_names_iff enabled_user_iff split: option.splits)

lemma cookie_user_iff:
  "cookie_user g us c = Some u \<longleftrightarrow> (\<exists>i. cookie_names g c i \<and> Find i us = Some u \<and> \<not> u_Disabled u)"
  by (auto simp: cookie_user_def cookie_names_def enabled_user_iff split: option.splits)

text \<open>
  C14: who gets past \<open>requireAuth\<close>. It returns a user exactly if the bearer token of the
  request names that user for the verifier, or, when the token leads to nobody, the
  cookie does for the session validator; and in both cases the user must be in the
  store and not disabled.
\<close>

theorem authentication_exact:
  "requireAuth g us c = Some u \<longleftrightarrow>
     (\<exists>i. token_names g c i \<and> Find i us = Some u \<and> \<not> u_Disabled u) \<or>
     (\<nexists>i v. token_names g c i \<and> Find i us = Some v \<and> \<not> u_Disabled v) \<and>
     (\<exists>i. cookie_names g c i \<and> Find i us = Some u \<and> \<not> u_Disabled u)"
proof (cases "bearer_user g us c")
  case None
  then have "\<nexists>i v. token_names g c i \<and> Find i us = Some v \<and> \<not> u_Disabled v"
    using bearer_user_iff [of g us c] by auto
  then show ?thesis using cookie_user_iff [of g us c u] by (auto simp: requireAuth_def None)
next
  case (Some v)
  then have "\<exists>i. token_names g c i \<and> Find i us = Some v \<and> \<not> u_Disabled v"
    using bearer_user_iff [of g us c] by simp
  moreover have "requireAuth g us c = Some u \<longleftrightarrow> u = v" by (auto simp: requireAuth_def Some)
  ultimately show ?thesis using Some bearer_user_iff [of g us c] by (metis option.inject)
qed

end
