(* ===== verification/Api_Results.thy ===== *)
theory Api_Results
  imports Api
begin

text \<open>
  \<open>internal/api/results.go\<close>: the handlers of saved results, composed of the permission
  checker and the result store over one database. The user is the one \<open>requireAuth\<close>
  found, \<open>now\<close> is the clock, an identifier is still the text of the path.
\<close>

section \<open>Bodies\<close>

record save_body =
  sb_study_id :: string
  sb_snapshot_date :: int
  sb_results :: "match list"
  sb_name :: string
  sb_notes :: string
  sb_perm_owner :: int
  sb_perm_group :: int
  sb_perm_all :: int
  sb_group_id :: string

record mode_body =
  mb_perm_owner :: int
  mb_perm_group :: int
  mb_perm_all :: int
  mb_group_id :: string

record owner_body =
  ob_user_id :: string
  ob_group_id :: string

record acl_body =
  ab_user_id :: string
  ab_permission :: int

section \<open>Handlers\<close>

definition SaveResult :: "int \<Rightarrow> save_body option \<Rightarrow> user \<Rightarrow> database \<Rightarrow> saved_result response \<times> database" where
  "SaveResult now body u db = (case body of
     None \<Rightarrow> (Fail 400 ''INVALID_BODY'', db)
   | Some b \<Rightarrow>
       if sb_study_id b = '''' \<or> sb_snapshot_date b = 0 then (Fail 400 ''MISSING_FIELDS'', db)
       else let b = (if sb_perm_owner b = 0 then b\<lparr>sb_perm_owner := PermFull\<rparr> else b)
       in if \<not> ValidPermission (sb_perm_owner b) \<or> \<not> ValidPermission (sb_perm_group b) \<or> \<not> ValidPermission (sb_perm_all b)
          then (Fail 400 ''INVALID_PERMISSIONS'', db)
          else let r = \<lparr>ID = 0, UserID = u_ID u, StudyID = sb_study_id b, SnapshotDate = sb_snapshot_date b,
                     Results = sb_results b, CreatedAt = now, Name = sb_name b, Notes = sb_notes b,
                     PermOwner = sb_perm_owner b, PermGroup = sb_perm_group b, PermAll = sb_perm_all b,
                     GroupID = sb_group_id b\<rparr>
               in (case Save r db of
                     Inl e \<Rightarrow> (Fail 500 ''SAVE_FAILED'', db)
                   | Inr (i, db) \<Rightarrow> (created_json (r\<lparr>ID := i\<rparr>), db)))"

definition GetResult :: "string \<Rightarrow> user \<Rightarrow> database \<Rightarrow> saved_result response" where
  "GetResult path u db = (case atoi path of
     None \<Rightarrow> Fail 400 ''INVALID_ID''
   | Some i \<Rightarrow> (case Result_Store.Get i db of
       Inl e \<Rightarrow> Fail 500 ''GET_FAILED''
     | Inr None \<Rightarrow> Fail 404 ''NOT_FOUND''
     | Inr (Some r) \<Rightarrow> (case permitted ''FORBIDDEN'' (CanRead (db_checker db) (u_ID u) i) of
         Some f \<Rightarrow> f | None \<Rightarrow> ok_json r)))"

definition list_reply ::
    "(string \<Rightarrow> int \<Rightarrow> int \<Rightarrow> database \<Rightarrow> (sql_error, saved_result list) result) \<Rightarrow>
     string \<Rightarrow> string \<Rightarrow> user \<Rightarrow> database \<Rightarrow> (saved_result list \<times> int \<times> int) response" where
  "list_reply f limit offset u db =
     (case f (u_ID u) (query_limit limit) (query_offset offset) db of
        Inl e \<Rightarrow> Fail 500 ''LIST_FAILED''
      | Inr rs \<Rightarrow> ok_json (rs, query_limit limit, query_offset offset))"

definition ListResults ::
    "string \<Rightarrow> string \<Rightarrow> user \<Rightarrow> database \<Rightarrow> (saved_result list \<times> int \<times> int) response" where
  "ListResults = list_reply Result_Store.List"

definition ListAccessibleResults ::
    "string \<Rightarrow> string \<Rightarrow> user \<Rightarrow> database \<Rightarrow> (saved_result list \<times> int \<times> int) response" where
  "ListAccessibleResults = list_reply ListAccessible"

definition DeleteResult :: "string \<Rightarrow> user \<Rightarrow> database \<Rightarrow> unit response \<times> database" where
  "DeleteResult path u db = (case atoi path of
     None \<Rightarrow> (Fail 400 ''INVALID_ID'', db)
   | Some i \<Rightarrow> (case permitted ''FORBIDDEN'' (CanDelete (db_checker db) (u_ID u) i) of
       Some f \<Rightarrow> (f, db)
     | None \<Rightarrow> (case Result_Store.Delete i db of
         Inl e \<Rightarrow> (Fail 500 ''DELETE_FAILED'', db)
       | Inr db \<Rightarrow> (no_content, db))))"

definition UpdateResultPermissions ::
    "string \<Rightarrow> mode_body option \<Rightarrow> user \<Rightarrow> database \<Rightarrow> unit response \<times> database" where
  "UpdateResultPermissions path body u db = (case atoi path of
     None \<Rightarrow> (Fail 400 ''INVALID_ID'', db)
   | Some i \<Rightarrow> (case permitted ''FORBIDDEN'' (CanWrite (db_checker db) (u_ID u) i) of
       Some f \<Rightarrow> (f, db)
     | None \<Rightarrow> (case body of
         None \<Rightarrow> (Fail 400 ''INVALID_BODY'', db)
       | Some b \<Rightarrow>
           if \<not> ValidPermission (mb_perm_owner b) \<or> \<not> ValidPermission (mb_perm_group b) \<or> \<not> ValidPermission (mb_perm_all b)
           then (Fail 400 ''INVALID_PERMISSIONS'', db)
           else (case UpdatePermissions i (mb_perm_owner b) (mb_perm_group b) (mb_perm_all b) (mb_group_id b) db of
               Inl e \<Rightarrow> (Fail 500 ''UPDATE_FAILED'', db)
             | Inr db \<Rightarrow> (ok_json (), db)))))"

definition ChangeResultOwner ::
    "string \<Rightarrow> owner_body option \<Rightarrow> user \<Rightarrow> database \<Rightarrow> unit response \<times> database" where
  "ChangeResultOwner path body u db = (case atoi path of
     None \<Rightarrow> (Fail 400 ''INVALID_ID'', db)
   | Some i \<Rightarrow> (case Result_Store.Get i db of
       Inl e \<Rightarrow> (Fail 500 ''GET_FAILED'', db)
     | Inr None \<Rightarrow> (Fail 404 ''NOT_FOUND'', db)
     | Inr (Some r) \<Rightarrow>
         if UserID r \<noteq> u_ID u \<and> \<not> User_Store.IsAdmin u then (Fail 403 ''FORBIDDEN'', db)
         else (case body of
             None \<Rightarrow> (Fail 400 ''INVALID_BODY'', db)
           | Some b \<Rightarrow>
               if ob_user_id b = '''' then (Fail 400 ''MISSING_FIELDS'', db)
               else (case ChangeOwner i (ob_user_id b) (ob_group_id b) db of
                   Inl e \<Rightarrow> (Fail 500 ''CHANGE_OWNER_FAILED'', db)
                 | Inr db \<Rightarrow> (ok_json (), db)))))"

definition AddResultACL ::
    "int \<Rightarrow> string \<Rightarrow> acl_body option \<Rightarrow> user \<Rightarrow> database \<Rightarrow> acl_row response \<times> database" where
  "AddResultACL now path body u db = (case atoi path of
     None \<Rightarrow> (Fail 400 ''INVALID_ID'', db)
   | Some i \<Rightarrow> (case permitted ''FORBIDDEN'' (CanWrite (db_checker db) (u_ID u) i) of
       Some f \<Rightarrow> (f, db)
     | None \<Rightarrow> (case body of
         None \<Rightarrow> (Fail 400 ''INVALID_BODY'', db)
       | Some b \<Rightarrow>
           if ab_user_id b = '''' then (Fail 400 ''MISSING_FIELDS'', db)
           else if \<not> ValidPermission (ab_permission b) then (Fail 400 ''INVALID_PERMISSION'', db)
           else let a = \<lparr>ar_result_id = i, ar_user_id = ab_user_id b, ar_permission = ab_permission b,
                      ar_granted_at = now, ar_granted_by = u_ID u\<rparr>
                in (case AddACL a db of
                      Inl e \<Rightarrow> (Fail 500 ''ADD_ACL_FAILED'', db)
                    | Inr db \<Rightarrow> (created_json a, db)))))"

definition RemoveResultACL :: "string \<Rightarrow> string \<Rightarrow> user \<Rightarrow> database \<Rightarrow> unit response \<times> database" where
  "RemoveResultACL path v u db = (case atoi path of
     None \<Rightarrow> (Fail 400 ''INVALID_ID'', db)
   | Some i \<Rightarrow> (case permitted ''FORBIDDEN'' (CanWrite (db_checker db) (u_ID u) i) of
       Some f \<Rightarrow> (f, db)
     | None \<Rightarrow> (case RemoveACL i v db of
         Inl e \<Rightarrow> (Fail 500 ''REMOVE_ACL_FAILED'', db)
       | Inr db \<Rightarrow> (no_content, db))))"

definition ListResultACLs :: "string \<Rightarrow> user \<Rightarrow> database \<Rightarrow> acl_row list response" where
  "ListResultACLs path u db = (case atoi path of
     None \<Rightarrow> Fail 400 ''INVALID_ID''
   | Some i \<Rightarrow> (case permitted ''FORBIDDEN'' (CanRead (db_checker db) (u_ID u) i) of
       Some f \<Rightarrow> f | None \<Rightarrow> ok_json (ListACLs i db)))"

definition ExportResults :: "int \<Rightarrow> user \<Rightarrow> database \<Rightarrow> export_data response" where
  "ExportResults now u db = (case Export now (u_ID u) db of
     Inl e \<Rightarrow> Fail 500 ''EXPORT_FAILED'' | Inr x \<Rightarrow> ok_json x)"

definition ImportResults :: "export_data option \<Rightarrow> user \<Rightarrow> database \<Rightarrow> nat response \<times> database" where
  "ImportResults body u db = (case body of
     None \<Rightarrow> (Fail 400 ''INVALID_BODY'', db)
   | Some x \<Rightarrow> (case Import (x\<lparr>x_UserID := u_ID u\<rparr>) db of
       ((n, Some e), db) \<Rightarrow> (Fail 500 ''IMPORT_FAILED'', db)
     | ((n, None), db) \<Rightarrow> (ok_json n, db)))"

section \<open>Requests\<close>

datatype result_request =
    SaveReq "save_body option"
  | DeleteReq string
  | ChmodReq string "mode_body option"
  | ChownReq string "owner_body option"
  | AddACLReq string "acl_body option"
  | RemoveACLReq string string
  | ImportReq "export_data option"

primrec serve_result :: "int \<Rightarrow> user \<Rightarrow> result_request \<Rightarrow> database \<Rightarrow> database" where
  "serve_result now u (SaveReq b) db = snd (SaveResult now b u db)"
| "serve_result now u (DeleteReq p) db = snd (DeleteResult p u db)"
| "serve_result now u (ChmodReq p b) db = snd (UpdateResultPermissions p b u db)"
| "serve_result now u (ChownReq p b) db = snd (ChangeResultOwner p b u db)"
| "serve_result now u (AddACLReq p b) db = snd (AddResultACL now p b u db)"
| "serve_result now u (RemoveACLReq p v) db = snd (RemoveResultACL p v u db)"
| "serve_result now u (ImportReq x) db = snd (ImportResults x u db)"

end
