(* ===== verification/Api_Groups.thy ===== *)
theory Api_Groups
  imports Api
begin

text \<open>
  \<open>internal/api/groups.go\<close>: the handlers of groups and their members over the group
  store. The user is the one \<open>requireAuth\<close> found, \<open>now\<close> is the clock; the identifiers of
  the path are strings already.
\<close>

section \<open>Bodies\<close>

record group_body =
  gb_id :: string
  gb_name :: string
  gb_description :: string

record member_body =
  eb_user_id :: string
  eb_role :: string

section \<open>Handlers\<close>

text \<open>A group that was created stays when making its owner the leader fails.\<close>

definition CreateGroup :: "int \<Rightarrow> group_body option \<Rightarrow> user \<Rightarrow> database \<Rightarrow> group_row response \<times> database" where
  "CreateGroup now body u db = (case body of
     None \<Rightarrow> (Fail 400 ''INVALID_BODY'', db)
   | Some b \<Rightarrow>
       if gb_id b = '''' \<or> gb_name b = '''' then (Fail 400 ''MISSING_FIELDS'', db)
       else let g = \<lparr>gr_id = gb_id b, gr_name = gb_name b, gr_description = gb_description b,
                  gr_owner_id = u_ID u, gr_created_at = now\<rparr>
       in (case Group_Store.Create g db of
             Inl e \<Rightarrow> (Fail 500 ''CREATE_FAILED'', db)
           | Inr db \<Rightarrow> (case AddMember now (gr_id g) (u_ID u) ''leader'' db of
               Inl e \<Rightarrow> (Fail 500 ''ADD_MEMBER_FAILED'', db)
             | Inr db \<Rightarrow> (created_json g, db))))"

definition GetGroup :: "string \<Rightarrow> database \<Rightarrow> group_row response" where
  "GetGroup i db = (case Group_Store.Get i db of None \<Rightarrow> Fail 404 ''NOT_FOUND'' | Some g \<Rightarrow> ok_json g)"

definition ListGroups :: "database \<Rightarrow> group_row list response" where
  "ListGroups db = ok_json (Group_Store.List db)"

definition ListUserGroups_handler :: "string \<Rightarrow> user \<Rightarrow> database \<Rightarrow> group_row list response" where
  "ListUserGroups_handler path u db =
     (let i = (if path = '''' then u_ID u else path)
      in if i \<noteq> u_ID u \<and> \<not> User_Store.IsAdmin u then Fail 403 ''FORBIDDEN''
         else ok_json (ListUserGroups i db))"

definition DeleteGroup :: "string \<Rightarrow> user \<Rightarrow> database \<Rightarrow> unit response \<times> database" where
  "DeleteGroup i u db = (case Group_Store.Get i db of
     None \<Rightarrow> (Fail 404 ''NOT_FOUND'', db)
   | Some g \<Rightarrow>
       if gr_owner_id g \<noteq> u_ID u \<and> \<not> User_Store.IsAdmin u then (Fail 403 ''FORBIDDEN'', db)
       else (case Group_Store.Delete i db of
           Inl e \<Rightarrow> (Fail 500 ''DELETE_FAILED'', db)
         | Inr db \<Rightarrow> (no_content, db)))"

definition leads :: "string \<Rightarrow> string \<Rightarrow> database \<Rightarrow> bool" where
  "leads g u db \<longleftrightarrow> (case GetMember g u db of None \<Rightarrow> False | Some m \<Rightarrow> gm_role m = ''leader'')"

definition AddGroupMember ::
    "int \<Rightarrow> string \<Rightarrow> member_body option \<Rightarrow> user \<Rightarrow> database \<Rightarrow> unit response \<times> database" where
  "AddGroupMember now i body u db = (case Group_Store.Get i db of
     None \<Rightarrow> (Fail 404 ''NOT_FOUND'', db)
   | Some g \<Rightarrow>
       if \<not> leads i (u_ID u) db \<and> \<not> User_Store.IsAdmin u then (Fail 403 ''FORBIDDEN'', db)
       else (case body of
           None \<Rightarrow> (Fail 400 ''INVALID_BODY'', db)
         | Some b \<Rightarrow>
             if eb_user_id b = '''' then (Fail 400 ''MISSING_FIELDS'', db)
             else let role = (if eb_role b = '''' then ''member'' else eb_role b)
             in (case AddMember now i (eb_user_id b) role db of
                   Inl e \<Rightarrow> (Fail 500 ''ADD_MEMBER_FAILED'', db)
                 | Inr db \<Rightarrow> (created_json (), db))))"

definition RemoveGroupMember :: "string \<Rightarrow> string \<Rightarrow> user \<Rightarrow> database \<Rightarrow> unit response \<times> database" where
  "RemoveGroupMember i v u db = (case Group_Store.Get i db of
     None \<Rightarrow> (Fail 404 ''NOT_FOUND'', db)
   | Some g \<Rightarrow>
       if \<not> leads i (u_ID u) db \<and> \<not> User_Store.IsAdmin u then (Fail 403 ''FORBIDDEN'', db)
       else (case RemoveMember i v db of
           Inl e \<Rightarrow> (Fail 500 ''REMOVE_MEMBER_FAILED'', db)
         | Inr db \<Rightarrow> (no_content, db)))"

definition ListGroupMembers :: "string \<Rightarrow> database \<Rightarrow> member_row list response" where
  "ListGroupMembers i db = ok_json (ListMembers i db)"

text \<open>The body of an import is the list of groups it decodes to; any user may send one.\<close>

definition ImportGroups :: "group_row list option \<Rightarrow> database \<Rightarrow> nat response \<times> database" where
  "ImportGroups body db = (case body of
     None \<Rightarrow> (Fail 400 ''IMPORT_FAILED'', db)
   | Some gs \<Rightarrow> (case Group_Store.ImportJSON gs db of (n, db) \<Rightarrow> (ok_json n, db)))"

section \<open>Requests\<close>

datatype group_request =
    CreateGroupReq "group_body option"
  | DeleteGroupReq string
  | AddMemberReq string "member_body option"
  | RemoveMemberReq string string
  | ImportGroupsReq "group_row list option"

primrec serve_group :: "int \<Rightarrow> user \<Rightarrow> group_request \<Rightarrow> database \<Rightarrow> database" where
  "serve_group now u (CreateGroupReq b) db = snd (CreateGroup now b u db)"
| "serve_group now u (DeleteGroupReq i) db = snd (DeleteGroup i u db)"
| "serve_group now u (AddMemberReq i b) db = snd (AddGroupMember now i b u db)"
| "serve_group now u (RemoveMemberReq i v) db = snd (RemoveGroupMember i v u db)"
| "serve_group now u (ImportGroupsReq gs) db = snd (ImportGroups gs db)"

section \<open>What a request leaves\<close>

lemma db_ok_serve_group:
  assumes "db_ok db"
  shows "db_ok (serve_group now u r db)"
proof (cases r)
  case (CreateGroupReq b)
  then show ?thesis using assms
    by (auto simp: CreateGroup_def Let_def split: option.split sum.split intro: db_ok_Create db_ok_AddMember)
next
  case (DeleteGroupReq i)
  then show ?thesis using assms
    by (auto simp: DeleteGroup_def split: option.split sum.split intro: Group_Store.db_ok_Delete)
next
  case (AddMemberReq i b)
  then show ?thesis using assms
    by (auto simp: AddGroupMember_def Let_def split: option.split sum.split intro: db_ok_AddMember)
next
  case (RemoveMemberReq i v)
  then show ?thesis using assms
    by (auto simp: RemoveGroupMember_def split: option.split sum.split intro: db_ok_RemoveMember)
next
  case (ImportGroupsReq gs)
  then show ?thesis using assms db_ok_ImportJSON
    by (auto simp: ImportGroups_def split: option.split prod.split) (metis snd_conv)
qed

end
