(* ===== verification/Api_Isolation.thy ===== *)
theory Api_Isolation
  imports Isolation Api_Results Api_Groups
begin

text \<open>
  Who can tamper with a saved result through the API. The handlers of results and of
  groups run over one database; a result is protected by its permission bits, its ACL
  entries, its owner and the membership of its group, which the same handlers change.
\<close>

section \<open>Requests\<close>

datatype api_request = OnResults result_request | OnGroups group_request

type_synonym api_event = "int \<times> user \<times> api_request"

definition serve_api :: "api_event \<Rightarrow> database \<Rightarrow> database" where
  "serve_api e db = (case e of (now, u, r) \<Rightarrow> (case r of
     OnResults r \<Rightarrow> serve_result now u r db | OnGroups r \<Rightarrow> serve_group now u r db))"

lemma db_ok_serve_result:
  assumes "db_ok db"
  shows "db_ok (serve_result now u r db)"
proof (cases r)
  case (SaveReq b)
  then show ?thesis using assms db_ok_Save [OF assms]
    by (auto simp: SaveResult_def Let_def split: option.split sum.split)
next
  case (DeleteReq p)
  then show ?thesis using assms
    by (auto simp: DeleteResult_def split: option.split sum.split intro: db_ok_Delete_result)
next
  case (ChmodReq p b)
  then show ?thesis using assms
    by (auto simp: UpdateResultPermissions_def split: option.split sum.split intro: db_ok_UpdatePermissions)
next
  case (ChownReq p b)
  then show ?thesis using assms
    by (auto simp: ChangeResultOwner_def split: option.split sum.split intro: db_ok_ChangeOwner)
next
  case (AddACLReq p b)
  then show ?thesis using assms
    by (auto simp: AddResultACL_def Let_def split: option.split sum.split intro: db_ok_AddACL)
next
  case (RemoveACLReq p v)
  then show ?thesis using assms
    by (auto simp: RemoveResultACL_def split: option.split sum.split intro: db_ok_RemoveACL)
next
  case (ImportReq x)
  have "db_ok (snd (Import y db))" for y using assms by (simp add: Import_def db_ok_import)
  then have "db_ok db'" if "Import y db = (z, db')" for y z db' using that by (metis snd_conv)
  with ImportReq show ?thesis using assms
    by (auto simp: ImportResults_def split: option.split prod.split)
qed

section \<open>What belongs to a result\<close>

definition the_row :: "int \<Rightarrow> database \<Rightarrow> result_row option" where
  "the_row i db = find (\<lambda>r. rr_id r = i) (db_results db)"

definition its_group :: "int \<Rightarrow> database \<Rightarrow> string option" where
  "its_group i db = Option.bind (the_row i db) rr_group_id"

definition its_acls :: "int \<Rightarrow> database \<Rightarrow> acl_row list" where
  "its_acls i db = filter (\<lambda>a. ar_result_id a = i) (db_acls db)"

definition members_of :: "string \<Rightarrow> database \<Rightarrow> member_row list" where
  "members_of g db = filter (\<lambda>m. gm_group_id m = g) (db_members db)"

definition same_result :: "int \<Rightarrow> database \<Rightarrow> database \<Rightarrow> bool" where
  "same_result i s t \<longleftrightarrow> db_users t = db_users s \<and> the_row i t = the_row i s \<and> its_acls i t = its_acls i s \<and>
     (\<forall>g. its_group i s = Some g \<longrightarrow>
        Group_Store.Get g t = Group_Store.Get g s \<and> members_of g t = members_of g s)"

text \<open>
  Whoever may write or delete the result, owns it, owns or leads its group, or is an
  admin for the checker (by the role in the table) or for the handlers (by the role in
  memory).
\<close>

definition may_touch :: "int \<Rightarrow> user \<Rightarrow> database \<Rightarrow> bool" where
  "may_touch i u db \<longleftrightarrow> User_Store.IsAdmin u \<or>
     CanWrite (db_checker db) (u_ID u) i = Inr True \<or> CanDelete (db_checker db) (u_ID u) i = Inr True \<or>
     (\<exists>r. the_row i db = Some r \<and> rr_user_id r = u_ID u) \<or>
     (\<exists>g. its_group i db = Some g \<and> (leads g (u_ID u) db \<or>
        (\<exists>x. Group_Store.Get g db = Some x \<and> gr_owner_id x = u_ID u)))"

section \<open>Whether a user may touch it depends on nothing else\<close>

lemma find_filter: "find P (filter Q xs) = find (\<lambda>x. Q x \<and> P x) xs"
  by (induction xs) auto

lemma same_checker:
  assumes "same_result i s t"
  shows "CanAccess (db_checker t) u i a = CanAccess (db_checker s) u i a"
proof -
  have users: "db_users t = db_users s" and row: "the_row i t = the_row i s" and acls: "its_acls i t = its_acls i s"
    using assms by (simp_all add: same_result_def)
  have acl: "db_GetACLPermission t u i = db_GetACLPermission s u i"
  proof -
    have "find (\<lambda>a. acl_key a = (i, u)) (db_acls d) = find (\<lambda>a. ar_user_id a = u) (its_acls i d)" for d
      by (simp add: its_acls_def find_filter acl_key_def)
    then show ?thesis by (simp add: db_GetACLPermission_def acls)
  qed
  have owner: "db_IsOwner t u i = db_IsOwner s u i"
    and perms: "db_GetResourcePermissions t i = db_GetResourcePermissions s i"
    using row by (simp_all add: db_IsOwner_def db_GetResourcePermissions_def the_row_def)
  have mem: "db_IsGroupMember t u g = db_IsGroupMember s u g" if "its_group i s = Some g" for g
  proof -
    have "filter (\<lambda>m. member_key m = (g, u)) (db_members d) = filter (\<lambda>m. gm_user_id m = u) (members_of g d)" for d
      by (auto simp: members_of_def member_key_def intro: filter_cong)
    then show ?thesis using assms that by (simp add: db_IsGroupMember_def same_result_def)
  qed
  have bits: "check_bits (db_checker t) u a p = check_bits (db_checker s) u a p"
    if "db_GetResourcePermissions s i = Inr p" for p
  proof -
    obtain po pg pa g where p: "p = (po, pg, pa, g)" by (cases p)
    with that have "its_group i s = Some g"
      by (auto simp: db_GetResourcePermissions_def its_group_def the_row_def split: option.splits)
    from mem [OF this] show ?thesis by (simp add: check_bits_def p db_checker_def)
  qed
  have "bind_res (db_GetResourcePermissions s i) (check_bits (db_checker t) u a) =
      bind_res (db_GetResourcePermissions s i) (check_bits (db_checker s) u a)"
    using bits by (cases "db_GetResourcePermissions s i") simp_all
  then show ?thesis
    by (simp add: CanAccess_def db_checker_def db_IsAdmin_def users acl owner perms cong: if_cong)
qed

lemma same_result_refl: "same_result i s s"
  by (simp add: same_result_def)

lemma same_group: "same_result i s t \<Longrightarrow> its_group i t = its_group i s"
  by (simp add: same_result_def its_group_def)

lemma same_result_trans: "same_result i s t \<Longrightarrow> same_result i t v \<Longrightarrow> same_result i s v"
  using same_group [of i s t] by (auto simp: same_result_def)

lemma leads_members:
  "leads g u db \<longleftrightarrow> (case find (\<lambda>m. gm_user_id m = u) (members_of g db) of None \<Rightarrow> False | Some m \<Rightarrow> gm_role m = ''leader'')"
  by (simp add: leads_def GetMember_def members_of_def find_filter member_key_def)

lemma may_touch_stable:
  assumes "same_result i s t" "may_touch i u t"
  shows "may_touch i u s"
proof -
  have "leads g (u_ID u) t = leads g (u_ID u) s" "Group_Store.Get g t = Group_Store.Get g s"
    if "its_group i s = Some g" for g
    using assms(1) that by (simp_all add: same_result_def leads_members)
  moreover have "the_row i t = the_row i s" using assms(1) by (simp add: same_result_def)
  ultimately show ?thesis
    using assms(2) same_group [OF assms(1)]
    unfolding may_touch_def CanWrite_def CanDelete_def same_checker [OF assms(1)] by auto
qed

section \<open>Statements about other objects\<close>

lemma find_map_same:
  assumes "\<And>x. key (f x) = key x" "\<And>x. key x = k \<Longrightarrow> f x = x"
  shows "find (\<lambda>x. key x = k) (map f xs) = find (\<lambda>x. key x = k) xs"
  using assms by (induction xs) auto

lemma find_other: "key x \<noteq> k \<Longrightarrow> find (\<lambda>x. key x = k) (xs @ [x]) = find (\<lambda>x. key x = k) xs"
  by (simp add: find_append split: option.split)

lemma find_kept:
  "(\<And>x. key x = k \<Longrightarrow> P x) \<Longrightarrow> find (\<lambda>x. key x = k) (filter P xs) = find (\<lambda>x. key x = k) xs"
  by (induction xs) auto

lemma filter_kept:
  "(\<And>x. Q x \<Longrightarrow> P x) \<Longrightarrow> filter Q (filter P xs) = filter Q xs"
  by (induction xs) auto

lemma same_rows_only:
  assumes "db_users t = db_users s" "db_groups t = db_groups s" "db_members t = db_members s"
    "the_row i t = the_row i s" "its_acls i t = its_acls i s"
  shows "same_result i s t"
  using assms by (simp add: same_result_def Group_Store.Get_def members_of_def)

lemma same_Save:
  assumes "db_ok db" "has_result db i" "Save r db = Inr (j, db')"
  shows "same_result i db db'"
proof -
  have "j \<noteq> i" using assms SaveD(4) [OF assms(3)] db_okD(11) [OF assms(1)] by (force simp: has_result_def)
  then show ?thesis
    unfolding SaveD(5) [OF assms(3)]
    by (intro same_rows_only) (simp_all add: the_row_def its_acls_def find_other)
qed

lemma same_Delete:
  assumes "Result_Store.Delete j db = Inr db'" "j \<noteq> i"
  shows "same_result i db db'"
proof -
  have db': "db' = delete_results (\<lambda>r. rr_id r = j) db"
    using assms(1) by (simp add: Result_Store.Delete_def split: if_splits)
  show ?thesis unfolding db'
  proof (rule same_rows_only)
    show "the_row i (delete_results (\<lambda>r. rr_id r = j) db) = the_row i db"
      using assms(2) by (simp add: the_row_def delete_fields find_kept)
    show "its_acls i (delete_results (\<lambda>r. rr_id r = j) db) = its_acls i db"
      using assms(2) unfolding its_acls_def delete_fields by (intro filter_kept) auto
  qed (simp_all add: delete_fields)
qed

lemma same_set_row:
  assumes "j \<noteq> i" "\<And>r. rr_id (f r) = rr_id r"
  shows "same_result i db (set_row j f db)"
  using assms by (intro same_rows_only) (simp_all add: set_row_def the_row_def its_acls_def find_map_same)

lemma same_AddACL:
  assumes "AddACL a db = Inr db'" "ar_result_id a \<noteq> i"
  shows "same_result i db db'"
proof -
  have db': "db' = db\<lparr>db_acls := filter (\<lambda>x. acl_key x \<noteq> acl_key a) (db_acls db) @ [a]\<rparr>"
    using assms(1) by (simp add: AddACL_def split: if_splits)
  show ?thesis unfolding db' using assms(2)
    by (intro same_rows_only) (auto simp: the_row_def its_acls_def acl_key_def intro: filter_kept filter_cong)
qed

lemma same_RemoveACL:
  assumes "RemoveACL j v db = Inr db'" "j \<noteq> i"
  shows "same_result i db db'"
proof -
  have db': "db' = db\<lparr>db_acls := filter (\<lambda>x. acl_key x \<noteq> (j, v)) (db_acls db)\<rparr>"
    using assms(1) by (simp add: RemoveACL_def split: if_splits)
  show ?thesis unfolding db' using assms(2)
    by (intro same_rows_only) (auto simp: the_row_def its_acls_def acl_key_def intro: filter_cong)
qed

lemma same_has_result: "same_result i s t \<Longrightarrow> has_result s i \<Longrightarrow> has_result t i"
proof -
  have "has_result d i \<longleftrightarrow> the_row i d \<noteq> None" for d
    by (force simp: has_result_def the_row_def find_None_iff)
  then show "same_result i s t \<Longrightarrow> has_result s i \<Longrightarrow> has_result t i" by (simp add: same_result_def)
qed

lemma same_import:
  assumes "db_ok db" "has_result db i"
  shows "same_result i db (snd (import_results rs n db))"
  using assms
proof (induction rs n db rule: import_results.induct)
  case (1 n db)
  then show ?case by (simp add: same_result_refl)
next
  case (2 r rs n db)
  show ?case
  proof (cases "GetByStudyAndDate (UserID r) (StudyID r) (SnapshotDate r) db")
    case (Inr x)
    show ?thesis
    proof (cases x)
      case None
      show ?thesis
      proof (cases "Save r db")
        case (Inr y)
        obtain j db' where y: "y = (j, db')" by (cases y)
        note s = Inr [unfolded y]
        have "same_result i db db'" by (rule same_Save [OF 2(3,4) s])
        moreover have "same_result i db' (snd (import_results rs (n + 1) db'))"
          using "2.IH"(1) [OF \<open>GetByStudyAndDate _ _ _ db = Inr x\<close> None Inr] db_ok_Save [OF 2(3) s]
            same_has_result [OF calculation 2(4)] by (simp add: y)
        ultimately show ?thesis
          using \<open>GetByStudyAndDate _ _ _ db = Inr x\<close> None s same_result_trans by simp
      qed (simp add: \<open>GetByStudyAndDate _ _ _ db = Inr x\<close> None same_result_refl)
    qed (use "2.IH"(2) [OF Inr] 2(3,4) Inr in simp)
  qed (simp add: same_result_refl)
qed

section \<open>The same for groups\<close>

lemma its_group_exists: "db_ok db \<Longrightarrow> its_group i db = Some g \<Longrightarrow> has_group db g"
proof -
  assume ok: "db_ok db" and "its_group i db = Some g"
  then obtain r where "the_row i db = Some r" "rr_group_id r = Some g"
    by (cases "the_row i db") (simp_all add: its_group_def)
  then have "r \<in> set (db_results db)" unfolding the_row_def by (metis find_SomeD)
  then show ?thesis using db_okD(8) [OF ok] \<open>rr_group_id r = Some g\<close> by blast
qed

lemma same_members_only:
  assumes "db_users t = db_users s" "db_results t = db_results s" "db_acls t = db_acls s"
    "\<And>g. its_group i s = Some g \<Longrightarrow> Group_Store.Get g t = Group_Store.Get g s \<and> members_of g t = members_of g s"
  shows "same_result i s t"
  using assms by (simp add: same_result_def the_row_def its_acls_def)

lemma same_Create:
  assumes "db_ok db" "Group_Store.Create x db = Inr db'"
  shows "same_result i db db'"
proof -
  have db': "db' = db\<lparr>db_groups := db_groups db @ [x]\<rparr>" and new: "\<not> has_group db (gr_id x)"
    using assms(2) by (auto simp: Group_Store.Create_def split: if_splits)
  have "gr_id x \<noteq> g" if "its_group i db = Some g" for g
    using its_group_exists [OF assms(1) that] new by auto
  then show ?thesis unfolding db'
    by (intro same_members_only) (simp_all add: Group_Store.Get_def members_of_def find_other)
qed

lemma same_AddMember:
  assumes "AddMember now g v role db = Inr db'" "its_group i db \<noteq> Some g"
  shows "same_result i db db'"
  using assms
  by (auto simp: AddMember_def members_of_def Group_Store.Get_def split: if_splits intro!: same_members_only)

lemma same_RemoveMember:
  assumes "RemoveMember g v db = Inr db'" "its_group i db \<noteq> Some g"
  shows "same_result i db db'"
proof -
  have db': "db' = db\<lparr>db_members := filter (\<lambda>m. member_key m \<noteq> (g, v)) (db_members db)\<rparr>"
    using assms(1) by (simp add: RemoveMember_def split: if_splits)
  show ?thesis unfolding db' using assms(2)
    by (intro same_members_only) (auto simp: members_of_def Group_Store.Get_def member_key_def intro: filter_cong)
qed

lemma same_delete_group:
  assumes "its_group i db \<noteq> Some g"
  shows "same_result i db (delete_group g db)"
proof -
  have "the_row i (delete_group g db) = the_row i db"
  proof -
    let ?f = "\<lambda>r. if rr_group_id r = Some g then r\<lparr>rr_group_id := None\<rparr> else r"
    have f: "find (\<lambda>r. rr_id r = i) (map ?f rs) = map_option ?f (find (\<lambda>r. rr_id r = i) rs)" for rs
      by (induction rs) auto
    have "map_option ?f (the_row i db) = the_row i db"
      using assms by (cases "the_row i db") (auto simp: its_group_def)
    then show ?thesis by (simp add: the_row_def delete_group_def f)
  qed
  then show ?thesis
    using assms
    by (auto simp: same_result_def delete_fields its_acls_def Group_Store.Get_def members_of_def
        intro: find_kept filter_cong)
qed

lemma same_ImportJSON:
  assumes "db_ok db"
  shows "same_result i db (snd (Group_Store.ImportJSON gs db))"
proof -
  have "db_ok (snd s) \<Longrightarrow> same_result i (snd s) (snd (foldl import_group s gs))" for s
  proof (induction gs arbitrary: s)
    case Nil
    then show ?case by (simp add: same_result_refl)
  next
    case (Cons g gs)
    have "same_result i (snd s) (snd (import_group s g))"
      using same_Create [OF Cons.prems, of g] same_result_refl
      by (auto simp: import_group_def split: sum.split)
    with Cons.IH [OF import_keeps_ok [OF Cons.prems]] show ?case by (auto intro: same_result_trans)
  qed
  from this [of "(0, db)"] assms show ?thesis by (simp add: Group_Store.ImportJSON_def)
qed

section \<open>No step touches what it may not\<close>

lemma not_permitted:
  assumes "\<not> may_touch i u db" "permitted c (CanWrite (db_checker db) (u_ID u) j) = None \<or>
    permitted c (CanDelete (db_checker db) (u_ID u) j) = None"
  shows "j \<noteq> i"
  using assms by (auto simp: may_touch_def)

lemma not_owner:
  assumes "\<not> may_touch i u db" "Result_Store.Get j db = Inr (Some r)" "UserID r = u_ID u \<or> User_Store.IsAdmin u"
  shows "j \<noteq> i"
proof
  assume "j = i"
  with assms(2) obtain x where "the_row i db = Some x" "scan_result x = Inr r"
    by (auto simp: Result_Store.Get_def query_row_def the_row_def bind_res_eq_Inr_iff split: option.splits)
  then show False using assms(1,3) scan_result_Inr [of x r] by (auto simp: may_touch_def)
qed

lemma result_respects:
  assumes ok: "db_ok db" "has_result db i" and no: "\<not> may_touch i u db"
  shows "same_result i db (serve_result now u r db)"
proof (cases r)
  case (SaveReq b)
  then show ?thesis using same_Save [OF ok]
    by (auto simp: SaveResult_def Let_def same_result_refl split: option.split sum.split)
next
  case (DeleteReq p)
  then show ?thesis using not_permitted [OF no] same_Delete [of _ db _ i]
    by (auto simp: DeleteResult_def same_result_refl split: option.split sum.split)
next
  case (ChmodReq p b)
  then show ?thesis using not_permitted [OF no]
    by (auto simp: UpdateResultPermissions_def UpdatePermissions_def same_result_refl
        split: option.split sum.split if_splits intro!: same_set_row)
next
  case (ChownReq p b)
  then show ?thesis using not_owner [OF no]
    by (auto simp: ChangeResultOwner_def ChangeOwner_def same_result_refl
        split: option.split sum.split if_splits intro!: same_set_row)
next
  case (AddACLReq p b)
  then show ?thesis using not_permitted [OF no] same_AddACL [of _ db _ i]
    by (auto simp: AddResultACL_def Let_def same_result_refl split: option.split sum.split)
next
  case (RemoveACLReq p v)
  then show ?thesis using not_permitted [OF no] same_RemoveACL [of _ _ db _ i]
    by (auto simp: RemoveResultACL_def same_result_refl split: option.split sum.split)
next
  case (ImportReq x)
  have "same_result i db db'" if "Import y db = (z, db')" for y z db'
    using that same_import [OF ok] unfolding Import_def by (metis snd_conv)
  with ImportReq show ?thesis
    by (auto simp: ImportResults_def same_result_refl split: option.split prod.split)
qed

lemma group_respects:
  assumes ok: "db_ok db" and no: "\<not> may_touch i u db"
  shows "same_result i db (serve_group now u r db)"
proof (cases r)
  case (CreateGroupReq b)
  have made: "same_result i db db''"
    if "Group_Store.Create g db = Inr db'" "AddMember now (gr_id g) v role db' = Inr db''" for g db' db'' v role
  proof -
    have s: "same_result i db db'" by (rule same_Create [OF ok that(1)])
    have "its_group i db \<noteq> Some (gr_id g)"
      using its_group_exists [OF ok] that(1) by (auto simp: Group_Store.Create_def split: if_splits)
    then have "its_group i db' \<noteq> Some (gr_id g)" by (simp add: same_group [OF s])
    then show ?thesis using same_result_trans [OF s same_AddMember [OF that(2)]] by simp
  qed
  then show ?thesis using CreateGroupReq same_Create [OF ok]
    by (auto simp: CreateGroup_def Let_def same_result_refl split: option.split sum.split)
next
  case (DeleteGroupReq j)
  have "its_group i db \<noteq> Some j" if "Group_Store.Get j db = Some g" "gr_owner_id g = u_ID u" for g
    using no that by (auto simp: may_touch_def)
  with DeleteGroupReq no show ?thesis
    by (auto simp: DeleteGroup_def Group_Store.Delete_def same_result_refl may_touch_def
        split: option.split sum.split if_splits intro: same_delete_group)
next
  case (AddMemberReq j b)
  have "its_group i db \<noteq> Some j" if "leads j (u_ID u) db" using no that by (auto simp: may_touch_def)
  with AddMemberReq no show ?thesis
    by (auto simp: AddGroupMember_def Let_def same_result_refl may_touch_def
        split: option.split sum.split intro: same_AddMember)
next
  case (RemoveMemberReq j v)
  have "its_group i db \<noteq> Some j" if "leads j (u_ID u) db" using no that by (auto simp: may_touch_def)
  with RemoveMemberReq no show ?thesis
    by (auto simp: RemoveGroupMember_def same_result_refl may_touch_def
        split: option.split sum.split intro: same_RemoveMember)
next
  case (ImportGroupsReq gs)
  have "same_result i db db'" if "Group_Store.ImportJSON y db = (z, db')" for y z db'
    using that same_ImportJSON [OF ok] by (metis snd_conv)
  with ImportGroupsReq show ?thesis
    by (auto simp: ImportGroups_def same_result_refl split: option.split prod.split)
qed

definition api_inv :: "int \<Rightarrow> database \<Rightarrow> bool" where
  "api_inv i db \<longleftrightarrow> db_ok db \<and> has_result db i"

definition event_may :: "int \<Rightarrow> api_event \<Rightarrow> database \<Rightarrow> bool" where
  "event_may i e db = may_touch i (fst (snd e)) db"

interpretation guarded: isolation serve_api "api_inv i" "same_result i" "event_may i" for i
proof unfold_locales
  show respects: "same_result i s (serve_api e s)" if "api_inv i s" "\<not> event_may i e s" for s e
    using that result_respects group_respects
    by (auto simp: serve_api_def api_inv_def event_may_def split: prod.split api_request.split)
  show "api_inv i (serve_api e s)" if "api_inv i s" "\<not> event_may i e s" for s e
    using that same_has_result [OF respects [OF that]] db_ok_serve_result db_ok_serve_group
    by (auto simp: serve_api_def api_inv_def split: prod.split api_request.split)
qed (auto simp: event_may_def same_result_refl intro: same_result_trans may_touch_stable)

text \<open>
  C1: saved results are tamper-proof. Take any sequence of requests to the handlers of
  results and groups, from users who at its start may neither write nor delete a
  result, do not own it, neither own nor lead its group, and are not admins. Then the
  result, its ACL entries, its group and the members of its group are the same at the
  end; in particular none of them has gained access on the way.
\<close>

theorem results_tamper_proof:
  assumes "db_ok db" "has_result db i" "\<forall>(now, u, r) \<in> set es. \<not> may_touch i u db"
  shows "same_result i db (fold serve_api es db) \<and> db_ok (fold serve_api es db) \<and>
    CanAccess (db_checker (fold serve_api es db)) v i a = CanAccess (db_checker db) v i a"
proof -
  have "\<forall>e \<in> set es. \<not> event_may i e db" using assms(3) by (auto simp: event_may_def)
  with guarded.run_isolated [of i db es] assms(1,2)
  have "api_inv i (fold serve_api es db)" "same_result i db (fold serve_api es db)" by (simp_all add: api_inv_def)
  then show ?thesis using same_checker by (simp add: api_inv_def)
qed

definition bob_in :: database where
  "bob_in = one_result\<lparr>db_users := db_users one_result @ [\<lparr>ur_id = ''bob'', ur_name = '''', ur_role_id = ''user'',
     ur_pass_hash = '''', ur_disabled = False, ur_nlp_enabled = False, ur_nlp_daily_limit = 0\<rparr>]\<rparr>"

definition bob :: user where
  "bob = ann\<lparr>u_ID := ''bob''\<rparr>"

lemma bob_in_ok: "db_ok bob_in" "has_result bob_in 1"
proof -
  have "\<not> has_user one_result ''bob''" by (simp add: has_user_def one_result_def one_user_def empty_db_def)
  then show "db_ok bob_in" unfolding bob_in_def by (intro db_ok_add_user one_result_ok) simp
  show "has_result bob_in 1" by (simp add: has_result_def bob_in_def one_result_def inserted_row_def)
qed

lemma bob_may_not: "\<not> may_touch 1 bob bob_in"
proof -
  have c: "\<not> User_Store.IsAdmin bob" "u_ID bob = ''bob''"
    by (simp_all add: bob_def ann_def User_Store.IsAdmin_def RoleAdmin_def)
  have "\<not> CanAccess (db_checker bob_in) ''bob'' 1 a = Inr True" if "a \<in> {PermWrite, PermDelete}" for a
    unfolding access_granted_iff [OF bob_in_ok(1)] using that
    by (auto simp: bob_in_def one_result_def one_user_def empty_db_def inserted_row_def ann_result_def
        HasPermission_def PermDelete_def PermWrite_def has_member_def)
  then show ?thesis
    by (simp add: may_touch_def c CanWrite_def CanDelete_def)
       (simp add: the_row_def its_group_def bob_in_def one_result_def one_user_def empty_db_def inserted_row_def
         ann_result_def leads_def GetMember_def Group_Store.Get_def)
qed

theorem results_tamper_proof_witness:
  "same_result 1 bob_in (fold serve_api
     [(1, bob, OnResults (ChmodReq ''1'' (Some \<lparr>mb_perm_owner = 7, mb_perm_group = 7, mb_perm_all = 7, mb_group_id = ''g1''\<rparr>))),
      (2, bob, OnGroups (AddMemberReq ''g1'' (Some \<lparr>eb_user_id = ''bob'', eb_role = ''leader''\<rparr>))),
      (3, bob, OnResults (DeleteReq ''1''))] bob_in)"
  using results_tamper_proof [OF bob_in_ok, of
     "[(1, bob, OnResults (ChmodReq ''1'' (Some \<lparr>mb_perm_owner = 7, mb_perm_group = 7, mb_perm_all = 7, mb_group_id = ''g1''\<rparr>))),
      (2, bob, OnGroups (AddMemberReq ''g1'' (Some \<lparr>eb_user_id = ''bob'', eb_role = ''leader''\<rparr>))),
      (3, bob, OnResults (DeleteReq ''1''))]"] bob_may_not
  by simp

section \<open>Imports\<close>

text \<open>
  An import writes results in anybody's name. The handler puts the requester's id
  into the export's header only, which nothing reads: a new result in the body is saved
  with the owner and the permissions the body gives it, whoever sends it.
\<close>

theorem import_plants_results:
  assumes "db_ok db" "x_Results x = [r]" "Save r db = Inr (i, db')"
    and "GetByStudyAndDate (UserID r) (StudyID r) (SnapshotDate r) db = Inr None"
  shows "ImportResults (Some x) u db = (ok_json 1, db') \<and>
    Result_Store.Get i db' = Inr (Some (r\<lparr>ID := i, Results := map json_match (Results r)\<rparr>))"
  using assms Get_after_Save [OF assms(1,3), of i] by (auto simp: ImportResults_def Import_def)

theorem import_plants_results_witness:
  "snd (ImportResults (Some \<lparr>x_Version = ''1.0'', x_ExportedAt = 9, x_UserID = ''bob'', x_Results = [ann_result]\<rparr>)
     bob one_user) = one_result"
proof -
  have "GetByStudyAndDate (UserID ann_result) (StudyID ann_result) (SnapshotDate ann_result) one_user = Inr None"
    by (simp add: GetByStudyAndDate_def query_row_def one_user_def empty_db_def)
  from import_plants_results [OF one_user_ok _ save_ann this, of
      "\<lparr>x_Version = ''1.0'', x_ExportedAt = 9, x_UserID = ''bob'', x_Results = [ann_result]\<rparr>" bob]
  show ?thesis by simp
qed

end
