(* ===== verification/Jwt.thy ===== *)
theory Jwt
  imports Base64 Float64
begin

text \<open>
  \<open>internal/authjwt\<close>: tokens. The verifier bound to one key (\<open>authjwt.go\<close>), the signer
  (\<open>sign.go\<close>) and the verifier over a rotating key set (\<open>jwks.go\<close>). The hash functions,
  HMAC and RSA are arguments, and so are the JSON encoder and decoder of headers and
  claims; the code's dispatch on algorithms and keys, its parsing of tokens and its checks
  of claims are definitions. Time is in nanoseconds since 1970.
\<close>

section \<open>Keys and algorithms\<close>

datatype key_type = KeyHMAC | KeyRSA
datatype hash = SHA256 | SHA384 | SHA512

text \<open>An RSA public key: modulus and exponent.\<close>

type_synonym rsa_pub = "nat \<times> int"

record 'priv crypto =
  hmac_sum :: "hash \<Rightarrow> string \<Rightarrow> string \<Rightarrow> string"
  digest :: "hash \<Rightarrow> string \<Rightarrow> string"
  rsa_sign :: "'priv \<Rightarrow> hash \<Rightarrow> string \<Rightarrow> string option"
  rsa_check :: "rsa_pub \<Rightarrow> hash \<Rightarrow> string \<Rightarrow> string \<Rightarrow> bool"

datatype json = JStr string | JNum float64 | JArr "json list" | JOther

type_synonym claims_map = "string \<Rightarrow> json option"

record token_json =
  dec_header :: "string \<Rightarrow> (string \<times> string) option"
  dec_claims :: "string \<Rightarrow> claims_map option"

datatype jwt_error =
    Malformed
  | HeaderB64
  | HeaderJSON
  | AlgNotAllowed string
  | SignatureB64
  | SignatureMismatch
  | PayloadB64
  | ClaimsJSON
  | MissingExp
  | Expired
  | NotYetValid
  | IssuerMismatch
  | AudienceMismatch
  | NoIdentity string
  | UnknownKid string
  | FetchFailed
  | NoUsableKeys
  | SubRequired
  | SignFailed

section \<open>Parsing\<close>

fun indexByte :: "string \<Rightarrow> char \<Rightarrow> int" where
  "indexByte [] b = - 1"
| "indexByte (c # s) b = (if c = b then 0 else let i = indexByte s b in if i < 0 then - 1 else i + 1)"

definition split3 :: "string \<Rightarrow> (string \<times> string \<times> string) option" where
  "split3 s =
     (let i = indexByte s (CHR ''.'')
      in if i < 0 then None
         else let j = indexByte (drop (nat (i + 1)) s) (CHR ''.'')
              in if j < 0 then None
                 else let j = j + (i + 1)
                      in if indexByte (drop (nat (j + 1)) s) (CHR ''.'') \<ge> 0 then None
                         else Some (take (nat i) s, drop (nat (i + 1)) (take (nat j) s), drop (nat (j + 1)) s))"

definition decodeHeader :: "token_json \<Rightarrow> string \<Rightarrow> (jwt_error, string \<times> string) result" where
  "decodeHeader js part = (case b64_decode url_alphabet part of
     None \<Rightarrow> Inl HeaderB64
   | Some hb \<Rightarrow> (case dec_header js hb of None \<Rightarrow> Inl HeaderJSON | Some h \<Rightarrow> Inr h))"

definition decodeClaims :: "token_json \<Rightarrow> string \<Rightarrow> (jwt_error, claims_map) result" where
  "decodeClaims js part = (case b64_decode url_alphabet part of
     None \<Rightarrow> Inl PayloadB64
   | Some pb \<Rightarrow> (case dec_claims js pb of None \<Rightarrow> Inl ClaimsJSON | Some c \<Rightarrow> Inr c))"

section \<open>Claims\<close>

text \<open>\<open>int64(f)\<close>: the fraction is cut off; out of range the conversion of amd64 gives the minimum.\<close>

definition int64_of :: "float64 \<Rightarrow> int" where
  "int64_of f = (case f of
     Zero s \<Rightarrow> 0
   | Fin q \<Rightarrow> (let n = (if q < 0 then \<lceil>q\<rceil> else \<lfloor>q\<rfloor>) in if - (2 ^ 63) \<le> n \<and> n < 2 ^ 63 then n else - (2 ^ 63))
   | _ \<Rightarrow> - (2 ^ 63))"

text \<open>The decoder makes every number a \<open>float64\<close>.\<close>

definition numClaim :: "claims_map \<Rightarrow> string \<Rightarrow> int option" where
  "numClaim c k = (case c k of Some (JNum v) \<Rightarrow> Some (int64_of v) | _ \<Rightarrow> None)"

definition strClaim :: "claims_map \<Rightarrow> string \<Rightarrow> string" where
  "strClaim c k = (case c k of Some (JStr s) \<Rightarrow> s | _ \<Rightarrow> '''')"

definition audMatch :: "json option \<Rightarrow> string \<Rightarrow> bool" where
  "audMatch aud want = (case aud of
     Some (JStr a) \<Rightarrow> a = want
   | Some (JArr xs) \<Rightarrow> list_ex (\<lambda>x. x = JStr want) xs
   | _ \<Rightarrow> False)"

text \<open>
  \<open>time.Unix\<close> counts seconds from the year 1 in an \<open>int64\<close>, which wraps; \<open>Add\<close> saturates.
  The clock itself is far from both ends.
\<close>

definition epoch :: int where "epoch = 62135596800"

definition Unix :: "int \<Rightarrow> int" where "Unix sec = wrap64 (sec + epoch)"

definition add_secs :: "int \<Rightarrow> int \<Rightarrow> int" where
  "add_secs t d = (if t + d \<ge> 2 ^ 63 then 2 ^ 63 - 1 else t + d)"

definition since_year1 :: "int \<Rightarrow> int" where "since_year1 now = now + epoch * 1000000000"

definition leeway :: int where "leeway = 60"

definition checkClaims ::
    "int \<Rightarrow> claims_map \<Rightarrow> string \<Rightarrow> string \<Rightarrow> string \<Rightarrow> (jwt_error, string) result" where
  "checkClaims now claims userClaim issuer audience =
     (case numClaim claims ''exp'' of
        None \<Rightarrow> Inl MissingExp
      | Some ex \<Rightarrow>
          if since_year1 now > add_secs (Unix ex) leeway * 1000000000 then Inl Expired
          else if (case numClaim claims ''nbf'' of
                     None \<Rightarrow> False
                   | Some nbf \<Rightarrow> since_year1 now + leeway * 1000000000 < Unix nbf * 1000000000)
          then Inl NotYetValid
          else if issuer \<noteq> '''' \<and> strClaim claims ''iss'' \<noteq> issuer then Inl IssuerMismatch
          else if audience \<noteq> '''' \<and> \<not> audMatch (claims ''aud'') audience then Inl AudienceMismatch
          else let i = strClaim claims userClaim
               in if i = '''' then Inl (NoIdentity userClaim) else Inr i)"

section \<open>The verifier bound to one key\<close>

record jwt_verifier =
  v_kt :: key_type
  v_hmacKey :: string
  v_rsaPub :: rsa_pub
  v_userClaim :: string
  v_issuer :: string
  v_audience :: string

definition claimOr :: "string \<Rightarrow> string" where
  "claimOr c = (if c = '''' then ''sub'' else c)"

definition NewHMAC :: "string \<Rightarrow> string \<Rightarrow> string \<Rightarrow> string \<Rightarrow> jwt_verifier" where
  "NewHMAC secret userClaim issuer audience =
     \<lparr>v_kt = KeyHMAC, v_hmacKey = secret, v_rsaPub = (0, 0), v_userClaim = claimOr userClaim,
      v_issuer = issuer, v_audience = audience\<rparr>"

definition NewRSA :: "rsa_pub \<Rightarrow> string \<Rightarrow> string \<Rightarrow> string \<Rightarrow> jwt_verifier" where
  "NewRSA pub userClaim issuer audience =
     \<lparr>v_kt = KeyRSA, v_hmacKey = '''', v_rsaPub = pub, v_userClaim = claimOr userClaim,
      v_issuer = issuer, v_audience = audience\<rparr>"

definition rsHash :: "string \<Rightarrow> (jwt_error, hash) result" where
  "rsHash alg =
     (if alg = ''RS256'' then Inr SHA256 else if alg = ''RS384'' then Inr SHA384
      else if alg = ''RS512'' then Inr SHA512 else Inl (AlgNotAllowed alg))"

definition hashForAlg :: "jwt_verifier \<Rightarrow> string \<Rightarrow> (jwt_error, hash) result" where
  "hashForAlg v alg = (case v_kt v of
     KeyHMAC \<Rightarrow>
       (if alg = ''HS256'' then Inr SHA256 else if alg = ''HS384'' then Inr SHA384
        else if alg = ''HS512'' then Inr SHA512 else Inl (AlgNotAllowed alg))
   | KeyRSA \<Rightarrow>
       (if alg = ''RS256'' then Inr SHA256 else if alg = ''RS384'' then Inr SHA384
        else if alg = ''RS512'' then Inr SHA512 else Inl (AlgNotAllowed alg)))"

definition verifySig :: "'priv crypto \<Rightarrow> jwt_verifier \<Rightarrow> hash \<Rightarrow> string \<Rightarrow> string \<Rightarrow> bool" where
  "verifySig cr v h input sig = (case v_kt v of
     KeyHMAC \<Rightarrow> hmac_sum cr h (v_hmacKey v) input = sig
   | KeyRSA \<Rightarrow> rsa_check cr (v_rsaPub v) h (digest cr h input) sig)"

definition Verify ::
    "'priv crypto \<Rightarrow> token_json \<Rightarrow> jwt_verifier \<Rightarrow> int \<Rightarrow> string \<Rightarrow> (jwt_error, string) result" where
  "Verify cr js v now token = (case split3 token of
     None \<Rightarrow> Inl Malformed
   | Some (p0, p1, p2) \<Rightarrow>
       bind_res (decodeHeader js p0) (\<lambda>(alg, kid).
       bind_res (hashForAlg v alg) (\<lambda>h.
       (case b64_decode url_alphabet p2 of
          None \<Rightarrow> Inl SignatureB64
        | Some sig \<Rightarrow>
            if \<not> verifySig cr v h (p0 @ ''.'' @ p1) sig then Inl SignatureMismatch
            else bind_res (decodeClaims js p1) (\<lambda>claims.
              checkClaims now claims (v_userClaim v) (v_issuer v) (v_audience v))))))"

section \<open>The signer\<close>

record 'priv signer =
  s_kt :: key_type
  s_hmacKey :: string
  s_rsaKey :: 'priv
  s_alg :: string
  s_issuer :: string
  s_ttl :: int

record claims =
  Sub :: string
  Iss :: string
  Aud :: string
  Exp :: int
  Iat :: int
  Nbf :: int
  Tier :: string
  Role :: string

text \<open>\<open>json.Marshal\<close> of the header and of the claims.\<close>

record token_encoder =
  enc_header :: "string \<Rightarrow> string"
  enc_claims :: "claims \<Rightarrow> string"

definition NewHMACSigner :: "string \<Rightarrow> 'priv \<Rightarrow> string \<Rightarrow> int \<Rightarrow> 'priv signer" where
  "NewHMACSigner secret nil issuer ttl =
     \<lparr>s_kt = KeyHMAC, s_hmacKey = secret, s_rsaKey = nil, s_alg = ''HS256'', s_issuer = issuer, s_ttl = ttl\<rparr>"

definition NewRSASigner :: "'priv \<Rightarrow> string \<Rightarrow> int \<Rightarrow> 'priv signer" where
  "NewRSASigner key issuer ttl =
     \<lparr>s_kt = KeyRSA, s_hmacKey = '''', s_rsaKey = key, s_alg = ''RS256'', s_issuer = issuer, s_ttl = ttl\<rparr>"

definition sign_data :: "'priv crypto \<Rightarrow> 'priv signer \<Rightarrow> string \<Rightarrow> string option" where
  "sign_data cr s data = (case s_kt s of
     KeyHMAC \<Rightarrow> Some (hmac_sum cr SHA256 (s_hmacKey s) data)
   | KeyRSA \<Rightarrow> rsa_sign cr (s_rsaKey s) SHA256 (digest cr SHA256 data))"

text \<open>The claims that are signed: issuer, issue time and expiry are filled in when missing.\<close>

definition filled :: "'priv signer \<Rightarrow> int \<Rightarrow> claims \<Rightarrow> claims" where
  "filled s now c =
     (let c = (if Iss c = '''' then c\<lparr>Iss := s_issuer s\<rparr> else c);
          c = (if Iat c = 0 then c\<lparr>Iat := now div 1000000000\<rparr> else c)
      in if Exp c = 0 then c\<lparr>Exp := (now + s_ttl s) div 1000000000\<rparr> else c)"

definition Sign ::
    "'priv crypto \<Rightarrow> token_encoder \<Rightarrow> 'priv signer \<Rightarrow> int \<Rightarrow> claims \<Rightarrow> (jwt_error, string) result" where
  "Sign cr en s now c =
     (if Sub c = '''' then Inl SubRequired
      else let h = b64_encode url_alphabet (enc_header en (s_alg s));
               p = b64_encode url_alphabet (enc_claims en (filled s now c));
               input = h @ ''.'' @ p
           in (case sign_data cr s input of
                 None \<Rightarrow> Inl SignFailed
               | Some sig \<Rightarrow> Inr (input @ ''.'' @ b64_encode url_alphabet sig)))"

section \<open>The verifier over a key set\<close>

record jwk_key =
  Kty :: string
  Kid :: string
  jwk_N :: string
  jwk_E :: string

record jwks =
  j_keys :: "string \<Rightarrow> rsa_pub option"
  j_fetchedAt :: int

record jwks_config =
  j_userClaim :: string
  j_issuer :: string
  j_audience :: string
  j_minRefresh :: int

text \<open>A big-endian number.\<close>

definition big_int :: "string \<Rightarrow> nat" where
  "big_int s = foldl (\<lambda>n c. n * 256 + of_char c) 0 s"

definition trim_padding :: "string \<Rightarrow> string" where
  "trim_padding s = rev (dropWhile (\<lambda>c. c = CHR ''='') (rev s))"

definition rsaFromNE :: "string \<Rightarrow> string \<Rightarrow> rsa_pub option" where
  "rsaFromNE nB64 eB64 =
     (case b64_decode url_alphabet (trim_padding nB64) of
        None \<Rightarrow> None
      | Some nb \<Rightarrow> (case b64_decode url_alphabet (trim_padding eB64) of
          None \<Rightarrow> None
        | Some eb \<Rightarrow> if int (big_int eb) < 2 ^ 63 then Some (big_int nb, int (big_int eb)) else None))"

definition usable_keys :: "jwk_key list \<Rightarrow> (string \<times> rsa_pub) list" where
  "usable_keys ks = List.map_filter (\<lambda>k.
     if Kty k \<noteq> ''RSA'' \<or> Kid k = '''' then None
     else map_option (Pair (Kid k)) (rsaFromNE (jwk_N k) (jwk_E k))) ks"

definition key_map :: "jwk_key list \<Rightarrow> string \<Rightarrow> rsa_pub option" where
  "key_map ks = foldl (\<lambda>m (kid, pub). m(kid \<mapsto> pub)) Map.empty (usable_keys ks)"

text \<open>The answer of the endpoint: \<open>None\<close> when the request, its status or its JSON is wrong.\<close>

definition refresh :: "int \<Rightarrow> jwk_key list option \<Rightarrow> jwks \<Rightarrow> jwt_error option \<times> jwks" where
  "refresh now answer j = (case answer of
     None \<Rightarrow> (Some FetchFailed, j)
   | Some ks \<Rightarrow>
       if usable_keys ks = [] then (Some NoUsableKeys, j)
       else (None, j\<lparr>j_keys := key_map ks, j_fetchedAt := now\<rparr>))"

definition keyByKID ::
    "jwks_config \<Rightarrow> int \<Rightarrow> jwk_key list option \<Rightarrow> string \<Rightarrow> jwks \<Rightarrow> (jwt_error, rsa_pub) result \<times> jwks" where
  "keyByKID cfg now answer kid j = (case j_keys j kid of
     Some k \<Rightarrow> (Inr k, j)
   | None \<Rightarrow>
       if now - j_fetchedAt j < j_minRefresh cfg then (Inl (UnknownKid kid), j)
       else (case refresh now answer j of
           (Some e, j) \<Rightarrow> (Inl e, j)
         | (None, j) \<Rightarrow> (case j_keys j kid of
             Some k \<Rightarrow> (Inr k, j)
           | None \<Rightarrow> (Inl (UnknownKid kid), j))))"

definition JWKS_Verify ::
    "'priv crypto \<Rightarrow> token_json \<Rightarrow> jwks_config \<Rightarrow> int \<Rightarrow> jwk_key list option \<Rightarrow> string \<Rightarrow> jwks \<Rightarrow>
     (jwt_error, string) result \<times> jwks" where
  "JWKS_Verify cr js cfg now answer token j = (case split3 token of
     None \<Rightarrow> (Inl Malformed, j)
   | Some (p0, p1, p2) \<Rightarrow> (case bind_res (decodeHeader js p0) (\<lambda>(alg, kid).
         bind_res (rsHash alg) (\<lambda>h. Inr (kid, h))) of
       Inl e \<Rightarrow> (Inl e, j)
     | Inr (kid, h) \<Rightarrow> (case keyByKID cfg now answer kid j of
         (Inl e, j) \<Rightarrow> (Inl e, j)
       | (Inr key, j) \<Rightarrow> (case b64_decode url_alphabet p2 of
           None \<Rightarrow> (Inl SignatureB64, j)
         | Some sig \<Rightarrow>
             if \<not> rsa_check cr key h (digest cr h (p0 @ ''.'' @ p1)) sig then (Inl SignatureMismatch, j)
             else (bind_res (decodeClaims js p1) (\<lambda>claims.
               checkClaims now claims (j_userClaim cfg) (j_issuer cfg) (j_audience cfg)), j)))))"

end
