(* ===== verification/Api_Accounts.thy ===== *)
theory Api_Accounts
  imports Api Throttle Login Jwt Study_Compiler
begin

text \<open>
  The handlers of accounts: users (\<open>internal/api/users.go\<close>, \<open>password_reset.go\<close>,
  \<open>internal/auth/handler.go\<close>), roles (\<open>roles.go\<close>), limits (\<open>user_limits.go\<close>), the login of
  the API (\<open>auth.go\<close>), and the account made at the first start
  (\<open>internal/bootstrap/bootstrap.go\<close>). The state is the user store with the tables of
  roles, limits and usage; the user store writes to the same database. A handler takes
  the user \<open>requireAuth\<close> found; salts, random bytes, the clock and the codec of JSON
  columns are arguments.
\<close>

section \<open>State\<close>

type_synonym accounts = "user_store \<times> throttle_db"

text \<open>An operation of the user store, on its store and the shared database.\<close>

definition on_users :: "(user_state \<Rightarrow> user_error option \<times> user_state) \<Rightarrow> accounts \<Rightarrow> user_error option \<times> accounts" where
  "on_users f a = (case a of (s, d) \<Rightarrow> (case f (s, Some (td_db d)) of
     (e, (s, db)) \<Rightarrow> (e, (s, (case db of None \<Rightarrow> d | Some db \<Rightarrow> d\<lparr>td_db := db\<rparr>)))))"

definition system_admin :: "codec \<Rightarrow> user \<Rightarrow> accounts \<Rightarrow> bool" where
  "system_admin c u a \<longleftrightarrow> HasCapability c (u_RoleID u) ''system.admin'' (td_roles (snd a))"

section \<open>Users\<close>

record user_body =
  nb_ID :: string
  nb_Name :: string
  nb_Password :: string
  nb_Tier :: string
  nb_Role :: string
  nb_Groups :: "string list"

record user_update =
  up_Name :: string
  up_Password :: string
  up_Tier :: string
  up_Role :: string
  up_Groups :: "string list option"
  up_Disabled :: "bool option"

definition ListUsers :: "user \<Rightarrow> accounts \<Rightarrow> user list response" where
  "ListUsers u a = (if \<not> IsAdmin u then Fail 403 ''ADMIN_ONLY'' else ok_json (us_all (fst a)))"

definition GetUser :: "string \<Rightarrow> user \<Rightarrow> accounts \<Rightarrow> user response" where
  "GetUser i u a =
     (if \<not> IsAdmin u \<and> u_ID u \<noteq> i then Fail 403 ''FORBIDDEN''
      else case Find i (fst a) of None \<Rightarrow> Fail 404 ''NOT_FOUND'' | Some v \<Rightarrow> ok_json v)"

definition CreateUser ::
    "kdf \<Rightarrow> string \<Rightarrow> user_body option \<Rightarrow> user \<Rightarrow> accounts \<Rightarrow> user response \<times> accounts" where
  "CreateUser kdf salt body u a =
     (if \<not> IsAdmin u then (Fail 403 ''ADMIN_ONLY'', a)
      else case body of
        None \<Rightarrow> (Fail 400 ''INVALID_BODY'', a)
      | Some b \<Rightarrow>
          if nb_ID b = '''' \<or> nb_Password b = '''' then (Fail 400 ''MISSING_FIELDS'', a)
          else let v = set_password kdf salt (nb_Password b)
                 \<lparr>u_ID = nb_ID b, u_Name = nb_Name b, u_Tier = nb_Tier b, u_Role = nb_Role b, u_RoleID = '''',
                  u_Groups = nb_Groups b, u_PassHash = '''', u_PassSHA256 = '''', u_Disabled = False,
                  u_NLPEnabled = False, u_NLPDailyLimit = 0\<rparr>
               in (case on_users (User_Store.Create v) a of
                     (Some e, a) \<Rightarrow> (Fail 400 ''CREATE_FAILED'', a)
                   | (None, a) \<Rightarrow> (created_json v, a)))"

text \<open>The updates of a request, in the order of the code; the first error ends them.\<close>

definition user_updates ::
    "kdf \<Rightarrow> string \<Rightarrow> bool \<Rightarrow> string \<Rightarrow> user_update \<Rightarrow> (user_state \<Rightarrow> user_error option \<times> user_state) list" where
  "user_updates kdf salt admin i b =
     (if up_Name b \<noteq> '''' then [SetName i (up_Name b)] else []) @
     (if up_Password b \<noteq> '''' then [SetPassword kdf salt i (up_Password b)] else []) @
     (if up_Tier b \<noteq> '''' \<and> admin then [SetTier i (up_Tier b)] else []) @
     (if up_Role b \<noteq> '''' \<and> admin then [SetRole i (up_Role b)] else []) @
     (case up_Groups b of Some gs \<Rightarrow> if admin then [SetGroups i gs] else [] | None \<Rightarrow> []) @
     (case up_Disabled b of Some d \<Rightarrow> if admin then [SetDisabled i d] else [] | None \<Rightarrow> [])"

fun run_updates ::
    "(user_state \<Rightarrow> user_error option \<times> user_state) list \<Rightarrow> accounts \<Rightarrow> user_error option \<times> accounts" where
  "run_updates [] a = (None, a)"
| "run_updates (f # fs) a = (case on_users f a of
     (Some e, a) \<Rightarrow> (Some e, a) | (None, a) \<Rightarrow> run_updates fs a)"

definition UpdateUser ::
    "kdf \<Rightarrow> string \<Rightarrow> string \<Rightarrow> user_update option \<Rightarrow> user \<Rightarrow> accounts \<Rightarrow> user response \<times> accounts" where
  "UpdateUser kdf salt i body u a =
     (if \<not> IsAdmin u \<and> u_ID u \<noteq> i then (Fail 403 ''FORBIDDEN'', a)
      else case body of
        None \<Rightarrow> (Fail 400 ''INVALID_BODY'', a)
      | Some b \<Rightarrow>
          if \<not> IsAdmin u \<and> (up_Tier b \<noteq> '''' \<or> up_Role b \<noteq> '''' \<or> up_Groups b \<noteq> None \<or> up_Disabled b \<noteq> None)
          then (Fail 403 ''FORBIDDEN'', a)
          else (case run_updates (user_updates kdf salt (IsAdmin u) i b) a of
              (Some e, a) \<Rightarrow> (Fail 400 ''UPDATE_FAILED'', a)
            | (None, a) \<Rightarrow> (case Find i (fst a) of
                None \<Rightarrow> (Fail 404 ''NOT_FOUND'', a)
              | Some v \<Rightarrow> (ok_json v, a))))"

definition DeleteUser :: "string \<Rightarrow> user \<Rightarrow> accounts \<Rightarrow> unit response \<times> accounts" where
  "DeleteUser i u a =
     (if \<not> IsAdmin u then (Fail 403 ''ADMIN_ONLY'', a)
      else case on_users (User_Store.Delete i) a of
        (Some e, a) \<Rightarrow> (Fail 400 ''DELETE_FAILED'', a)
      | (None, a) \<Rightarrow> (no_content, a))"

text \<open>Exports and imports ask for a login only.\<close>

definition ExportUsers :: "accounts \<Rightarrow> user list response" where
  "ExportUsers a = ok_json (us_all (fst a))"

definition ImportUsers :: "user list option \<Rightarrow> accounts \<Rightarrow> nat response \<times> accounts" where
  "ImportUsers body a = (case body of
     None \<Rightarrow> (Fail 400 ''IMPORT_FAILED'', a)
   | Some us \<Rightarrow> (case a of (s, d) \<Rightarrow> (case User_Store.ImportJSON us (s, Some (td_db d)) of
       (n, (s, db)) \<Rightarrow> (ok_json n, (s, (case db of None \<Rightarrow> d | Some db \<Rightarrow> d\<lparr>td_db := db\<rparr>))))))"

text \<open>Eight random bytes in hexadecimal, cut to twelve digits.\<close>

definition temp_password :: "string \<Rightarrow> string" where
  "temp_password bytes = take 12 (hex_encode bytes)"

definition ResetPassword ::
    "kdf \<Rightarrow> string \<Rightarrow> string \<Rightarrow> string \<Rightarrow> user \<Rightarrow> accounts \<Rightarrow> string response \<times> accounts" where
  "ResetPassword kdf salt bytes i u a =
     (if \<not> IsAdmin u then (Fail 403 ''ADMIN_ONLY'', a)
      else if i = '''' then (Fail 400 ''MISSING_ID'', a)
      else case on_users (SetPassword kdf salt i (temp_password bytes)) a of
        (Some e, a) \<Rightarrow> (Fail 500 ''RESET_FAILED'', a)
      | (None, a) \<Rightarrow> (ok_json (temp_password bytes), a))"

text \<open>
  \<open>HandleChangePassword\<close> with the user \<open>withUserContext\<close> put into the context. Its
  answers carry a text instead of a code.
\<close>

definition HandleChangePassword ::
    "(string \<Rightarrow> string) \<Rightarrow> char_classes \<Rightarrow> kdf \<Rightarrow> string \<Rightarrow> policy \<Rightarrow> string \<Rightarrow> (string \<times> string) option \<Rightarrow> user \<Rightarrow>
     accounts \<Rightarrow> unit response \<times> accounts" where
  "HandleChangePassword sha cls kdf salt policy verb body u a =
     (if verb \<noteq> ''PUT'' \<and> verb \<noteq> ''POST'' then (Fail 405 ''PUT or POST required'', a)
      else case body of
        None \<Rightarrow> (Fail 400 ''invalid request body'', a)
      | Some (old, new) \<Rightarrow>
          if \<not> user_CheckPassword sha kdf u old then (Fail 401 ''current password is incorrect'', a)
          else if old = new then (Fail 400 ''new password must differ from current'', a)
          else if ValidatePassword cls new policy \<noteq> None then (Fail 400 ''password policy'', a)
          else (case on_users (SetPassword kdf salt (u_ID u) new) a of
              (Some e, a) \<Rightarrow> (Fail 500 ''failed to update password'', a)
            | (None, a) \<Rightarrow> (ok_json (), a)))"

section \<open>Roles\<close>

text \<open>A handler for those whose role has the capability \<open>system.admin\<close>.\<close>

definition for_system_admin ::
    "codec \<Rightarrow> (accounts \<Rightarrow> 'b response \<times> accounts) \<Rightarrow> user \<Rightarrow> accounts \<Rightarrow> 'b response \<times> accounts" where
  "for_system_admin c h u a = (if \<not> system_admin c u a then (Fail 403 ''FORBIDDEN'', a) else h a)"

definition set_roles :: "role_table \<Rightarrow> accounts \<Rightarrow> accounts" where
  "set_roles t a = (fst a, (snd a)\<lparr>td_roles := t\<rparr>)"

definition ListRoles :: "codec \<Rightarrow> accounts \<Rightarrow> role list response" where
  "ListRoles c a = ok_json (Roles.List c (td_roles (snd a)))"

definition GetRole :: "codec \<Rightarrow> string \<Rightarrow> accounts \<Rightarrow> role response" where
  "GetRole c i a = (case Roles.Get c i (td_roles (snd a)) of
     None \<Rightarrow> Fail 404 ''NOT_FOUND'' | Some r \<Rightarrow> ok_json r)"

definition CreateRole ::
    "codec \<Rightarrow> int \<Rightarrow> role option \<Rightarrow> user \<Rightarrow> accounts \<Rightarrow> role response \<times> accounts" where
  "CreateRole c now body = for_system_admin c (\<lambda>a. case body of
     None \<Rightarrow> (Fail 400 ''INVALID_BODY'', a)
   | Some r \<Rightarrow>
       if ro_ID r = '''' \<or> ro_Name r = '''' then (Fail 400 ''MISSING_FIELDS'', a)
       else (case Roles.Create c now r (td_roles (snd a)) of
           Inl e \<Rightarrow> (Fail 500 ''CREATE_FAILED'', a)
         | Inr t \<Rightarrow> (created_json r, set_roles t a)))"

definition UpdateRole ::
    "codec \<Rightarrow> int \<Rightarrow> string \<Rightarrow> role option \<Rightarrow> user \<Rightarrow> accounts \<Rightarrow> role response \<times> accounts" where
  "UpdateRole c now i body = for_system_admin c (\<lambda>a. case body of
     None \<Rightarrow> (Fail 400 ''INVALID_BODY'', a)
   | Some r \<Rightarrow> let r = r\<lparr>ro_ID := i\<rparr> in (ok_json r, set_roles (Roles.Update c now r (td_roles (snd a))) a))"

definition DeleteRole :: "codec \<Rightarrow> string \<Rightarrow> user \<Rightarrow> accounts \<Rightarrow> unit response \<times> accounts" where
  "DeleteRole c i = for_system_admin c (\<lambda>a.
     if i = ''admin'' \<or> i = ''user'' \<or> i = ''guest'' then (Fail 400 ''PROTECTED_ROLE'', a)
     else (no_content, set_roles (Roles.Delete i (td_roles (snd a))) a))"

definition ExportRoles :: "codec \<Rightarrow> accounts \<Rightarrow> role list response" where
  "ExportRoles c a = ok_json (Roles.List c (td_roles (snd a)))"

definition ImportRoles :: "codec \<Rightarrow> int \<Rightarrow> role list option \<Rightarrow> accounts \<Rightarrow> nat response \<times> accounts" where
  "ImportRoles c now body a = (case body of
     None \<Rightarrow> (Fail 400 ''IMPORT_FAILED'', a)
   | Some rs \<Rightarrow> (case Roles.ImportJSON c now rs (td_roles (snd a)) of
       (n, t) \<Rightarrow> (ok_json n, set_roles t a)))"

section \<open>Limits\<close>

definition for_self_or_admin ::
    "codec \<Rightarrow> string \<Rightarrow> (accounts \<Rightarrow> 'b response) \<Rightarrow> user \<Rightarrow> accounts \<Rightarrow> 'b response" where
  "for_self_or_admin c i h u a =
     (if i \<noteq> u_ID u \<and> \<not> system_admin c u a then Fail 403 ''FORBIDDEN'' else h a)"

definition GetUserLimits :: "codec \<Rightarrow> string \<Rightarrow> user \<Rightarrow> accounts \<Rightarrow> limits response" where
  "GetUserLimits c i = for_self_or_admin c i (\<lambda>a. case GetEffectiveLimits c i (snd a) of
     Inl e \<Rightarrow> Fail 500 ''GET_FAILED'' | Inr l \<Rightarrow> ok_json l)"

definition SetUserLimits_handler ::
    "codec \<Rightarrow> int \<Rightarrow> string \<Rightarrow> limits option \<Rightarrow> user \<Rightarrow> accounts \<Rightarrow> unit response \<times> accounts" where
  "SetUserLimits_handler c now i body = for_system_admin c (\<lambda>a. case body of
     None \<Rightarrow> (Fail 400 ''INVALID_BODY'', a)
   | Some l \<Rightarrow> (case SetUserLimits c now i l (snd a) of
       Inl e \<Rightarrow> (Fail 500 ''SET_FAILED'', a)
     | Inr d \<Rightarrow> (ok_json (), (fst a, d))))"

definition GetUserUsage_handler ::
    "codec \<Rightarrow> (int \<Rightarrow> string) \<Rightarrow> int \<Rightarrow> string \<Rightarrow> user \<Rightarrow> accounts \<Rightarrow> (int \<times> int \<times> int \<times> int) response" where
  "GetUserUsage_handler c day now i = for_self_or_admin c i (\<lambda>a. ok_json (GetUserUsage day now i (snd a)))"

section \<open>Login\<close>

record login_reply =
  lr_Token :: string
  lr_ExpiresAt :: int
  lr_User :: string
  lr_Tier :: string
  lr_Role :: string

definition login_claims :: "'priv signer \<Rightarrow> int \<Rightarrow> user \<Rightarrow> claims" where
  "login_claims s now u = \<lparr>Sub = u_ID u, Iss = '''', Aud = '''', Exp = (now + s_ttl s) div 1000000000, Iat = 0,
     Nbf = 0, Tier = u_Tier u, Role = u_Role u\<rparr>"

definition ApiLogin ::
    "(string \<Rightarrow> string) \<Rightarrow> kdf \<Rightarrow> 'priv crypto \<Rightarrow> token_encoder \<Rightarrow> 'priv signer option \<Rightarrow> int \<Rightarrow>
     (string \<times> string) option \<Rightarrow> user_store \<Rightarrow> login_reply response" where
  "ApiLogin sha kdf cr en signer now body us = (case signer of
     None \<Rightarrow> Fail 503 ''AUTH_DISABLED''
   | Some s \<Rightarrow> (case body of
       None \<Rightarrow> Fail 400 ''INVALID_BODY''
     | Some (i, pw) \<Rightarrow> (case Find i us of
         None \<Rightarrow> Fail 401 ''INVALID_CREDENTIALS''
       | Some u \<Rightarrow>
           if \<not> user_CheckPassword sha kdf u pw then Fail 401 ''INVALID_CREDENTIALS''
           else if u_Disabled u then Fail 403 ''ACCOUNT_DISABLED''
           else let c = login_claims s now u
                in (case Sign cr en s now c of
                      Inl e \<Rightarrow> Fail 500 ''SIGN_FAILED''
                    | Inr token \<Rightarrow> ok_json \<lparr>lr_Token = token, lr_ExpiresAt = Exp c, lr_User = u_ID u,
                        lr_Tier = u_Tier u, lr_Role = u_Role u\<rparr>))))"

definition Me :: "user \<Rightarrow> user response" where "Me u = ok_json u"

section \<open>The first start\<close>

datatype first_error = NoAdminRole | CreateAdmin user_error

definition first_admin :: "kdf \<Rightarrow> string \<Rightarrow> user" where
  "first_admin kdf salt = set_password kdf salt ''admin''
     \<lparr>u_ID = ''admin'', u_Name = ''Administrator'', u_Tier = '''', u_Role = '''', u_RoleID = ''admin'',
      u_Groups = [], u_PassHash = '''', u_PassSHA256 = '''', u_Disabled = False, u_NLPEnabled = False,
      u_NLPDailyLimit = 0\<rparr>"

definition bootstrap_admin :: "codec \<Rightarrow> kdf \<Rightarrow> string \<Rightarrow> accounts \<Rightarrow> first_error option \<times> accounts" where
  "bootstrap_admin c kdf salt a =
     (if 0 < length (us_all (fst a)) then (None, a)
      else case Roles.Get c ''admin'' (td_roles (snd a)) of
        None \<Rightarrow> (Some NoAdminRole, a)
      | Some r \<Rightarrow> (case on_users (User_Store.Create (first_admin kdf salt)) a of
          (Some e, a) \<Rightarrow> (Some (CreateAdmin e), a)
        | (None, a) \<Rightarrow> (None, a)))"

end
