(* ===== verification/Jwt_Laws.thy ===== *)
theory Jwt_Laws
  imports Jwt
begin

text \<open>
  What the tokens of \<open>Jwt\<close> promise: a verified token carries a signature of the
  verifier's own key over exactly its header and payload, made with an algorithm of that
  key's type; what the signer issues the verifier accepts; and the key set is fetched
  no more often than its minimum interval, as long as fetching works.
\<close>

section \<open>Parsing\<close>

lemma indexByte_eq: "indexByte s b = (if b \<in> set s then int (length (takeWhile (\<lambda>c. c \<noteq> b) s)) else - 1)"
  by (induction s) auto

lemma indexByte_neg: "indexByte s b < 0 \<longleftrightarrow> b \<notin> set s"
  by (simp add: indexByte_eq)

lemma indexByte_at: "b \<notin> set a \<Longrightarrow> indexByte (a @ b # s) b = int (length a)"
proof -
  assume "b \<notin> set a"
  then have "takeWhile (\<lambda>c. c \<noteq> b) (a @ b # s) = a" by (subst takeWhile_append2) auto
  then show ?thesis by (simp add: indexByte_eq)
qed

lemma split3_join:
  assumes "CHR ''.'' \<notin> set a" "CHR ''.'' \<notin> set b" "CHR ''.'' \<notin> set c"
  shows "split3 (a @ CHR ''.'' # b @ CHR ''.'' # c) = Some (a, b, c)"
proof -
  have 1: "indexByte (a @ CHR ''.'' # b @ CHR ''.'' # c) (CHR ''.'') = int (length a)"
    "indexByte (b @ CHR ''.'' # c) (CHR ''.'') = int (length b)" "indexByte c (CHR ''.'') < 0"
    using assms by (simp_all add: indexByte_at indexByte_neg)
  have 2: "nat (int (length a) + 1) = length a + 1" "nat (int (length b) + (int (length a) + 1) + 1) = length a + (length b + 2)"
    "nat (int (length b) + (int (length a) + 1)) = length a + (length b + 1)" by linarith+
  have 3: "drop (length a + 1) (a @ CHR ''.'' # s) = s" "take (length a + (length b + 1)) (a @ CHR ''.'' # b @ s) = a @ CHR ''.'' # b"
    "drop (length a + (length b + 2)) (a @ CHR ''.'' # b @ CHR ''.'' # s) = s" for s :: string
    by simp_all
  show ?thesis unfolding split3_def Let_def 1(1) 2(1) 3(1) 1(2) 2 3 using 1(3) by simp
qed

lemma split3_iff:
  "split3 s = Some (a, b, c) \<longleftrightarrow> s = a @ CHR ''.'' # b @ CHR ''.'' # c \<and>
     CHR ''.'' \<notin> set a \<and> CHR ''.'' \<notin> set b \<and> CHR ''.'' \<notin> set c"
proof
  assume sp: "split3 s = Some (a, b, c)"
  let ?d = "CHR ''.''"
  have "?d \<in> set s" using sp indexByte_neg [of s ?d] by (auto simp: split3_def Let_def split: if_splits)
  then obtain a' t where s: "s = a' @ ?d # t" "?d \<notin> set a'" by (metis split_list_first)
  have "?d \<in> set t"
    using sp indexByte_at [OF s(2), of t] indexByte_neg [of t ?d]
    by (auto simp: split3_def Let_def s(1) nat_add_distrib split: if_splits)
  then obtain b' c' where t: "t = b' @ ?d # c'" "?d \<notin> set b'" by (metis split_list_first)
  have eq: "nat (int (length b') + (int (length a') + 1) + 1) = length a' + (length b' + 2)" by linarith
  have "?d \<notin> set c'"
    using sp indexByte_at [OF s(2), of t] indexByte_at [OF t(2), of c'] indexByte_neg [of c' ?d]
    by (auto simp: split3_def Let_def s(1) t(1) nat_add_distrib eq split: if_splits)
  with split3_join [OF s(2) t(2)] sp s t show
    "s = a @ CHR ''.'' # b @ CHR ''.'' # c \<and> CHR ''.'' \<notin> set a \<and> CHR ''.'' \<notin> set b \<and> CHR ''.'' \<notin> set c"
    by auto
qed (auto intro: split3_join)

section \<open>What is verified\<close>

text \<open>The algorithms of a type of key.\<close>

definition algs :: "key_type \<Rightarrow> string \<rightharpoonup> hash" where
  "algs kt = (case kt of
     KeyHMAC \<Rightarrow> [''HS256'' \<mapsto> SHA256, ''HS384'' \<mapsto> SHA384, ''HS512'' \<mapsto> SHA512]
   | KeyRSA \<Rightarrow> [''RS256'' \<mapsto> SHA256, ''RS384'' \<mapsto> SHA384, ''RS512'' \<mapsto> SHA512])"

lemma hashForAlg_iff: "hashForAlg v alg = Inr h \<longleftrightarrow> algs (v_kt v) alg = Some h"
  by (cases "v_kt v") (auto simp: hashForAlg_def algs_def)

text \<open>Claims that name a user now.\<close>

definition claims_name :: "int \<Rightarrow> claims_map \<Rightarrow> string \<Rightarrow> string \<Rightarrow> string \<Rightarrow> string \<Rightarrow> bool" where
  "claims_name now m userClaim issuer audience i \<longleftrightarrow>
     (\<exists>ex. numClaim m ''exp'' = Some ex \<and> since_year1 now \<le> add_secs (Unix ex) leeway * 1000000000) \<and>
     (\<forall>nbf. numClaim m ''nbf'' = Some nbf \<longrightarrow> Unix nbf * 1000000000 \<le> since_year1 now + leeway * 1000000000) \<and>
     (issuer = '''' \<or> m ''iss'' = Some (JStr issuer)) \<and>
     (audience = '''' \<or> audMatch (m ''aud'') audience) \<and>
     i \<noteq> '''' \<and> m userClaim = Some (JStr i)"

lemma strClaim_iff: "s \<noteq> '''' \<Longrightarrow> strClaim m k = s \<longleftrightarrow> m k = Some (JStr s)"
  by (auto simp: strClaim_def split: option.splits json.splits)

lemma strClaim_some: "strClaim m k = s \<and> s \<noteq> '''' \<longleftrightarrow> s \<noteq> '''' \<and> m k = Some (JStr s)"
  using strClaim_iff by blast

lemma checkClaims_iff: "checkClaims now m uc iss aud = Inr i \<longleftrightarrow> claims_name now m uc iss aud i"
proof -
  have "checkClaims now m uc iss aud = Inr i \<longleftrightarrow>
      (\<exists>ex. numClaim m ''exp'' = Some ex \<and> since_year1 now \<le> add_secs (Unix ex) leeway * 1000000000) \<and>
      (\<forall>nbf. numClaim m ''nbf'' = Some nbf \<longrightarrow> Unix nbf * 1000000000 \<le> since_year1 now + leeway * 1000000000) \<and>
      (iss = '''' \<or> strClaim m ''iss'' = iss) \<and> (aud = '''' \<or> audMatch (m ''aud'') aud) \<and>
      strClaim m uc = i \<and> i \<noteq> ''''"
    by (auto simp: checkClaims_def Let_def not_less split: option.split)
  then show ?thesis
    unfolding claims_name_def strClaim_some using strClaim_iff [of iss m "''iss''"] by auto
qed

lemma decodeClaims_iff:
  "decodeClaims js p = Inr m \<longleftrightarrow> (\<exists>b. b64_decode url_alphabet p = Some b \<and> dec_claims js b = Some m)"
  by (auto simp: decodeClaims_def split: option.split)

lemma decodeHeader_iff:
  "decodeHeader js p = Inr x \<longleftrightarrow> (\<exists>b. b64_decode url_alphabet p = Some b \<and> dec_header js b = Some x)"
  by (auto simp: decodeHeader_def split: option.split)

lemma Verify_iff:
  "Verify cr js v now token = Inr i \<longleftrightarrow> (\<exists>p0 p1 p2 alg kid h sig m.
     split3 token = Some (p0, p1, p2) \<and> decodeHeader js p0 = Inr (alg, kid) \<and> algs (v_kt v) alg = Some h \<and>
     b64_decode url_alphabet p2 = Some sig \<and> verifySig cr v h (p0 @ ''.'' @ p1) sig \<and>
     decodeClaims js p1 = Inr m \<and> claims_name now m (v_userClaim v) (v_issuer v) (v_audience v) i)"
proof (cases "split3 token")
  case (Some p)
  obtain p0 p1 p2 where p: "p = (p0, p1, p2)" by (cases p)
  show ?thesis
    by (cases "b64_decode url_alphabet p2")
       (auto simp: Verify_def Some p bind_res_eq_Inr_iff hashForAlg_iff checkClaims_iff)
qed (simp add: Verify_def)

text \<open>
  C5: what a verified token is. The verifier accepts a token for a user exactly if it is
  three segments; the header names an algorithm of the verifier's own type of key, so
  neither \<open>none\<close> nor an algorithm of the other type is ever accepted; the last segment
  is a signature of the verifier's key over the first two as they stand; and the payload
  has an expiry not passed by more than the leeway, is valid already, has the issuer and
  audience that are configured, and names the user in the identity claim.
\<close>

theorem verified_tokens_exactly:
  "Verify cr js v now token = Inr i \<longleftrightarrow> (\<exists>p0 p1 p2 head alg kid h sig body m.
     token = p0 @ CHR ''.'' # p1 @ CHR ''.'' # p2 \<and>
     CHR ''.'' \<notin> set p0 \<and> CHR ''.'' \<notin> set p1 \<and> CHR ''.'' \<notin> set p2 \<and>
     b64_decode url_alphabet p0 = Some head \<and> dec_header js head = Some (alg, kid) \<and>
     b64_decode url_alphabet p2 = Some sig \<and>
     (case v_kt v of
        KeyHMAC \<Rightarrow> (alg, h) \<in> {(''HS256'', SHA256), (''HS384'', SHA384), (''HS512'', SHA512)} \<and>
          sig = hmac_sum cr h (v_hmacKey v) (p0 @ CHR ''.'' # p1)
      | KeyRSA \<Rightarrow> (alg, h) \<in> {(''RS256'', SHA256), (''RS384'', SHA384), (''RS512'', SHA512)} \<and>
          rsa_check cr (v_rsaPub v) h (digest cr h (p0 @ CHR ''.'' # p1)) sig) \<and>
     b64_decode url_alphabet p1 = Some body \<and> dec_claims js body = Some m \<and>
     claims_name now m (v_userClaim v) (v_issuer v) (v_audience v) i)"
proof -
  have sig: "algs (v_kt v) alg = Some h \<and> verifySig cr v h (p0 @ ''.'' @ p1) sig \<longleftrightarrow>
     (case v_kt v of
        KeyHMAC \<Rightarrow> (alg, h) \<in> {(''HS256'', SHA256), (''HS384'', SHA384), (''HS512'', SHA512)} \<and>
          sig = hmac_sum cr h (v_hmacKey v) (p0 @ CHR ''.'' # p1)
      | KeyRSA \<Rightarrow> (alg, h) \<in> {(''RS256'', SHA256), (''RS384'', SHA384), (''RS512'', SHA512)} \<and>
          rsa_check cr (v_rsaPub v) h (digest cr h (p0 @ CHR ''.'' # p1)) sig)" for alg h p0 p1 sig
    by (cases "v_kt v") (auto simp: algs_def verifySig_def split: if_splits)
  show ?thesis
    unfolding Verify_iff split3_iff decodeHeader_iff decodeClaims_iff sig [symmetric] by blast
qed

section \<open>Signing, then verifying\<close>

text \<open>The claims as the decoder returns them: empty strings and zero times are left out.\<close>

definition claims_json :: "claims \<Rightarrow> claims_map" where
  "claims_json c =
     (let str = (\<lambda>k s m. if s = '''' then m else m(k \<mapsto> JStr s))
      in str ''iss'' (Iss c) (str ''aud'' (Aud c) (str ''tier'' (Tier c) (str ''role'' (Role c)
           ((if Nbf c = 0 then \<lambda>m. m else (\<lambda>m. m(''nbf'' \<mapsto> JNum (of_int64 (Nbf c)))))
            [''sub'' \<mapsto> JStr (Sub c), ''exp'' \<mapsto> JNum (of_int64 (Exp c)), ''iat'' \<mapsto> JNum (of_int64 (Iat c))])))))"

lemma claims_json_fields:
  "claims_json c ''sub'' = Some (JStr (Sub c))"
  "claims_json c ''exp'' = Some (JNum (of_int64 (Exp c)))"
  "claims_json c ''nbf'' = (if Nbf c = 0 then None else Some (JNum (of_int64 (Nbf c))))"
  "claims_json c ''iss'' = (if Iss c = '''' then None else Some (JStr (Iss c)))"
  "claims_json c ''aud'' = (if Aud c = '''' then None else Some (JStr (Aud c)))"
  by (simp_all add: claims_json_def Let_def)

lemma int64_of_int64: "\<bar>i\<bar> \<le> 2 ^ 53 \<Longrightarrow> int64_of (of_int64 i) = i"
proof -
  assume i: "\<bar>i\<bar> \<le> 2 ^ 53"
  have "pow2 1024 = 2 ^ 1024" by (simp add: pow2_def)
  moreover have "(2 :: rat) ^ 53 < 2 ^ 1024" by (rule power_strict_increasing) simp_all
  moreover have "\<bar>of_int i :: rat\<bar> \<le> 2 ^ 53"
    using i by (metis of_int_abs of_int_le_iff of_int_numeral of_int_power)
  ultimately have "\<not> pow2 1024 \<le> \<bar>of_int i :: rat\<bar>" by linarith
  then have "of_int64 i = (if i = 0 then Zero False else Fin (of_int i))"
    by (simp add: of_int64_def rnd_alt rndq_int [OF i])
  then show ?thesis using i by (auto simp: int64_of_def Let_def abs_le_iff)
qed

lemma Unix_small: "\<bar>i\<bar> \<le> 2 ^ 53 \<Longrightarrow> Unix i = i + epoch"
  by (simp add: Unix_def wrap64_def epoch_def abs_le_iff)

text \<open>The parameters belong together: the verifier has the signer's key and type of key.\<close>

definition matching :: "'priv crypto \<Rightarrow> 'priv signer \<Rightarrow> jwt_verifier \<Rightarrow> bool" where
  "matching cr s v \<longleftrightarrow> algs (v_kt v) (s_alg s) = Some SHA256 \<and>
     (\<forall>data sig. sign_data cr s data = Some sig \<longrightarrow> verifySig cr v SHA256 data sig)"

lemma HMAC_matching: "matching cr (NewHMACSigner k nil iss ttl) (NewHMAC k uc iss' aud)"
  by (simp add: matching_def NewHMACSigner_def NewHMAC_def algs_def sign_data_def verifySig_def)

lemma signed_verifies:
  fixes s :: "'priv signer" and now :: int and c :: claims
  defines "c' \<equiv> filled s now c"
  assumes "Sign cr en s now c = Inr token" and "matching cr s v"
    and "dec_header js (enc_header en (s_alg s)) = Some (s_alg s, kid)"
    and "dec_claims js (enc_claims en c') = Some (claims_json c')"
    and "v_userClaim v = ''sub''" "v_issuer v \<in> {'''', Iss c'}" "v_audience v \<in> {'''', Aud c'}"
    and "\<bar>Exp c'\<bar> \<le> 2 ^ 53" "\<bar>Nbf c'\<bar> \<le> 2 ^ 53"
    and "later \<le> (Exp c' + 60) * 1000000000" "Nbf c' = 0 \<or> (Nbf c' - 60) * 1000000000 \<le> later"
  shows "Verify cr js v later token = Inr (Sub c)"
proof -
  let ?h = "b64_encode url_alphabet (enc_header en (s_alg s))"
  let ?p = "b64_encode url_alphabet (enc_claims en c')"
  from assms(2) obtain sig where sub: "Sub c \<noteq> ''''" and sig: "sign_data cr s (?h @ ''.'' @ ?p) = Some sig"
    and token: "token = (?h @ ''.'' @ ?p) @ ''.'' @ b64_encode url_alphabet sig"
    by (auto simp: Sign_def Let_def c'_def split: if_splits option.splits)
  have sp: "split3 token = Some (?h, ?p, b64_encode url_alphabet sig)"
    unfolding split3_iff by (simp add: token url_no_dot)
  have "Sub c' = Sub c" by (simp add: c'_def filled_def Let_def)
  then have "claims_name later (claims_json c') ''sub'' (v_issuer v) (v_audience v) (Sub c)"
  proof -
    have "since_year1 later \<le> add_secs (Unix (Exp c')) leeway * 1000000000"
      using assms(9,11) by (simp add: Unix_small add_secs_def since_year1_def leeway_def epoch_def abs_le_iff)
    moreover have "Nbf c' \<noteq> 0 \<Longrightarrow> Unix (Nbf c') * 1000000000 \<le> since_year1 later + leeway * 1000000000"
      using assms(10,12) by (simp add: Unix_small since_year1_def leeway_def epoch_def)
    ultimately show ?thesis
      using assms(7-10) sub \<open>Sub c' = Sub c\<close>
      by (auto simp: claims_name_def numClaim_def claims_json_fields int64_of_int64 audMatch_def)
  qed
  moreover have "decodeHeader js ?h = Inr (s_alg s, kid)" "decodeClaims js ?p = Inr (claims_json c')"
    using assms(4,5) by (simp_all add: decodeHeader_iff decodeClaims_iff url.roundtrip)
  moreover have "algs (v_kt v) (s_alg s) = Some SHA256" "verifySig cr v SHA256 (?h @ ''.'' @ ?p) sig"
    using assms(3) sig by (auto simp: matching_def)
  ultimately show ?thesis
    unfolding Verify_iff assms(6) using sp url.roundtrip by metis
qed

text \<open>
  C29: what the signer issues the verifier accepts. With the same key, a token made by
  \<open>Sign\<close> verifies to its subject from its not-before time to its expiry, with a minute of
  leeway on either side, when the verifier reads the subject and asks for the issuer the
  token carries. The JSON library is assumed to read back the header and the claims that
  were signed.
\<close>

theorem sign_then_verify:
  fixes s :: "'priv signer" and now :: int and c :: claims
  defines "c' \<equiv> filled s now c"
  assumes "Sign cr en s now c = Inr token" and "matching cr s v"
    and "dec_header js (enc_header en (s_alg s)) = Some (s_alg s, kid)"
    and "dec_claims js (enc_claims en c') = Some (claims_json c')"
    and "v_userClaim v = ''sub''" "v_issuer v \<in> {'''', Iss c'}" "v_audience v \<in> {'''', Aud c'}"
    and "\<bar>Exp c'\<bar> \<le> 2 ^ 53" "\<bar>Nbf c'\<bar> \<le> 2 ^ 53"
    and "later \<le> (Exp c' + 60) * 1000000000" "Nbf c' = 0 \<or> (Nbf c' - 60) * 1000000000 \<le> later"
  shows "Verify cr js v later token = Inr (Sub c)"
  using assms(2-) unfolding c'_def by (rule signed_verifies)

definition plain_crypto :: "unit crypto" where
  "plain_crypto = \<lparr>hmac_sum = (\<lambda>h k d. k @ d), digest = (\<lambda>h d. d), rsa_sign = (\<lambda>k h d. None),
     rsa_check = (\<lambda>k h d sig. False)\<rparr>"

definition ann_claims :: claims where
  "ann_claims = \<lparr>Sub = ''ann'', Iss = ''scanner'', Aud = '''', Exp = 5000, Iat = 1000, Nbf = 0,
     Tier = ''free'', Role = ''user''\<rparr>"

definition one_token_json :: token_json where
  "one_token_json = \<lparr>dec_header = (\<lambda>_. Some (''HS256'', '''')), dec_claims = (\<lambda>_. Some (claims_json ann_claims))\<rparr>"

definition one_token_encoder :: token_encoder where
  "one_token_encoder = \<lparr>enc_header = (\<lambda>_. ''h''), enc_claims = (\<lambda>_. ''c'')\<rparr>"

theorem sign_then_verify_witness:
  "\<exists>token. Sign plain_crypto one_token_encoder (NewHMACSigner ''key'' () ''scanner'' 0) 0 ann_claims = Inr token \<and>
     Verify plain_crypto one_token_json (NewHMAC ''key'' '''' ''scanner'' '''') (5060 * 1000000000) token = Inr ''ann''"
proof -
  let ?s = "NewHMACSigner ''key'' () ''scanner'' 0"
  let ?v = "NewHMAC ''key'' '''' ''scanner'' ''''"
  have f: "filled ?s 0 ann_claims = ann_claims" by (simp add: filled_def ann_claims_def)
  obtain token where t: "Sign plain_crypto one_token_encoder ?s 0 ann_claims = Inr token"
    by (simp add: Sign_def Let_def ann_claims_def sign_data_def NewHMACSigner_def)
  have "Verify plain_crypto one_token_json ?v (5060 * 1000000000) token = Inr (Sub ann_claims)"
    by (rule sign_then_verify [OF t HMAC_matching, where kid = "''''"])
       (simp_all add: f, simp_all add: one_token_json_def one_token_encoder_def NewHMACSigner_def NewHMAC_def claimOr_def ann_claims_def)
  with t show ?thesis by (auto simp: ann_claims_def)
qed

section \<open>The key set\<close>

lemma refresh_ok: "fst (refresh now answer j) = None \<Longrightarrow> j_fetchedAt (snd (refresh now answer j)) = now"
  by (auto simp: refresh_def split: option.splits if_splits)

lemma refresh_failed: "fst (refresh now answer j) \<noteq> None \<Longrightarrow> snd (refresh now answer j) = j"
  by (auto simp: refresh_def split: option.splits if_splits)

text \<open>An unknown key id asks the endpoint for the set unless the last success is too recent.\<close>

definition asks :: "jwks_config \<Rightarrow> int \<Rightarrow> string \<Rightarrow> jwks \<Rightarrow> bool" where
  "asks cfg now kid j \<longleftrightarrow> j_keys j kid = None \<and> j_minRefresh cfg \<le> now - j_fetchedAt j"

lemma keyByKID_state:
  "snd (keyByKID cfg now answer kid j) = (if asks cfg now kid j then snd (refresh now answer j) else j)"
  by (auto simp: keyByKID_def asks_def not_less split: option.split prod.split)

fun fetched :: "jwks_config \<Rightarrow> jwks \<Rightarrow> (int \<times> jwk_key list option \<times> string) list \<Rightarrow> int list" where
  "fetched cfg j [] = []"
| "fetched cfg j ((now, answer, kid) # es) =
     (if asks cfg now kid j \<and> fst (refresh now answer j) = None then [now] else []) @
     fetched cfg (snd (keyByKID cfg now answer kid j)) es"

text \<open>
  The key set is not fetched too often. Whatever tokens arrive, with whatever key
  ids, two successful fetches of the set are at least the minimum interval apart. A fetch
  that fails leaves no trace: the very next unknown key id asks the endpoint again.
\<close>

theorem key_set_fetches_spaced:
  assumes "0 \<le> j_minRefresh cfg"
  shows "sorted_wrt (\<lambda>t u. t + j_minRefresh cfg \<le> u) (fetched cfg j es) \<and>
    (\<forall>t \<in> set (fetched cfg j es). j_fetchedAt j + j_minRefresh cfg \<le> t)"
  using assms
proof (induction cfg j es rule: fetched.induct)
  case (2 cfg j now answer kid es)
  let ?j = "snd (keyByKID cfg now answer kid j)"
  note IH = 2(1) [OF 2(2)]
  show ?case
  proof (cases "asks cfg now kid j \<and> fst (refresh now answer j) = None")
    case True
    then have "j_fetchedAt ?j = now" by (simp add: keyByKID_state refresh_ok)
    moreover have "j_fetchedAt j + j_minRefresh cfg \<le> now" using True by (simp add: asks_def)
    ultimately show ?thesis using IH 2(2) True by fastforce
  next
    case False
    then have "?j = j" using refresh_failed by (auto simp: keyByKID_state)
    with IH False show ?thesis by auto
  qed
qed simp

lemma failed_fetch_asks_again:
  assumes "asks cfg now kid j" "fst (refresh now answer j) \<noteq> None" "now \<le> now'" "j_keys j kid' = None"
  shows "asks cfg now' kid' (snd (keyByKID cfg now answer kid j))"
  using assms refresh_failed [OF assms(2)] by (simp add: keyByKID_state) (simp add: asks_def)

definition one_key :: "jwk_key list" where
  "one_key = [\<lparr>Kty = ''RSA'', Kid = ''k1'', jwk_N = ''AQAB'', jwk_E = ''AQAB''\<rparr>]"

theorem key_set_fetches_spaced_witness:
  "sorted_wrt (\<lambda>t u. t + 60 \<le> u)
     (fetched \<lparr>j_userClaim = ''sub'', j_issuer = '''', j_audience = '''', j_minRefresh = 60\<rparr>
        \<lparr>j_keys = Map.empty, j_fetchedAt = 0\<rparr> [(100, Some one_key, ''k2''), (130, Some one_key, ''k2''), (170, Some one_key, ''k2'')])"
  using key_set_fetches_spaced [of "\<lparr>j_userClaim = ''sub'', j_issuer = '''', j_audience = '''', j_minRefresh = 60\<rparr>"
      "\<lparr>j_keys = Map.empty, j_fetchedAt = 0\<rparr>" "[(100, Some one_key, ''k2''), (130, Some one_key, ''k2''), (170, Some one_key, ''k2'')]"]
  by simp

end
