(* ===== verification/Api_Accounts_Laws.thy ===== *)
theory Api_Accounts_Laws
  imports Isolation Api_Accounts Jwt_Laws
begin

text \<open>
  What the account handlers guarantee: members who send no import cannot raise
  anybody's authority, nor change another account at all, in any sequence of requests;
  what an import lets them do all the same; the account of the first start; and the way
  of a token from the login back to its user.
\<close>

section \<open>Requests\<close>

datatype account_request =
    CreateUserReq string "user_body option"
  | UpdateUserReq string string "user_update option"
  | DeleteUserReq string
  | ResetReq string string string
  | PasswordReq string string "(string \<times> string) option"
  | CreateRoleReq "role option"
  | UpdateRoleReq string "role option"
  | DeleteRoleReq string
  | SetLimitsReq string "limits option"
  | ImportUsersReq "user list option"
  | ImportRolesReq "role list option"

record env =
  e_sha :: "string \<Rightarrow> string"
  e_cls :: char_classes
  e_kdf :: kdf
  e_codec :: codec
  e_policy :: policy

primrec serve_account :: "env \<Rightarrow> int \<Rightarrow> user \<Rightarrow> account_request \<Rightarrow> accounts \<Rightarrow> accounts" where
  "serve_account e now u (CreateUserReq salt b) a = snd (CreateUser (e_kdf e) salt b u a)"
| "serve_account e now u (UpdateUserReq salt i b) a = snd (UpdateUser (e_kdf e) salt i b u a)"
| "serve_account e now u (DeleteUserReq i) a = snd (DeleteUser i u a)"
| "serve_account e now u (ResetReq salt bytes i) a = snd (ResetPassword (e_kdf e) salt bytes i u a)"
| "serve_account e now u (PasswordReq salt verb b) a =
     snd (HandleChangePassword (e_sha e) (e_cls e) (e_kdf e) salt (e_policy e) verb b u a)"
| "serve_account e now u (CreateRoleReq b) a = snd (CreateRole (e_codec e) now b u a)"
| "serve_account e now u (UpdateRoleReq i b) a = snd (UpdateRole (e_codec e) now i b u a)"
| "serve_account e now u (DeleteRoleReq i) a = snd (DeleteRole (e_codec e) i u a)"
| "serve_account e now u (SetLimitsReq i b) a = snd (SetUserLimits_handler (e_codec e) now i b u a)"
| "serve_account e now u (ImportUsersReq us) a = snd (ImportUsers us a)"
| "serve_account e now u (ImportRolesReq rs) a = snd (ImportRoles (e_codec e) now rs a)"

text \<open>A request names its user; the handler gets the user's present record, if enabled.\<close>

definition serve_as :: "env \<Rightarrow> int \<times> string \<times> account_request \<Rightarrow> accounts \<Rightarrow> accounts" where
  "serve_as e q a = (case q of (now, i, r) \<Rightarrow> (case enabled_user (fst a) i of
     None \<Rightarrow> a | Some u \<Rightarrow> serve_account e now u r a))"

section \<open>Authority\<close>

definition authority :: "user \<Rightarrow> string \<times> string \<times> string \<times> string list \<times> bool \<times> bool \<times> int" where
  "authority u = (u_Tier u, u_Role u, u_RoleID u, u_Groups u, u_Disabled u, u_NLPEnabled u, u_NLPDailyLimit u)"

definition powerful :: "env \<Rightarrow> string \<Rightarrow> accounts \<Rightarrow> bool" where
  "powerful e i a \<longleftrightarrow> (\<exists>u. Find i (fst a) = Some u \<and> (IsAdmin u \<or> system_admin (e_codec e) u a))"

primrec is_import :: "account_request \<Rightarrow> bool" where
  "is_import (CreateUserReq salt b) = False"
| "is_import (UpdateUserReq salt i b) = False"
| "is_import (DeleteUserReq i) = False"
| "is_import (ResetReq salt bytes i) = False"
| "is_import (PasswordReq salt verb b) = False"
| "is_import (CreateRoleReq r) = False"
| "is_import (UpdateRoleReq i r) = False"
| "is_import (DeleteRoleReq i) = False"
| "is_import (SetLimitsReq i l) = False"
| "is_import (ImportUsersReq us) = True"
| "is_import (ImportRolesReq rs) = True"

text \<open>Memory in step, and the table holds the rows of the users in memory.\<close>

definition rows_match :: "user list \<Rightarrow> database \<Rightarrow> bool" where
  "rows_match us d \<longleftrightarrow> in_table us (d\<lparr>db_limits := []\<rparr>)"

definition accounts_ok :: "accounts \<Rightarrow> bool" where
  "accounts_ok a \<longleftrightarrow> in_step u_ID (us_all (fst a)) (us_byID (fst a)) \<and> rows_match (us_all (fst a)) (td_db (snd a))"

definition same_accounts :: "string set \<Rightarrow> accounts \<Rightarrow> accounts \<Rightarrow> bool" where
  "same_accounts V a b \<longleftrightarrow>
     (\<forall>i. map_option authority (Find i (fst b)) = map_option authority (Find i (fst a))) \<and>
     (\<forall>i \<in> V. Find i (fst b) = Find i (fst a)) \<and>
     td_roles (snd b) = td_roles (snd a) \<and> db_limits (td_db (snd b)) = db_limits (td_db (snd a))"

definition may_change :: "env \<Rightarrow> string set \<Rightarrow> int \<times> string \<times> account_request \<Rightarrow> accounts \<Rightarrow> bool" where
  "may_change e V q a \<longleftrightarrow> powerful e (fst (snd q)) a \<or> is_import (snd (snd q)) \<or> fst (snd q) \<in> V"

lemma db_users_replace_limits: "db_users (replace_user r (d\<lparr>db_limits := l\<rparr>)) = db_users (replace_user r d)"
  by (simp add: replace_user_def delete_user_def delete_results_def has_user_def Let_def)

lemma rows_match_put:
  assumes "in_step u_ID (us_all s) (us_byID s)" "rows_match (us_all s) d"
  shows "rows_match (us_all (user_put u s)) (replace_user (user_row_of u) d)"
  using in_table_put [OF assms(1) assms(2) [unfolded rows_match_def], of u]
  by (simp add: rows_match_def in_table_def db_users_replace_limits)

lemma role_of_in_memory:
  assumes "accounts_ok a"
  shows "role_of i (snd a) = map_option saved_role (Find i (fst a))"
proof -
  let ?us = "us_all (fst a)" and ?rows = "db_users (td_db (snd a))"
  have s: "in_step u_ID ?us (us_byID (fst a))" and d: "distinct (map ur_id ?rows)"
    and rows: "set ?rows = user_row_of ` set ?us"
    using assms by (simp_all add: accounts_ok_def rows_match_def in_table_def)
  show ?thesis
  proof (cases "Find i (fst a)")
    case None
    then have "i \<notin> u_ID ` set ?us" using in_step_None [OF s, of i] by (simp add: Find_def)
    then have "find (\<lambda>r. ur_id r = i) ?rows = None" unfolding find_None_iff using rows by auto
    with None show ?thesis by (simp add: role_of_def)
  next
    case (Some u)
    then have u: "u \<in> set ?us" "u_ID u = i" using in_step_lookup [OF s, of i u] by (simp_all add: Find_def)
    then have "user_row_of u \<in> set ?rows" using rows by blast
    then have "find (\<lambda>r. ur_id r = i) ?rows = Some (user_row_of u)"
      using u(2) find_key_iff [OF d] by simp
    with Some show ?thesis by (simp add: role_of_def user_row_of_def)
  qed
qed

section \<open>The effect of one request\<close>

lemma same_accounts_refl: "same_accounts V a a"
  by (simp add: same_accounts_def)

lemma same_accounts_trans: "same_accounts V a b \<Longrightarrow> same_accounts V b c \<Longrightarrow> same_accounts V a c"
  by (simp add: same_accounts_def)

lemma powerful_stable:
  assumes "same_accounts V a b" "powerful e i b"
  shows "powerful e i a"
proof -
  obtain u where u: "Find i (fst b) = Some u" "IsAdmin u \<or> system_admin (e_codec e) u b"
    using assms(2) by (auto simp: powerful_def)
  have "map_option authority (Find i (fst a)) = Some (authority u)"
    using assms(1) u(1) unfolding same_accounts_def by (metis option.simps(9))
  then obtain v where v: "Find i (fst a) = Some v" "authority v = authority u" by auto
  have "IsAdmin v = IsAdmin u" "system_admin (e_codec e) v a = system_admin (e_codec e) u b"
    using v(2) assms(1) by (simp_all add: authority_def IsAdmin_def system_admin_def same_accounts_def)
  with u(2) v(1) show ?thesis by (auto simp: powerful_def)
qed

text \<open>Changing a user's record without its authority.\<close>

lemma mutate_own:
  assumes ok: "accounts_ok a" and f: "\<And>u. u_ID (f u) = u_ID u" "\<And>u. authority (f u) = authority u" and i: "i \<notin> V"
  shows "accounts_ok (snd (on_users (mutate i f) a)) \<and> same_accounts V a (snd (on_users (mutate i f) a))"
proof -
  obtain s d where a: "a = (s, d)" by (cases a)
  have s: "in_step u_ID (us_all s) (us_byID s)" and d: "rows_match (us_all s) (td_db d)"
    using ok by (simp_all add: accounts_ok_def a)
  show ?thesis
  proof (cases "us_byID s i")
    case None
    then have "on_users (mutate i f) a = (Some (UserNotFound i), a)"
      using mutate_in_step [OF s f(1), of i] by (simp add: on_users_def a)
    then show ?thesis using ok by (simp add: same_accounts_refl)
  next
    case (Some u)
    then have u: "u_ID u = i" using in_step_lookup [OF s] by blast
    let ?s = "user_put (f u) s" and ?db = "replace_user (user_row_of (f u)) (td_db d)"
    have "?s = \<lparr>us_all = replace_key u_ID (f u) (us_all s), us_byID = (us_byID s)(i \<mapsto> f u)\<rparr>"
      using Some u f(1) by (simp add: user_put_eq [OF s])
    then have run: "on_users (mutate i f) a = (None, (?s, d\<lparr>td_db := ?db\<rparr>))"
      using Some mutate_in_step [OF s f(1), of i] by (simp add: on_users_def a User_Store.saveToSQL_def)
    have "accounts_ok (?s, d\<lparr>td_db := ?db\<rparr>)"
      using users.put_in_step [OF s] rows_match_put [OF s d] by (simp add: accounts_ok_def)
    moreover have "same_accounts V a (?s, d\<lparr>td_db := ?db\<rparr>)"
      using users.put_lookup [OF s, of "f u"] Some u f i
      by (auto simp: same_accounts_def a Find_def replace_user_def limits_fields Let_def)
    ultimately show ?thesis by (simp add: run)
  qed
qed

definition harmless :: "string \<Rightarrow> (user_state \<Rightarrow> user_error option \<times> user_state) \<Rightarrow> bool" where
  "harmless i f \<longleftrightarrow> (\<exists>g. f = mutate i g \<and> (\<forall>u. u_ID (g u) = u_ID u) \<and> (\<forall>u. authority (g u) = authority u))"

lemma harmless_updates:
  "harmless i (SetName i n)" "harmless i (SetPassword kdf salt i pw)"
  by (auto simp: harmless_def SetName_def SetPassword_def set_password_def authority_def intro!: exI)

lemma run_harmless:
  assumes "accounts_ok a" "\<forall>f \<in> set fs. harmless i f" "i \<notin> V"
  shows "accounts_ok (snd (run_updates fs a)) \<and> same_accounts V a (snd (run_updates fs a))"
  using assms(1,2)
proof (induction fs arbitrary: a)
  case Nil
  then show ?case by (simp add: same_accounts_refl)
next
  case (Cons f fs)
  obtain g where "f = mutate i g" "\<forall>u. u_ID (g u) = u_ID u" "\<forall>u. authority (g u) = authority u"
    using Cons.prems(2) by (auto simp: harmless_def)
  then have one: "accounts_ok (snd (on_users f a))" "same_accounts V a (snd (on_users f a))"
    using mutate_own [OF Cons.prems(1) _ _ assms(3), of g] by simp_all
  obtain r b where r: "on_users f a = (r, b)" by (cases "on_users f a")
  show ?case
    using one Cons.IH [of b] Cons.prems(2) same_accounts_trans by (cases r) (auto simp: r)
qed

lemma member_updates:
  assumes "up_Tier b = ''''" "up_Role b = ''''" "up_Groups b = None" "up_Disabled b = None"
  shows "\<forall>f \<in> set (user_updates kdf salt admin i b). harmless i f"
  using assms harmless_updates by (auto simp: user_updates_def)

lemma member_request:
  assumes ok: "accounts_ok a" and u: "\<not> IsAdmin u" "\<not> system_admin (e_codec e) u a"
    and r: "\<not> is_import r" and V: "u_ID u \<notin> V"
  shows "accounts_ok (serve_account e now u r a) \<and> same_accounts V a (serve_account e now u r a)"
proof -
  have here: "accounts_ok a \<and> same_accounts V a a" using ok by (simp add: same_accounts_refl)
  show ?thesis
  proof (cases r)
    case (UpdateUserReq salt i b)
    show ?thesis
    proof (cases "u_ID u = i \<and> (\<exists>c. b = Some c \<and> up_Tier c = '''' \<and> up_Role c = '''' \<and> up_Groups c = None \<and> up_Disabled c = None)")
      case True
      then obtain c where c: "b = Some c" "up_Tier c = ''''" "up_Role c = ''''" "up_Groups c = None" "up_Disabled c = None"
        by blast
      have "snd (UpdateUser (e_kdf e) salt i b u a) = snd (run_updates (user_updates (e_kdf e) salt False i c) a)"
        using True u(1) c by (auto simp: UpdateUser_def split: option.split prod.split)
      then show ?thesis
        using run_harmless [OF ok member_updates [OF c(2-)]] True V by (simp add: UpdateUserReq)
    next
      case False
      then have "snd (UpdateUser (e_kdf e) salt i b u a) = a"
        using u(1) by (cases b) (auto simp: UpdateUser_def)
      then show ?thesis using here by (simp add: UpdateUserReq)
    qed
  next
    case (PasswordReq salt verb b)
    have "snd (HandleChangePassword sha cls kdf salt pol verb b u a) \<in>
        {a, snd (on_users (SetPassword kdf salt (u_ID u) (snd (the b))) a)}" for sha cls kdf pol
      by (auto simp: HandleChangePassword_def split: option.split prod.split)
    moreover have "accounts_ok (snd (on_users (SetPassword kdf salt (u_ID u) pw) a)) \<and>
        same_accounts V a (snd (on_users (SetPassword kdf salt (u_ID u) pw) a))" for kdf pw
      unfolding SetPassword_def
      by (rule mutate_own [OF ok _ _ V]) (simp_all add: set_password_def authority_def)
    ultimately show ?thesis using here by (simp add: PasswordReq) (metis insertE singletonD)
  qed (use u r here in \<open>simp_all add: CreateUser_def DeleteUser_def ResetPassword_def CreateRole_def UpdateRole_def
      DeleteRole_def SetUserLimits_handler_def for_system_admin_def\<close>)
qed

interpretation account_rights: isolation "serve_as e" accounts_ok "same_accounts V" "may_change e V" for e V
proof unfold_locales
  have both: "accounts_ok (serve_as e q a) \<and> same_accounts V a (serve_as e q a)"
    if ok: "accounts_ok a" and no: "\<not> may_change e V q a" for q a
  proof (cases "enabled_user (fst a) (fst (snd q))")
    case None
    then show ?thesis using ok by (cases q) (simp add: serve_as_def same_accounts_refl)
  next
    case (Some u)
    then have f: "Find (fst (snd q)) (fst a) = Some u" by (simp add: enabled_user_iff)
    then have "u_ID u = fst (snd q)"
      using ok in_step_lookup [of u_ID "us_all (fst a)"] by (simp add: accounts_ok_def Find_def)
    with no f have "\<not> IsAdmin u" "\<not> system_admin (e_codec e) u a" "\<not> is_import (snd (snd q))" "u_ID u \<notin> V"
      by (auto simp: may_change_def powerful_def)
    from member_request [OF ok this] Some show ?thesis by (cases q) (simp add: serve_as_def)
  qed
  show "accounts_ok (serve_as e q a)" if "accounts_ok a" "\<not> may_change e V q a" for a q using both that by blast
  show "same_accounts V a (serve_as e q a)" if "accounts_ok a" "\<not> may_change e V q a" for a q using both that by blast
  show "may_change e V q a" if "same_accounts V a b" "may_change e V q b" for a b q
    using that powerful_stable [OF that(1), of e] by (auto simp: may_change_def)
qed (auto intro: same_accounts_refl same_accounts_trans)

text \<open>
  C3: members cannot raise anybody's authority. Take any sequence of requests to the
  handlers of users, passwords, roles and limits, none of them an import, from users
  who at its start are neither admins nor have the capability \<open>system.admin\<close>. Then
  nobody's tier, role, groups, flags or limits change, and neither do the roles; and
  the record of every user who sent none of the requests is untouched, password
  included.
\<close>

theorem members_cannot_escalate:
  assumes "accounts_ok a" "\<forall>(now, i, r) \<in> set qs. \<not> powerful e i a \<and> \<not> is_import r"
  shows "(\<forall>i. map_option authority (Find i (fst (fold (serve_as e) qs a))) = map_option authority (Find i (fst a))) \<and>
    (\<forall>i. i \<notin> (fst \<circ> snd) ` set qs \<longrightarrow> Find i (fst (fold (serve_as e) qs a)) = Find i (fst a)) \<and>
    td_roles (snd (fold (serve_as e) qs a)) = td_roles (snd a) \<and>
    (\<forall>i. GetEffectiveLimits c i (snd (fold (serve_as e) qs a)) = GetEffectiveLimits c i (snd a))"
proof -
  let ?V = "- (fst \<circ> snd) ` set qs" and ?b = "fold (serve_as e) qs a"
  have "\<forall>q \<in> set qs. \<not> may_change e ?V q a"
    using assms(2) by (force simp: may_change_def)
  from account_rights.run_isolated [OF assms(1) this]
  have ok: "accounts_ok ?b" and same: "same_accounts ?V a ?b" by simp_all
  have "map_option saved_role x = map_option saved_role y" if "map_option authority x = map_option authority y" for x y
    using that by (cases x; cases y) (auto simp: saved_role_def authority_def)
  then have "role_of i (snd ?b) = role_of i (snd a)" for i
    using same unfolding role_of_in_memory [OF ok] role_of_in_memory [OF assms(1)] same_accounts_def by blast
  then have "GetEffectiveLimits c i (snd ?b) = GetEffectiveLimits c i (snd a)" for i
    using same by (simp add: GetEffectiveLimits_def same_accounts_def cong: option.case_cong)
  with same show ?thesis by (simp add: same_accounts_def)
qed

section \<open>A member's day\<close>

definition dora :: user where
  "dora = ann\<lparr>u_ID := ''dora'', u_Tier := TierFree, u_Role := RoleUser\<rparr>"

definition dora_home :: accounts where
  "dora_home = (remember empty_users dora,
     \<lparr>td_db = replace_user (user_row_of dora) empty_db, td_studies = [], td_roles = [], td_usage = [], td_rates = []\<rparr>)"

definition plain_env :: env where
  "plain_env = \<lparr>e_sha = (\<lambda>s. s), e_cls = no_classes, e_kdf = pad_kdf, e_codec = plain_codec, e_policy = DefaultPolicy\<rparr>"

lemma dora_home_ok: "accounts_ok dora_home" "\<not> powerful plain_env ''dora'' dora_home"
proof -
  have "in_step u_ID ([] @ [dora]) ((\<lambda>_. None)(u_ID dora \<mapsto> dora))"
    by (rule in_step_append) simp_all
  then show "accounts_ok dora_home"
    by (simp add: accounts_ok_def dora_home_def remember_def empty_users_def rows_match_def in_table_def
        replace_user_def has_user_def empty_db_def)
  show "\<not> powerful plain_env ''dora'' dora_home"
    by (simp add: powerful_def dora_home_def remember_def empty_users_def Find_def dora_def IsAdmin_def RoleUser_def
        RoleAdmin_def system_admin_def HasCapability_def Roles.Get_def)
qed

theorem members_cannot_escalate_witness:
  "map_option authority (Find ''dora'' (fst (fold (serve_as plain_env)
     [(1, ''dora'', UpdateUserReq ''salt'' ''dora'' (Some \<lparr>up_Name = ''Dora'', up_Password = ''Secret123'', up_Tier = '''',
         up_Role = '''', up_Groups = None, up_Disabled = None\<rparr>)),
      (2, ''dora'', SetLimitsReq ''dora'' (Some generous_limits))] dora_home))) = Some (authority dora)"
proof -
  have "Find ''dora'' (fst dora_home) = Some dora"
    by (simp add: dora_home_def remember_def empty_users_def Find_def dora_def)
  then show ?thesis
    using members_cannot_escalate [OF dora_home_ok(1), of
      "[(1, ''dora'', UpdateUserReq ''salt'' ''dora'' (Some \<lparr>up_Name = ''Dora'', up_Password = ''Secret123'', up_Tier = '''',
         up_Role = '''', up_Groups = None, up_Disabled = None\<rparr>)),
        (2, ''dora'', SetLimitsReq ''dora'' (Some generous_limits))]" plain_env] dora_home_ok(2)
    by simp
qed

section \<open>Imports\<close>

text \<open>
  An import makes administrators. The handlers that import users and roles are
  documented as \<open>admin only\<close>, but they only ask for a login: any enabled user whatever
  adds an account with a new id, the admin role and a password hash of their choice.
\<close>

theorem import_makes_admins:
  assumes "enabled_user (fst a) i = Some u" "Find (u_ID v) (fst a) = None" "trim_space (u_ID v) \<noteq> ''''"
    and "u_Role v = RoleAdmin"
  shows "\<exists>w. Find (u_ID v) (fst (serve_as e (now, i, ImportUsersReq (Some [v])) a)) = Some w \<and>
    IsAdmin w \<and> u_PassHash w = u_PassHash v \<and> u_Disabled w = u_Disabled v"
proof -
  obtain s d where a: "a = (s, d)" by (cases a)
  have "us_byID s (u_ID v) = None" using assms(2) by (simp add: a Find_def)
  then have "Find (u_ID v) (fst (serve_as e (now, i, ImportUsersReq (Some [v])) a)) = Some (with_defaults v)"
    using assms(1,3)
    by (simp add: a serve_as_def ImportUsers_def User_Store.ImportJSON_def User_Store.Create_def Let_def remember_def
        Find_def saveToSQL_def)
  moreover have "IsAdmin (with_defaults v)" using assms(4) by (simp add: with_defaults_def Let_def IsAdmin_def RoleAdmin_def)
  moreover have "u_PassHash (with_defaults v) = u_PassHash v" "u_Disabled (with_defaults v) = u_Disabled v"
    by (simp_all add: with_defaults_def Let_def)
  ultimately show ?thesis by blast
qed

theorem import_makes_admins_witness:
  "\<exists>w. Find ''eve'' (fst (serve_as plain_env (1, ''dora'', ImportUsersReq (Some [dora\<lparr>u_ID := ''eve'', u_Role := RoleAdmin\<rparr>])) dora_home)) =
     Some w \<and> IsAdmin w"
proof -
  have "trim_space ''eve'' \<noteq> ''''" by code_simp
  moreover have "enabled_user (fst dora_home) ''dora'' = Some dora" "Find ''eve'' (fst dora_home) = None"
    by (simp_all add: enabled_user_def dora_home_def remember_def empty_users_def Find_def dora_def ann_def)
  ultimately show ?thesis
    using import_makes_admins [of dora_home "''dora''" dora "dora\<lparr>u_ID := ''eve'', u_Role := RoleAdmin\<rparr>" plain_env 1]
    by auto
qed

section \<open>The first start\<close>

text \<open>
  The first administrator is none. On an empty installation the account made at the
  first start can log in with its well-known password, but it is not an administrator
  for the checks of the handlers: only its role id says so, and the store completes the
  empty role to that of a user. After a restart, read back from the table, it is one.
\<close>

theorem first_admin_needs_restart:
  assumes "us_all s = []" "us_byID s = Map.empty" "db_users (td_db d) = []" "Roles.Get c ''admin'' (td_roles d) \<noteq> None"
  shows "\<exists>u v s' d'. bootstrap_admin c kdf salt (s, d) = (None, (s', d')) \<and>
     Find ''admin'' s' = Some u \<and> \<not> IsAdmin u \<and> \<not> u_Disabled u \<and> u_PassHash u = HashPassword kdf salt ''admin'' \<and>
     Find ''admin'' (User_Store.loadFromSQL (td_db d')) = Some v \<and> IsAdmin v"
proof -
  let ?u = "with_defaults (first_admin kdf salt)" and ?s = "\<lambda>u. remember s u"
  let ?d = "d\<lparr>td_db := replace_user (user_row_of ?u) (td_db d)\<rparr>"
  have i: "u_ID (first_admin kdf salt) = ''admin''" by (simp add: first_admin_def set_password_def)
  have t: "trim_space ''admin'' \<noteq> ''''" by code_simp
  obtain r where r: "Roles.Get c ''admin'' (td_roles d) = Some r" using assms(4) by blast
  have run: "bootstrap_admin c kdf salt (s, d) = (None, (?s ?u, ?d))"
    using assms(1,2) r t i
    by (simp add: bootstrap_admin_def on_users_def User_Store.Create_def Let_def User_Store.saveToSQL_def)
  have u: "u_Role ?u = RoleUser" "u_RoleID ?u = ''admin''" "\<not> u_Disabled ?u" "u_PassHash ?u = HashPassword kdf salt ''admin''"
    by (simp_all add: with_defaults_def Let_def first_admin_def set_password_def)
  have "db_users (td_db ?d) = [user_row_of ?u]"
    using assms(3) by (simp add: replace_user_def has_user_def)
  then have "Find ''admin'' (User_Store.loadFromSQL (td_db ?d)) = Some (sql_user (user_row_of ?u))"
    by (simp add: User_Store.loadFromSQL_def remember_def empty_users_def Find_def sql_user_def user_row_of_def i)
  moreover have "IsAdmin (sql_user (user_row_of ?u))"
    by (simp add: sql_user_of_row IsAdmin_def saved_role_def u RoleAdmin_def)
  moreover have "Find ''admin'' (?s ?u) = Some ?u" by (simp add: Find_def remember_def i)
  moreover have "\<not> IsAdmin ?u" using u(1) by (simp add: IsAdmin_def RoleUser_def RoleAdmin_def)
  ultimately show ?thesis using run u by blast
qed

theorem first_admin_needs_restart_witness:
  "\<exists>a. bootstrap_admin plain_codec pad_kdf ''salt'' (empty_users, \<lparr>td_db = empty_db, td_studies = [],
     td_roles = [role_row_of plain_codec (viewer\<lparr>ro_ID := ''admin''\<rparr>)], td_usage = [], td_rates = []\<rparr>) = (None, a)"
  using first_admin_needs_restart [of empty_users "\<lparr>td_db = empty_db, td_studies = [],
     td_roles = [role_row_of plain_codec (viewer\<lparr>ro_ID := ''admin''\<rparr>)], td_usage = [], td_rates = []\<rparr>"
     plain_codec pad_kdf "''salt''"]
  by (simp add: empty_users_def empty_db_def Roles.Get_def role_row_of_def) blast

section \<open>From the login to the handlers\<close>

text \<open>
  The token of a login, verified with the signer's key, is one for the account that logged
  in until it expires.
\<close>

lemma login_token_verifies:
  fixes s :: "'priv signer" and now :: int and u :: user
  defines "cl \<equiv> filled s now (login_claims s now u)"
  assumes "ApiLogin sha kdf cr en (Some s) now (Some (i, pw)) us = Reply n r" and "Find i us = Some u"
    and "matching cr s v" and "dec_header js (enc_header en (s_alg s)) = Some (s_alg s, kid)"
    and "dec_claims js (enc_claims en cl) = Some (claims_json cl)"
    and "v_userClaim v = ''sub''" "v_issuer v \<in> {'''', s_issuer s}" "v_audience v = ''''"
    and "0 < lr_ExpiresAt r" "lr_ExpiresAt r \<le> 2 ^ 53" "later \<le> (lr_ExpiresAt r + 60) * 1000000000"
    and "verifier g = Some (\<lambda>t. case Verify cr js v later t of Inl e \<Rightarrow> None | Inr j \<Rightarrow> Some j)"
  shows "user_CheckPassword sha kdf u pw \<and> \<not> u_Disabled u \<and>
    requireAuth g us' \<lparr>authorization = ''Bearer '' @ lr_Token r, session_cookie = k\<rparr> =
      (case enabled_user us' (u_ID u) of Some w \<Rightarrow> Some w
       | None \<Rightarrow> cookie_user g us' \<lparr>authorization = ''Bearer '' @ lr_Token r, session_cookie = k\<rparr>)"
proof -
  let ?c = "login_claims s now u"
  from assms(2,3) have pw: "user_CheckPassword sha kdf u pw" "\<not> u_Disabled u"
    and sign: "Sign cr en s now ?c = Inr (lr_Token r)" and ex: "lr_ExpiresAt r = Exp ?c"
    by (auto simp: ApiLogin_def Let_def ok_json_def split: if_splits sum.splits)
  have cl: "Exp cl = Exp ?c" "Nbf cl = 0" "Aud cl = ''''" "Iss cl = s_issuer s"
    using assms(10) ex by (simp_all add: cl_def filled_def Let_def login_claims_def)
  have "Verify cr js v later (lr_Token r) = Inr (Sub ?c)"
    by (rule signed_verifies [OF sign assms(4,5)])
       (use assms(6-12) cl ex in \<open>simp_all add: cl_def [symmetric]\<close>)
  then have ver: "Verify cr js v later (lr_Token r) = Inr (u_ID u)" by (simp add: login_claims_def)
  have "lr_Token r \<noteq> ''''" using sign by (auto simp: Sign_def Let_def split: if_splits option.splits)
  then have "bearer_token (''Bearer '' @ lr_Token r) = Some (lr_Token r)" unfolding bearer_token_iff by simp
  then show ?thesis
    using pw ver assms(13) by (auto simp: requireAuth_def bearer_user_def split: option.split)
qed

definition frank :: user where
  "frank = ann\<lparr>u_ID := ''frank'', u_PassHash := '''', u_PassSHA256 := ''6162''\<rparr>"

end
