(* ===== verification/Progress.thy ===== *)
theory Progress
  imports Prelude
begin

text \<open>
  The contract of a concurrent computation that ends: every step keeps an invariant
  and uses up some work, and as long as the computation is not done some step is
  possible. Then no schedule runs for ever, none gets stuck half-way, and from every
  reachable state the end can be reached.
\<close>

locale progress =
  fixes step :: "'s \<Rightarrow> 's \<Rightarrow> bool"
    and inv :: "'s \<Rightarrow> bool"
    and work :: "'s \<Rightarrow> nat"
    and done_with :: "'s \<Rightarrow> bool"
  assumes keeps: "inv s \<Longrightarrow> step s t \<Longrightarrow> inv t"
    and works: "inv s \<Longrightarrow> step s t \<Longrightarrow> work t < work s"
    and enabled: "inv s \<Longrightarrow> \<not> done_with s \<Longrightarrow> \<exists>t. step s t"
begin

lemma keeps_all: "step\<^sup>*\<^sup>* s t \<Longrightarrow> inv s \<Longrightarrow> inv t"
  by (induction rule: rtranclp_induct) (auto intro: keeps)

lemma ends: "inv s \<Longrightarrow> \<exists>t. step\<^sup>*\<^sup>* s t \<and> done_with t"
proof (induction "work s" arbitrary: s rule: less_induct)
  case less
  show ?case
  proof (cases "done_with s")
    case False
    then obtain t where t: "step s t" using enabled less.prems by blast
    obtain v where "step\<^sup>*\<^sup>* t v" "done_with v"
      using less.hyps [OF works [OF less.prems t] keeps [OF less.prems t]] by blast
    with t show ?thesis by (meson converse_rtranclp_into_rtranclp)
  qed blast
qed

lemma no_infinite_run:
  assumes "inv (f 0)" "\<forall>n. step (f n) (f (Suc n))"
  shows False
proof -
  have "inv (f n) \<and> work (f n) + n \<le> work (f 0)" for n
  proof (induction n)
    case (Suc n)
    then have "inv (f (Suc n))" "work (f (Suc n)) < work (f n)"
      using assms(2) keeps works by blast+
    with Suc show ?case by simp
  qed (simp add: assms(1))
  from this [of "Suc (work (f 0))"] show False by simp
qed

end

end
