(* ===== verification/Scan_Pool.thy ===== *)
theory Scan_Pool
  imports Screen_Laws Screen_Studies Database Progress
begin

text \<open>
  \<open>internal/scan/scan.go\<close>, \<open>Universe\<close>: the scan of the whole universe by a pool of
  workers. A feeder hands the symbols to idle workers over an unbuffered channel, a
  worker loads the bars of its symbol and sends an item over a channel with one place
  per worker, and the collector takes the items out; the context can be cancelled at
  any time. One step of the relation is one of these, in any order the scheduler
  likes. The loader of bars and the logarithm are arguments.
\<close>

section \<open>What a symbol contributes\<close>

record scan_item =
  it_row :: "snapshot_row option"
  it_ts :: int

type_synonym loader = "string \<Rightarrow> bar list option"

text \<open>No item for a symbol that fails to load or has no bars; no row below the floor.\<close>

definition scan_symbol :: "(float64 \<Rightarrow> float64) \<Rightarrow> float64 \<Rightarrow> loader \<Rightarrow> string \<Rightarrow> scan_item option" where
  "scan_symbol ln64 minDollarVol load tick = (case load tick of
     None \<Rightarrow> None
   | Some bars \<Rightarrow>
       if bars = [] then None
       else Some \<lparr>it_row = (case Build ln64 tick bars of
                    Row r \<Rightarrow> if \<not> isnan (r_DollarVol r) \<and> fle minDollarVol (r_DollarVol r) then Some r else None
                  | _ \<Rightarrow> None),
                  it_ts = b_Timestamp (last bars)\<rparr>)"

section \<open>The collected result\<close>

record scan_result =
  sc_Rows :: "snapshot_row list"
  sc_Scanned :: nat
  sc_Day :: int

text \<open>
  The collector's loop, and the sort by symbol at its end. Rows with equal symbols are
  equal, so that \<open>sort.Slice\<close> need not be stable.
\<close>

definition collect_one :: "snapshot_row list \<times> nat \<times> int \<Rightarrow> scan_item \<Rightarrow> snapshot_row list \<times> nat \<times> int" where
  "collect_one acc it = (case acc of (rows, n, maxTs) \<Rightarrow>
     (case it_row it of None \<Rightarrow> rows | Some r \<Rightarrow> rows @ [r], n + 1, if it_ts it > maxTs then it_ts it else maxTs))"

definition by_symbol :: "snapshot_row \<Rightarrow> snapshot_row \<Rightarrow> bool" where
  "by_symbol a b \<longleftrightarrow> text_less (r_Symbol a) (r_Symbol b)"

definition collected :: "int \<Rightarrow> scan_item list \<Rightarrow> scan_result" where
  "collected now items = (case foldl collect_one ([], 0, 0) items of (rows, n, maxTs) \<Rightarrow>
     \<lparr>sc_Rows = sort_stable by_symbol rows, sc_Scanned = n, sc_Day = (if maxTs > 0 then maxTs else now)\<rparr>)"

section \<open>The pool\<close>

datatype worker = Idle | Took string | Loading string | Holding scan_item | Gone

record pool =
  p_feed :: "string list"
  p_closed :: bool
  p_workers :: "worker list"
  p_chan :: "scan_item list"
  p_got :: "scan_item list"
  p_cancelled :: bool

definition workers_of :: "int \<Rightarrow> nat \<Rightarrow> nat \<Rightarrow> nat" where
  "workers_of opts ncpu n =
     (let w = (if opts \<le> 0 then ncpu else nat opts) in if w > n \<and> n > 0 then n else w)"

definition pool_start :: "nat \<Rightarrow> string list \<Rightarrow> pool" where
  "pool_start w symbols = \<lparr>p_feed = symbols, p_closed = False, p_workers = replicate w Idle, p_chan = [],
     p_got = [], p_cancelled = False\<rparr>"

inductive pool_step :: "(string \<Rightarrow> scan_item option) \<Rightarrow> pool \<Rightarrow> pool \<Rightarrow> bool" for f where
  feed: "p_feed p = s # rest \<Longrightarrow> \<not> p_closed p \<Longrightarrow> i < length (p_workers p) \<Longrightarrow> p_workers p ! i = Idle \<Longrightarrow>
    pool_step f p (p\<lparr>p_feed := rest, p_workers := (p_workers p)[i := Took s]\<rparr>)"
| fed: "p_feed p = [] \<Longrightarrow> \<not> p_closed p \<Longrightarrow> pool_step f p (p\<lparr>p_closed := True\<rparr>)"
| stop_feeding: "p_feed p \<noteq> [] \<Longrightarrow> p_cancelled p \<Longrightarrow> \<not> p_closed p \<Longrightarrow> pool_step f p (p\<lparr>p_closed := True\<rparr>)"
| no_more: "i < length (p_workers p) \<Longrightarrow> p_workers p ! i = Idle \<Longrightarrow> p_closed p \<Longrightarrow>
    pool_step f p (p\<lparr>p_workers := (p_workers p)[i := Gone]\<rparr>)"
| give_up: "i < length (p_workers p) \<Longrightarrow> p_workers p ! i = Took s \<Longrightarrow> p_cancelled p \<Longrightarrow>
    pool_step f p (p\<lparr>p_workers := (p_workers p)[i := Gone]\<rparr>)"
| start: "i < length (p_workers p) \<Longrightarrow> p_workers p ! i = Took s \<Longrightarrow> \<not> p_cancelled p \<Longrightarrow>
    pool_step f p (p\<lparr>p_workers := (p_workers p)[i := Loading s]\<rparr>)"
| loaded: "i < length (p_workers p) \<Longrightarrow> p_workers p ! i = Loading s \<Longrightarrow> f s = Some it \<Longrightarrow>
    pool_step f p (p\<lparr>p_workers := (p_workers p)[i := Holding it]\<rparr>)"
| skipped: "i < length (p_workers p) \<Longrightarrow> p_workers p ! i = Loading s \<Longrightarrow> f s = None \<or> p_cancelled p \<Longrightarrow>
    pool_step f p (p\<lparr>p_workers := (p_workers p)[i := Idle]\<rparr>)"
| send: "i < length (p_workers p) \<Longrightarrow> p_workers p ! i = Holding it \<Longrightarrow> length (p_chan p) < length (p_workers p) \<Longrightarrow>
    pool_step f p (p\<lparr>p_workers := (p_workers p)[i := Idle], p_chan := p_chan p @ [it]\<rparr>)"
| receive: "p_chan p = it # rest \<Longrightarrow> pool_step f p (p\<lparr>p_chan := rest, p_got := p_got p @ [it]\<rparr>)"
| cancel: "\<not> p_cancelled p \<Longrightarrow> pool_step f p (p\<lparr>p_cancelled := True\<rparr>)"

inductive_cases pool_stepE: "pool_step f p q"

text \<open>All workers have returned, so the channel is closed, and the collector has emptied it.\<close>

definition pool_done :: "pool \<Rightarrow> bool" where
  "pool_done p \<longleftrightarrow> p_closed p \<and> set (p_workers p) \<subseteq> {Gone} \<and> p_chan p = []"

text \<open>The scan over the symbols one after the other.\<close>

definition scan_in_order ::
    "(float64 \<Rightarrow> float64) \<Rightarrow> float64 \<Rightarrow> loader \<Rightarrow> int \<Rightarrow> string list \<Rightarrow> scan_result" where
  "scan_in_order ln64 minDollarVol load now symbols =
     collected now (List.map_filter (scan_symbol ln64 minDollarVol load) symbols)"

section \<open>Every schedule ends\<close>

primrec worker_work :: "worker \<Rightarrow> nat" where
  "worker_work Idle = 1"
| "worker_work (Took s) = 5"
| "worker_work (Loading s) = 4"
| "worker_work (Holding it) = 3"
| "worker_work Gone = 0"

definition pool_work :: "pool \<Rightarrow> nat" where
  "pool_work p = 5 * length (p_feed p) + sum_list (map worker_work (p_workers p)) + length (p_chan p) +
     (if p_closed p then 0 else 1) + (if p_cancelled p then 0 else 1)"

definition pool_inv :: "pool \<Rightarrow> bool" where
  "pool_inv p \<longleftrightarrow> p_workers p \<noteq> [] \<and> (Gone \<in> set (p_workers p) \<longrightarrow> p_closed p \<or> p_cancelled p)"

lemma work_update:
  "i < length ws \<Longrightarrow> sum_list (map worker_work (ws[i := w])) + worker_work (ws ! i) =
     sum_list (map worker_work ws) + worker_work w"
proof (induction ws arbitrary: i)
  case (Cons v ws)
  then show ?case by (cases i) auto
qed simp

lemma pool_works:
  assumes "pool_step f p q"
  shows "pool_work q < pool_work p"
proof -
  have u: "sum_list (map worker_work ((p_workers p)[i := w])) + worker_work v =
      sum_list (map worker_work (p_workers p)) + worker_work w" if "i < length (p_workers p)" "p_workers p ! i = v" for i v w
    using work_update [OF that(1), of w] that(2) by simp
  from assms show ?thesis
  proof cases
    case (feed s rest i)
    with u [OF feed(4,5), of "Took s"] show ?thesis by (simp add: pool_work_def)
  next
    case (no_more i)
    with u [OF no_more(2,3), of Gone] show ?thesis by (simp add: pool_work_def)
  next
    case (give_up i s)
    with u [OF give_up(2,3), of Gone] show ?thesis by (simp add: pool_work_def)
  next
    case (start i s)
    with u [OF start(2,3), of "Loading s"] show ?thesis by (simp add: pool_work_def)
  next
    case (loaded i s it)
    with u [OF loaded(2,3), of "Holding it"] show ?thesis by (simp add: pool_work_def)
  next
    case (skipped i s)
    with u [OF skipped(2,3), of Idle] show ?thesis by (simp add: pool_work_def)
  next
    case (send i it)
    with u [OF send(2,3), of Idle] show ?thesis by (simp add: pool_work_def)
  qed (simp_all add: pool_work_def)
qed

lemma pool_inv_step:
  assumes "pool_inv p" "pool_step f p q"
  shows "pool_inv q"
  using assms(2,1) by cases (auto simp: pool_inv_def dest!: set_update_subset_insert [THEN subsetD])

lemma pool_enabled:
  assumes inv: "pool_inv p" and "\<not> pool_done p"
  shows "\<exists>q. pool_step f p q"
proof (rule ccontr)
  assume stuck: "\<nexists>q. pool_step f p q"
  have chan: "p_chan p = []" using stuck receive by (cases "p_chan p") blast+
  have worker: "p_workers p ! i = Gone \<or> p_workers p ! i = Idle \<and> \<not> p_closed p" if i: "i < length (p_workers p)" for i
  proof (cases "p_workers p ! i")
    case Idle
    then show ?thesis using stuck no_more [OF i] by blast
  next
    case (Took s)
    then show ?thesis using stuck give_up [OF i Took] start [OF i Took] by blast
  next
    case (Loading s)
    then show ?thesis using stuck loaded [OF i Loading] skipped [OF i Loading] by (cases "f s") blast+
  next
    case (Holding it)
    moreover have "length (p_chan p) < length (p_workers p)" using chan i by (cases "p_workers p") simp_all
    ultimately show ?thesis using stuck send [OF i Holding] by blast
  qed simp
  show False
  proof (cases "p_closed p")
    case True
    then have "set (p_workers p) \<subseteq> {Gone}" using worker by (auto simp: in_set_conv_nth)
    with True chan assms(2) show False by (simp add: pool_done_def)
  next
    case False
    then have "p_feed p \<noteq> []" using stuck fed by blast
    then obtain s rest where feed: "p_feed p = s # rest" by (cases "p_feed p") auto
    have none: "p_workers p ! i = Gone" if "i < length (p_workers p)" for i
      using worker [OF that] stuck pool_step.feed [OF feed False that] by blast
    have "0 < length (p_workers p)" using inv by (simp add: pool_inv_def)
    then have "Gone \<in> set (p_workers p)" using none nth_mem by metis
    then have "p_cancelled p" using inv False by (simp add: pool_inv_def)
    then show False using stuck stop_feeding [OF \<open>p_feed p \<noteq> []\<close> _ False] by blast
  qed
qed

interpretation pool: progress "pool_step f" pool_inv pool_work pool_done for f
  by unfold_locales (auto intro: pool_inv_step pool_works pool_enabled)

end
