(* ===== verification/Bar_Cache.thy ===== *)
theory Bar_Cache
  imports Scan_Pool
begin

text \<open>
  \<open>internal/scan/cache.go\<close>: the bars of a backfill in an SQLite table of their own,
  keyed by symbol and time, and \<open>UniverseFromCache\<close> of \<open>scan.go\<close>, which makes the
  snapshot of a past day from it. SQLite stores a NaN as NULL, which the scan of a row
  into Go's floats then refuses. Days are Unix seconds in UTC, so adding days adds
  multiples of 86400.
\<close>

section \<open>The table\<close>

record cached_bar =
  cb_symbol :: string
  cb_timestamp :: int
  cb_open :: "float64 option"
  cb_high :: "float64 option"
  cb_low :: "float64 option"
  cb_close :: "float64 option"
  cb_volume :: int

type_synonym bar_cache = "cached_bar list"

definition sql_real :: "float64 \<Rightarrow> float64 option" where
  "sql_real v = (if isnan v then None else Some v)"

definition cache_row :: "bar \<Rightarrow> cached_bar" where
  "cache_row b = \<lparr>cb_symbol = b_Symbol b, cb_timestamp = b_Timestamp b, cb_open = sql_real (b_Open b),
     cb_high = sql_real (b_High b), cb_low = sql_real (b_Low b), cb_close = sql_real (b_Close b),
     cb_volume = b_Volume b\<rparr>"

definition NewBarCache :: bar_cache where "NewBarCache = []"

text \<open>\<open>INSERT OR IGNORE\<close>: the first bar of a symbol and time stays.\<close>

definition insert_bar :: "bar \<Rightarrow> bar_cache \<Rightarrow> bar_cache" where
  "insert_bar b t =
     (if list_ex (\<lambda>r. cb_symbol r = b_Symbol b \<and> cb_timestamp r = b_Timestamp b) t then t
      else t @ [cache_row b])"

type_synonym bar_loader = "string \<Rightarrow> int \<Rightarrow> bar list option"

text \<open>
  A symbol that fails to load is skipped; \<open>stop k\<close> is what the context answers when it is
  asked the \<open>k\<close>th time, and a cancelled load is rolled back.
\<close>

fun bulk_load :: "bar_loader \<Rightarrow> (nat \<Rightarrow> bool) \<Rightarrow> int \<Rightarrow> nat \<Rightarrow> string list \<Rightarrow> bar_cache \<Rightarrow> bar_cache option" where
  "bulk_load load stop since k [] t = Some t"
| "bulk_load load stop since k (s # ss) t =
     (if stop k then None
      else bulk_load load stop since (Suc k) ss (case load s since of None \<Rightarrow> t | Some bars \<Rightarrow> fold insert_bar bars t))"

definition BulkLoad ::
    "bar_loader \<Rightarrow> (nat \<Rightarrow> bool) \<Rightarrow> string list \<Rightarrow> int \<Rightarrow> int \<Rightarrow> bar_cache \<Rightarrow> bar_cache option" where
  "BulkLoad load stop symbols startDate lookbackDays t =
     bulk_load load stop (startDate - 86400 * lookbackDays) 0 symbols t"

section \<open>Queries\<close>

definition read_bar :: "cached_bar \<Rightarrow> bar option" where
  "read_bar r = (case (cb_open r, cb_high r, cb_low r, cb_close r) of
     (Some op, Some hi, Some lo, Some cl) \<Rightarrow> Some \<lparr>b_Symbol = cb_symbol r, b_Timestamp = cb_timestamp r, b_Open = op,
       b_High = hi, b_Low = lo, b_Close = cl, b_Volume = cb_volume r, b_VWAP = lit 0, b_Source = ''''\<rparr>
   | _ \<Rightarrow> None)"

text \<open>\<open>None\<close> is the error of reading a NULL.\<close>

definition GetBarsForSymbol :: "string \<Rightarrow> int \<Rightarrow> bar_cache \<Rightarrow> bar list option" where
  "GetBarsForSymbol s upTo t =
     those (map read_bar (sort_key cb_timestamp (filter (\<lambda>r. cb_symbol r = s \<and> cb_timestamp r \<le> upTo) t)))"

definition sql_product :: "cached_bar \<Rightarrow> float64 option" where
  "sql_product r = (case cb_close r of None \<Rightarrow> None | Some c \<Rightarrow> sql_real (fmul c (of_int64 (cb_volume r))))"

text \<open>\<open>MAX\<close> leaves out NULLs, and is NULL when nothing is left.\<close>

definition sql_max :: "float64 option list \<Rightarrow> float64 option" where
  "sql_max vs = foldl (\<lambda>m v. case (m, v) of
     (None, v) \<Rightarrow> v | (m, None) \<Rightarrow> m | (Some a, Some b) \<Rightarrow> if flt a b then Some b else Some a) None vs"

definition GetQualifyingSymbols :: "int \<Rightarrow> float64 \<Rightarrow> bar_cache \<Rightarrow> string list" where
  "GetQualifyingSymbols upTo minDollarVol t =
     (let rows = filter (\<lambda>r. cb_timestamp r \<le> upTo) t
      in filter (\<lambda>s. case sql_max (map sql_product (filter (\<lambda>r. cb_symbol r = s) rows)) of
                   None \<Rightarrow> False | Some m \<Rightarrow> fle minDollarVol m)
           (sort_stable text_less (remdups (map cb_symbol rows))))"

section \<open>A snapshot from the cache\<close>

definition scan_cached ::
    "(float64 \<Rightarrow> float64) \<Rightarrow> int \<Rightarrow> bar_cache \<Rightarrow> snapshot_row list \<times> nat \<times> int \<Rightarrow> string \<Rightarrow>
     snapshot_row list \<times> nat \<times> int" where
  "scan_cached ln64 day t acc s = (case acc of (rows, n, maxTs) \<Rightarrow>
     (case GetBarsForSymbol s day t of
        None \<Rightarrow> (rows, n + 1, maxTs)
      | Some bars \<Rightarrow>
          if bars = [] then (rows, n + 1, maxTs)
          else let ts = b_Timestamp (last bars); maxTs = (if ts > maxTs then ts else maxTs)
               in (case Build ln64 s bars of
                     Row r \<Rightarrow> (rows @ [r], n + 1, maxTs) | _ \<Rightarrow> (rows, n + 1, maxTs))))"

definition UniverseFromCache ::
    "(float64 \<Rightarrow> float64) \<Rightarrow> int \<Rightarrow> bar_cache \<Rightarrow> int \<Rightarrow> float64 \<Rightarrow> scan_result" where
  "UniverseFromCache ln64 now t day minDollarVol =
     (case foldl (scan_cached ln64 day t) ([], 0, 0) (GetQualifyingSymbols day minDollarVol t) of
        (rows, n, maxTs) \<Rightarrow> \<lparr>sc_Rows = rows, sc_Scanned = n, sc_Day = (if maxTs > 0 then maxTs else now)\<rparr>)"

section \<open>Only the past counts\<close>

definition past :: "int \<Rightarrow> bar_cache \<Rightarrow> bar_cache" where
  "past day t = filter (\<lambda>r. cb_timestamp r \<le> day) t"

lemma GetBars_past: "GetBarsForSymbol s day (past day t) = GetBarsForSymbol s day t"
  by (simp add: GetBarsForSymbol_def past_def) (metis (mono_tags, lifting) filter_cong)

lemma Qualifying_past: "GetQualifyingSymbols day m (past day t) = GetQualifyingSymbols day m t"
  by (simp add: GetQualifyingSymbols_def past_def)

lemma Universe_past: "UniverseFromCache ln64 now (past day t) day m = UniverseFromCache ln64 now t day m"
proof -
  have "scan_cached ln64 day (past day t) = scan_cached ln64 day t"
    by (intro ext) (simp add: scan_cached_def GetBars_past)
  then show ?thesis by (simp add: UniverseFromCache_def Qualifying_past)
qed

lemma past_insert:
  "past day (insert_bar b t) = (if b_Timestamp b \<le> day then insert_bar b (past day t) else past day t)"
proof -
  have "list_ex (\<lambda>r. cb_symbol r = b_Symbol b \<and> cb_timestamp r = b_Timestamp b) (past day t) \<longleftrightarrow>
      list_ex (\<lambda>r. cb_symbol r = b_Symbol b \<and> cb_timestamp r = b_Timestamp b) t" if "b_Timestamp b \<le> day"
    using that by (auto simp: past_def list_ex_iff)
  then show ?thesis by (simp add: insert_bar_def past_def cache_row_def)
qed

lemma past_insert_all:
  "past day (fold insert_bar bars t) = fold insert_bar (filter (\<lambda>b. b_Timestamp b \<le> day) bars) (past day t)"
  by (induction bars arbitrary: t) (simp_all add: past_insert)

definition agree_until :: "int \<Rightarrow> bar_loader \<Rightarrow> bar_loader \<Rightarrow> bool" where
  "agree_until day load load' \<longleftrightarrow> (\<forall>s since.
     map_option (filter (\<lambda>b. b_Timestamp b \<le> day)) (load s since) =
     map_option (filter (\<lambda>b. b_Timestamp b \<le> day)) (load' s since))"

lemma past_bulk_load:
  assumes "agree_until day load load'" "past day t = past day t'"
  shows "map_option (past day) (bulk_load load stop since k symbols t) =
    map_option (past day) (bulk_load load' stop since k symbols t')"
  using assms(2)
proof (induction symbols arbitrary: k t t')
  case (Cons s symbols)
  have e: "map_option (filter (\<lambda>b. b_Timestamp b \<le> day)) (load s since) =
      map_option (filter (\<lambda>b. b_Timestamp b \<le> day)) (load' s since)"
    using assms(1) by (simp add: agree_until_def)
  have "past day (case load s since of None \<Rightarrow> t | Some bars \<Rightarrow> fold insert_bar bars t) =
      past day (case load' s since of None \<Rightarrow> t' | Some bars \<Rightarrow> fold insert_bar bars t')"
    using e Cons.prems by (auto simp: past_insert_all split: option.splits)
  then show ?case using Cons.IH by simp
qed simp

section \<open>Who qualifies\<close>

lemma foldl_max_ge:
  assumes "\<forall>v \<in> set vs. \<forall>x. v = Some x \<longrightarrow> \<not> isnan x" "\<forall>x. m = Some x \<longrightarrow> \<not> isnan x" "\<not> isnan lo"
  shows "(case foldl (\<lambda>m v. case (m, v) of
      (None, v) \<Rightarrow> v | (m, None) \<Rightarrow> m | (Some a, Some b) \<Rightarrow> if flt a b then Some b else Some a) m vs of
    None \<Rightarrow> False | Some x \<Rightarrow> fle lo x) \<longleftrightarrow> (\<exists>x. Some x \<in> insert m (set vs) \<and> fle lo x)"
  using assms(1,2)
proof (induction vs arbitrary: m)
  case Nil
  then show ?case by (cases m) auto
next
  case (Cons v vs)
  let ?m = "case (m, v) of (None, v) \<Rightarrow> v | (m, None) \<Rightarrow> m | (Some a, Some b) \<Rightarrow> if flt a b then Some b else Some a"
  have ok: "\<forall>x. ?m = Some x \<longrightarrow> \<not> isnan x" using Cons.prems by (auto split: option.splits if_splits)
  have "(\<exists>x. Some x \<in> {?m} \<and> fle lo x) \<longleftrightarrow> (\<exists>x. Some x \<in> {m, v} \<and> fle lo x)"
    using Cons.prems assms(3) by (auto simp: flt_def fle_def feq_def split: option.splits if_splits)
  with Cons.IH [OF _ ok] Cons.prems(1) show ?case by auto
qed

lemma sql_product_ok: "sql_product r = Some p \<Longrightarrow> \<not> isnan p"
  by (auto simp: sql_product_def sql_real_def split: option.splits if_splits)

lemma qualifies_iff:
  assumes "\<not> isnan lo"
  shows "s \<in> set (GetQualifyingSymbols day lo t) \<longleftrightarrow>
    (\<exists>r \<in> set t. cb_symbol r = s \<and> cb_timestamp r \<le> day \<and> (\<exists>p. sql_product r = Some p \<and> fle lo p))"
proof -
  let ?rs = "filter (\<lambda>r. cb_symbol r = s) (filter (\<lambda>r. cb_timestamp r \<le> day) t)"
  have "(case sql_max (map sql_product ?rs) of None \<Rightarrow> False | Some m \<Rightarrow> fle lo m) \<longleftrightarrow>
      (\<exists>x. Some x \<in> insert None (set (map sql_product ?rs)) \<and> fle lo x)"
    unfolding sql_max_def by (rule foldl_max_ge) (use sql_product_ok assms in auto)
  also have "\<dots> \<longleftrightarrow> (\<exists>r \<in> set t. cb_symbol r = s \<and> cb_timestamp r \<le> day \<and> (\<exists>p. sql_product r = Some p \<and> fle lo p))"
    by (auto simp: image_iff) metis+
  finally show ?thesis
    by (auto simp: GetQualifyingSymbols_def Let_def)
qed

text \<open>
  A symbol that was liquid once stays. \<open>GetQualifyingSymbols\<close> is documented to use
  the latest bar of each symbol; it takes the maximum over all the bars up to the day, so
  a symbol qualifies exactly if the dollar volume of any one of them ever reached the
  floor, however illiquid it is on the day itself.
\<close>

theorem qualifies_if_ever_liquid:
  assumes "\<not> isnan lo"
  shows "s \<in> set (GetQualifyingSymbols day lo t) \<longleftrightarrow>
    (\<exists>r \<in> set t. cb_symbol r = s \<and> cb_timestamp r \<le> day \<and>
       (\<exists>c p. cb_close r = Some c \<and> p = fmul c (of_int64 (cb_volume r)) \<and> \<not> isnan p \<and> fle lo p))"
  unfolding qualifies_iff [OF assms] sql_product_def sql_real_def by (auto split: option.splits)

definition faded :: bar_cache where
  "faded = [\<lparr>cb_symbol = ''OLD'', cb_timestamp = 0, cb_open = Some (lit 1), cb_high = Some (lit 1), cb_low = Some (lit 1),
       cb_close = Some (lit 1), cb_volume = 1\<rparr>,
     \<lparr>cb_symbol = ''OLD'', cb_timestamp = 86400, cb_open = Some (lit 1), cb_high = Some (lit 1), cb_low = Some (lit 1),
       cb_close = Some (lit 1), cb_volume = 0\<rparr>]"

lemma one_times_one: "fmul (lit 1) (of_int64 1) = lit 1" "\<not> isnan (lit 1)" "fle (lit 1) (lit 1)"
  by code_simp+

theorem qualifies_if_ever_liquid_witness:
  "''OLD'' \<in> set (GetQualifyingSymbols 86400 (lit 1) faded)"
proof -
  have "\<exists>r \<in> set faded. cb_symbol r = ''OLD'' \<and> cb_timestamp r \<le> 86400 \<and>
      (\<exists>c p. cb_close r = Some c \<and> p = fmul c (of_int64 (cb_volume r)) \<and> \<not> isnan p \<and> fle (lit 1) p)"
    using one_times_one by (simp add: faded_def)
  then show ?thesis using qualifies_if_ever_liquid [OF one_times_one(2)] by blast
qed

end
