(* ===== verification/Scan_Pool_Laws.thy ===== *)
theory Scan_Pool_Laws
  imports Scan_Pool
begin

text \<open>
  The pool computes what the plain loop computes. Whatever the schedule, nothing is
  lost, duplicated or reordered in the result: an uncancelled run ends with the result
  of the sequential scan, a cancelled one with part of it.
\<close>

section \<open>Conservation\<close>

definition found :: "(string \<Rightarrow> scan_item option) \<Rightarrow> string \<Rightarrow> scan_item list" where
  "found f s = (case f s of None \<Rightarrow> [] | Some it \<Rightarrow> [it])"

primrec pending :: "(string \<Rightarrow> scan_item option) \<Rightarrow> worker \<Rightarrow> scan_item list" where
  "pending f Idle = []"
| "pending f (Took s) = found f s"
| "pending f (Loading s) = found f s"
| "pending f (Holding it) = [it]"
| "pending f Gone = []"

text \<open>The items collected, under way, or still to come.\<close>

definition outstanding :: "(string \<Rightarrow> scan_item option) \<Rightarrow> pool \<Rightarrow> scan_item multiset" where
  "outstanding f p = mset (p_got p) + mset (p_chan p) + mset (concat (map (pending f) (p_workers p))) +
     mset (concat (map (found f) (p_feed p)))"

lemma pending_update:
  "i < length ws \<Longrightarrow> mset (concat (map (pending f) (ws[i := w]))) + mset (pending f (ws ! i)) =
     mset (concat (map (pending f) ws)) + mset (pending f w)"
proof (induction ws arbitrary: i)
  case (Cons v ws)
  show ?case
  proof (cases i)
    case (Suc j)
    then show ?thesis using Cons.IH [of j] Cons.prems by (simp add: ac_simps)
  qed (simp add: ac_simps)
qed simp

lemma pool_conserves:
  assumes "pool_step f p q"
  shows "outstanding f q \<subseteq># outstanding f p" "\<not> p_cancelled q \<Longrightarrow> outstanding f q = outstanding f p"
proof -
  have u: "mset (concat (map (pending f) ((p_workers p)[i := w]))) + mset (pending f v) =
      mset (concat (map (pending f) (p_workers p))) + mset (pending f w)"
    if "i < length (p_workers p)" "p_workers p ! i = v" for i v w
    using pending_update [OF that(1), of f w] that(2) by simp
  have both: "outstanding f q \<subseteq># outstanding f p \<and> (\<not> p_cancelled q \<longrightarrow> outstanding f q = outstanding f p)"
    using assms
  proof cases
    case (feed s rest i)
    with u [OF feed(4,5), of "Took s"] show ?thesis by (simp add: outstanding_def ac_simps)
  next
    case (no_more i)
    with u [OF no_more(2,3), of Gone] show ?thesis by (simp add: outstanding_def)
  next
    case (give_up i s)
    have "mset (concat (map (pending f) ((p_workers p)[i := Gone]))) \<subseteq># mset (concat (map (pending f) (p_workers p)))"
      using u [OF give_up(2,3), of Gone] by (metis mset_subset_eq_add_left pending.simps(5) mset.simps(1) add.right_neutral)
    then show ?thesis using give_up by (simp add: outstanding_def)
  next
    case (start i s)
    with u [OF start(2,3), of "Loading s"] show ?thesis by (simp add: outstanding_def)
  next
    case (loaded i s it)
    with u [OF loaded(2,3), of "Holding it"] show ?thesis by (simp add: outstanding_def found_def)
  next
    case (skipped i s)
    have "mset (concat (map (pending f) ((p_workers p)[i := Idle]))) \<subseteq># mset (concat (map (pending f) (p_workers p)))"
      using u [OF skipped(2,3), of Idle] by (metis mset_subset_eq_add_left pending.simps(1) mset.simps(1) add.right_neutral)
    with u [OF skipped(2,3), of Idle] skipped show ?thesis by (auto simp: outstanding_def found_def)
  next
    case (send i it)
    with u [OF send(2,3), of Idle] show ?thesis by (simp add: outstanding_def ac_simps)
  qed (simp_all add: outstanding_def)
  then show "outstanding f q \<subseteq># outstanding f p" "\<not> p_cancelled q \<Longrightarrow> outstanding f q = outstanding f p" by blast+
qed

lemma stays_cancelled: "pool_step f p q \<Longrightarrow> p_cancelled p \<Longrightarrow> p_cancelled q"
  by (erule pool_stepE) auto

lemma run_conserves:
  assumes "(pool_step f)\<^sup>*\<^sup>* p q"
  shows "outstanding f q \<subseteq># outstanding f p \<and> (\<not> p_cancelled q \<longrightarrow> outstanding f q = outstanding f p)"
  using assms
proof (induction rule: rtranclp_induct)
  case (step q r)
  then show ?case
    using pool_conserves [OF step.hyps(2)] stays_cancelled [OF step.hyps(2)] subset_mset.order_trans by auto
qed simp

lemma map_filter_found: "concat (map (found f) xs) = List.map_filter f xs"
  by (induction xs) (simp_all add: found_def List.map_filter_def split: option.split)

lemma outstanding_start: "outstanding f (pool_start w symbols) = mset (List.map_filter f symbols)"
  by (simp add: outstanding_def pool_start_def map_filter_found)

lemma outstanding_done:
  assumes "pool_done p"
  shows "mset (p_got p) \<subseteq># outstanding f p" "p_feed p = [] \<Longrightarrow> outstanding f p = mset (p_got p)"
proof -
  have "concat (map (pending f) (p_workers p)) = []" using assms by (auto simp: pool_done_def)
  then show "mset (p_got p) \<subseteq># outstanding f p" "p_feed p = [] \<Longrightarrow> outstanding f p = mset (p_got p)"
    using assms by (simp_all add: outstanding_def pool_done_def)
qed

text \<open>Without a cancellation the feeder only stops at the end of the symbols.\<close>

lemma fed_all:
  assumes "(pool_step f)\<^sup>*\<^sup>* (pool_start w symbols) p"
  shows "p_closed p \<longrightarrow> p_feed p = [] \<or> p_cancelled p"
  using assms
proof (induction rule: rtranclp_induct)
  case (step p q)
  from step.hyps(2) step.IH show ?case by cases auto
qed (simp add: pool_start_def)

section \<open>The result does not depend on the order\<close>

lemma sorted_same:
  assumes "mset xs = mset ys" "sorted_wrt R xs" "sorted_wrt R ys"
    and "\<And>x y. x \<in> set xs \<Longrightarrow> y \<in> set xs \<Longrightarrow> R x y \<Longrightarrow> R y x \<Longrightarrow> x = y"
  shows "xs = ys"
  using assms
proof (induction xs arbitrary: ys)
  case (Cons x xs)
  then obtain y zs where ys: "ys = y # zs" by (cases ys) auto
  have sets: "insert x (set xs) = insert y (set zs)" using mset_eq_setD [OF Cons.prems(1)] by (simp add: ys)
  have "x = y"
  proof (rule ccontr)
    assume "x \<noteq> y"
    with sets have "y \<in> set xs" "x \<in> set zs" by auto
    with Cons.prems(2,3) have "R x y" "R y x" by (simp_all add: ys)
    with Cons.prems(4) [of x y] \<open>y \<in> set xs\<close> \<open>x \<noteq> y\<close> show False by simp
  qed
  with Cons show ?case by (simp add: ys)
qed simp

interpretation symbol_order: strict_weak UNIV by_symbol
  by unfold_locales (auto simp: by_symbol_def intro: text_less_trans dest: text_less_asym text_less_linear)

lemma sort_by_symbol_mset:
  assumes "mset xs = mset ys" "\<And>a b. a \<in> set xs \<Longrightarrow> b \<in> set xs \<Longrightarrow> r_Symbol a = r_Symbol b \<Longrightarrow> a = b"
  shows "sort_stable by_symbol xs = sort_stable by_symbol ys"
proof (rule sorted_same)
  show "mset (sort_stable by_symbol xs) = mset (sort_stable by_symbol ys)" using assms(1) by simp
  show "a = b" if "a \<in> set (sort_stable by_symbol xs)" "b \<in> set (sort_stable by_symbol xs)"
    "\<not> by_symbol b a" "\<not> by_symbol a b" for a b
    using that assms(2) text_less_linear by (auto simp: by_symbol_def)
qed (rule symbol_order.sort_sorted, simp)+

lemma collect_fold:
  "foldl collect_one (rows, n, m) items =
     (rows @ List.map_filter it_row items, n + length items, foldl max m (map it_ts items))"
proof (induction items arbitrary: rows n m)
  case (Cons it items)
  have "(if it_ts it > m then it_ts it else m) = max m (it_ts it)" by simp
  with Cons show ?case
    by (simp add: collect_one_def List.map_filter_def split: option.split)
qed simp

lemma collected_mset:
  assumes "mset xs = mset ys"
    and "\<And>a b. a \<in> set (List.map_filter it_row xs) \<Longrightarrow> b \<in> set (List.map_filter it_row xs) \<Longrightarrow> r_Symbol a = r_Symbol b \<Longrightarrow> a = b"
  shows "collected now xs = collected now ys"
proof -
  have image: "mset (List.map_filter it_row zs) = image_mset (the \<circ> it_row) (filter_mset (\<lambda>it. it_row it \<noteq> None) (mset zs))" for zs
    by (induction zs) (auto simp: List.map_filter_def)
  have "mset (List.map_filter it_row xs) = mset (List.map_filter it_row ys)"
    unfolding image assms(1) by (rule refl)
  from sort_by_symbol_mset [OF this assms(2)]
  have rows: "sort_stable by_symbol (List.map_filter it_row xs) = sort_stable by_symbol (List.map_filter it_row ys)" .
  have "foldl max m (map it_ts zs) = Max (insert m (it_ts ` set zs))" for m and zs :: "scan_item list"
  proof (induction zs arbitrary: m)
    case (Cons z zs)
    have "Max (insert m (insert (it_ts z) (it_ts ` set zs))) = Max (insert (max m (it_ts z)) (it_ts ` set zs))"
      by (cases "set zs = {}") (simp_all add: max.assoc)
    with Cons show ?case by simp
  qed simp
  then have "foldl max 0 (map it_ts xs) = foldl max 0 (map it_ts ys)" using mset_eq_setD [OF assms(1)] by simp
  moreover have "length xs = length ys" using assms(1) by (rule mset_eq_length)
  ultimately show ?thesis using rows by (simp add: collected_def collect_fold)
qed

section \<open>The pool and the loop\<close>

lemma Build_symbol: "Build ln64 tick bars = Row r \<Longrightarrow> r_Symbol r = tick"
  unfolding Build_def Let_def split_beta by (auto split: if_splits option.splits)

lemma scan_symbol_row:
  "scan_symbol ln64 m load s = Some it \<Longrightarrow> it_row it = Some r \<Longrightarrow>
     r_Symbol r = s \<and> (\<exists>bars. load s = Some bars \<and> Build ln64 s bars = Row r)"
  by (auto simp: scan_symbol_def dest: Build_symbol split: option.splits if_splits build_result.splits)

lemma rows_by_symbol:
  assumes "a \<in> set (List.map_filter it_row (List.map_filter (scan_symbol ln64 m load) symbols))"
    and "b \<in> set (List.map_filter it_row (List.map_filter (scan_symbol ln64 m load) symbols))"
    and "r_Symbol a = r_Symbol b"
  shows "a = b"
proof -
  have "\<exists>bars. load (r_Symbol r) = Some bars \<and> Build ln64 (r_Symbol r) bars = Row r"
    if "r \<in> set (List.map_filter it_row (List.map_filter (scan_symbol ln64 m load) symbols))" for r
    using that scan_symbol_row [of ln64 m load] by (fastforce simp: List.map_filter_def)
  from this [OF assms(1)] this [OF assms(2)] assms(3) show ?thesis by auto
qed

text \<open>
  C6: the concurrent scan computes what the sequential one does. However the scheduler
  interleaves the feeder, the workers and the collector, when an uncancelled scan is done
  its rows, its count and its day are those of loading the symbols one after the other;
  and a scan that was cancelled has collected a part of the items of that loop, none of
  them twice.
\<close>

theorem concurrent_scan_is_sequential:
  assumes "(pool_step (scan_symbol ln64 m load))\<^sup>*\<^sup>* (pool_start w symbols) p" and "pool_done p"
  shows "mset (p_got p) \<subseteq># mset (List.map_filter (scan_symbol ln64 m load) symbols) \<and>
    (\<not> p_cancelled p \<longrightarrow> collected now (p_got p) = scan_in_order ln64 m load now symbols)"
proof -
  let ?f = "scan_symbol ln64 m load"
  note all = run_conserves [OF assms(1), unfolded outstanding_start]
  have "mset (p_got p) \<subseteq># mset (List.map_filter ?f symbols)"
    using all outstanding_done(1) [OF assms(2)] subset_mset.order_trans by blast
  moreover have "collected now (p_got p) = scan_in_order ln64 m load now symbols" if "\<not> p_cancelled p"
  proof -
    have "p_feed p = []" using fed_all [OF assms(1)] assms(2) that by (simp add: pool_done_def)
    then have "mset (List.map_filter ?f symbols) = mset (p_got p)"
      using all that outstanding_done(2) [OF assms(2)] by metis
    from collected_mset [OF this rows_by_symbol] show ?thesis by (simp add: scan_in_order_def)
  qed
  ultimately show ?thesis by blast
qed

text \<open>
  C17: the concurrent scan ends. With at least one worker, from every state a scan can get
  into some schedule leads to the end, no schedule gets stuck before the end, and none
  goes on for ever, cancelled or not.
\<close>

theorem concurrent_scan_ends:
  assumes "0 < w" and "(pool_step f)\<^sup>*\<^sup>* (pool_start w symbols) p"
  shows "(\<exists>q. (pool_step f)\<^sup>*\<^sup>* p q \<and> pool_done q) \<and> ((\<nexists>q. pool_step f p q) \<longrightarrow> pool_done p) \<and>
    (\<nexists>run. run 0 = p \<and> (\<forall>n. pool_step f (run n) (run (Suc n))))"
proof -
  have "pool_inv (pool_start w symbols)" using assms(1) by (simp add: pool_inv_def pool_start_def)
  from pool.keeps_all [OF assms(2) this] have "pool_inv p" .
  then show ?thesis using pool.ends pool.enabled pool.no_infinite_run by metis
qed

lemma workers_positive: "0 < ncpu \<Longrightarrow> 0 < workers_of opts ncpu n"
  by (simp add: workers_of_def Let_def)

section \<open>A run\<close>

lemma one_symbol_run:
  assumes "f s = Some it"
  shows "(pool_step f)\<^sup>*\<^sup>* (pool_start 1 [s])
    \<lparr>p_feed = [], p_closed = True, p_workers = [Gone], p_chan = [], p_got = [it], p_cancelled = False\<rparr>"
proof -
  let ?p = "\<lambda>w feed closed chan got. \<lparr>p_feed = feed, p_closed = closed, p_workers = [w], p_chan = chan, p_got = got,
     p_cancelled = False\<rparr>"
  note then_step = converse_rtranclp_into_rtranclp [where r = "pool_step f"]
  have 1: "pool_step f (pool_start 1 [s]) (?p (Took s) [] False [] [])"
    using pool_step.feed [of "?p Idle [s] False [] []" s "[]" 0 f] by (simp add: pool_start_def)
  have 2: "pool_step f (?p (Took s) [] False [] []) (?p (Loading s) [] False [] [])"
    using pool_step.start [of 0 "?p (Took s) [] False [] []" s f] by simp
  have 3: "pool_step f (?p (Loading s) [] False [] []) (?p (Holding it) [] False [] [])"
    using pool_step.loaded [of 0 "?p (Loading s) [] False [] []" s f it] assms by simp
  have 4: "pool_step f (?p (Holding it) [] False [] []) (?p Idle [] False [it] [])"
    using pool_step.send [of 0 "?p (Holding it) [] False [] []" it f] by simp
  have 5: "pool_step f (?p Idle [] False [it] []) (?p Idle [] False [] [it])"
    using pool_step.receive [of "?p Idle [] False [it] []" it "[]" f] by simp
  have 6: "pool_step f (?p Idle [] False [] [it]) (?p Idle [] True [] [it])"
    using pool_step.fed [of "?p Idle [] False [] [it]" f] by simp
  have 7: "pool_step f (?p Idle [] True [] [it]) (?p Gone [] True [] [it])"
    using pool_step.no_more [of 0 "?p Idle [] True [] [it]" f] by simp
  show ?thesis
    by (rule then_step, rule 1, rule then_step, rule 2, rule then_step, rule 3, rule then_step, rule 4,
        rule then_step, rule 5, rule then_step, rule 6, rule then_step, rule 7, rule rtranclp.rtrancl_refl)
qed

definition lone_bar :: bar where
  "lone_bar = \<lparr>b_Symbol = ''A'', b_Timestamp = 86400, b_Open = lit 1, b_High = lit 1, b_Low = lit 1, b_Close = lit 1,
     b_Volume = 5, b_VWAP = lit 1, b_Source = ''''\<rparr>"

definition lone_loader :: loader where
  "lone_loader s = (if s = ''A'' then Some [lone_bar] else None)"

theorem concurrent_scan_is_sequential_witness:
  "collected 0 [the (scan_symbol (\<lambda>x. x) (lit 0) lone_loader ''A'')] =
     scan_in_order (\<lambda>x. x) (lit 0) lone_loader 0 [''A'']"
proof -
  obtain it where "scan_symbol (\<lambda>x. x) (lit 0) lone_loader ''A'' = Some it"
    by (simp add: scan_symbol_def lone_loader_def)
  with concurrent_scan_is_sequential [OF one_symbol_run [of "scan_symbol (\<lambda>x. x) (lit 0) lone_loader" "''A''"], of it 0]
  show ?thesis by (simp add: pool_done_def)
qed

theorem concurrent_scan_ends_witness:
  "\<exists>q. (pool_step (\<lambda>s. None))\<^sup>*\<^sup>* (pool_start 2 [''A'', ''B'', ''C'']) q \<and> pool_done q"
  using concurrent_scan_ends [of 2 "\<lambda>s. None" "[''A'', ''B'', ''C'']" "pool_start 2 [''A'', ''B'', ''C'']"] by simp

end
