(* ===== verification/Backfill.thy ===== *)
theory Backfill
  imports Bar_Cache Scan_Pool_Laws Snapshot_Laws Passwords
begin

text \<open>
  \<open>internal/scan/scan.go\<close>, \<open>BackfillSnapshots\<close>: the snapshots of past days, made from
  the cached bars day by day and written to the snapshot store in one batch. The
  context, the clock, the loader of bars and the latest date of the warehouse are
  arguments; logging is left out.
\<close>

section \<open>Dates\<close>

definition is_leap :: "int \<Rightarrow> bool" where
  "is_leap y \<longleftrightarrow> y mod 4 = 0 \<and> (y mod 100 \<noteq> 0 \<or> y mod 400 = 0)"

definition days_in :: "int \<Rightarrow> int \<Rightarrow> int" where
  "days_in y m = (if m = 2 then if is_leap y then 29 else 28 else if m \<in> {4, 6, 9, 11} then 30 else 31)"

text \<open>Days from the first of January of year 1 to a date, in the Gregorian calendar.\<close>

definition day_number :: "int \<Rightarrow> int \<Rightarrow> int \<Rightarrow> int" where
  "day_number y m d = 365 * (y - 1) + (y - 1) div 4 - (y - 1) div 100 + (y - 1) div 400 +
     sum_list (map (days_in y) [1..m - 1]) + d - 1"

text \<open>\<open>time.Parse("2006-01-02", s)\<close> in Unix seconds.\<close>

definition parse_day :: "string \<Rightarrow> int option" where
  "parse_day s =
     (if length s = 10 \<and> s ! 4 = CHR ''-'' \<and> s ! 7 = CHR ''-''
      then case (digits_val (take 4 s), digits_val (take 2 (drop 5 s)), digits_val (drop 8 s)) of
          (Some y, Some m, Some d) \<Rightarrow>
            if 1 \<le> m \<and> m \<le> 12 \<and> 1 \<le> d \<and> int d \<le> days_in (int y) (int m)
            then Some (86400 * (day_number (int y) (int m) (int d) - 719162)) else None
        | _ \<Rightarrow> None
      else None)"

text \<open>0 is Sunday.\<close>

definition weekday :: "int \<Rightarrow> int" where
  "weekday t = (t div 86400 + 4) mod 7"

definition midnight :: "int \<Rightarrow> int" where
  "midnight t = 86400 * (t div 86400)"

text \<open>
  \<open>int(e.Sub(s).Hours() / 24)\<close>: \<open>Sub\<close> saturates, the conversion cuts off. The floating
  point division is exact enough for whole seconds.
\<close>

definition whole_days :: "int \<Rightarrow> int \<Rightarrow> int" where
  "whole_days e s =
     (let ns = max (- (2 ^ 63)) (min (2 ^ 63 - 1) ((e - s) * 1000000000)); day = 86400 * 1000000000
      in if ns < 0 then - ((- ns) div day) else ns div day)"

section \<open>The days of a backfill\<close>

record backfill_opts =
  bo_Days :: int
  bo_KeepDays :: int
  bo_MinDollarVol :: float64
  bo_SkipExisting :: bool
  bo_EndDate :: string
  bo_StartDate :: string

definition snapshot_days :: "int \<Rightarrow> int \<Rightarrow> int list" where
  "snapshot_days startDate endDate =
     map (\<lambda>k. endDate - 86400 * int k) (rev [0..<nat (whole_days endDate startDate + 1)])"

definition backfill_day ::
    "(float64 \<Rightarrow> float64) \<Rightarrow> int \<Rightarrow> bar_cache \<Rightarrow> backfill_opts \<Rightarrow> snap_db \<Rightarrow> int \<Rightarrow> snapshot_batch option" where
  "backfill_day ln64 now t opts s day =
     (if weekday day = 6 \<or> weekday day = 0 then None
      else if bo_SkipExisting opts \<and> HasSnapshot (midnight day) s = Inr True then None
      else let res = UniverseFromCache ln64 now t day (bo_MinDollarVol opts)
           in if sc_Rows res = [] then None
              else Some \<lparr>sb_Rows = sc_Rows res, sb_BarTs = sc_Day res, sb_SnapshotDate = midnight day\<rparr>)"

text \<open>The flag tells whether the context was cancelled on the way.\<close>

fun backfill_loop ::
    "(int \<Rightarrow> snapshot_batch option) \<Rightarrow> (nat \<Rightarrow> bool) \<Rightarrow> nat \<Rightarrow> int list \<Rightarrow> snapshot_batch list \<Rightarrow>
     snapshot_batch list \<times> bool" where
  "backfill_loop f stop k [] bs = (bs, False)"
| "backfill_loop f stop k (d # ds) bs =
     (if stop k then (bs, True)
      else backfill_loop f stop (Suc k) ds (case f d of None \<Rightarrow> bs | Some b \<Rightarrow> bs @ [b]))"

datatype backfill_error = NoLatestDate | BadEndDate | BadStartDate | LoadCancelled | LoopCancelled

definition date_range :: "int \<Rightarrow> backfill_opts \<Rightarrow> (backfill_error, int \<times> int) result" where
  "date_range latest opts =
     bind_res (if bo_EndDate opts \<noteq> '''' then
                 (case parse_day (bo_EndDate opts) of None \<Rightarrow> Inl BadEndDate | Some e \<Rightarrow> Inr e)
               else Inr latest) (\<lambda>e.
     bind_res (if bo_StartDate opts \<noteq> '''' then
                 (case parse_day (bo_StartDate opts) of None \<Rightarrow> Inl BadStartDate | Some b \<Rightarrow> Inr b)
               else Inr (e + 86400 * (1 - bo_Days opts))) (\<lambda>b. Inr (b, e)))"

text \<open>The days are counted as backfilled before anything is written.\<close>

definition BackfillSnapshots ::
    "(float64 \<Rightarrow> float64) \<Rightarrow> bar_loader \<Rightarrow> (nat \<Rightarrow> bool) \<Rightarrow> (nat \<Rightarrow> bool) \<Rightarrow> int \<Rightarrow> int option \<Rightarrow> string list \<Rightarrow>
     backfill_opts \<Rightarrow> snap_db \<Rightarrow> (nat \<times> backfill_error option) \<times> snap_db" where
  "BackfillSnapshots ln64 load stopLoad stop now latest symbols opts s =
     (if bo_Days opts \<le> 0 \<and> bo_StartDate opts = '''' then ((0, None), s)
      else case latest of
        None \<Rightarrow> ((0, Some NoLatestDate), s)
      | Some latestDate \<Rightarrow> (case date_range latestDate opts of
          Inl e \<Rightarrow> ((0, Some e), s)
        | Inr (startDate, endDate) \<Rightarrow> (case BulkLoad load stopLoad symbols startDate 400 NewBarCache of
            None \<Rightarrow> ((0, Some LoadCancelled), s)
          | Some t \<Rightarrow> (case backfill_loop (backfill_day ln64 now t opts s) stop 0 (snapshot_days startDate endDate) [] of
              (bs, cancelled) \<Rightarrow>
                if cancelled then ((length bs, Some LoopCancelled), s)
                else let s = (if bs \<noteq> [] then LoadHistoryBatch bs s else s);
                         s = (if bo_KeepDays opts > 0 \<and> \<not> bo_SkipExisting opts
                              then snd (Cleanup now (bo_KeepDays opts) s) else s)
                     in ((length bs, None), s)))))"

section \<open>Which days are filled\<close>

lemma backfill_loop_batches:
  "\<exists>ds'. fst (backfill_loop f stop k ds bs) = bs @ List.map_filter f ds' \<and>
     (\<exists>rest. ds = ds' @ rest) \<and> (\<not> snd (backfill_loop f stop k ds bs) \<longrightarrow> ds' = ds)"
proof (induction ds arbitrary: k bs)
  case (Cons d ds)
  show ?case
  proof (cases "stop k")
    case False
    let ?bs = "case f d of None \<Rightarrow> bs | Some b \<Rightarrow> bs @ [b]"
    obtain ds' where ds': "fst (backfill_loop f stop (Suc k) ds ?bs) = ?bs @ List.map_filter f ds'"
      "\<exists>rest. ds = ds' @ rest" "\<not> snd (backfill_loop f stop (Suc k) ds ?bs) \<longrightarrow> ds' = ds"
      using Cons.IH [of "Suc k" ?bs] by blast
    have "?bs @ List.map_filter f ds' = bs @ List.map_filter f (d # ds')"
      by (simp add: List.map_filter_def split: option.split)
    then show ?thesis using False ds' by (intro exI [of _ "d # ds'"]) simp
  next
    case True
    then show ?thesis by (intro exI [of _ "[]"]) (simp add: List.map_filter_def)
  qed
qed (simp add: List.map_filter_def)

lemma sorted_snapshot_days: "sorted_wrt (\<lambda>a b. a + 86400 \<le> b) (snapshot_days b e)"
  by (auto simp: snapshot_days_def sorted_wrt_map rev_map [symmetric] sorted_wrt_rev intro!: sorted_wrt_mono_rel [OF _ sorted_wrt_upt])

lemma whole_days_le: "s \<le> e \<Longrightarrow> 86400 * whole_days e s \<le> e - s"
proof -
  assume "s \<le> e"
  let ?ns = "(e - s) * 1000000000"
  have "0 \<le> ?ns" using \<open>s \<le> e\<close> by simp
  then have "max (- (2 ^ 63)) (min (2 ^ 63 - 1) ?ns) = min (2 ^ 63 - 1) ?ns" "\<not> min (2 ^ 63 - 1) ?ns < 0"
    by (simp_all add: min_def max_def)
  then have "whole_days e s = min (2 ^ 63 - 1) ?ns div (86400 * 1000000000)"
    unfolding whole_days_def Let_def by (simp only: if_False)
  also have "\<dots> \<le> ?ns div (86400 * 1000000000)" by (rule zdiv_mono1) simp_all
  also have "\<dots> = (e - s) div 86400" by simp
  finally have "whole_days e s \<le> (e - s) div 86400" .
  moreover have "86400 * ((e - s) div 86400) \<le> e - s" by simp
  ultimately show ?thesis by linarith
qed

lemma snapshot_day_range:
  assumes "d \<in> set (snapshot_days b e)"
  shows "d \<le> e" "b \<le> e \<Longrightarrow> b \<le> d"
proof -
  obtain k where k: "d = e - 86400 * int k" "k < nat (whole_days e b + 1)"
    using assms by (auto simp: snapshot_days_def)
  then show "d \<le> e" by simp
  assume "b \<le> e"
  from k(2) have "int k \<le> whole_days e b" by linarith
  with whole_days_le [OF \<open>b \<le> e\<close>] k(1) show "b \<le> d" by linarith
qed

lemma midnight_range: "midnight t \<le> t" "t < midnight t + 86400" "midnight t mod 86400 = 0" "weekday (midnight t) = weekday t"
proof -
  have "t mod 86400 = t - midnight t" by (simp add: midnight_def minus_mult_div_eq_mod)
  moreover have "0 \<le> t mod 86400" "t mod 86400 < 86400" by simp_all
  ultimately show "midnight t \<le> t" "t < midnight t + 86400" by linarith+
  show "midnight t mod 86400 = 0" "weekday (midnight t) = weekday t" by (simp_all add: midnight_def weekday_def)
qed

lemma midnight_step: "a + 86400 \<le> b \<Longrightarrow> midnight a < midnight b"
  using midnight_range(1) [of a] midnight_range(2) [of b] by linarith

lemma sorted_filtered:
  assumes "sorted_wrt P ds" "\<And>d d' x y. f d = Some x \<Longrightarrow> f d' = Some y \<Longrightarrow> P d d' \<Longrightarrow> Q x y"
  shows "sorted_wrt Q (List.map_filter f ds)"
  using assms(1)
proof (induction ds)
  case (Cons d ds)
  then show ?case using assms(2) by (fastforce simp: List.map_filter_def split: option.splits)
qed (simp add: List.map_filter_def)

lemma backfill_day_Some:
  assumes "backfill_day ln64 now t opts s d = Some b"
  shows "sb_SnapshotDate b = midnight d" "sb_Rows b \<noteq> []" "weekday d \<notin> {0, 6}"
    "bo_SkipExisting opts \<Longrightarrow> HasSnapshot (midnight d) s \<noteq> Inr True"
  using assms by (auto simp: backfill_day_def Let_def split: if_splits)

text \<open>
  A backfill fills trading days once. The snapshots it writes are in the order of
  their dates, no date twice; each is dated at midnight of a weekday between the start
  and the end of the range, and has rows; and with \<open>SkipExisting\<close> its date had no
  snapshot before.
\<close>

theorem backfill_fills_trading_days:
  assumes "startDate \<le> endDate"
    and "backfill_loop (backfill_day ln64 now t opts s) stop 0 (snapshot_days startDate endDate) [] = (bs, cancelled)"
  shows "sorted_wrt (\<lambda>a b. sb_SnapshotDate a < sb_SnapshotDate b) bs \<and>
    (\<forall>b \<in> set bs. sb_SnapshotDate b mod 86400 = 0 \<and> weekday (sb_SnapshotDate b) \<in> {1..5} \<and>
       startDate - 86400 < sb_SnapshotDate b \<and> sb_SnapshotDate b \<le> endDate \<and> sb_Rows b \<noteq> [] \<and>
       (bo_SkipExisting opts \<longrightarrow> HasSnapshot (sb_SnapshotDate b) s \<noteq> Inr True))"
proof -
  let ?f = "backfill_day ln64 now t opts s" and ?days = "snapshot_days startDate endDate"
  obtain ds rest where ds: "bs = List.map_filter ?f ds" "?days = ds @ rest"
    using backfill_loop_batches [of ?f stop 0 ?days "[]"] assms(2) by auto
  have "sorted_wrt (\<lambda>a b. a + 86400 \<le> b) ds"
    using sorted_snapshot_days [of startDate endDate] by (simp add: ds(2) sorted_wrt_append)
  then have "sorted_wrt (\<lambda>a b. sb_SnapshotDate a < sb_SnapshotDate b) bs"
    unfolding ds(1) by (rule sorted_filtered) (simp add: backfill_day_Some(1) midnight_step)
  moreover have "sb_SnapshotDate b mod 86400 = 0 \<and> weekday (sb_SnapshotDate b) \<in> {1..5} \<and>
       startDate - 86400 < sb_SnapshotDate b \<and> sb_SnapshotDate b \<le> endDate \<and> sb_Rows b \<noteq> [] \<and>
       (bo_SkipExisting opts \<longrightarrow> HasSnapshot (sb_SnapshotDate b) s \<noteq> Inr True)" if b: "b \<in> set bs" for b
  proof -
    obtain d where "d \<in> set ds" and f: "?f d = Some b" using b ds(1) by (auto simp: List.map_filter_def)
    then have d: "d \<in> set ?days" "?f d = Some b" by (simp_all add: ds(2))
    have "weekday d \<in> {0..6}" by (simp add: weekday_def)
    then have "weekday d \<in> {1..5}" using backfill_day_Some(3) [OF d(2)] by auto
    then show ?thesis
      using backfill_day_Some [OF d(2)] midnight_range [of d] snapshot_day_range(1) [OF d(1)]
        snapshot_day_range(2) [OF d(1) assms(1)] by auto
  qed
  ultimately show ?thesis by blast
qed

text \<open>
  C11: no snapshot looks ahead. The snapshot a backfill makes of a day does not depend
  on the bars after that day: with another loader that agrees on the bars up to the day,
  the cache gives the same snapshot, rows, count and time stamp.
\<close>

theorem backfill_no_lookahead:
  assumes "agree_until day load load'"
    and "BulkLoad load stop symbols startDate lookback NewBarCache = Some t"
    and "BulkLoad load' stop symbols startDate lookback NewBarCache = Some t'"
  shows "backfill_day ln64 now t opts s day = backfill_day ln64 now t' opts s day"
proof -
  have "map_option (past day) (Some t) = map_option (past day) (Some t')"
    using past_bulk_load [OF assms(1) refl, of stop "startDate - 86400 * lookback" 0 symbols NewBarCache]
    unfolding assms(2,3) [unfolded BulkLoad_def] .
  then have "past day t = past day t'" by simp
  then have "UniverseFromCache ln64 now t day m = UniverseFromCache ln64 now t' day m" for m
    using Universe_past by metis
  then show ?thesis by (simp add: backfill_day_def)
qed

text \<open>
  A backfill never corrects what is stored. Run again over days that have
  snapshots, with new bars and whether or not \<open>SkipExisting\<close> is set, it leaves every
  stored row as it is and only appends the missing ones, and a second run with the same
  result changes nothing; rows only go when old dates are cleaned up.
\<close>

theorem backfill_never_corrects:
  assumes "snap_ok s" "bo_KeepDays opts \<le> 0 \<or> bo_SkipExisting opts"
  shows "\<exists>new. rows_of (snd (BackfillSnapshots ln64 load stopLoad stop now latest symbols opts s)) = rows_of s @ new"
proof -
  have batch: "\<exists>new. rows_of (LoadHistoryBatch bs s) = rows_of s @ new" for bs
    using history_batch_incremental [OF assms(1), of bs] by blast
  have same: "\<exists>new. rows_of s = rows_of s @ new" by simp
  have "\<not> (bo_KeepDays opts > 0 \<and> \<not> bo_SkipExisting opts)" using assms(2) by auto
  then show ?thesis
    unfolding BackfillSnapshots_def Let_def if_not_P
    using batch same by (auto split: option.split sum.split prod.split)
qed

section \<open>One bar, one day\<close>

definition friday :: backfill_opts where
  "friday = \<lparr>bo_Days = 1, bo_KeepDays = 0, bo_MinDollarVol = lit 1, bo_SkipExisting = True, bo_EndDate = '''', bo_StartDate = ''''\<rparr>"

lemma lone_product: "fle (lit 1) (fmul (lit 1) (of_int64 5))" "\<not> isnan (fmul (lit 1) (of_int64 5))"
  by code_simp+

lemma lone_load:
  "BulkLoad (\<lambda>s since. lone_loader s) (\<lambda>k. False) [''A''] 86400 400 NewBarCache = Some [cache_row lone_bar]"
  by (simp add: BulkLoad_def NewBarCache_def lone_loader_def insert_bar_def)

lemma lone_batch:
  "\<exists>b. backfill_day ln64 now [cache_row lone_bar] friday (Open None) 86400 = Some b \<and> sb_SnapshotDate b = 86400"
proof -
  have real: "sql_real (lit 1) = Some (lit 1)" using one_times_one(2) by (simp add: sql_real_def)
  have real1: "sql_real (Fin 1) = Some (Fin 1)" by code_simp
  have "sql_product (cache_row lone_bar) = Some (fmul (lit 1) (of_int64 5))"
    using lone_product by (simp add: sql_product_def cache_row_def lone_bar_def real) (simp add: sql_real_def)
  then have q: "GetQualifyingSymbols 86400 (lit 1) [cache_row lone_bar] = [''A'']"
    using lone_product by (simp add: GetQualifyingSymbols_def Let_def sql_max_def) (simp add: cache_row_def lone_bar_def)
  obtain bar where g: "GetBarsForSymbol ''A'' 86400 [cache_row lone_bar] = Some [bar]"
    using real1 by (auto simp: GetBarsForSymbol_def cache_row_def lone_bar_def read_bar_def)
  obtain r where "Build ln64 ''A'' [bar] = Row r" using Build_total [of "[bar]" ln64 "''A''"] by blast
  then have "sc_Rows (UniverseFromCache ln64 now [cache_row lone_bar] 86400 (lit 1)) = [r]"
    unfolding UniverseFromCache_def q by (simp add: scan_cached_def g Let_def)
  moreover have "HasSnapshot 86400 (Open None) \<noteq> Inr True"
    by (simp add: HasSnapshot_def Open_def fresh_db_def ensureTable_def Let_def count_date_def)
  ultimately show ?thesis
    by (simp add: backfill_day_def friday_def weekday_def midnight_def Let_def del: lit_numeral)
qed

theorem backfill_fills_trading_days_witness:
  "\<exists>b. backfill_loop (backfill_day (\<lambda>x. x) 0 [cache_row lone_bar] friday (Open None)) (\<lambda>k. False) 0
     (snapshot_days 86400 86400) [] = ([b], False) \<and> weekday (sb_SnapshotDate b) \<in> {1..5}"
proof -
  have days: "snapshot_days 86400 86400 = [86400]" by (simp add: snapshot_days_def whole_days_def Let_def)
  obtain b where "backfill_day (\<lambda>x. x) 0 [cache_row lone_bar] friday (Open None) 86400 = Some b"
    using lone_batch by blast
  then have "backfill_loop (backfill_day (\<lambda>x. x) 0 [cache_row lone_bar] friday (Open None)) (\<lambda>k. False) 0
     (snapshot_days 86400 86400) [] = ([b], False)" by (simp add: days)
  with backfill_fills_trading_days [OF _ this] show ?thesis by auto
qed

theorem backfill_no_lookahead_witness:
  "backfill_day (\<lambda>x. x) 0 [cache_row lone_bar] friday (Open None) 86400 =
   backfill_day (\<lambda>x. x) 0 [cache_row lone_bar, cache_row (lone_bar\<lparr>b_Timestamp := 172800\<rparr>)] friday (Open None) 86400"
proof -
  let ?load = "\<lambda>s (since :: int). map_option (\<lambda>bars. bars @ [lone_bar\<lparr>b_Timestamp := 172800\<rparr>]) (lone_loader s)"
  have "agree_until 86400 (\<lambda>s since. lone_loader s) ?load"
    by (simp add: agree_until_def lone_loader_def lone_bar_def)
  moreover have "BulkLoad ?load (\<lambda>k. False) [''A''] 86400 400 NewBarCache =
      Some [cache_row lone_bar, cache_row (lone_bar\<lparr>b_Timestamp := 172800\<rparr>)]"
    by (simp add: BulkLoad_def NewBarCache_def lone_loader_def insert_bar_def) (simp add: cache_row_def lone_bar_def)
  ultimately show ?thesis using backfill_no_lookahead [OF _ lone_load] by blast
qed

theorem backfill_never_corrects_witness:
  "\<exists>new. rows_of (snd (BackfillSnapshots (\<lambda>x. x) (\<lambda>s since. lone_loader s) (\<lambda>k. False) (\<lambda>k. False) 0 (Some 86400) [''A'']
     friday (Open None))) = rows_of (Open None) @ new"
proof -
  have "snap_ok (Open None)" by (simp add: Open_ok)
  then show ?thesis by (rule backfill_never_corrects) (simp add: friday_def)
qed

end
