(* ===== verification/Subscriptions.thy ===== *)
theory Subscriptions
  imports Study_Store
begin

text \<open>
  \<open>internal/study/subscription.go\<close>: who is subscribed to which study, as a Go map of
  sets in memory and the table \<open>subscriptions\<close>, which has no foreign keys; \<open>None\<close> is
  the legacy mode without a database. The order in which Go ranges over a map is the
  argument \<open>order\<close>; the JSON decoder of one line is \<open>decode\<close>.
\<close>

section \<open>The store\<close>

record subscription =
  sb_UserID :: string
  sb_StudyKey :: string

type_synonym subs = "string \<Rightarrow> string set option"
type_synonym sub_state = "subs \<times> (string \<times> string) list option"

definition subs_of :: "subs \<Rightarrow> string \<Rightarrow> string set" where
  "subs_of m u = (case m u of None \<Rightarrow> {} | Some A \<Rightarrow> A)"

definition add_sub :: "string \<times> string \<Rightarrow> subs \<Rightarrow> subs" where
  "add_sub p m = m(fst p \<mapsto> insert (snd p) (subs_of m (fst p)))"

definition sql_add_sub :: "string \<times> string \<Rightarrow> (string \<times> string) list \<Rightarrow> (string \<times> string) list" where
  "sql_add_sub p rows = (if list_ex (\<lambda>r. r = p) rows then rows else rows @ [p])"

definition Subscribe :: "string \<Rightarrow> string \<Rightarrow> sub_state \<Rightarrow> sub_state" where
  "Subscribe u k st = (case st of (m, db) \<Rightarrow> (add_sub (u, k) m, map_option (sql_add_sub (u, k)) db))"

definition drop_sub :: "string \<Rightarrow> string set \<Rightarrow> string set option" where
  "drop_sub k A = (if A - {k} = {} then None else Some (A - {k}))"

definition Unsubscribe :: "string \<Rightarrow> string \<Rightarrow> sub_state \<Rightarrow> sub_state" where
  "Unsubscribe u k st = (case st of (m, db) \<Rightarrow>
     ((case m u of None \<Rightarrow> m | Some A \<Rightarrow> m(u := drop_sub k A)),
      map_option (filter (\<lambda>r. \<not> (fst r = u \<and> snd r = k))) db))"

definition IsSubscribed :: "string \<Rightarrow> string \<Rightarrow> sub_state \<Rightarrow> bool" where
  "IsSubscribed u k st = (case fst st u of None \<Rightarrow> False | Some A \<Rightarrow> k \<in> A)"

definition GetUserSubscriptions :: "(string set \<Rightarrow> string list) \<Rightarrow> string \<Rightarrow> sub_state \<Rightarrow> string list" where
  "GetUserSubscriptions order u st = (case fst st u of None \<Rightarrow> [] | Some A \<Rightarrow> order A)"

definition GetStudySubscribers :: "(string set \<Rightarrow> string list) \<Rightarrow> string \<Rightarrow> sub_state \<Rightarrow> string list" where
  "GetStudySubscribers order k st = filter (\<lambda>u. k \<in> subs_of (fst st) u) (order (dom (fst st)))"

definition DeleteUserSubscriptions :: "string \<Rightarrow> sub_state \<Rightarrow> sub_state" where
  "DeleteUserSubscriptions u st = (case st of (m, db) \<Rightarrow>
     (m(u := None), map_option (filter (\<lambda>r. fst r \<noteq> u)) db))"

definition DeleteStudySubscriptions :: "string \<Rightarrow> sub_state \<Rightarrow> sub_state" where
  "DeleteStudySubscriptions k st = (case st of (m, db) \<Rightarrow>
     ((\<lambda>u. case m u of None \<Rightarrow> None | Some A \<Rightarrow> drop_sub k A), map_option (filter (\<lambda>r. snd r \<noteq> k)) db))"

definition Count :: "sub_state \<Rightarrow> nat" where
  "Count st = (\<Sum>u \<in> dom (fst st). card (subs_of (fst st) u))"

definition all_subs :: "(string set \<Rightarrow> string list) \<Rightarrow> sub_state \<Rightarrow> subscription list" where
  "all_subs order st = concat (map (\<lambda>u. map (\<lambda>k. \<lparr>sb_UserID = u, sb_StudyKey = k\<rparr>) (order (subs_of (fst st) u)))
     (order (dom (fst st))))"

definition ExportJSON :: "(string set \<Rightarrow> string list) \<Rightarrow> sub_state \<Rightarrow> subscription list \<times> nat" where
  "ExportJSON order st = (all_subs order st, length (all_subs order st))"

definition ImportJSON :: "subscription list \<Rightarrow> sub_state \<Rightarrow> nat \<times> sub_state" where
  "ImportJSON xs st = foldl (\<lambda>(n, st) x. (n + 1, Subscribe (sb_UserID x) (sb_StudyKey x) st)) (0, st) xs"

section \<open>Lines of a file\<close>

definition is_blank :: "char \<Rightarrow> bool" where
  "is_blank c \<longleftrightarrow> c = CHR '' '' \<or> c = CHR 0x0D \<or> c = CHR 0x09"

definition trimSpace :: "string \<Rightarrow> string" where
  "trimSpace s = rev (dropWhile is_blank (rev (dropWhile is_blank s)))"

text \<open>The loop over the bytes: \<open>cur\<close> is the line so far, reversed.\<close>

fun split_lines :: "string \<Rightarrow> string \<Rightarrow> string list" where
  "split_lines cur [] = (if trimSpace (rev cur) = '''' then [] else [trimSpace (rev cur)])"
| "split_lines cur (c # s) =
     (if c = CHR 0x0A then (if trimSpace (rev cur) = '''' then split_lines [] s
                            else trimSpace (rev cur) # split_lines [] s)
      else split_lines (c # cur) s)"

definition splitLines :: "string \<Rightarrow> string list" where
  "splitLines s = split_lines [] s"

section \<open>Opening\<close>

text \<open>
  A line that does not decode is skipped. A missing file is no error, nor one whose bytes
  cannot be read (\<open>None\<close>); a file that cannot be opened for another reason is not modelled.
\<close>

definition import_sub_lines :: "(string \<Rightarrow> subscription option) \<Rightarrow> string option \<Rightarrow> subs \<Rightarrow> subs" where
  "import_sub_lines decode file m = (case file of
     None \<Rightarrow> m
   | Some text \<Rightarrow> foldl (\<lambda>m line. case decode line of None \<Rightarrow> m
       | Some x \<Rightarrow> add_sub (sb_UserID x, sb_StudyKey x) m) m (splitLines text))"

definition load_subs :: "(string \<times> string) list \<Rightarrow> subs" where
  "load_subs rows = foldl (\<lambda>m r. add_sub r m) Map.empty
     (sort_stable (\<lambda>a b. text_less (fst a) (fst b) \<or> fst a = fst b \<and> text_less (snd a) (snd b)) rows)"

definition seed_subs :: "(string set \<Rightarrow> string list) \<Rightarrow> subs \<Rightarrow> (string \<times> string) list \<Rightarrow> (string \<times> string) list" where
  "seed_subs order m rows = foldl (\<lambda>rows p. sql_add_sub p rows) rows
     (concat (map (\<lambda>u. map (Pair u) (order (subs_of m u))) (order (dom m))))"

definition OpenSubscriptionStoreWithDB ::
    "(string set \<Rightarrow> string list) \<Rightarrow> (string \<Rightarrow> subscription option) \<Rightarrow> (string \<times> string) list option \<Rightarrow>
     string option \<Rightarrow> sub_state" where
  "OpenSubscriptionStoreWithDB order decode db file = (case db of
     Some rows \<Rightarrow>
       let m = load_subs rows
       in if m = Map.empty then let m = import_sub_lines decode file m in (m, Some (seed_subs order m rows))
          else (m, Some rows)
   | None \<Rightarrow> (import_sub_lines decode file Map.empty, None))"

section \<open>The store is a relation\<close>

definition pairs :: "subs \<Rightarrow> (string \<times> string) set" where
  "pairs m = {(u, k). k \<in> subs_of m u}"

definition subs_ok :: "sub_state \<Rightarrow> bool" where
  "subs_ok st \<longleftrightarrow> finite (dom (fst st)) \<and> (\<forall>u A. fst st u = Some A \<longrightarrow> finite A \<and> A \<noteq> {}) \<and>
     (\<forall>rows. snd st = Some rows \<longrightarrow> distinct rows \<and> set rows = pairs (fst st))"

datatype sub_op = SubscribeOp string string | UnsubscribeOp string string | DeleteUserOp string | DeleteStudyOp string

primrec exec_sub :: "sub_op \<Rightarrow> sub_state \<Rightarrow> sub_state" where
  "exec_sub (SubscribeOp u k) st = Subscribe u k st"
| "exec_sub (UnsubscribeOp u k) st = Unsubscribe u k st"
| "exec_sub (DeleteUserOp u) st = DeleteUserSubscriptions u st"
| "exec_sub (DeleteStudyOp k) st = DeleteStudySubscriptions k st"

primrec spec_sub :: "sub_op \<Rightarrow> (string \<times> string) set \<Rightarrow> (string \<times> string) set" where
  "spec_sub (SubscribeOp u k) R = insert (u, k) R"
| "spec_sub (UnsubscribeOp u k) R = R - {(u, k)}"
| "spec_sub (DeleteUserOp u) R = {p \<in> R. fst p \<noteq> u}"
| "spec_sub (DeleteStudyOp k) R = {p \<in> R. snd p \<noteq> k}"

lemma pairs_add: "pairs (add_sub p m) = insert p (pairs m)"
  by (cases p) (auto simp: pairs_def add_sub_def subs_of_def split: if_splits)


lemma sub_step:
  assumes "subs_ok st"
  shows "subs_ok (exec_sub e st) \<and> pairs (fst (exec_sub e st)) = spec_sub e (pairs (fst st))"
proof -
  obtain m db where st: "st = (m, db)" by (cases st)
  have fin: "finite (dom m)" and ne: "\<And>u A. m u = Some A \<Longrightarrow> finite A \<and> A \<noteq> {}"
    and rows: "\<And>r. db = Some r \<Longrightarrow> distinct r \<and> set r = pairs m"
    using assms by (auto simp: subs_ok_def st)
  show ?thesis
  proof (cases e)
    case (SubscribeOp u k)
    have "subs_ok (Subscribe u k st)"
      using fin ne rows
      by (auto simp: subs_ok_def st Subscribe_def sql_add_sub_def list_ex_iff pairs_add)
         (auto simp: add_sub_def subs_of_def split: option.splits if_splits)
    then show ?thesis by (simp add: SubscribeOp st Subscribe_def pairs_add)
  next
    case (UnsubscribeOp u k)
    have p: "pairs (fst (Unsubscribe u k st)) = pairs m - {(u, k)}"
      by (auto simp: st Unsubscribe_def pairs_def subs_of_def drop_sub_def split: option.splits if_splits)
    have "subs_ok (Unsubscribe u k st)"
      using fin ne rows p
      by (auto simp: subs_ok_def st Unsubscribe_def drop_sub_def split: option.splits if_splits)
    with p show ?thesis by (simp add: UnsubscribeOp st)
  next
    case (DeleteUserOp u)
    then show ?thesis using fin ne rows
      by (auto simp: subs_ok_def st DeleteUserSubscriptions_def pairs_def subs_of_def split: option.splits if_splits)
  next
    case (DeleteStudyOp k)
    have p: "pairs (fst (DeleteStudySubscriptions k st)) = {p \<in> pairs m. snd p \<noteq> k}"
      by (auto simp: st DeleteStudySubscriptions_def pairs_def subs_of_def drop_sub_def split: option.splits if_splits)
    have "dom (fst (DeleteStudySubscriptions k st)) \<subseteq> dom m"
      by (auto simp: st DeleteStudySubscriptions_def split: option.splits)
    then have "subs_ok (DeleteStudySubscriptions k st)"
      using fin ne rows p
      by (auto simp: subs_ok_def st DeleteStudySubscriptions_def drop_sub_def dest: finite_subset
          split: option.splits if_splits)
    with p show ?thesis by (simp add: DeleteStudyOp st)
  qed
qed

lemma sub_run:
  "subs_ok st \<Longrightarrow> subs_ok (fold exec_sub es st) \<and> pairs (fst (fold exec_sub es st)) = fold spec_sub es (pairs (fst st))"
proof (induction es arbitrary: st)
  case (Cons e es)
  with sub_step [OF Cons.prems, of e] show ?case by simp
qed simp

lemma subs_from_pairs:
  assumes "\<And>u A. m u = Some A \<Longrightarrow> A \<noteq> {}"
  shows "m = (\<lambda>u. if {k. (u, k) \<in> pairs m} = {} then None else Some {k. (u, k) \<in> pairs m})"
proof
  fix u
  show "m u = (if {k. (u, k) \<in> pairs m} = {} then None else Some {k. (u, k) \<in> pairs m})"
    using assms [of u] by (cases "m u") (auto simp: pairs_def subs_of_def)
qed

lemma load_subs_pairs:
  "pairs (load_subs rows) = set rows" "load_subs rows u = Some A \<Longrightarrow> A \<noteq> {}"
proof -
  have "pairs (foldl (\<lambda>m r. add_sub r m) m xs) = pairs m \<union> set xs" for m and xs :: "(string \<times> string) list"
    by (induction xs arbitrary: m) (auto simp: pairs_add)
  then show "pairs (load_subs rows) = set rows" by (simp add: load_subs_def) (simp add: pairs_def subs_of_def)
  have "\<forall>u A. m u = Some A \<longrightarrow> A \<noteq> {} \<Longrightarrow> \<forall>u A. foldl (\<lambda>m r. add_sub r m) m xs u = Some A \<longrightarrow> A \<noteq> {}"
    for m and xs :: "(string \<times> string) list"
  proof (induction xs arbitrary: m)
    case (Cons x xs)
    have "\<forall>u A. add_sub x m u = Some A \<longrightarrow> A \<noteq> {}" using Cons.prems by (auto simp: add_sub_def)
    then show ?case using Cons.IH by simp
  qed simp
  from this [of Map.empty] show "load_subs rows u = Some A \<Longrightarrow> A \<noteq> {}" unfolding load_subs_def by blast
qed

lemma reload_subs:
  assumes "subs_ok (m, Some rows)"
  shows "load_subs rows = m"
proof -
  have ne: "\<And>u A. m u = Some A \<Longrightarrow> A \<noteq> {}" and e: "pairs m = pairs (load_subs rows)"
    using assms by (auto simp: subs_ok_def load_subs_pairs)
  have "m = (\<lambda>u. if {k. (u, k) \<in> pairs m} = {} then None else Some {k. (u, k) \<in> pairs m})"
    by (rule subs_from_pairs) (rule ne)
  also have "\<dots> = load_subs rows" unfolding e by (rule subs_from_pairs [symmetric]) (rule load_subs_pairs(2))
  finally show ?thesis by (rule sym)
qed

lemma Count_pairs:
  assumes "subs_ok st"
  shows "Count st = card (pairs (fst st))"
proof -
  have "finite (dom (fst st))" "\<forall>u \<in> dom (fst st). finite (subs_of (fst st) u)"
    using assms by (auto simp: subs_ok_def subs_of_def)
  moreover have "pairs (fst st) = Sigma (dom (fst st)) (subs_of (fst st))"
    by (auto simp: pairs_def subs_of_def split: option.splits)
  ultimately show ?thesis by (simp add: Count_def)
qed

text \<open>
  C24: the subscription store is a relation. After any sequence of subscriptions,
  cancellations and clean-ups, with or without a database, \<open>IsSubscribed\<close> answers as the
  relation of the specification does, \<open>Count\<close> is its size, the two listings range over
  its rows and columns in whatever order Go takes; and a restart reads the same store
  back from the table.
\<close>

theorem subscriptions_refine_relation:
  fixes es db0
  defines "st \<equiv> fold exec_sub es (Map.empty, db0)" and "R \<equiv> fold spec_sub es {}"
  assumes "db0 = None \<or> db0 = Some []" and "\<And>A. finite A \<Longrightarrow> set (order A) = A"
  shows "(IsSubscribed u k st \<longleftrightarrow> (u, k) \<in> R) \<and> Count st = card R \<and>
    set (GetUserSubscriptions order u st) = {k. (u, k) \<in> R} \<and>
    set (GetStudySubscribers order k st) = {u. (u, k) \<in> R} \<and>
    (\<forall>rows. snd st = Some rows \<longrightarrow>
       set rows = R \<and> OpenSubscriptionStoreWithDB order decode (Some rows) None = st)"
proof (intro conjI allI impI)
  have "subs_ok (Map.empty, db0)" using assms(3) by (auto simp: subs_ok_def pairs_def subs_of_def)
  from sub_run [OF this, of es] have ok: "subs_ok st" and R: "pairs (fst st) = R"
    by (simp_all add: st_def R_def pairs_def subs_of_def)
  have fin: "finite (dom (fst st))" "\<And>u A. fst st u = Some A \<Longrightarrow> finite A"
    using ok by (auto simp: subs_ok_def)
  show "IsSubscribed u k st \<longleftrightarrow> (u, k) \<in> R"
    unfolding R [symmetric] by (simp add: IsSubscribed_def pairs_def subs_of_def split: option.split)
  show "Count st = card R" using Count_pairs [OF ok] R by simp
  show "set (GetUserSubscriptions order u st) = {k. (u, k) \<in> R}"
    unfolding R [symmetric] using assms(4) fin(2)
    by (auto simp: GetUserSubscriptions_def pairs_def subs_of_def split: option.splits)
  show "set (GetStudySubscribers order k st) = {u. (u, k) \<in> R}"
    unfolding R [symmetric] using assms(4) [OF fin(1)]
    by (auto simp: GetStudySubscribers_def pairs_def subs_of_def split: option.splits)
  fix rows assume row: "snd st = Some rows"
  have both: "set rows = R \<and> OpenSubscriptionStoreWithDB order decode (Some rows) None = st"
  proof -
    have that: "snd st = Some rows" by (rule row)
    have "st = (fst st, Some rows)" using that by (cases st) simp
    with ok have "subs_ok (fst st, Some rows)" by metis
    from reload_subs [OF this] this have "load_subs rows = fst st" "set rows = R"
      using R by (auto simp: subs_ok_def)
    moreover have "rows = [] \<or> fst st \<noteq> Map.empty" using R \<open>set rows = R\<close> by (auto simp: pairs_def subs_of_def)
    moreover have "finite {} \<Longrightarrow> order {} = []" using assms(4) [of "{}"] by simp
    ultimately show ?thesis using that
      by (cases st) (auto simp: OpenSubscriptionStoreWithDB_def Let_def import_sub_lines_def seed_subs_def)
  qed
  then show "set rows = R" "OpenSubscriptionStoreWithDB order decode (Some rows) None = st" by simp_all
qed

theorem subscriptions_refine_relation_witness:
  "IsSubscribed ''ann'' ''k1'' (fold exec_sub [SubscribeOp ''ann'' ''k1'', SubscribeOp ''ann'' ''k2'', DeleteStudyOp ''k2'']
     (Map.empty, Some []))"
proof -
  have ord: "\<exists>order :: string set \<Rightarrow> string list. \<forall>A. finite A \<longrightarrow> set (order A) = A" by (meson finite_list)
  then obtain order :: "string set \<Rightarrow> string list" where "\<And>A. finite A \<Longrightarrow> set (order A) = A" by blast
  from subscriptions_refine_relation [OF _ this, of "Some []" "''ann''" "''k1''"
      "[SubscribeOp ''ann'' ''k1'', SubscribeOp ''ann'' ''k2'', DeleteStudyOp ''k2'']"]
  show ?thesis by simp
qed

end
