(* ===== verification/Api_Studies.thy ===== *)
theory Api_Studies
  imports Api Subscriptions Backtest
begin

text \<open>
  The handlers of the API around studies and snapshots: studies (\<open>internal/api/studies.go\<close>,
  \<open>study_import_export.go\<close>), subscriptions (\<open>subscriptions.go\<close>), alerts (\<open>alerts.go\<close>),
  backtests (\<open>backtest.go\<close>), snapshots (\<open>snapshots.go\<close>), scans (\<open>scan.go\<close>) and symbols
  (\<open>symbols.go\<close>). The handlers that ask for a login take the user it found; the others
  take none. SQLite's evaluation of a study is the pair of arguments \<open>explain\<close> and
  \<open>query\<close>, as in \<open>Study_Run\<close>.
\<close>

section \<open>Studies, without a login\<close>

definition ListStudies :: "study_state \<Rightarrow> study list response" where
  "ListStudies st = ok_json (ss_all (fst st))"

definition CreateStudy :: "study option \<Rightarrow> study_state \<Rightarrow> study response \<times> study_state" where
  "CreateStudy body st = (case body of
     None \<Rightarrow> (Fail 400 ''INVALID_BODY'', st)
   | Some x \<Rightarrow> (case Upsert x st of
       (Some e, st) \<Rightarrow> (Fail 400 ''CREATE_FAILED'', st)
     | (None, st) \<Rightarrow> (created_json x, st)))"

definition GetStudy :: "string \<Rightarrow> study_state \<Rightarrow> study response" where
  "GetStudy k st = (case Study_Store.Get k (fst st) of None \<Rightarrow> Fail 404 ''NOT_FOUND'' | Some x \<Rightarrow> ok_json x)"

definition UpdateStudy :: "string \<Rightarrow> study option \<Rightarrow> study_state \<Rightarrow> study response \<times> study_state" where
  "UpdateStudy k body st = (case Study_Store.Get k (fst st) of
     None \<Rightarrow> (Fail 404 ''NOT_FOUND'', st)
   | Some _ \<Rightarrow> (case body of
       None \<Rightarrow> (Fail 400 ''INVALID_BODY'', st)
     | Some x \<Rightarrow> let x = x\<lparr>st_Key := k\<rparr>
         in (case Upsert x st of
               (Some e, st) \<Rightarrow> (Fail 400 ''UPDATE_FAILED'', st)
             | (None, st) \<Rightarrow> (ok_json x, st))))"

definition DeleteStudy :: "string \<Rightarrow> study_state \<Rightarrow> unit response \<times> study_state" where
  "DeleteStudy k st = (case Study_Store.Delete k st of
     (Some e, st) \<Rightarrow> (Fail 404 ''NOT_FOUND'', st)
   | (None, st) \<Rightarrow> (no_content, st))"

section \<open>Import and export\<close>

text \<open>A body that is a JSON array, or else its lines, or a line too long for the scanner.\<close>

datatype study_body = StudyArray "study list" | StudyLines "string list" | LineTooLong

fun parse_lines :: "(string \<Rightarrow> study option) \<Rightarrow> string list \<Rightarrow> study list option" where
  "parse_lines decode [] = Some []"
| "parse_lines decode (l # ls) =
     (let t = trim_space l in
      if t = '''' \<or> has_prefix t ''#'' then parse_lines decode ls
      else case decode t of
        None \<Rightarrow> None
      | Some x \<Rightarrow> map_option ((#) x) (parse_lines decode ls))"

definition parseJSONL :: "(string \<Rightarrow> study option) \<Rightarrow> study_body \<Rightarrow> study list option" where
  "parseJSONL decode body = (case body of
     StudyArray xs \<Rightarrow> Some xs | StudyLines ls \<Rightarrow> parse_lines decode ls | LineTooLong \<Rightarrow> None)"

definition key_char :: "char \<Rightarrow> bool" where
  "key_char c \<longleftrightarrow> (let n = of_char c :: nat
     in 97 \<le> n \<and> n \<le> 122 \<or> 65 \<le> n \<and> n \<le> 90 \<or> 48 \<le> n \<and> n \<le> 57 \<or> c = CHR ''-'' \<or> c = CHR ''_'')"

text \<open>\<open>None\<close> is the nil error.\<close>

definition validateStudy :: "study \<Rightarrow> string option" where
  "validateStudy x =
     (if st_Key x = '''' then Some ''key is required''
      else if \<not> list_all key_char (st_Key x) then Some ''key characters''
      else if st_Where x = '''' then Some ''where clause is required''
      else if ValidateClause (st_Where x) \<noteq> None then Some ''invalid WHERE clause''
      else if st_OrderBy x \<noteq> '''' \<and> ValidateClause (st_OrderBy x) \<noteq> None then Some ''invalid ORDER BY clause''
      else if st_Visibility x \<notin> {'''', VisPrivate, VisGroup, VisPublic} then Some ''invalid visibility''
      else if st_Tier x \<notin> {'''', TierFree, TierPro} then Some ''invalid tier''
      else if st_Limit x < 0 then Some ''limit must be non-negative''
      else if st_Visibility x = VisGroup \<and> st_Group x = '''' then Some ''group is required''
      else None)"

text \<open>The study of an import as it is saved.\<close>

definition imported_study :: "user \<Rightarrow> study \<Rightarrow> study" where
  "imported_study u x =
     (let x = (if \<not> IsAdmin u then x\<lparr>st_Owner := u_ID u\<rparr>
               else if st_Owner x = '''' then x\<lparr>st_Owner := GlobalID\<rparr> else x);
          x = (if st_Visibility x = '''' then x\<lparr>st_Visibility := VisPrivate\<rparr> else x)
      in if st_Tier x = '''' then x\<lparr>st_Tier := TierFree\<rparr> else x)"

definition import_step :: "user \<Rightarrow> study \<Rightarrow> nat \<times> string list \<times> study_state \<Rightarrow> nat \<times> string list \<times> study_state" where
  "import_step u x acc = (case acc of (n, errs, st) \<Rightarrow> (case validateStudy x of
     Some e \<Rightarrow> (n, errs @ [e], st)
   | None \<Rightarrow> (case Upsert (imported_study u x) st of
       (Some e, st) \<Rightarrow> (n, errs @ [''not saved''], st)
     | (None, st) \<Rightarrow> (n + 1, errs, st))))"

text \<open>The reply holds how many were imported, how many there were, and the errors.\<close>

definition ImportStudies ::
    "(string \<Rightarrow> study option) \<Rightarrow> study_body \<Rightarrow> user \<Rightarrow> study_state \<Rightarrow> (nat \<times> nat \<times> string list) response \<times> study_state" where
  "ImportStudies decode body u st = (case parseJSONL decode body of
     None \<Rightarrow> (Fail 400 ''Failed to parse studies'', st)
   | Some xs \<Rightarrow>
       if xs = [] then (Fail 400 ''No studies found in import data'', st)
       else (case fold (import_step u) xs (0, [], st) of (n, errs, st) \<Rightarrow>
         (Reply (if n = 0 then 400 else if errs \<noteq> [] then 207 else 200) (n, length xs, errs), st)))"

definition ExportStudies :: "string \<Rightarrow> user \<Rightarrow> study_state \<Rightarrow> study list response" where
  "ExportStudies owner u st =
     (let xs = filter (\<lambda>x. if IsAdmin u then owner = '''' \<or> owner = ''all'' \<or> st_Owner x = owner
                           else st_Owner x = u_ID u \<and> (owner = '''' \<or> owner = u_ID u)) (ss_all (fst st))
      in if xs = [] then Fail 404 ''No studies found to export'' else ok_json xs)"

section \<open>Subscriptions\<close>

definition Subscriptions_handler ::
    "(string set \<Rightarrow> string list) \<Rightarrow> user \<Rightarrow> study_state \<Rightarrow> sub_state \<Rightarrow> study list response" where
  "Subscriptions_handler order u st subs =
     ok_json (List.map_filter (\<lambda>k. Study_Store.Get k (fst st)) (GetUserSubscriptions order (u_ID u) subs))"

definition Subscribe_handler :: "string \<Rightarrow> user \<Rightarrow> study_state \<Rightarrow> sub_state \<Rightarrow> unit response \<times> sub_state" where
  "Subscribe_handler k u st subs =
     (if k = '''' then (Fail 400 ''MISSING_STUDY_KEY'', subs)
      else case Study_Store.Get k (fst st) of
        None \<Rightarrow> (Fail 404 ''STUDY_NOT_FOUND'', subs)
      | Some _ \<Rightarrow> (ok_json (), Subscribe (u_ID u) k subs))"

definition Unsubscribe_handler :: "string \<Rightarrow> user \<Rightarrow> sub_state \<Rightarrow> unit response \<times> sub_state" where
  "Unsubscribe_handler k u subs =
     (if k = '''' then (Fail 400 ''MISSING_STUDY_KEY'', subs) else (ok_json (), Unsubscribe (u_ID u) k subs))"

definition IsSubscribed_handler :: "string \<Rightarrow> user \<Rightarrow> sub_state \<Rightarrow> bool response" where
  "IsSubscribed_handler k u subs =
     (if k = '''' then Fail 400 ''MISSING_STUDY_KEY'' else ok_json (IsSubscribed (u_ID u) k subs))"

definition StudySubscribers ::
    "(string set \<Rightarrow> string list) \<Rightarrow> string \<Rightarrow> user \<Rightarrow> sub_state \<Rightarrow> string list response" where
  "StudySubscribers order k u subs =
     (if \<not> IsAdmin u then Fail 403 ''ADMIN_ONLY''
      else if k = '''' then Fail 400 ''MISSING_STUDY_KEY''
      else ok_json (GetStudySubscribers order k subs))"

section \<open>Alerts and backtests\<close>

definition canAccessStudy :: "study \<Rightarrow> user \<Rightarrow> bool" where
  "canAccessStudy x u = True"

text \<open>The study of the path, for one who may access it.\<close>

definition study_for :: "string \<Rightarrow> user \<Rightarrow> study_state \<Rightarrow> (int \<times> string, study) result" where
  "study_for k u st =
     (if k = '''' then Inl (400, ''MISSING_STUDY_KEY'')
      else case Study_Store.Get k (fst st) of
        None \<Rightarrow> Inl (404, ''STUDY_NOT_FOUND'')
      | Some x \<Rightarrow> if \<not> canAccessStudy x u then Inl (403, ''ACCESS_DENIED'') else Inr x)"

definition date_param :: "string \<Rightarrow> string \<Rightarrow> (int \<times> string, int) result" where
  "date_param code s = (case atoi s of None \<Rightarrow> Inl (400, code) | Some i \<Rightarrow> Inr i)"

text \<open>The study and the two dates of a request for alerts.\<close>

definition alert_params ::
    "string \<Rightarrow> string \<Rightarrow> string \<Rightarrow> user \<Rightarrow> study_state \<Rightarrow> (int \<times> string, study \<times> int \<times> int) result" where
  "alert_params k date prev u st =
     bind_res (study_for k u st) (\<lambda>x.
     if date = '''' \<or> prev = '''' then Inl (400, ''MISSING_DATES'')
     else bind_res (date_param ''INVALID_DATE'' date) (\<lambda>d.
          bind_res (date_param ''INVALID_PREV_DATE'' prev) (\<lambda>p. Inr (x, d, p))))"

definition detect ::
    "(study \<Rightarrow> int \<Rightarrow> int \<Rightarrow> snap_db \<Rightarrow> ('x, 'b) result \<times> snap_db) \<Rightarrow> string \<Rightarrow> string \<Rightarrow> string \<Rightarrow> user \<Rightarrow> study_state \<Rightarrow>
     snap_db \<Rightarrow> 'b response \<times> snap_db" where
  "detect f k date prev u st d = (case alert_params k date prev u st of
     Inl (n, code) \<Rightarrow> (Fail n code, d)
   | Inr (x, now, before) \<Rightarrow> (case f x now before d of
       (Inl e, d) \<Rightarrow> (Fail 500 ''DETECT_FAILED'', d)
     | (Inr b, d) \<Rightarrow> (ok_json b, d)))"

definition Alerts_handler ::
    "'e explain \<Rightarrow> 'e query \<Rightarrow> string \<Rightarrow> string \<Rightarrow> string \<Rightarrow> user \<Rightarrow> study_state \<Rightarrow> snap_db \<Rightarrow>
     (alert_entry list \<times> alert_exit list) response \<times> snap_db" where
  "Alerts_handler explain query = detect (DetectChanges explain query)"

definition Entries_handler ::
    "'e explain \<Rightarrow> 'e query \<Rightarrow> string \<Rightarrow> string \<Rightarrow> string \<Rightarrow> user \<Rightarrow> study_state \<Rightarrow> snap_db \<Rightarrow>
     alert_entry list response \<times> snap_db" where
  "Entries_handler explain query = detect (DetectEntries explain query)"

definition Exits_handler ::
    "'e explain \<Rightarrow> 'e query \<Rightarrow> string \<Rightarrow> string \<Rightarrow> string \<Rightarrow> user \<Rightarrow> study_state \<Rightarrow> snap_db \<Rightarrow>
     alert_exit list response \<times> snap_db" where
  "Exits_handler explain query = detect (DetectExits explain query)"

definition Backtest_handler ::
    "'e explain \<Rightarrow> 'e query \<Rightarrow> string \<Rightarrow> string \<Rightarrow> string \<Rightarrow> string \<Rightarrow> user \<Rightarrow> study_state \<Rightarrow> snap_db \<Rightarrow>
     summary response \<times> snap_db" where
  "Backtest_handler explain query k start stop hold u st d =
     (case bind_res (study_for k u st) (\<lambda>x.
        if start = '''' \<or> stop = '''' then Inl (400, ''MISSING_DATES'')
        else bind_res (date_param ''INVALID_START_DATE'' start) (\<lambda>a.
             bind_res (date_param ''INVALID_END_DATE'' stop) (\<lambda>b.
             bind_res (if hold = '''' then Inr 20 else date_param ''INVALID_HOLD_DAYS'' hold) (\<lambda>h.
               Inr (x, a, b, h))))) of
        Inl (n, code) \<Rightarrow> (Fail n code, d)
      | Inr (x, a, b, h) \<Rightarrow> (case RunBacktest explain query x a b h d of
          (Inl e, d) \<Rightarrow> (Fail 500 ''BACKTEST_FAILED'', d)
        | (Inr s, d) \<Rightarrow> (ok_json s, d)))"

definition PointInTime ::
    "'e explain \<Rightarrow> 'e query \<Rightarrow> string \<Rightarrow> string \<Rightarrow> user \<Rightarrow> study_state \<Rightarrow> snap_db \<Rightarrow> match list response \<times> snap_db" where
  "PointInTime explain query k date u st d =
     (case bind_res (study_for k u st) (\<lambda>x.
        if date = '''' then Inl (400, ''MISSING_DATE'')
        else bind_res (date_param ''INVALID_DATE'' date) (\<lambda>t. Inr (x, t))) of
        Inl (n, code) \<Rightarrow> (Fail n code, d)
      | Inr (x, t) \<Rightarrow> (case RunPointInTime explain query x t d of
          (Inl e, d) \<Rightarrow> (Fail 500 ''POINT_IN_TIME_FAILED'', d)
        | (Inr ms, d) \<Rightarrow> (ok_json ms, d)))"

section \<open>Snapshots and scans\<close>

definition Snapshots :: "snap_db \<Rightarrow> int list response" where
  "Snapshots d = (case ListSnapshots d of Inl e \<Rightarrow> Fail 500 ''LIST_FAILED'' | Inr ds \<Rightarrow> ok_json ds)"

definition SetActiveSnapshot :: "int option \<Rightarrow> snap_db \<Rightarrow> int response \<times> snap_db" where
  "SetActiveSnapshot body d = (case body of
     None \<Rightarrow> (Fail 400 ''INVALID_BODY'', d)
   | Some date \<Rightarrow>
       if date = 0 then (Fail 400 ''MISSING_DATE'', d)
       else (case HasSnapshot date d of
           Inl e \<Rightarrow> (Fail 500 ''CHECK_FAILED'', d)
         | Inr False \<Rightarrow> (Fail 404 ''NOT_FOUND'', d)
         | Inr True \<Rightarrow> (case SetActive date d of
             (Some e, d) \<Rightarrow> (Fail 500 ''SET_FAILED'', d)
           | (None, d) \<Rightarrow> (ok_json date, d))))"

record scan_request =
  rq_Where :: string
  rq_OrderBy :: string
  rq_Limit :: int

text \<open>A query string has its limit as text; one that is no number stays 0.\<close>

definition scan_query :: "string \<Rightarrow> string \<Rightarrow> string \<Rightarrow> scan_request" where
  "scan_query w o_by cap = \<lparr>rq_Where = w, rq_OrderBy = o_by,
     rq_Limit = (case atoi cap of None \<Rightarrow> 0 | Some n \<Rightarrow> n)\<rparr>"

definition adhoc_study :: "scan_request \<Rightarrow> study" where
  "adhoc_study r = \<lparr>st_Owner = '''', st_Visibility = '''', st_Group = '''', st_Tier = '''', st_Key = '''',
     st_Title = '''', st_Emoji = '''', st_Where = rq_Where r, st_OrderBy = rq_OrderBy r, st_Limit = rq_Limit r\<rparr>"

definition Scan_handler :: "'e explain \<Rightarrow> 'e query \<Rightarrow> scan_request option \<Rightarrow> snap_db \<Rightarrow> match list response" where
  "Scan_handler explain query body d = (case body of
     None \<Rightarrow> Fail 400 ''INVALID_BODY''
   | Some r \<Rightarrow>
       if rq_Where r = '''' then Fail 400 ''MISSING_WHERE''
       else (case Run explain query (adhoc_study r) d of
           Inl e \<Rightarrow> Fail 400 ''SCAN_FAILED'' | Inr ms \<Rightarrow> ok_json ms))"

definition Symbol ::
    "(string \<Rightarrow> int \<Rightarrow> bar list option) \<Rightarrow> int \<Rightarrow> string \<Rightarrow> string \<Rightarrow> bar list response" where
  "Symbol load now tick since =
     (if tick = '''' then Fail 400 ''MISSING_SYMBOL''
      else let days = (case atoi since of None \<Rightarrow> 120 | Some n \<Rightarrow> n)
           in (case load tick (now - 86400 * days) of
                 None \<Rightarrow> Fail 500 ''LOAD_FAILED''
               | Some bars \<Rightarrow> if bars = [] then Fail 404 ''NO_DATA'' else ok_json bars))"

end
