(* ===== verification/Api_Studies_Laws.thy ===== *)
theory Api_Studies_Laws
  imports Api_Studies
begin

text \<open>
  What an import of studies does, exactly, and what the study handlers do not check:
  the owner of the study they write or delete.
\<close>

section \<open>Keys that pass the check\<close>

lemma strip_front_none:
  assumes "list_all (\<lambda>r. \<not> key_char (hd r)) rs" "list_all key_char s"
  shows "strip_front rs s = s"
proof -
  have "\<not> (r \<noteq> [] \<and> has_prefix s r)" if "r \<in> set rs" for r
    using assms that by (cases r; cases s) (auto simp: has_prefix_iff list_all_iff)
  then have "find (\<lambda>r. r \<noteq> [] \<and> has_prefix s r) rs = None" unfolding find_None_iff by blast
  then show ?thesis by (subst strip_front.simps) simp
qed

lemma trim_space_key:
  assumes "list_all key_char k"
  shows "trim_space k = k"
proof -
  have "list_all (\<lambda>r. \<not> key_char (hd r)) space_runes" by code_simp
  moreover have "list_all (\<lambda>r. \<not> key_char (hd r)) (map rev space_runes)" by code_simp
  moreover have "list_all key_char (rev k)" using assms by (simp add: list_all_iff)
  ultimately show ?thesis using assms by (simp add: trim_space_def strip_front_none)
qed

section \<open>One study of an import\<close>

definition import_ok :: "study \<Rightarrow> bool" where
  "import_ok x \<longleftrightarrow> validateStudy x = None \<and> trim_space (st_Where x) \<noteq> ''''"

lemma valid_key:
  "validateStudy x = None \<Longrightarrow> list_all key_char (st_Key x) \<and> st_Key x \<noteq> ''''"
  by (auto simp: validateStudy_def split: if_splits)

lemma imported_fields [simp]:
  "st_Key (imported_study u x) = st_Key x" "st_Where (imported_study u x) = st_Where x"
  by (simp_all add: imported_study_def Let_def)

lemma imported_complete:
  "u_ID u \<noteq> '''' \<Longrightarrow> study_defaults (imported_study u x) = imported_study u x"
  by (simp add: study_defaults_def imported_study_def Let_def GlobalID_def TierFree_def VisPrivate_def)

lemma import_step_eq:
  assumes "u_ID u \<noteq> ''''"
  shows "\<exists>e. import_step u x (n, errs, s, db) =
    (if import_ok x then (n + 1, errs, put_study (imported_study u x) s, saveToSQL (imported_study u x) db)
     else (n, errs @ [e], s, db))"
proof (cases "validateStudy x")
  case None
  note k = valid_key [OF None]
  have "y\<lparr>st_Key := st_Key y\<rparr> = y" for y :: study by simp
  from this [of "imported_study u x"] have "(imported_study u x)\<lparr>st_Key := st_Key x\<rparr> = imported_study u x"
    unfolding imported_fields .
  with imported_complete [OF assms, of x]
  have "study_defaults ((imported_study u x)\<lparr>st_Key := st_Key x\<rparr>) = imported_study u x" by metis
  then show ?thesis using None k trim_space_key [of "st_Key x"]
    by (simp add: import_step_def Upsert_def import_ok_def Let_def)
qed (simp add: import_step_def import_ok_def)

text \<open>The study an import leaves under a key: the last valid one of that key.\<close>

definition import_result :: "user \<Rightarrow> study list \<Rightarrow> (string \<Rightarrow> study option) \<Rightarrow> string \<Rightarrow> study option" where
  "import_result u xs m k = (case find (\<lambda>x. st_Key x = k) (rev (filter import_ok xs)) of
     Some x \<Rightarrow> Some (imported_study u x) | None \<Rightarrow> m k)"

lemma import_result_Cons:
  "import_result u (x # xs) m =
     import_result u xs (if import_ok x then m(st_Key x \<mapsto> imported_study u x) else m)"
  by (rule ext) (auto simp: import_result_def find_append split: option.split)

lemma put_study_lookup: "ss_byKey (put_study x s) = (ss_byKey s)(st_Key x \<mapsto> x)"
  by (simp add: put_study_def)

lemma import_fold:
  assumes "u_ID u \<noteq> ''''"
  shows "\<exists>es s' db'. fold (import_step u) xs (n, errs, s, db) = (n + length (filter import_ok xs), errs @ es, s', db') \<and>
    length es = length (filter (\<lambda>x. \<not> import_ok x) xs) \<and> ss_byKey s' = import_result u xs (ss_byKey s)"
proof (induction xs arbitrary: n errs s db)
  case Nil
  show ?case by (simp add: import_result_def fun_eq_iff)
next
  case (Cons x xs)
  show ?case
  proof (cases "import_ok x")
    case True
    then have "import_step u x (n, errs, s, db) =
        (n + 1, errs, put_study (imported_study u x) s, saveToSQL (imported_study u x) db)"
      using import_step_eq [OF assms, of x n errs s db] by simp
    then show ?thesis
      using Cons.IH [of "n + 1" errs "put_study (imported_study u x) s" "saveToSQL (imported_study u x) db"] True
      by (simp add: import_result_Cons put_study_lookup del: fun_upd_apply)
  next
    case False
    then obtain e where "import_step u x (n, errs, s, db) = (n, errs @ [e], s, db)"
      using import_step_eq [OF assms, of x n errs s db] by auto
    then show ?thesis
      using Cons.IH [of n "errs @ [e]" s db] False by (force simp: import_result_Cons)
  qed
qed

lemma imported_study_fields:
  "imported_study u x = x\<lparr>
     st_Owner := (if \<not> IsAdmin u then u_ID u else if st_Owner x = '''' then GlobalID else st_Owner x),
     st_Visibility := (if st_Visibility x = '''' then VisPrivate else st_Visibility x),
     st_Tier := (if st_Tier x = '''' then TierFree else st_Tier x)\<rparr>"
  by (cases x) (simp add: imported_study_def Let_def)

text \<open>
  C25: what an import of the API does, for any user, the studies of others included. It saves
  every valid study of the body and rejects the others, each with an error of its own: the
  reply counts them, its status is 400 when none was saved, 207 when some were rejected and
  200 otherwise. Afterwards a key of the body holds the last valid study with this key,
  whoever owned the key before: it is owned by the importer, or, when an admin imports, by
  the owner the body names and else global; it is private and of the free tier unless the
  body says otherwise, and all its other fields are those of the body. All other keys are
  untouched.
\<close>

theorem import_last_valid_wins:
  assumes "u_ID u \<noteq> ''''" "parseJSONL decode body = Some xs" "xs \<noteq> []"
  shows "\<exists>errs. fst (ImportStudies decode body u st) =
      Reply (if filter import_ok xs = [] then 400 else if list_all import_ok xs then 200 else 207)
        (length (filter import_ok xs), length xs, errs) \<and>
    length errs = length (filter (\<lambda>x. \<not> import_ok x) xs) \<and>
    (\<forall>k. Study_Store.Get k (fst (snd (ImportStudies decode body u st))) =
      (case find (\<lambda>x. st_Key x = k) (rev (filter import_ok xs)) of
         Some x \<Rightarrow> Some (x\<lparr>
           st_Owner := (if \<not> IsAdmin u then u_ID u else if st_Owner x = '''' then GlobalID else st_Owner x),
           st_Visibility := (if st_Visibility x = '''' then VisPrivate else st_Visibility x),
           st_Tier := (if st_Tier x = '''' then TierFree else st_Tier x)\<rparr>)
       | None \<Rightarrow> Study_Store.Get k (fst st)))"
proof -
  obtain s db where st: "st = (s, db)" by (cases st)
  obtain es s' db' where f: "fold (import_step u) xs (0, [], s, db) = (length (filter import_ok xs), es, s', db')"
    and len: "length es = length (filter (\<lambda>x. \<not> import_ok x) xs)" and m: "ss_byKey s' = import_result u xs (ss_byKey s)"
    using import_fold [OF assms(1), of xs 0 "[]" s db] by auto
  have "es = [] \<longleftrightarrow> filter (\<lambda>x. \<not> import_ok x) xs = []" using len by (metis length_0_conv)
  then have all: "es = [] \<longleftrightarrow> list_all import_ok xs" by (simp add: filter_empty_conv list_all_iff)
  show ?thesis
    using assms(2,3) by (simp add: ImportStudies_def st f len m all import_result_def Study_Store.Get_def imported_study_fields
        cong: option.case_cong)
qed

theorem import_last_valid_wins_witness:
  "map_option st_Owner (Study_Store.Get ''k'' (fst (snd (ImportStudies (\<lambda>_. None)
     (StudyArray [plain_study\<lparr>st_Where := ''volume > 5''\<rparr>]) ann
     (put_study plain_study empty_studies, None))))) = Some (u_ID ann)"
proof -
  obtain x where x: "x = plain_study\<lparr>st_Where := ''volume > 5''\<rparr>" by blast
  have ok: "import_ok x" "u_ID ann \<noteq> ''''" unfolding x by code_simp+
  have key: "st_Key x = ''k''" by (simp add: x plain_study_def)
  from import_last_valid_wins [OF ok(2), of "\<lambda>_. None" "StudyArray [x]" "[x]" "(put_study plain_study empty_studies, None)"]
  have "Study_Store.Get ''k'' (fst (snd (ImportStudies (\<lambda>_. None) (StudyArray [x]) ann
      (put_study plain_study empty_studies, None)))) = Some (imported_study ann x)"
    using ok(1) key by (simp add: parseJSONL_def imported_study_fields)
  moreover have "st_Owner (imported_study ann x) = u_ID ann" unfolding x by code_simp
  ultimately show ?thesis by (simp add: x)
qed

section \<open>No owner is asked\<close>

text \<open>
  The handlers for a single study take no user at all: anybody removes and replaces any
  study, its owner included.
\<close>

theorem study_handlers_ask_nobody:
  assumes "Study_Store.Get k (fst st) = Some y" "trim_space k = k" "k \<noteq> ''''" "trim_space (st_Where x) \<noteq> ''''"
  shows "Study_Store.Get k (fst (snd (DeleteStudy k st))) = None \<and>
    Study_Store.Get k (fst (snd (UpdateStudy k (Some x) st))) = Some (study_defaults (x\<lparr>st_Key := k\<rparr>))"
proof -
  obtain s db where st: "st = (s, db)" by (cases st)
  have key: "st_Key (study_defaults z) = st_Key z" for z by (simp add: study_defaults_def Let_def)
  show ?thesis using assms
    by (simp add: st DeleteStudy_def UpdateStudy_def Study_Store.Get_def Study_Store.Delete_def Upsert_def
        put_study_def Let_def key)
qed

text \<open>Alerts and backtests run any study for any user, the private ones of others too.\<close>

theorem study_for_everybody:
  "k \<noteq> '''' \<Longrightarrow> Study_Store.Get k (fst st) = Some x \<Longrightarrow> study_for k u st = Inr x"
  by (simp add: study_for_def canAccessStudy_def)

end
