(* ===== verification/Migrations.thy ===== *)
theory Migrations
  imports Prelude
begin

text \<open>
  \<open>internal/schema/migration.go\<close>: the numbered migrations of the database, each in a
  transaction of its own. A table is the list of its column names; the time of a version
  record, which nothing reads, is left out. What SQLite's errors say is the argument
  \<open>message\<close>.
\<close>

section \<open>Statements\<close>

record schema =
  sm_tables :: "string \<Rightarrow> string list option"
  sm_indexes :: "string list"
  sm_versions :: "int list option"

datatype ddl =
    CreateTable string "string list"
  | CreateIndex string string "string list"
  | AddColumn string string
  | RecordVersion int
  | RecordOrIgnore int

datatype ddl_error = NoSuchTable string | NoSuchColumn string | DuplicateColumn string | VersionTaken int

text \<open>\<open>CREATE ... IF NOT EXISTS\<close> does nothing when the name is there.\<close>

definition exec_ddl :: "ddl \<Rightarrow> schema \<Rightarrow> (ddl_error, schema) result" where
  "exec_ddl e s = (case e of
     CreateTable t cols \<Rightarrow>
       Inr (if sm_tables s t \<noteq> None then s else s\<lparr>sm_tables := (sm_tables s)(t \<mapsto> cols)\<rparr>)
   | CreateIndex i t cols \<Rightarrow>
       if i \<in> set (sm_indexes s) then Inr s
       else (case sm_tables s t of
         None \<Rightarrow> Inl (NoSuchTable t)
       | Some have \<Rightarrow> (case find (\<lambda>c. c \<notin> set have) cols of
           Some c \<Rightarrow> Inl (NoSuchColumn c)
         | None \<Rightarrow> Inr (s\<lparr>sm_indexes := sm_indexes s @ [i]\<rparr>)))
   | AddColumn t c \<Rightarrow> (case sm_tables s t of
         None \<Rightarrow> Inl (NoSuchTable t)
       | Some have \<Rightarrow>
           if c \<in> set have then Inl (DuplicateColumn c)
           else Inr (s\<lparr>sm_tables := (sm_tables s)(t \<mapsto> have @ [c])\<rparr>))
   | RecordVersion v \<Rightarrow> (case sm_versions s of
         None \<Rightarrow> Inl (NoSuchTable ''schema_version'')
       | Some vs \<Rightarrow> if v \<in> set vs then Inl (VersionTaken v) else Inr (s\<lparr>sm_versions := Some (vs @ [v])\<rparr>))
   | RecordOrIgnore v \<Rightarrow> (case sm_versions s of
         None \<Rightarrow> Inl (NoSuchTable ''schema_version'')
       | Some vs \<Rightarrow> Inr (if v \<in> set vs then s else s\<lparr>sm_versions := Some (vs @ [v])\<rparr>)))"

section \<open>Error texts\<close>

text \<open>\<open>s[a:b]\<close> within the bounds the loop keeps.\<close>

fun find_from :: "nat \<Rightarrow> string \<Rightarrow> string \<Rightarrow> bool" where
  "find_from 0 s p = False"
| "find_from (Suc k) s p = (take (length p) s = p \<or> find_from k (drop 1 s) p)"

definition findSubstring :: "string \<Rightarrow> string \<Rightarrow> bool" where
  "findSubstring s p = (if length p \<le> length s then find_from (length s - length p + 1) s p else False)"

definition go_contains :: "string \<Rightarrow> string \<Rightarrow> bool" where
  "go_contains s p \<longleftrightarrow> length s \<ge> length p \<and> (s = p \<or> length s > length p \<and>
     (take (length p) s = p \<or> drop (length s - length p) s = p \<or> findSubstring s p))"

definition isColumnExistsError :: "string \<Rightarrow> bool" where
  "isColumnExistsError msg \<longleftrightarrow> go_contains msg ''duplicate column'' \<or> go_contains msg ''already exists''"

section \<open>The migrations\<close>

text \<open>A statement whose error about an existing column is passed over is marked \<open>True\<close>.\<close>

type_synonym script = "(ddl \<times> bool) list"

definition migrateToV2 :: script where
  "migrateToV2 = map (\<lambda>e. (e, False))
    [CreateTable ''groups'' [''id'', ''name'', ''description'', ''owner_id'', ''created_at''],
     CreateTable ''group_members'' [''group_id'', ''user_id'', ''role'', ''joined_at''],
     CreateIndex ''idx_group_members_user'' ''group_members'' [''user_id''],
     CreateTable ''saved_results'' [''id'', ''user_id'', ''study_id'', ''snapshot_date'', ''results_json'', ''created_at'',
       ''name'', ''notes'', ''perm_owner'', ''perm_group'', ''perm_all'', ''group_id''],
     CreateIndex ''idx_saved_results_user'' ''saved_results'' [''user_id'', ''created_at''],
     CreateIndex ''idx_saved_results_date'' ''saved_results'' [''snapshot_date''],
     CreateTable ''result_acls'' [''result_id'', ''user_id'', ''permission'', ''granted_at'', ''granted_by''],
     RecordVersion 2]"

definition migrateToV3 :: script where
  "migrateToV3 =
    [(CreateTable ''users'' [''id'', ''name'', ''role_id'', ''pass_hash'', ''disabled''], False),
     (CreateTable ''studies'' [''key'', ''owner'', ''visibility'', ''group_name'', ''tier'', ''title'', ''emoji'',
       ''where_clause'', ''order_by'', ''limit_num''], False),
     (CreateTable ''subscriptions'' [''user_id'', ''study_key''], False),
     (CreateTable ''roles'' [''id'', ''name'', ''description'', ''capabilities_json'', ''limits_json'',
       ''default_permissions_json'', ''can_manage_users'', ''can_manage_groups'', ''bypass_throttling'',
       ''created_at'', ''updated_at''], False),
     (AddColumn ''users'' ''role_id'', True),
     (CreateTable ''user_limits'' [''user_id'', ''limits_json'', ''updated_at''], False),
     (CreateTable ''usage_tracking'' [''user_id'', ''date'', ''api_calls'', ''studies_created'', ''results_saved'',
       ''replays_run''], False),
     (CreateTable ''rate_limits'' [''user_id'', ''timestamp'', ''action''], False),
     (CreateIndex ''idx_rate_limits_timestamp'' ''rate_limits'' [''timestamp''], False),
     (RecordVersion 3, False)]"

definition migrateToV4 :: script where
  "migrateToV4 = [(AddColumn ''users'' ''pass_hash'', True), (RecordVersion 4, False)]"

definition migrateToV6 :: script where
  "migrateToV6 = [(AddColumn ''users'' ''nlp_enabled'', True), (AddColumn ''users'' ''nlp_daily_limit'', True),
     (RecordOrIgnore 6, False)]"

text \<open>A transaction: an error rolls everything back.\<close>

fun run_script :: "(ddl_error \<Rightarrow> string) \<Rightarrow> script \<Rightarrow> schema \<Rightarrow> (ddl_error, schema) result" where
  "run_script message [] s = Inr s"
| "run_script message ((e, tolerant) # es) s = (case exec_ddl e s of
     Inr s' \<Rightarrow> run_script message es s'
   | Inl err \<Rightarrow> if tolerant \<and> isColumnExistsError (message err) then run_script message es s else Inl err)"

definition migrations :: "(int \<times> script) list" where
  "migrations = [(2, migrateToV2), (3, migrateToV3), (4, migrateToV4)]"

definition GetVersion :: "schema \<Rightarrow> int option" where
  "GetVersion s = map_option (\<lambda>vs. if vs = [] then 0 else foldl max (hd vs) (tl vs)) (sm_versions s)"

definition ensure_versions :: "schema \<Rightarrow> schema" where
  "ensure_versions s = (if sm_versions s = None then s\<lparr>sm_versions := Some []\<rparr> else s)"

fun migrate_steps ::
    "(ddl_error \<Rightarrow> string) \<Rightarrow> int \<Rightarrow> (int \<times> script) list \<Rightarrow> schema \<Rightarrow> (int \<times> ddl_error) option \<times> schema" where
  "migrate_steps message cur [] s = (None, s)"
| "migrate_steps message cur ((v, es) # ms) s =
     (if cur < v
      then (case run_script message es s of
              Inl e \<Rightarrow> (Some (v, e), s)
            | Inr s' \<Rightarrow> migrate_steps message cur ms s')
      else migrate_steps message cur ms s)"

definition Migrate :: "(ddl_error \<Rightarrow> string) \<Rightarrow> schema \<Rightarrow> (int \<times> ddl_error) option \<times> schema" where
  "Migrate message s =
     (let s = ensure_versions s; cur = the (GetVersion s)
      in (case migrate_steps message cur migrations s of
            (Some e, s) \<Rightarrow> (Some e, s)
          | (None, s) \<Rightarrow> (case run_script message migrateToV6 s of
              Inl e \<Rightarrow> (Some (6, e), s)
            | Inr s \<Rightarrow> (None, s))))"

section \<open>The home-made \<open>contains\<close>\<close>

lemma find_from_iff: "find_from k s p \<longleftrightarrow> (\<exists>i < k. take (length p) (drop i s) = p)"
proof (induction k arbitrary: s)
  case (Suc k)
  have "(\<exists>i < Suc k. take (length p) (drop i s) = p) \<longleftrightarrow>
      take (length p) s = p \<or> (\<exists>i < k. take (length p) (drop (Suc i) s) = p)"
    by (subst Ex_less_Suc2) simp
  with Suc [of "drop 1 s"] show ?case by simp
qed simp

lemma go_contains_is_contains: "go_contains s p \<longleftrightarrow> contains s p"
proof
  assume "go_contains s p"
  then have "s = p \<or> take (length p) s = p \<or> drop (length s - length p) s = p \<or> (\<exists>i. take (length p) (drop i s) = p)"
    by (auto simp: go_contains_def findSubstring_def find_from_iff split: if_splits)
  then show "contains s p"
    unfolding contains_iff by (metis append_Nil append_Nil2 append_take_drop_id)
next
  assume "contains s p"
  then obtain a b where s: "s = a @ p @ b" by (auto simp: contains_iff)
  have "findSubstring s p" unfolding findSubstring_def find_from_iff
    by (simp add: s) (rule exI [of _ "length a"], simp)
  then show "go_contains s p" by (cases "b = []"; cases "a = []") (auto simp: go_contains_def s)
qed

section \<open>What a transaction records\<close>

definition message_ok :: "(ddl_error \<Rightarrow> string) \<Rightarrow> bool" where
  "message_ok message \<longleftrightarrow> (\<forall>e. isColumnExistsError (message e) \<longleftrightarrow> (\<exists>c. e = DuplicateColumn c))"

lemma run_script_append:
  "run_script message (es @ fs) s = bind_res (run_script message es s) (run_script message fs)"
  by (induction message es s rule: run_script.induct) (auto split: sum.split)

definition records :: "script \<Rightarrow> int \<Rightarrow> bool" where
  "records es v \<longleftrightarrow> (\<exists>fs. es = fs @ [(RecordVersion v, False)] \<and> list_all (\<lambda>f. \<forall>w. fst f \<noteq> RecordVersion w \<and> fst f \<noteq> RecordOrIgnore w) fs)"

lemma exec_versions:
  "exec_ddl e s = Inr s' \<Longrightarrow> \<forall>w. e \<noteq> RecordVersion w \<and> e \<noteq> RecordOrIgnore w \<Longrightarrow> sm_versions s' = sm_versions s"
  by (cases e) (auto simp: exec_ddl_def split: if_splits option.splits)

lemma run_versions:
  "run_script message es s = Inr s' \<Longrightarrow> list_all (\<lambda>f. \<forall>w. fst f \<noteq> RecordVersion w \<and> fst f \<noteq> RecordOrIgnore w) es \<Longrightarrow>
   sm_versions s' = sm_versions s"
proof (induction message es s rule: run_script.induct)
  case (2 message e tolerant es s)
  then show ?case by (cases "exec_ddl e s") (auto dest: exec_versions split: if_splits)
qed simp

lemma run_records:
  assumes "run_script message es s = Inr s'" "records es v"
  shows "\<exists>vs. sm_versions s = Some vs \<and> sm_versions s' = Some (vs @ [v])"
proof -
  obtain fs where es: "es = fs @ [(RecordVersion v, False)]"
    and fs: "list_all (\<lambda>f. \<forall>w. fst f \<noteq> RecordVersion w \<and> fst f \<noteq> RecordOrIgnore w) fs"
    using assms(2) by (auto simp: records_def)
  obtain t where t: "run_script message fs s = Inr t" and last: "run_script message [(RecordVersion v, False)] t = Inr s'"
    using assms(1) by (auto simp: es run_script_append bind_res_eq_Inr_iff)
  from last have t2: "exec_ddl (RecordVersion v) t = Inr s'" by (simp split: sum.splits)
  from run_versions [OF t fs] t2 show ?thesis
    by (auto simp: exec_ddl_def split: option.splits if_splits)
qed

lemma migrations_record: "(v, es) \<in> set migrations \<Longrightarrow> records es v"
proof -
  have "records migrateToV2 2" unfolding records_def migrateToV2_def
    by (rule exI [of _ "butlast migrateToV2"]) (simp add: migrateToV2_def)
  moreover have "records migrateToV3 3" unfolding records_def
    by (rule exI [of _ "butlast migrateToV3"]) (simp add: migrateToV3_def)
  moreover have "records migrateToV4 4" unfolding records_def
    by (rule exI [of _ "butlast migrateToV4"]) (simp add: migrateToV4_def)
  moreover assume "(v, es) \<in> set migrations"
  ultimately show ?thesis by (auto simp: migrations_def)
qed

section \<open>Once is enough, and an interruption does no harm\<close>

lemma version_grows:
  "GetVersion s = Some c \<Longrightarrow> sm_versions s = Some vs \<Longrightarrow> c < v \<Longrightarrow> 0 < v \<Longrightarrow> sm_versions s' = Some (vs @ [v]) \<Longrightarrow>
   GetVersion s' = Some v"
  by (cases vs) (auto simp: GetVersion_def)

lemma foldl_max_bound: "x \<in> insert a (set xs) \<Longrightarrow> x \<le> foldl max (a :: int) xs"
proof (induction xs arbitrary: a x)
  case (Cons y ys)
  have "max a y \<le> foldl max (max a y) ys" by (rule Cons.IH) simp
  with Cons.prems Cons.IH [of x "max a y"] show ?case by auto
qed simp

lemma version_member: "sm_versions s = Some vs \<Longrightarrow> v \<in> set vs \<Longrightarrow> v \<le> the (GetVersion s)"
  using foldl_max_bound [of v "hd vs" "tl vs"] by (cases vs) (auto simp: GetVersion_def)

lemma steps_skip:
  "\<forall>p \<in> set ms. \<not> cur < fst p \<Longrightarrow> migrate_steps message cur ms s = (None, s)"
  by (induction message cur ms s rule: migrate_steps.induct) auto

lemma v6_done:
  assumes "message_ok message" "run_script message migrateToV6 s = Inr s'"
  shows "(\<exists>cols. sm_tables s' ''users'' = Some cols \<and> {''nlp_enabled'', ''nlp_daily_limit''} \<subseteq> set cols) \<and>
    (\<exists>vs. sm_versions s' = Some vs \<and> 6 \<in> set vs)"
  using assms unfolding migrateToV6_def message_ok_def
  by (auto simp: exec_ddl_def split: option.splits if_splits)

lemma v6_again:
  assumes "message_ok message" "sm_tables s ''users'' = Some cols" "{''nlp_enabled'', ''nlp_daily_limit''} \<subseteq> set cols"
    and "sm_versions s = Some vs" "6 \<in> set vs"
  shows "run_script message migrateToV6 s = Inr s"
  using assms by (simp add: migrateToV6_def exec_ddl_def message_ok_def)

text \<open>
  Migrating is idempotent. After a migration that succeeded, from whatever schema, the
  next start finds nothing to do: it changes no table, no index and no version record.
\<close>

theorem migrate_idempotent:
  assumes "message_ok message" "Migrate message s = (None, s')"
  shows "Migrate message s' = (None, s')"
proof -
  obtain t where "run_script message migrateToV6 t = Inr s'"
    using assms(2) by (auto simp: Migrate_def Let_def split: prod.splits option.splits sum.splits)
  from v6_done [OF assms(1) this] obtain cols vs where
    u: "sm_tables s' ''users'' = Some cols" "{''nlp_enabled'', ''nlp_daily_limit''} \<subseteq> set cols"
    and v: "sm_versions s' = Some vs" "6 \<in> set vs" by blast
  have "\<forall>p \<in> set migrations. \<not> the (GetVersion s') < fst p"
    using version_member [OF v] by (auto simp: migrations_def)
  from steps_skip [OF this] v6_again [OF assms(1) u v] v(1) show ?thesis
    by (simp add: Migrate_def ensure_versions_def Let_def)
qed

lemma run_versions_grow:
  assumes "migrate_steps message cur ms s = (r, s')" "\<forall>(v, es) \<in> set ms. 0 < v \<and> records es v" "sm_versions s = Some vs"
  shows "\<exists>ws. sm_versions s' = Some (vs @ ws) \<and> (\<forall>w \<in> set ws. 0 < w)"
  using assms
proof (induction message cur ms s arbitrary: vs rule: migrate_steps.induct)
  case (2 message cur v es ms s)
  show ?case
  proof (cases "cur < v")
    case False
    with 2 show ?thesis by auto
  next
    case True
    show ?thesis
    proof (cases "run_script message es s")
      case (Inl e)
      with 2 True show ?thesis by auto
    next
      case (Inr t)
      have "records es v" "0 < v" using "2.prems"(2) by auto
      with run_records [OF Inr this(1)] "2.prems"(3) have t: "sm_versions t = Some (vs @ [v])" by auto
      have steps: "migrate_steps message cur ms t = (r, s')" using "2.prems"(1) True Inr by simp
      from "2.IH"(1) [OF True Inr steps _ t] "2.prems"(2) obtain ws where
        "sm_versions s' = Some (vs @ v # ws)" "\<forall>w \<in> set ws. 0 < w" by auto
      with \<open>0 < v\<close> show ?thesis by auto
    qed
  qed
qed auto

lemma later_version:
  assumes "GetVersion s = Some c" "migrate_steps message cur ms s = (r, s')" "GetVersion s' = Some c'"
    and "\<forall>(v, es) \<in> set ms. 0 < v \<and> records es v"
  shows "c \<le> c'"
proof -
  obtain vs where vs: "sm_versions s = Some vs" using assms(1) by (auto simp: GetVersion_def)
  obtain ws where ws: "sm_versions s' = Some (vs @ ws)" "\<forall>w \<in> set ws. 0 < w"
    using run_versions_grow [OF assms(2,4) vs] by blast
  show ?thesis
  proof (cases vs)
    case Nil
    then have "c = 0" using assms(1) vs by (auto simp: GetVersion_def)
    moreover have "0 \<le> c'"
    proof (cases ws)
      case Nil
      with \<open>vs = []\<close> ws(1) assms(3) show ?thesis by (auto simp: GetVersion_def)
    next
      case (Cons w us)
      with \<open>vs = []\<close> ws assms(3) foldl_max_bound [of w w us] show ?thesis by (auto simp: GetVersion_def)
    qed
    ultimately show ?thesis by simp
  next
    case (Cons v us)
    with assms(1,3) vs ws(1) have "c = foldl max v us" "c' = foldl max (foldl max v us) ws"
      by (auto simp: GetVersion_def)
    with foldl_max_bound [of c c ws] show ?thesis by simp
  qed
qed

lemma steps_resume:
  assumes "migrate_steps message cur (take k ms) s = (None, s')"
    and "sorted_wrt (<) (map fst ms)" "\<forall>(v, es) \<in> set ms. 0 < v \<and> records es v" "GetVersion s = Some cur"
  shows "\<exists>c. GetVersion s' = Some c \<and> migrate_steps message c ms s' = migrate_steps message cur ms s"
  using assms
proof (induction ms arbitrary: k s cur)
  case Nil
  then show ?case by auto
next
  case (Cons m ms)
  obtain v es where m: "m = (v, es)" by (cases m)
  show ?case
  proof (cases k)
    case 0
    with Cons.prems show ?thesis by auto
  next
    case (Suc j)
    show ?thesis
    proof (cases "cur < v")
      case False
      with Cons.prems(1) have step: "migrate_steps message cur (take j ms) s = (None, s')" by (simp add: m Suc)
      from Cons.IH [OF this] Cons.prems(2,3,4) obtain c where
        c: "GetVersion s' = Some c" "migrate_steps message c ms s' = migrate_steps message cur ms s" by auto
      have "cur \<le> c"
        by (rule later_version [OF Cons.prems(4) step c(1)]) (use Cons.prems(3) in \<open>auto dest: in_set_takeD\<close>)
      with c False show ?thesis by (auto simp: m)
    next
      case True
      obtain t where t: "run_script message es s = Inr t" "migrate_steps message cur (take j ms) t = (None, s')"
        using Cons.prems(1) True by (auto simp: m Suc split: sum.splits)
      have "records es v" "0 < v" using Cons.prems(3) by (auto simp: m)
      from run_records [OF t(1) this(1)] obtain vs where
        vs: "sm_versions s = Some vs" "sm_versions t = Some (vs @ [v])" by auto
      have v: "GetVersion t = Some v" by (rule version_grows [OF Cons.prems(4) vs(1) True \<open>0 < v\<close> vs(2)])
      have later: "\<forall>p \<in> set ms. v < fst p" using Cons.prems(2) by (auto simp: m)
      have same: "migrate_steps message cur ns u = migrate_steps message v ns u" if "\<forall>p \<in> set ns. v < fst p" for ns u
        using that True by (induction ns arbitrary: u) (auto split: sum.split)
      have sub: "\<forall>p \<in> set (take j ms). v < fst p" using later by (meson in_set_takeD)
      have step: "migrate_steps message v (take j ms) t = (None, s')"
        using t(2) same [of "take j ms" t, OF sub] by (simp only:)
      from Cons.IH [OF step _ _ v] Cons.prems(2,3) obtain c where
        c: "GetVersion s' = Some c" "migrate_steps message c ms s' = migrate_steps message v ms t" by (auto simp: m)
      have "v \<le> c"
        by (rule later_version [OF v step c(1)]) (use Cons.prems(3) in \<open>auto dest: in_set_takeD\<close>)
      with c same [of ms t] later t(1) True show ?thesis by (auto simp: m)
    qed
  qed
qed

text \<open>
  C23: an interrupted migration resumes. If the process dies after any number of the
  migrations has committed, the next start ends with the same outcome and the same
  schema as a start that was never interrupted.
\<close>

theorem interrupted_migration_resumes:
  assumes "migrate_steps message (the (GetVersion (ensure_versions s))) (take k migrations) (ensure_versions s) =
    (None, s')"
  shows "Migrate message s' = Migrate message s"
proof -
  let ?s = "ensure_versions s"
  obtain vs where vs: "sm_versions ?s = Some vs" by (cases "sm_versions s") (auto simp: ensure_versions_def)
  then obtain c where c: "GetVersion ?s = Some c" by (auto simp: GetVersion_def)
  have ms: "sorted_wrt (<) (map fst migrations)" "\<forall>(v, es) \<in> set migrations. 0 < v \<and> records es v"
    using migrations_record by (auto simp: migrations_def)
  have step: "migrate_steps message c (take k migrations) ?s = (None, s')" using assms c by simp
  from steps_resume [OF step ms c] obtain c' where
    c': "GetVersion s' = Some c'" "migrate_steps message c' migrations s' = migrate_steps message c migrations ?s"
    by blast
  have "ensure_versions s' = s'" using c'(1) by (auto simp: ensure_versions_def GetVersion_def)
  then show ?thesis by (simp add: Migrate_def Let_def c c')
qed

definition no_schema :: schema where
  "no_schema = \<lparr>sm_tables = Map.empty, sm_indexes = [], sm_versions = None\<rparr>"

definition sqlite_message :: "ddl_error \<Rightarrow> string" where
  "sqlite_message e = (case e of
     NoSuchTable t \<Rightarrow> ''no such table'' | NoSuchColumn c \<Rightarrow> ''no such column''
   | DuplicateColumn c \<Rightarrow> ''duplicate column name'' | VersionTaken v \<Rightarrow> ''UNIQUE constraint failed'')"

lemma sqlite_message_ok: "message_ok sqlite_message"
proof -
  have "\<not> isColumnExistsError ''no such table''" "\<not> isColumnExistsError ''no such column''"
    "isColumnExistsError ''duplicate column name''" "\<not> isColumnExistsError ''UNIQUE constraint failed''"
    by code_simp+
  then show ?thesis by (auto simp: message_ok_def sqlite_message_def split: ddl_error.splits)
qed

text \<open>
  A database without any of the tables is brought to version 6: every migration runs,
  each is recorded once, and the columns that later migrations add to \<open>users\<close> are there
  once, whether the table was created with them or got them added.
\<close>

theorem fresh_database_migrates:
  "\<exists>s'. Migrate sqlite_message no_schema = (None, s') \<and> GetVersion s' = Some 6 \<and>
     sm_versions s' = Some [2, 3, 4, 6] \<and>
     sm_tables s' ''users'' = Some [''id'', ''name'', ''role_id'', ''pass_hash'', ''disabled'', ''nlp_enabled'', ''nlp_daily_limit''] \<and>
     (\<forall>t \<in> {''groups'', ''group_members'', ''saved_results'', ''result_acls'', ''studies'', ''subscriptions'', ''roles'',
        ''user_limits'', ''usage_tracking'', ''rate_limits''}. sm_tables s' t \<noteq> None) \<and>
     length (sm_indexes s') = 4"
proof -
  let ?s = "snd (Migrate sqlite_message no_schema)"
  have "fst (Migrate sqlite_message no_schema) = None" by code_simp
  moreover have "GetVersion ?s = Some 6" by code_simp
  moreover have "sm_versions ?s = Some [2, 3, 4, 6]" by code_simp
  moreover have "sm_tables ?s ''users'' =
      Some [''id'', ''name'', ''role_id'', ''pass_hash'', ''disabled'', ''nlp_enabled'', ''nlp_daily_limit'']" by code_simp
  moreover have "\<forall>t \<in> {''groups'', ''group_members'', ''saved_results'', ''result_acls'', ''studies'', ''subscriptions'',
      ''roles'', ''user_limits'', ''usage_tracking'', ''rate_limits''}. sm_tables ?s t \<noteq> None" by code_simp
  moreover have "length (sm_indexes ?s) = 4" by code_simp
  ultimately show ?thesis by (intro exI [of _ ?s]) (simp add: prod_eq_iff)
qed

theorem migrate_idempotent_witness:
  "\<exists>s'. Migrate sqlite_message no_schema = (None, s') \<and> Migrate sqlite_message s' = (None, s')"
proof -
  have "fst (Migrate sqlite_message no_schema) = None" by code_simp
  then have "Migrate sqlite_message no_schema = (None, snd (Migrate sqlite_message no_schema))" by (simp add: prod_eq_iff)
  from migrate_idempotent [OF sqlite_message_ok this] this show ?thesis by blast
qed

theorem interrupted_migration_resumes_witness:
  "\<exists>s'. sm_versions s' = Some [2] \<and> Migrate sqlite_message s' = Migrate sqlite_message no_schema"
proof -
  let ?step = "migrate_steps sqlite_message (the (GetVersion (ensure_versions no_schema))) (take 1 migrations)
    (ensure_versions no_schema)"
  have "fst ?step = None" by code_simp
  then have "?step = (None, snd ?step)" by (simp add: prod_eq_iff)
  moreover have "sm_versions (snd ?step) = Some [2]" by code_simp
  ultimately show ?thesis using interrupted_migration_resumes by blast
qed

end
