(* ===== verification/Nlp.thy ===== *)
theory Nlp
  imports Api Throttle Snapshot
begin

text \<open>
  The translation of a plain sentence into a study: \<open>internal/nlp/nlp.go\<close>, which reads and
  checks the answer of the language model, and its handlers with their daily caps
  (\<open>internal/api/nlp.go\<close>, \<open>nlp_config.go\<close>); and \<open>trackUsage\<close> of \<open>router.go\<close>, which counts
  the requests. The model behind the HTTP call is the argument \<open>llm\<close>, SQLite's check of a
  query text the argument \<open>compiles\<close>.
\<close>

section \<open>Reading the answer\<close>

record study_result =
  sr_Where :: string
  sr_OrderBy :: string
  sr_Limit :: int

datatype nlp_error = LLMFailed | Dangerous string | BadSortColumn string

definition validColumns :: "string list" where
  "validColumns =
    [''close'', ''high'', ''low'', ''open'',
     ''sma5'', ''sma10'', ''sma20'', ''sma30'',
     ''sma50'', ''sma100'', ''sma200'',
     ''ema10'', ''ema21'', ''ema50'', ''ema100'', ''ema200'',
     ''pct_from_sma50'', ''pct_from_sma200'', ''ma_stack'',
     ''psar'', ''aroon_up'', ''aroon_down'', ''aroon_osc'',
     ''rsi14'', ''macd'', ''macd_signal'', ''macd_hist'',
     ''stoch_k'', ''stoch_d'', ''willr14'', ''cci20'',
     ''roc10'', ''roc20'', ''adx14'', ''di_plus'', ''di_minus'',
     ''mfi14'', ''cmf20'', ''ultimate_osc'',
     ''atr14'', ''atr_pct'',
     ''bb_upper'', ''bb_mid'', ''bb_lower'', ''bb_bandwidth'', ''bb_pct_b'',
     ''keltner_upper'', ''keltner_mid'', ''keltner_lower'',
     ''hist_vol20'',
     ''high_52w'', ''low_52w'', ''is_52w_high'', ''is_52w_low'',
     ''gap_pct'', ''true_range'',
     ''pct_off_52w_high'', ''pct_above_52w_low'',
     ''ret_1d'', ''ret_5d'', ''ret_1m'', ''ret_3m'', ''ret_6m'', ''ret_1y'',
     ''dollar_vol'', ''avg_dollar_vol20'', ''rel_volume'',
     ''obv'', ''vwap_dist'',
     ''golden_cross'', ''oversold_bounce'',
     ''between'', ''and'', ''or'', ''not'', ''desc'', ''asc'']"

definition dangerousPatterns :: "string list" where
  "dangerousPatterns =
    ['';'', ''--'', ''/*'', ''*/'', ''drop '', ''delete '', ''insert '', ''update '',
     ''create '', ''alter '', ''exec '', ''union '', ''select '', ''attach '', ''detach '',
     ''pragma '', ''trigger '', ''savepoint '', ''load_extension '']"

definition validateClause :: "string \<Rightarrow> string option" where
  "validateClause clause = find (\<lambda>p. contains (to_lower clause) p) dangerousPatterns"

text \<open>\<open>fmt.Sscanf\<close> with \<open>%d\<close>: a sign, then as many digits as there are; the rest is left.\<close>

fun digit_run :: "string \<Rightarrow> string" where
  "digit_run [] = []"
| "digit_run (c # s) = (if 48 \<le> (of_char c :: nat) \<and> of_char c \<le> (57 :: nat) then c # digit_run s else [])"

definition sscanf_d :: "string \<Rightarrow> int option" where
  "sscanf_d s =
     (let (sign, ds) = (case s of
            [] \<Rightarrow> ('''', '''')
          | c # t \<Rightarrow> if c = CHR ''-'' \<or> c = CHR ''+'' then ([c], digit_run t) else ('''', digit_run s))
      in atoi (sign @ ds))"

text \<open>\<open>strings.Fields(s)[0]\<close> of a string that is not blank.\<close>

fun field_of :: "string \<Rightarrow> string" where
  "field_of [] = []"
| "field_of (c # s) = (if list_ex (\<lambda>r. has_prefix (c # s) r) space_runes then [] else c # field_of s)"

definition first_field :: "string \<Rightarrow> string" where
  "first_field s = field_of (strip_front space_runes s)"

definition read_line :: "study_result \<Rightarrow> string \<Rightarrow> study_result" where
  "read_line r line0 =
     (let line = trim_space line0; lower = to_lower line in
      if has_prefix lower ''where:'' then r\<lparr>sr_Where := trim_space (drop 6 line)\<rparr>
      else if has_prefix lower ''order by:'' then
        (let o_by = trim_space (drop 9 line)
         in if o_by \<noteq> '''' \<and> o_by \<noteq> ''none'' then r\<lparr>sr_OrderBy := o_by\<rparr> else r)
      else if has_prefix lower ''limit:'' then
        (case sscanf_d (trim_space (drop 6 line)) of
           None \<Rightarrow> r | Some n \<Rightarrow> if n > 0 then r\<lparr>sr_Limit := n\<rparr> else r)
      else r)"

definition read_answer :: "string \<Rightarrow> study_result" where
  "read_answer raw =
     (let r = foldl read_line \<lparr>sr_Where = ''1=1'', sr_OrderBy = ''dollar_vol DESC'', sr_Limit = 20\<rparr>
                (split_byte (CHR 0x0A) raw)
      in if sr_Where r = '''' \<or> sr_Where r = ''1=1'' then r\<lparr>sr_Where := ''1=1''\<rparr> else r)"

definition parseAndValidate :: "string \<Rightarrow> (nlp_error, study_result) result" where
  "parseAndValidate raw =
     (let r = read_answer raw in
      case validateClause (sr_Where r) of
        Some p \<Rightarrow> Inl (Dangerous p)
      | None \<Rightarrow>
        if sr_OrderBy r \<noteq> '''' \<and> sr_OrderBy r \<noteq> ''none'' then
          (case validateClause (sr_OrderBy r) of
             Some p \<Rightarrow> Inl (Dangerous p)
           | None \<Rightarrow>
             if to_lower (first_field (sr_OrderBy r)) \<notin> set validColumns
             then Inl (BadSortColumn (first_field (sr_OrderBy r))) else Inr r)
        else Inr r)"

definition Translate :: "(string \<Rightarrow> string option) \<Rightarrow> string \<Rightarrow> (nlp_error, study_result) result" where
  "Translate llm input = (case llm input of None \<Rightarrow> Inl LLMFailed | Some raw \<Rightarrow> parseAndValidate raw)"

definition ValidateSQL :: "(string \<Rightarrow> bool) \<Rightarrow> string \<Rightarrow> string \<Rightarrow> bool" where
  "ValidateSQL compiles w o_by = compiles
     (''EXPLAIN SELECT 1 FROM snapshot WHERE snapshot_date = (SELECT MAX(snapshot_date) FROM snapshot) AND ('' @ w @ '')'' @
      (if o_by \<noteq> '''' then '' ORDER BY '' @ o_by else '''') @ '' LIMIT 0'')"

section \<open>The handlers\<close>

definition nlpSystemDailyCap :: int where "nlpSystemDailyCap = 1000"

text \<open>The counter of translations shares the column of the replays.\<close>

definition nlp_count :: "string \<Rightarrow> string \<Rightarrow> throttle_db \<Rightarrow> int" where
  "nlp_count u today d = (case find_usage u today (td_usage d) of None \<Rightarrow> 0 | Some r \<Rightarrow> ug_replays_run r)"

definition count_translation :: "string \<Rightarrow> string \<Rightarrow> throttle_db \<Rightarrow> throttle_db" where
  "count_translation u today d =
     d\<lparr>td_usage := bump_usage (\<lambda>r. r\<lparr>ug_replays_run := ug_replays_run r + 1\<rparr>) u today (td_usage d)\<rparr>"

definition nlp_user :: "gate \<Rightarrow> string option \<Rightarrow> string" where
  "nlp_user g cookie = (case (session_validator g, cookie) of
     (Some valid, Some tok) \<Rightarrow> (case valid tok of Some i \<Rightarrow> i | None \<Rightarrow> ''anonymous'')
   | _ \<Rightarrow> ''anonymous'')"

text \<open>Every error is a reply with status 200 and the code in its body. \<open>None\<close> stands for a server without a model.\<close>

definition TranslateStudy ::
    "(string \<Rightarrow> string option) option \<Rightarrow> (string \<Rightarrow> bool) \<Rightarrow> gate \<Rightarrow> user_store \<Rightarrow> string \<Rightarrow> string option \<Rightarrow> string option \<Rightarrow>
     throttle_db \<Rightarrow> (string, study_result) result \<times> throttle_db" where
  "TranslateStudy model compiles g us today cookie body d =
     (case model of None \<Rightarrow> (Inl ''NLP_DISABLED'', d) | Some llm \<Rightarrow>
     (case body of None \<Rightarrow> (Inl ''BAD_REQUEST'', d) | Some input \<Rightarrow>
     if input = '''' then (Inl ''EMPTY_QUERY'', d)
     else let u = nlp_user g cookie;
              refused = (case Find u us of
                 None \<Rightarrow> None
               | Some x \<Rightarrow>
                   if \<not> u_NLPEnabled x then Some ''NLP_DISABLED_USER''
                   else if u_NLPDailyLimit x > 0 \<and> nlp_count u today d \<ge> u_NLPDailyLimit x
                   then Some ''USER_QUOTA_EXCEEDED'' else None)
          in (case refused of
                Some code \<Rightarrow> (Inl code, d)
              | None \<Rightarrow>
                  if nlp_count ''system'' today d \<ge> nlpSystemDailyCap then (Inl ''SYSTEM_CAP_REACHED'', d)
                  else (case Translate llm input of
                    Inl e \<Rightarrow> (Inl ''TRANSLATION_FAILED'', d)
                  | Inr r \<Rightarrow>
                      if \<not> ValidateSQL compiles (sr_Where r) (sr_OrderBy r) then (Inl ''SQL_INVALID'', d)
                      else (Inr r, count_translation ''system'' today (count_translation u today d))))))"

definition GetUserNLPConfig :: "string \<Rightarrow> user_store \<Rightarrow> (bool \<times> int) response" where
  "GetUserNLPConfig i us =
     (if i = '''' then Fail 400 ''MISSING_ID''
      else case Find i us of
        None \<Rightarrow> Fail 404 ''NOT_FOUND''
      | Some u \<Rightarrow> ok_json (u_NLPEnabled u, u_NLPDailyLimit u))"

text \<open>The user who is logged in is not looked at.\<close>

definition SetUserNLPConfig ::
    "string \<Rightarrow> (bool option \<times> int option) option \<Rightarrow> user \<Rightarrow> user_state \<Rightarrow> unit response \<times> user_state" where
  "SetUserNLPConfig i body u st = (case body of
     None \<Rightarrow> (Fail 400 ''INVALID_BODY'', st)
   | Some (enabled, cap) \<Rightarrow>
       (case (case enabled of None \<Rightarrow> (None, st) | Some e \<Rightarrow> SetNLPEnabled i e st) of
          (Some e, st) \<Rightarrow> (Fail 500 ''FAILED'', st)
        | (None, st) \<Rightarrow>
            (case (case cap of None \<Rightarrow> (None, st) | Some n \<Rightarrow> SetNLPDailyLimit i n st) of
               (Some e, st) \<Rightarrow> (Fail 500 ''FAILED'', st)
             | (None, st) \<Rightarrow> (ok_json (), st))))"

definition GetNLPDailyCount :: "string \<Rightarrow> string \<Rightarrow> user \<Rightarrow> throttle_db \<Rightarrow> int response" where
  "GetNLPDailyCount i utc_today u d = ok_json (nlp_count i utc_today d)"

section \<open>Counting requests\<close>

text \<open>Who the counter takes for the user: a session, or else a verified token; no account is looked up.\<close>

definition usage_user :: "gate \<Rightarrow> credentials \<Rightarrow> string" where
  "usage_user g c =
     (let by_cookie = (case (session_validator g, session_cookie c) of
            (Some valid, Some tok) \<Rightarrow> (case valid tok of Some i \<Rightarrow> i | None \<Rightarrow> '''')
          | _ \<Rightarrow> '''')
      in if by_cookie \<noteq> '''' then by_cookie
         else (case verifier g of
            Some verify \<Rightarrow>
              if authorization c = '''' then ''''
              else (case verify (trim_prefix (authorization c) ''Bearer '') of Some i \<Rightarrow> i | None \<Rightarrow> '''')
          | None \<Rightarrow> ''''))"

definition trackUsage ::
    "(int \<Rightarrow> string) \<Rightarrow> int \<Rightarrow> gate \<Rightarrow> string \<Rightarrow> credentials \<Rightarrow> throttle_db \<Rightarrow> throttle_db" where
  "trackUsage day now g path c d =
     (if path = ''/api/v1/health'' \<or> usage_user g c = '''' then d else TrackAPIUsage day now (usage_user g c) d)"

end
