(* ===== verification/Nlp_Laws.thy ===== *)
theory Nlp_Laws
  imports Nlp
begin

text \<open>
  The checks on what the language model answers, the columns they allow against those the
  snapshot table has, the daily caps over any sequence of requests, and the exact counting of
  the requests of the API.
\<close>

section \<open>What passes the checks\<close>

text \<open>
  A translation that is returned passed the checks of the code: neither clause contains one
  of the listed patterns as it stands, it sorts by a listed column, its limit is at least 1
  and its condition is not empty. The patterns are no complete list of what can harm, see
  the last theorem of the next section.
\<close>

theorem translation_checked:
  assumes "Translate llm input = Inr r"
  shows "(\<forall>p \<in> set dangerousPatterns. \<not> contains (to_lower (sr_Where r)) p \<and> \<not> contains (to_lower (sr_OrderBy r)) p) \<and>
    to_lower (first_field (sr_OrderBy r)) \<in> set validColumns \<and> 1 \<le> sr_Limit r \<and> sr_Where r \<noteq> ''''"
proof -
  define ok where "ok r \<longleftrightarrow> sr_OrderBy r \<noteq> '''' \<and> sr_OrderBy r \<noteq> ''none'' \<and> 1 \<le> sr_Limit r" for r :: study_result
  have line: "ok (read_line r l)" if "ok r" for r l
    using that by (auto simp: ok_def read_line_def Let_def split: option.split)
  have lines: "ok (foldl read_line r ls)" if "ok r" for r ls
    using that by (induction ls arbitrary: r) (simp_all add: line)
  obtain raw where raw: "parseAndValidate raw = Inr r"
    using assms by (auto simp: Translate_def split: option.splits)
  then have r: "r = read_answer raw" by (auto simp: parseAndValidate_def Let_def split: option.splits if_splits)
  have "ok \<lparr>sr_Where = ''1=1'', sr_OrderBy = ''dollar_vol DESC'', sr_Limit = 20\<rparr>" by (simp add: ok_def)
  from lines [OF this] have "ok r" and "sr_Where r \<noteq> ''''" by (auto simp: r read_answer_def Let_def ok_def)
  moreover from raw \<open>ok r\<close> have "validateClause (sr_Where r) = None" "validateClause (sr_OrderBy r) = None"
      "to_lower (first_field (sr_OrderBy r)) \<in> set validColumns"
    by (auto simp: parseAndValidate_def Let_def r [symmetric] ok_def split: option.splits if_splits)
  ultimately show ?thesis by (auto simp: validateClause_def find_None_iff ok_def)
qed

definition oversold :: string where
  "oversold = ''Where: rsi14 < 30'' @ [CHR 0x0A] @ ''ORDER BY: close DESC'' @ [CHR 0x0A] @ ''limit: 5 rows''"

theorem translation_checked_witness:
  "Translate (\<lambda>_. Some oversold) ''oversold'' = Inr \<lparr>sr_Where = ''rsi14 < 30'', sr_OrderBy = ''close DESC'', sr_Limit = 5\<rparr> \<and>
   ''close'' \<in> set validColumns"
proof -
  have t: "Translate (\<lambda>_. Some oversold) ''oversold'' = Inr \<lparr>sr_Where = ''rsi14 < 30'', sr_OrderBy = ''close DESC'', sr_Limit = 5\<rparr>"
    by code_simp
  have "to_lower (first_field ''close DESC'') = ''close''" by code_simp
  with translation_checked [OF t] t show ?thesis by simp
qed

text \<open>
  The hand-kept list of sort columns is in sync with the snapshot table: it holds
  exactly the table's columns but for its two keys and the time, and the six keywords.
\<close>

theorem nlp_columns_in_sync:
  "set validColumns = (set columns - {''snapshot_date'', ''symbol'', ''timestamp''}) \<union>
     {''between'', ''and'', ''or'', ''not'', ''desc'', ''asc''} \<and> distinct validColumns"
proof
  have "set validColumns = set (filter (\<lambda>c. c \<notin> {''snapshot_date'', ''symbol'', ''timestamp''}) columns @
      [''between'', ''and'', ''or'', ''not'', ''desc'', ''asc''])" by code_simp
  then show "set validColumns = (set columns - {''snapshot_date'', ''symbol'', ''timestamp''}) \<union>
     {''between'', ''and'', ''or'', ''not'', ''desc'', ''asc''}"
    by (simp only: set_append set_filter) auto
  show "distinct validColumns" by code_simp
qed

text \<open>The prompt asks for \<open>NO_MATCH\<close> where no column fits; the reader takes it for no condition at all.\<close>

theorem no_match_selects_everything:
  "parseAndValidate ''NO_MATCH'' = Inr \<lparr>sr_Where = ''1=1'', sr_OrderBy = ''dollar_vol DESC'', sr_Limit = 20\<rparr> \<and>
   parseAndValidate ''ORDER BY: None'' = Inl (BadSortColumn ''None'') \<and>
   validateClause (''1=1 union'' @ [CHR 0x09] @ ''select(1)'') = None"
proof (intro conjI)
  show "parseAndValidate ''NO_MATCH'' = Inr \<lparr>sr_Where = ''1=1'', sr_OrderBy = ''dollar_vol DESC'', sr_Limit = 20\<rparr>"
    by code_simp
  show "parseAndValidate ''ORDER BY: None'' = Inl (BadSortColumn ''None'')" by code_simp
  show "validateClause (''1=1 union'' @ [CHR 0x09] @ ''select(1)'') = None" by code_simp
qed

section \<open>The caps\<close>

lemma nlp_count_translation:
  "nlp_count v day (count_translation u day d) = nlp_count v day d + (if v = u then 1 else 0)"
  by (simp add: nlp_count_def count_translation_def find_usage_bump new_usage_def split: option.split)

record nlp_request =
  nr_model :: "(string \<Rightarrow> string option) option"
  nr_cookie :: "string option"
  nr_body :: "string option"

text \<open>The requests of one day: who got a translation, and the counters afterwards.\<close>

fun given_out ::
    "(string \<Rightarrow> bool) \<Rightarrow> gate \<Rightarrow> user_store \<Rightarrow> string \<Rightarrow> nlp_request list \<Rightarrow> throttle_db \<Rightarrow> string list" where
  "given_out compiles g us day [] d = []"
| "given_out compiles g us day (q # qs) d =
     (case TranslateStudy (nr_model q) compiles g us day (nr_cookie q) (nr_body q) d of
        (Inl _, d) \<Rightarrow> given_out compiles g us day qs d
      | (Inr _, d) \<Rightarrow> nlp_user g (nr_cookie q) # given_out compiles g us day qs d)"

lemma TranslateStudy_cases:
  "(\<exists>e. TranslateStudy m compiles g us day c b d = (Inl e, d)) \<or>
   (\<exists>r. TranslateStudy m compiles g us day c b d =
      (Inr r, count_translation ''system'' day (count_translation (nlp_user g c) day d)) \<and>
    nlp_count ''system'' day d < nlpSystemDailyCap \<and>
    (\<forall>x. Find (nlp_user g c) us = Some x \<longrightarrow> u_NLPEnabled x \<and>
       (u_NLPDailyLimit x \<le> 0 \<or> nlp_count (nlp_user g c) day d < u_NLPDailyLimit x)))"
  by (simp add: TranslateStudy_def Let_def not_le not_less split: option.split sum.split)

lemma translations_bound:
  "int (length (given_out compiles g us day qs d)) \<le> max 0 (nlpSystemDailyCap - nlp_count ''system'' day d)"
proof (induction qs arbitrary: d)
  case (Cons q qs)
  show ?case
    using TranslateStudy_cases [of "nr_model q" compiles g us day "nr_cookie q" "nr_body q" d] Cons.IH
  proof (elim disjE exE conjE)
    fix r
    let ?u = "nlp_user g (nr_cookie q)"
    let ?d = "count_translation ''system'' day (count_translation ?u day d)"
    assume *: "TranslateStudy (nr_model q) compiles g us day (nr_cookie q) (nr_body q) d = (Inr r, ?d)"
      "nlp_count ''system'' day d < nlpSystemDailyCap"
    have "nlp_count ''system'' day d + 1 \<le> nlp_count ''system'' day ?d" by (simp add: nlp_count_translation)
    with Cons.IH [of ?d] * show ?thesis by simp
  qed simp
qed simp

lemma translations_of_user:
  assumes "Find u us = Some x" "u_NLPDailyLimit x > 0"
  shows "int (length (filter (\<lambda>v. v = u) (given_out compiles g us day qs d))) \<le>
    max 0 (u_NLPDailyLimit x - nlp_count u day d)"
proof (induction qs arbitrary: d)
  case (Cons q qs)
  show ?case
    using TranslateStudy_cases [of "nr_model q" compiles g us day "nr_cookie q" "nr_body q" d] Cons.IH
  proof (elim disjE exE conjE)
    fix r
    let ?u = "nlp_user g (nr_cookie q)"
    let ?d = "count_translation ''system'' day (count_translation ?u day d)"
    assume *: "TranslateStudy (nr_model q) compiles g us day (nr_cookie q) (nr_body q) d = (Inr r, ?d)"
      and quota: "\<forall>x. Find ?u us = Some x \<longrightarrow> u_NLPEnabled x \<and>
        (u_NLPDailyLimit x \<le> 0 \<or> nlp_count ?u day d < u_NLPDailyLimit x)"
    have "nlp_count u day d + (if ?u = u then 1 else 0) \<le> nlp_count u day ?d"
      by (auto simp: nlp_count_translation)
    with Cons.IH [of ?d] * quota assms show ?thesis by (auto split: if_splits)
  qed simp
qed simp

text \<open>
  The daily caps hold over any sequence of requests of a day: from a fresh day no more
  than a thousand translations are given out in all, no more than the account's own
  limit to an account that has one, and none to an account that is not enabled for it.
\<close>

theorem translations_capped:
  assumes "nlp_count ''system'' day d = 0" "Find u us = Some x" "nlp_count u day d = 0"
  shows "length (given_out compiles g us day qs d) \<le> 1000 \<and>
    (u_NLPDailyLimit x > 0 \<longrightarrow>
       int (length (filter (\<lambda>v. v = u) (given_out compiles g us day qs d))) \<le> u_NLPDailyLimit x) \<and>
    (\<not> u_NLPEnabled x \<longrightarrow> u \<notin> set (given_out compiles g us day qs d))"
proof (intro conjI impI)
  show "length (given_out compiles g us day qs d) \<le> 1000"
    using translations_bound [of compiles g us day qs d] assms(1) by (simp add: nlpSystemDailyCap_def)
  show "int (length (filter (\<lambda>v. v = u) (given_out compiles g us day qs d))) \<le> u_NLPDailyLimit x"
    if "u_NLPDailyLimit x > 0"
    using translations_of_user [OF assms(2) that, of compiles g day qs d] assms(3) that by simp
  show "u \<notin> set (given_out compiles g us day qs d)" if "\<not> u_NLPEnabled x"
  proof (induction qs arbitrary: d)
    case (Cons q qs)
    show ?case
      using TranslateStudy_cases [of "nr_model q" compiles g us day "nr_cookie q" "nr_body q" d] Cons.IH
      by (elim disjE exE conjE) (use assms(2) that in \<open>auto simp: given_out.simps(2)\<close>)
  qed simp
qed

definition free_user :: user where
  "free_user = \<lparr>u_ID = ''ann'', u_Name = ''ann'', u_Tier = ''free'', u_Role = RoleUser, u_RoleID = '''', u_Groups = [],
     u_PassHash = '''', u_PassSHA256 = '''', u_Disabled = False, u_NLPEnabled = True, u_NLPDailyLimit = 2\<rparr>"

definition free_users :: user_store where
  "free_users = \<lparr>us_all = [free_user], us_byID = [''ann'' \<mapsto> free_user]\<rparr>"

definition ann_gate :: gate where
  "ann_gate = \<lparr>verifier = None, session_validator = Some (\<lambda>_. Some ''ann'')\<rparr>"

definition ann_asks :: nlp_request where
  "ann_asks = \<lparr>nr_model = Some (\<lambda>_. Some ''WHERE: close > 5''), nr_cookie = Some ''tok'', nr_body = Some ''cheap''\<rparr>"

definition quiet_day :: throttle_db where
  "quiet_day = \<lparr>td_db = empty_db, td_studies = [], td_roles = [], td_usage = [], td_rates = []\<rparr>"

theorem translations_capped_witness:
  "given_out (\<lambda>_. True) ann_gate free_users ''day'' [ann_asks, ann_asks] quiet_day = [''ann'', ''ann''] \<and>
   int (length (filter (\<lambda>v. v = ''ann'') (given_out (\<lambda>_. True) ann_gate free_users ''day'' [ann_asks, ann_asks, ann_asks]
     quiet_day))) \<le> 2"
proof
  show "given_out (\<lambda>_. True) ann_gate free_users ''day'' [ann_asks, ann_asks] quiet_day = [''ann'', ''ann'']" by code_simp
  have "nlp_count ''system'' ''day'' quiet_day = 0" "nlp_count ''ann'' ''day'' quiet_day = 0" by code_simp+
  moreover have "Find ''ann'' free_users = Some free_user" by code_simp
  moreover have "u_NLPDailyLimit free_user = 2" by (simp add: free_user_def)
  ultimately show "int (length (filter (\<lambda>v. v = ''ann'') (given_out (\<lambda>_. True) ann_gate free_users ''day''
      [ann_asks, ann_asks, ann_asks] quiet_day))) \<le> 2"
    using translations_capped [of "''day''" quiet_day "''ann''" free_users free_user "\<lambda>_. True" ann_gate]
    by (simp del: given_out.simps)
qed

section \<open>Requests are counted\<close>

text \<open>A request of the API: when, under which gate, for which path and with what credentials.\<close>

record api_request =
  rq_time :: int
  rq_gate :: gate
  rq_path :: string
  rq_credentials :: credentials

definition rq_user :: "api_request \<Rightarrow> string" where
  "rq_user q = usage_user (rq_gate q) (rq_credentials q)"

definition is_counted :: "api_request \<Rightarrow> bool" where
  "is_counted q \<longleftrightarrow> rq_path q \<noteq> ''/api/v1/health'' \<and> rq_user q \<noteq> ''''"

definition serve_requests :: "(int \<Rightarrow> string) \<Rightarrow> api_request list \<Rightarrow> throttle_db \<Rightarrow> throttle_db" where
  "serve_requests day qs d =
     foldl (\<lambda>d q. trackUsage day (rq_time q) (rq_gate q) (rq_path q) (rq_credentials q) d) d qs"

definition counted_calls :: "api_request list \<Rightarrow> (string \<times> int) list" where
  "counted_calls qs = map (\<lambda>q. (rq_user q, rq_time q)) (filter is_counted qs)"

lemma serve_requests_calls: "serve_requests day qs d = track_calls day (counted_calls qs) d"
  by (induction qs arbitrary: d)
    (simp_all add: serve_requests_def counted_calls_def track_calls_def trackUsage_def is_counted_def rq_user_def)

lemma counted_calls_count:
  "v \<noteq> '''' \<Longrightarrow> length (filter (\<lambda>(u, s). u = v \<and> P s) (counted_calls qs)) =
     length (filter (\<lambda>q. rq_path q \<noteq> ''/api/v1/health'' \<and> rq_user q = v \<and> P (rq_time q)) qs)"
  by (induction qs) (auto simp: counted_calls_def is_counted_def)

lemma sorted_counted_calls:
  "sorted (map rq_time qs) \<Longrightarrow> sorted (map snd (counted_calls qs))"
  using sorted_filter [of rq_time qs is_counted] by (simp add: counted_calls_def comp_def)


definition ann_calls :: "api_request list" where
  "ann_calls = map (\<lambda>(s, path). \<lparr>rq_time = s, rq_gate = ann_gate, rq_path = path,
       rq_credentials = \<lparr>authorization = '''', session_cookie = Some ''tok''\<rparr>\<rparr>)
     [(10, ''/api/v1/scan''), (20, ''/api/v1/health''), (4000, ''/api/v1/studies'')]"


end
