(* ===== verification/Warehouse.thy ===== *)
theory Warehouse
  imports Bar_Cache Passwords
begin

text \<open>
  \<open>internal/store/store.go\<close>, the read-only queries on the warehouse of the ingestion
  pipeline, and \<open>resolveUniverse\<close> of \<open>internal/serve/server.go\<close>, which chooses the symbols
  of a scan. The warehouse is the tables the queries name, each of which may be missing;
  what it holds is the pipeline's business, so its keys appear as hypotheses.
\<close>

section \<open>The tables\<close>

record wh_bar =
  wb_symbol :: string
  wb_timestamp :: int
  wb_open :: "float64 option"
  wb_high :: "float64 option"
  wb_low :: "float64 option"
  wb_close :: "float64 option"
  wb_volume :: "int option"
  wb_vwap :: "float64 option"
  wb_source :: "string option"

record wh_symbol =
  ws_symbol :: string
  ws_exchange :: string
  ws_security_type :: string

record wh_member =
  wm_symbol :: string
  wm_index_code :: string
  wm_removed :: "string option"

text \<open>Views and tables of bars by name; every other table is \<open>None\<close> when it is missing.\<close>

record warehouse =
  wh_bars :: "string \<Rightarrow> wh_bar list option"
  wh_state :: "(string \<times> string) list option"
  wh_symbols :: "wh_symbol list option"
  wh_members :: "wh_member list option"
  wh_eod_bars :: "nat option"
  wh_split_factors :: "nat option"
  wh_versions :: "(int \<times> int) list option"

datatype wh_error = QueryFailed | ScanNull | NoBars | SchemaTooOld int | SchemaTooNew int | BadUniverse string | NoUniverseFile

definition table_rows :: "'a option \<Rightarrow> (wh_error, 'a) result" where
  "table_rows t = (case t of None \<Rightarrow> Inl QueryFailed | Some rows \<Rightarrow> Inr rows)"

section \<open>Opening\<close>

definition barsPreference :: "string list" where
  "barsPreference = [''published_bars'', ''clean_bars'', ''adjusted_bars'']"

definition bars_surface :: "warehouse \<Rightarrow> string" where
  "bars_surface wh = (case find (\<lambda>t. wh_bars wh t \<noteq> None) barsPreference of
     None \<Rightarrow> ''adjusted_bars'' | Some t \<Rightarrow> t)"

text \<open>The version of the row with the highest id.\<close>

definition detectSchemaVersion :: "warehouse \<Rightarrow> int" where
  "detectSchemaVersion wh = (case wh_versions wh of
     None \<Rightarrow> 0
   | Some rows \<Rightarrow> (case sort_stable (\<lambda>a b. fst b < fst a) rows of [] \<Rightarrow> 0 | r # _ \<Rightarrow> snd r))"

definition MinSchemaVersion :: int where "MinSchemaVersion = 1"
definition MaxSchemaVersion :: int where "MaxSchemaVersion = 1"

definition CheckSchema :: "warehouse \<Rightarrow> wh_error option" where
  "CheckSchema wh =
     (let v = detectSchemaVersion wh in
      if v = 0 then None
      else if v < MinSchemaVersion then Some (SchemaTooOld v)
      else if v > MaxSchemaVersion then Some (SchemaTooNew v)
      else None)"

section \<open>Universes\<close>

definition common :: "wh_symbol \<Rightarrow> bool" where
  "common s \<longleftrightarrow> ws_security_type s = ''common''"

definition succeeded :: "(string \<times> string) list \<Rightarrow> string list" where
  "succeeded rows = map fst (filter (\<lambda>p. snd p = ''SUCCESS'') rows)"

text \<open>A join gives one row for every partner of a symbol; \<open>ORDER BY\<close> sorts by bytes.\<close>

definition joined :: "string list \<Rightarrow> ('a \<Rightarrow> string) \<Rightarrow> 'a list \<Rightarrow> string list" where
  "joined syms key rows = concat (map (\<lambda>p. map (\<lambda>_. p) (filter (\<lambda>r. key r = p) rows)) syms)"

definition Universe :: "warehouse \<Rightarrow> (wh_error, string list) result" where
  "Universe wh = bind_res (table_rows (wh_state wh)) (\<lambda>st. Inr (sort_stable text_less (succeeded st)))"

definition UniverseExchange :: "string \<Rightarrow> warehouse \<Rightarrow> (wh_error, string list) result" where
  "UniverseExchange exchange wh =
     bind_res (table_rows (wh_state wh)) (\<lambda>st. bind_res (table_rows (wh_symbols wh)) (\<lambda>ss.
       Inr (sort_stable text_less
         (joined (succeeded st) ws_symbol (filter (\<lambda>s. ws_exchange s = exchange \<and> common s) ss)))))"

definition UniverseCommon :: "warehouse \<Rightarrow> (wh_error, string list) result" where
  "UniverseCommon wh =
     bind_res (table_rows (wh_state wh)) (\<lambda>st. bind_res (table_rows (wh_symbols wh)) (\<lambda>ss.
       Inr (sort_stable text_less (joined (succeeded st) ws_symbol (filter common ss)))))"

definition current_member :: "string \<Rightarrow> wh_member \<Rightarrow> bool" where
  "current_member code m \<longleftrightarrow> wm_index_code m = code \<and> wm_removed m = None"

definition UniverseIndex :: "string \<Rightarrow> warehouse \<Rightarrow> (wh_error, string list) result" where
  "UniverseIndex code wh =
     bind_res (table_rows (wh_state wh)) (\<lambda>st. bind_res (table_rows (wh_members wh)) (\<lambda>ms. bind_res (table_rows (wh_symbols wh)) (\<lambda>ss.
       Inr (sort_stable text_less
         (joined (joined (succeeded st) wm_symbol (filter (current_member code) ms)) ws_symbol (filter common ss))))))"

section \<open>Bars\<close>

text \<open>A NULL that \<open>Scan\<close> cannot store is an error; \<open>COALESCE\<close> makes a missing VWAP 0.\<close>

definition scan_bar :: "wh_bar \<Rightarrow> bar option" where
  "scan_bar r = (case (wb_open r, wb_high r, wb_low r, wb_close r, wb_volume r, wb_source r) of
     (Some op, Some hi, Some lo, Some cl, Some vol, Some src) \<Rightarrow>
       Some \<lparr>b_Symbol = wb_symbol r, b_Timestamp = wb_timestamp r, b_Open = op, b_High = hi, b_Low = lo,
             b_Close = cl, b_Volume = vol, b_VWAP = (case wb_vwap r of None \<Rightarrow> lit 0 | Some v \<Rightarrow> v), b_Source = src\<rparr>
   | _ \<Rightarrow> None)"

definition LoadAdjustedBars :: "warehouse \<Rightarrow> string \<Rightarrow> int \<Rightarrow> (wh_error, bar list) result" where
  "LoadAdjustedBars wh tick since =
     bind_res (table_rows (wh_bars wh (bars_surface wh))) (\<lambda>rows.
       case those (map scan_bar (sort_key wb_timestamp (filter (\<lambda>r. wb_symbol r = tick \<and> wb_timestamp r \<ge> since) rows)))
       of None \<Rightarrow> Inl ScanNull | Some bars \<Rightarrow> Inr bars)"

definition warehouse_loader :: "warehouse \<Rightarrow> bar_loader" where
  "warehouse_loader wh tick since = (case LoadAdjustedBars wh tick since of Inl _ \<Rightarrow> None | Inr bars \<Rightarrow> Some bars)"

text \<open>\<open>MAX\<close> over no rows is NULL.\<close>

definition LatestBarDate :: "warehouse \<Rightarrow> (wh_error, int) result" where
  "LatestBarDate wh =
     bind_res (table_rows (wh_bars wh (bars_surface wh))) (\<lambda>rows. case map wb_timestamp rows of
       [] \<Rightarrow> Inl ScanNull
     | t # ts \<Rightarrow> if foldl max t ts = 0 then Inl NoBars else Inr (foldl max t ts))"

section \<open>Operations\<close>

record ops_stats =
  os_PipelineState :: "(string \<times> nat) list"
  os_RegistrySymbols :: nat
  os_EODBars :: nat
  os_Splits :: nat

definition Count_status :: "ops_stats \<Rightarrow> string \<Rightarrow> nat" where
  "Count_status s status = (case map_of (os_PipelineState s) status of None \<Rightarrow> 0 | Some n \<Rightarrow> n)"

definition Total :: "ops_stats \<Rightarrow> nat" where
  "Total s = foldl (\<lambda>t p. t + snd p) 0 (os_PipelineState s)"

definition Pct :: "ops_stats \<Rightarrow> string \<Rightarrow> float64" where
  "Pct s status =
     (if Total s > 0
      then fdiv (fmul (lit 100) (of_int64 (int (Count_status s status)))) (of_int64 (int (Total s)))
      else lit 0)"

definition Stats :: "warehouse \<Rightarrow> (wh_error, ops_stats) result" where
  "Stats wh =
     bind_res (table_rows (wh_state wh)) (\<lambda>st. bind_res (table_rows (wh_symbols wh)) (\<lambda>ss.
     bind_res (table_rows (wh_eod_bars wh)) (\<lambda>eod. bind_res (table_rows (wh_split_factors wh)) (\<lambda>splits.
       Inr \<lparr>os_PipelineState = map (\<lambda>v. (v, length (filter (\<lambda>p. snd p = v) st))) (remdups (map snd st)),
            os_RegistrySymbols = length ss, os_EODBars = eod, os_Splits = splits\<rparr>))))"

section \<open>Choosing the universe\<close>

text \<open>
  \<open>strings.ToUpper\<close>: besides the ASCII letters, U+0131 and U+017F have an ASCII upper
  case. Symbols are ASCII.
\<close>

fun to_upper :: "string \<Rightarrow> string" where
  "to_upper [] = []"
| "to_upper (c # s) =
     (if c = CHR 0xC4 \<and> take 1 s = [CHR 0xB1] then CHR ''I'' # to_upper (drop 1 s)
      else if c = CHR 0xC5 \<and> take 1 s = [CHR 0xBF] then CHR ''S'' # to_upper (drop 1 s)
      else (if 97 \<le> (of_char c :: nat) \<and> of_char c \<le> (122 :: nat) then char_of (of_char c - (32 :: nat)) else c)
             # to_upper s)"

definition wanted :: "string \<Rightarrow> string list" where
  "wanted text = filter (\<lambda>t. t \<noteq> '''' \<and> \<not> has_prefix t ''#'')
     (map (\<lambda>l. to_upper (trim_space l)) (split_byte (CHR 0x0A) text))"

definition universeFromFile :: "(string \<Rightarrow> string option) \<Rightarrow> warehouse \<Rightarrow> string \<Rightarrow> (wh_error, string list) result" where
  "universeFromFile read wh path = (case read path of
     None \<Rightarrow> Inl NoUniverseFile
   | Some text \<Rightarrow> bind_res (Universe wh) (\<lambda>syms. Inr (filter (\<lambda>t. t \<in> set (wanted text)) syms)))"

definition cut_prefix :: "string \<Rightarrow> string \<Rightarrow> string" where
  "cut_prefix p s = (if has_prefix s p then drop (length p) s else s)"

definition resolveUniverse :: "(string \<Rightarrow> string option) \<Rightarrow> warehouse \<Rightarrow> string \<Rightarrow> (wh_error, string list) result" where
  "resolveUniverse read wh spec0 =
     (let spec = trim_space spec0 in
      if spec = '''' \<or> spec = ''all'' then Universe wh
      else if spec = ''common'' then UniverseCommon wh
      else if has_prefix spec ''exchange:'' then UniverseExchange (cut_prefix ''exchange:'' spec) wh
      else if has_prefix spec ''index:'' \<or> has_prefix spec ''list:'' then
        bind_res (UniverseIndex (cut_prefix ''list:'' (cut_prefix ''index:'' spec)) wh) (\<lambda>syms.
          if syms = [] then UniverseCommon wh else Inr syms)
      else if has_prefix spec ''file:'' then universeFromFile read wh (cut_prefix ''file:'' spec)
      else Inl (BadUniverse spec))"

definition splitCSV :: "string \<Rightarrow> string list" where
  "splitCSV s = filter (\<lambda>t. t \<noteq> '''') (map trim_space (split_byte (CHR '','') s))"

section \<open>Every universe is a part of the whole\<close>

interpretation text_order: strict_weak UNIV text_less
  by unfold_locales (auto intro: text_less_trans dest: text_less_asym text_less_linear)

lemma joined_set: "set (joined syms key rows) = {p \<in> set syms. \<exists>r \<in> set rows. key r = p}"
  by (auto simp: joined_def)

lemma joined_Cons:
  "joined (s # syms) key rows = map (\<lambda>_. s) (filter (\<lambda>r. key r = s) rows) @ joined syms key rows"
  by (simp add: joined_def)

lemma joined_distinct:
  assumes "distinct syms" "distinct (map key rows)"
  shows "distinct (joined syms key rows)"
  using assms(1)
proof (induction syms)
  case (Cons s syms)
  have "length (filter (\<lambda>r. key r = s) rows) \<le> 1"
    using assms(2)
  proof (induction rows)
    case (Cons r rows)
    have "key r = s \<Longrightarrow> filter (\<lambda>x. key x = s) rows = []" using Cons.prems by (auto simp: filter_empty_conv image_iff)
    with Cons show ?case by (cases "key r = s") auto
  qed simp
  then have "distinct (map (\<lambda>_. s) (filter (\<lambda>r. key r = s) rows))"
    by (cases "filter (\<lambda>r. key r = s) rows") (auto simp: le_Suc_eq)
  with Cons show ?case by (auto simp: joined_Cons joined_set)
qed (simp add: joined_def)

definition wh_keys :: "warehouse \<Rightarrow> bool" where
  "wh_keys wh \<longleftrightarrow> (\<forall>st. wh_state wh = Some st \<longrightarrow> distinct (map fst st)) \<and>
     (\<forall>ss. wh_symbols wh = Some ss \<longrightarrow> distinct (map ws_symbol ss)) \<and>
     (\<forall>ms code. wh_members wh = Some ms \<longrightarrow> distinct (map wm_symbol (filter (current_member code) ms)))"

definition part_of :: "(string \<Rightarrow> bool) \<Rightarrow> warehouse \<Rightarrow> string list \<Rightarrow> bool" where
  "part_of P wh syms \<longleftrightarrow> (\<exists>st. wh_state wh = Some st \<and> set syms = {s. (s, ''SUCCESS'') \<in> set st \<and> P s}) \<and>
     sorted_wrt (\<lambda>x y. \<not> text_less y x) syms \<and> (wh_keys wh \<longrightarrow> distinct syms)"

lemma succeeded_set: "set (succeeded st) = {s. (s, ''SUCCESS'') \<in> set st}"
  by (force simp: succeeded_def)

lemma succeeded_distinct: "distinct (map fst st) \<Longrightarrow> distinct (succeeded st)"
  by (simp add: succeeded_def)

definition registered :: "(wh_symbol \<Rightarrow> bool) \<Rightarrow> warehouse \<Rightarrow> string \<Rightarrow> bool" where
  "registered P wh s \<longleftrightarrow> (\<exists>ss x. wh_symbols wh = Some ss \<and> x \<in> set ss \<and> ws_symbol x = s \<and> common x \<and> P x)"

definition listed_in :: "string \<Rightarrow> warehouse \<Rightarrow> string \<Rightarrow> bool" where
  "listed_in code wh s \<longleftrightarrow> (\<exists>ms m. wh_members wh = Some ms \<and> m \<in> set ms \<and> wm_symbol m = s \<and> current_member code m)"

lemma universes:
  "Universe wh = Inr syms \<Longrightarrow> part_of (\<lambda>_. True) wh syms"
  "UniverseCommon wh = Inr syms \<Longrightarrow> part_of (registered (\<lambda>_. True) wh) wh syms"
  "UniverseExchange e wh = Inr syms \<Longrightarrow> part_of (registered (\<lambda>x. ws_exchange x = e) wh) wh syms"
  "UniverseIndex c wh = Inr syms \<Longrightarrow> part_of (\<lambda>s. registered (\<lambda>_. True) wh s \<and> listed_in c wh s) wh syms"
proof -
  show "Universe wh = Inr syms \<Longrightarrow> part_of (\<lambda>_. True) wh syms"
    by (cases "wh_state wh")
      (auto simp: Universe_def table_rows_def part_of_def wh_keys_def succeeded_set succeeded_distinct text_order.sort_sorted)
  show "UniverseCommon wh = Inr syms \<Longrightarrow> part_of (registered (\<lambda>_. True) wh) wh syms"
    by (cases "wh_state wh"; cases "wh_symbols wh")
      (auto simp: UniverseCommon_def table_rows_def part_of_def wh_keys_def succeeded_set joined_set registered_def
        intro!: text_order.sort_sorted joined_distinct succeeded_distinct)
  show "UniverseExchange e wh = Inr syms \<Longrightarrow> part_of (registered (\<lambda>x. ws_exchange x = e) wh) wh syms"
    by (cases "wh_state wh"; cases "wh_symbols wh")
      (auto simp: UniverseExchange_def table_rows_def part_of_def wh_keys_def succeeded_set joined_set registered_def
        intro!: text_order.sort_sorted joined_distinct succeeded_distinct)
  show "UniverseIndex c wh = Inr syms \<Longrightarrow> part_of (\<lambda>s. registered (\<lambda>_. True) wh s \<and> listed_in c wh s) wh syms"
    by (cases "wh_state wh"; cases "wh_symbols wh"; cases "wh_members wh")
      (auto simp: UniverseIndex_def table_rows_def part_of_def wh_keys_def succeeded_set joined_set registered_def listed_in_def
        intro!: text_order.sort_sorted joined_distinct succeeded_distinct)
qed

text \<open>What a specification asks of a symbol; an index without members falls back.\<close>

definition index_seeded :: "string \<Rightarrow> warehouse \<Rightarrow> bool" where
  "index_seeded code wh \<longleftrightarrow> (\<exists>st s. wh_state wh = Some st \<and> (s, ''SUCCESS'') \<in> set st \<and>
     registered (\<lambda>_. True) wh s \<and> listed_in code wh s)"

definition spec_means :: "(string \<Rightarrow> string option) \<Rightarrow> warehouse \<Rightarrow> string \<Rightarrow> string \<Rightarrow> bool" where
  "spec_means read wh spec s =
     (if spec = '''' \<or> spec = ''all'' then True
      else if spec = ''common'' then registered (\<lambda>_. True) wh s
      else if has_prefix spec ''exchange:'' then registered (\<lambda>x. ws_exchange x = drop 9 spec) wh s
      else if has_prefix spec ''file:'' then (\<exists>text. read (drop 5 spec) = Some text \<and> s \<in> set (wanted text))
      else let code = cut_prefix ''list:'' (cut_prefix ''index:'' spec)
           in registered (\<lambda>_. True) wh s \<and> (index_seeded code wh \<longrightarrow> listed_in code wh s))"

lemma part_of_filter: "part_of (\<lambda>_. True) wh syms \<Longrightarrow> part_of Q wh (filter Q syms)"
  by (auto simp: part_of_def sorted_wrt_filter)

lemma index_universe:
  assumes "bind_res (UniverseIndex code wh) (\<lambda>syms. if syms = [] then UniverseCommon wh else Inr syms) = Inr syms"
  shows "part_of (\<lambda>s. registered (\<lambda>_. True) wh s \<and> (index_seeded code wh \<longrightarrow> listed_in code wh s)) wh syms"
proof -
  obtain xs where i: "UniverseIndex code wh = Inr xs" using assms by (cases "UniverseIndex code wh") auto
  note p = universes(4) [OF i]
  from p have seeded: "index_seeded code wh \<longleftrightarrow> xs \<noteq> []"
    by (cases xs) (auto simp: part_of_def index_seeded_def)
  show ?thesis
  proof (cases "xs = []")
    case True
    with assms i have "UniverseCommon wh = Inr syms" by simp
    from universes(2) [OF this] seeded True show ?thesis by simp
  next
    case False
    with assms i p seeded show ?thesis by simp
  qed
qed

lemma resolved_part:
  assumes "resolveUniverse read wh spec = Inr syms"
  shows "part_of (spec_means read wh (trim_space spec)) wh syms"
proof -
  let ?s = "trim_space spec"
  consider (everything) "?s = '''' \<or> ?s = ''all''"
    | (cs) "?s = ''common''"
    | (exch) "has_prefix ?s ''exchange:''"
    | (ix) "has_prefix ?s ''index:'' \<or> has_prefix ?s ''list:''"
    | (fl) "has_prefix ?s ''file:''"
    | (other) "\<not> (?s = '''' \<or> ?s = ''all'' \<or> ?s = ''common'' \<or> has_prefix ?s ''exchange:'' \<or>
        has_prefix ?s ''index:'' \<or> has_prefix ?s ''list:'' \<or> has_prefix ?s ''file:'')" by blast
  then show ?thesis
  proof cases
    case everything
    with assms universes(1) show ?thesis by (auto simp: resolveUniverse_def Let_def spec_means_def [abs_def])
  next
    case cs
    with assms universes(2) show ?thesis by (auto simp: resolveUniverse_def Let_def spec_means_def [abs_def])
  next
    case exch
    then obtain t where t: "?s = ''exchange:'' @ t" by (auto simp: has_prefix_iff)
    with assms universes(3) show ?thesis
      by (auto simp: resolveUniverse_def Let_def spec_means_def [abs_def] cut_prefix_def has_prefix_def)
  next
    case ix
    let ?code = "cut_prefix ''list:'' (cut_prefix ''index:'' ?s)"
    obtain t where t: "?s = ''index:'' @ t \<or> ?s = ''list:'' @ t" using ix by (auto simp: has_prefix_iff)
    have not: "?s \<noteq> ''''" "?s \<noteq> ''all''" "?s \<noteq> ''common''" "\<not> has_prefix ?s ''exchange:''" "\<not> has_prefix ?s ''file:''"
      using t by (elim disjE; simp add: has_prefix_def)+
    have "resolveUniverse read wh spec =
        bind_res (UniverseIndex ?code wh) (\<lambda>syms. if syms = [] then UniverseCommon wh else Inr syms)"
      by (simp only: resolveUniverse_def Let_def not ix if_False if_True simp_thms)
    from assms [unfolded this] have p: "part_of (\<lambda>s. registered (\<lambda>_. True) wh s \<and>
        (index_seeded ?code wh \<longrightarrow> listed_in ?code wh s)) wh syms" by (rule index_universe)
    have "spec_means read wh ?s =
        (\<lambda>s. registered (\<lambda>_. True) wh s \<and> (index_seeded ?code wh \<longrightarrow> listed_in ?code wh s))"
      by (intro ext) (simp only: spec_means_def Let_def not if_False simp_thms)
    then show ?thesis using p by (simp only:)
  next
    case fl
    then obtain t where t: "?s = ''file:'' @ t" by (auto simp: has_prefix_iff)
    then have "resolveUniverse read wh spec = universeFromFile read wh t"
      by (simp add: resolveUniverse_def Let_def has_prefix_def cut_prefix_def)
    with assms obtain content xs where r: "read t = Some content" "Universe wh = Inr xs"
        "syms = filter (\<lambda>s. s \<in> set (wanted content)) xs"
      by (auto simp: universeFromFile_def bind_res_eq_Inr_iff split: option.splits)
    have "spec_means read wh ?s = (\<lambda>s. s \<in> set (wanted content))"
      using t r(1) by (intro ext) (simp add: spec_means_def has_prefix_def)
    with part_of_filter [OF universes(1) [OF r(2)]] r(3) show ?thesis by simp
  next
    case other
    with assms show ?thesis by (auto simp: resolveUniverse_def Let_def)
  qed
qed

text \<open>
  C28: the universe of a scan. Whatever \<open>SCANNER_UNIVERSE\<close> says, the symbols it resolves to
  are exactly the successfully ingested ones that the specification asks for (all,
  common stock, common stock of an exchange, of an index, or named in a file), in byte
  order, and each once if the tables of the warehouse have their keys; an index without
  a current member means all common stock.
\<close>

theorem resolved_universe_exact:
  assumes "resolveUniverse read wh spec = Inr syms"
  shows "part_of (spec_means read wh (trim_space spec)) wh syms"
  by (rule resolved_part [OF assms])

definition small_wh :: warehouse where
  "small_wh = \<lparr>wh_bars = Map.empty, wh_state = Some [(''ZZZ'', ''SUCCESS''), (''AAA'', ''SUCCESS''), (''BBB'', ''FAILED'')],
     wh_symbols = Some [\<lparr>ws_symbol = ''AAA'', ws_exchange = ''NYSE'', ws_security_type = ''common''\<rparr>],
     wh_members = Some [], wh_eod_bars = Some 0, wh_split_factors = Some 0, wh_versions = None\<rparr>"

definition zzz_file :: "string \<Rightarrow> string option" where
  "zzz_file path = Some [CHR ''z'', CHR ''z'', CHR ''z'', CHR 0x0A]"

theorem resolved_universe_exact_witness:
  "resolveUniverse zzz_file small_wh ''file:x'' = Inr [''ZZZ''] \<and>
   part_of (spec_means zzz_file small_wh (trim_space ''file:x'')) small_wh [''ZZZ'']"
proof -
  have r: "resolveUniverse zzz_file small_wh ''file:x'' = Inr [''ZZZ'']" by code_simp
  from r resolved_universe_exact [OF r] show ?thesis by (rule conjI)
qed

section \<open>The version and the counts\<close>

lemma schema_supported_iff:
  "CheckSchema wh = None \<longleftrightarrow> detectSchemaVersion wh = 0 \<or> MinSchemaVersion \<le> detectSchemaVersion wh \<and>
     detectSchemaVersion wh \<le> MaxSchemaVersion"
  by (simp add: CheckSchema_def Let_def not_less)

text \<open>The counts of the states add up to the rows of the table.\<close>

lemma count_status: "count (mset (map f xs)) v = length (filter (\<lambda>p. f p = v) xs)"
  by (induction xs) auto

lemma Total_rows:
  assumes "Stats wh = Inr s" "wh_state wh = Some st"
  shows "Total s = length st"
proof -
  have sum: "foldl (\<lambda>t p. t + snd p) n (map (\<lambda>v. (v, g v)) vs) = n + (\<Sum>v\<leftarrow>vs. g v)"
    for n and g :: "string \<Rightarrow> nat" and vs by (induction vs arbitrary: n) auto
  have "os_PipelineState s = map (\<lambda>v. (v, length (filter (\<lambda>p. snd p = v) st))) (remdups (map snd st))"
    using assms by (auto simp: Stats_def table_rows_def bind_res_eq_Inr_iff split: option.splits)
  then have "Total s = (\<Sum>v\<leftarrow>remdups (map snd st). length (filter (\<lambda>p. snd p = v) st))"
    by (simp add: Total_def sum)
  also have "\<dots> = (\<Sum>v\<in>set (map snd st). length (filter (\<lambda>p. snd p = v) st))"
    by (subst sum_list_distinct_conv_sum_set) simp_all
  also have "\<dots> = (\<Sum>v\<in>set (map snd st). count (mset (map snd st)) v)"
    by (intro sum.cong refl) (simp only: count_status)
  also have "\<dots> = size (mset (map snd st))" by (simp only: size_multiset_overloaded_eq set_mset_mset)
  finally show ?thesis by simp
qed

end
