(* ===== verification/Serve.thy ===== *)
theory Serve
  imports Warehouse Scan_Pool_Laws Sentinel Alerts Study_Requests Login Api
begin

text \<open>
  The live server of \<open>internal/serve/server.go\<close> and the handlers of \<open>handlers.go\<close> around
  it: the cache of the last scan, the pages and previews made from it, the identity of a
  request and the pages for administrators; with \<open>FromStudies\<close> of \<open>internal/digest\<close>, the
  model of \<open>internal/dashboard\<close> that the templates render, and \<open>requireAdmin\<close> of
  \<open>internal/admin\<close>. Times are nanoseconds; the size of the database and the duration of
  the scan, which are only displayed, are left out. A scan is the sequential one that the
  worker pool computes (\<open>Scan_Pool_Laws\<close>).
\<close>

section \<open>The digest\<close>

record digest_section =
  se_Key :: string
  se_Title :: string
  se_Emoji :: string
  se_Rows :: "match list"

record digest =
  di_Day :: int
  di_SymbolsScanned :: nat
  di_Breadth :: breadth
  di_Sections :: "digest_section list"

text \<open>A study that SQLite rejects is left out of the page.\<close>

definition section_of :: "'e explain \<Rightarrow> 'e query \<Rightarrow> snap_db \<Rightarrow> study \<Rightarrow> digest_section option" where
  "section_of explain query d s = (case Run explain query s d of
     Inl _ \<Rightarrow> None
   | Inr matches \<Rightarrow> Some \<lparr>se_Key = st_Key s, se_Title = st_Title s, se_Emoji = st_Emoji s, se_Rows = matches\<rparr>)"

definition FromStudies ::
    "'e explain \<Rightarrow> 'e query \<Rightarrow> int \<Rightarrow> snapshot_row list \<Rightarrow> snap_db \<Rightarrow> study list \<Rightarrow> digest" where
  "FromStudies explain query day rows d studies =
     \<lparr>di_Day = day, di_SymbolsScanned = length rows, di_Breadth = ComputeBreadth rows,
      di_Sections = List.map_filter (section_of explain query d) studies\<rparr>"

definition breadthMood :: "breadth \<Rightarrow> string" where
  "breadthMood b =
     (if flt (lit 60) (PctAbove200 b) then ''Breadth broadening.''
      else if flt (PctAbove200 b) (lit 40) then ''Breadth narrowing.''
      else ''Breadth steady.'')"

section \<open>The cache of the last scan\<close>

text \<open>An empty \<open>lv_rows\<close> is the nil slice: a scan without rows leaves the cache unset.\<close>

record live =
  lv_snap :: snap_db
  lv_rows :: "snapshot_row list"
  lv_day :: int
  lv_at :: int
  lv_flags :: "flag list"
  lv_sus :: int
  lv_wat :: int
  lv_stats :: ops_stats

record serve_config =
  cf_Universe :: string
  cf_MaxSymbols :: int
  cf_LookbackDays :: int
  cf_TTL :: int
  cf_StudyQuota :: int
  cf_ResultLimitFree :: int
  cf_ResultLimitPro :: int

text \<open>What a request finds around the server: the time, the warehouse, and the files.\<close>

record world =
  wd_now :: int
  wd_warehouse :: warehouse
  wd_read :: "string \<Rightarrow> string option"

datatype refresh_error = UniverseFailed wh_error | LoadFailed snap_error | StatsFailed wh_error

definition scan_universe :: "serve_config \<Rightarrow> world \<Rightarrow> (wh_error, string list) result" where
  "scan_universe cfg wd =
     bind_res (resolveUniverse (wd_read wd) (wd_warehouse wd) (cf_Universe cfg)) (\<lambda>u.
       Inr (if cf_MaxSymbols cfg > 0 \<and> int (length u) > cf_MaxSymbols cfg then take (nat (cf_MaxSymbols cfg)) u else u))"

definition scan_result_of :: "(float64 \<Rightarrow> float64) \<Rightarrow> serve_config \<Rightarrow> world \<Rightarrow> string list \<Rightarrow> scan_result" where
  "scan_result_of ln64 cfg wd u =
     (let since = unix (wd_now wd) - 86400 * cf_LookbackDays cfg
      in scan_in_order ln64 (lit 0) (\<lambda>t. warehouse_loader (wd_warehouse wd) t since) (unix (wd_now wd)) u)"

definition refresh ::
    "(float64 \<Rightarrow> float64) \<Rightarrow> serve_config \<Rightarrow> world \<Rightarrow> live \<Rightarrow> refresh_error option \<times> live" where
  "refresh ln64 cfg wd s =
     (case scan_universe cfg wd of
        Inl e \<Rightarrow> (Some (UniverseFailed e), s)
      | Inr u \<Rightarrow>
          let res = scan_result_of ln64 cfg wd u
          in (case Load (sc_Rows res) (sc_Day res) (lv_snap s) of
                (Some e, d) \<Rightarrow> (Some (LoadFailed e), s\<lparr>lv_snap := d\<rparr>)
              | (None, d) \<Rightarrow>
                  let flags = Tier0 (sc_Rows res) DefaultTier0;
                      s = s\<lparr>lv_snap := d, lv_rows := sc_Rows res, lv_day := sc_Day res, lv_flags := flags,
                            lv_sus := fst (Counts flags), lv_wat := snd (Counts flags)\<rparr>
                  in (case Stats (wd_warehouse wd) of
                        Inl e \<Rightarrow> (Some (StatsFailed e), s)
                      | Inr st \<Rightarrow> (None, s\<lparr>lv_stats := st, lv_at := wd_now wd\<rparr>))))"

definition expired :: "serve_config \<Rightarrow> world \<Rightarrow> live \<Rightarrow> bool" where
  "expired cfg wd s \<longleftrightarrow> lv_rows s = [] \<or> wd_now wd - lv_at s \<ge> cf_TTL cfg"

definition refreshed ::
    "(float64 \<Rightarrow> float64) \<Rightarrow> serve_config \<Rightarrow> world \<Rightarrow> bool \<Rightarrow> live \<Rightarrow> refresh_error option \<times> live" where
  "refreshed ln64 cfg wd forced s =
     (if expired cfg wd s \<or> forced then refresh ln64 cfg wd s else (None, s))"

record page_model =
  pm_Acting :: user
  pm_Stats :: ops_stats
  pm_Digest :: digest
  pm_Flags :: "flag list"
  pm_Suspect :: int
  pm_Watch :: int
  pm_Users :: "user list"
  pm_Studies :: "study list"
  pm_MyStudies :: "study list"
  pm_StudyQuota :: int

definition modelFor ::
    "'e explain \<Rightarrow> 'e query \<Rightarrow> (float64 \<Rightarrow> float64) \<Rightarrow> serve_config \<Rightarrow> world \<Rightarrow> study list \<Rightarrow> user list \<Rightarrow>
     user \<Rightarrow> bool \<Rightarrow> live \<Rightarrow> (refresh_error, page_model) result \<times> live" where
  "modelFor explain query ln64 cfg wd studies users u forced s =
     (case refreshed ln64 cfg wd forced s of
        (Some e, s) \<Rightarrow> (Inl e, s)
      | (None, s) \<Rightarrow>
          (Inr \<lparr>pm_Acting = u, pm_Stats = lv_stats s,
                pm_Digest = FromStudies explain query (lv_day s) (lv_rows s) (lv_snap s) (Accessible studies u),
                pm_Flags = lv_flags s, pm_Suspect = lv_sus s, pm_Watch = lv_wat s, pm_Users = users,
                pm_Studies = studies, pm_MyStudies = filter (\<lambda>st. st_Owner st = u_ID u) studies,
                pm_StudyQuota = studyQuota (cf_StudyQuota cfg) u\<rparr>, s))"

datatype 'e preview_error = NotRefreshed refresh_error | PreviewFailed "'e run_error"

definition preview ::
    "'e explain \<Rightarrow> 'e query \<Rightarrow> (float64 \<Rightarrow> float64) \<Rightarrow> serve_config \<Rightarrow> world \<Rightarrow> study \<Rightarrow> live \<Rightarrow>
     ('e preview_error, match list) result \<times> live" where
  "preview explain query ln64 cfg wd st s =
     (case refreshed ln64 cfg wd False s of
        (Some e, s) \<Rightarrow> (Inl (NotRefreshed e), s)
      | (None, s) \<Rightarrow> (case Run explain query st (lv_snap s) of
          Inl e \<Rightarrow> (Inl (PreviewFailed e), s)
        | Inr ms \<Rightarrow> (Inr ms, s)))"

section \<open>Who asks\<close>

text \<open>The user of a proxy's header who has no account.\<close>

definition guest :: "string \<Rightarrow> user" where
  "guest i = \<lparr>u_ID = i, u_Name = i, u_Tier = TierFree, u_Role = RoleUser, u_RoleID = '''', u_Groups = [],
     u_PassHash = '''', u_PassSHA256 = '''', u_Disabled = False, u_NLPEnabled = False, u_NLPDailyLimit = 0\<rparr>"

definition proxy_id :: "(string \<Rightarrow> string option) option \<Rightarrow> string \<Rightarrow> string \<Rightarrow> string" where
  "proxy_id jwtVer jwtHeader userHeader = (case jwtVer of
     Some verify \<Rightarrow>
       (let tok = trim_space (trim_prefix jwtHeader ''Bearer '')
        in if tok = '''' then '''' else (case verify tok of None \<Rightarrow> '''' | Some i \<Rightarrow> i))
   | None \<Rightarrow> trim_space userHeader)"

definition identify_proxy ::
    "(string \<Rightarrow> string option) option \<Rightarrow> user_store \<Rightarrow> string \<Rightarrow> string \<Rightarrow> user option" where
  "identify_proxy jwtVer us jwtHeader userHeader =
     (let i = proxy_id jwtVer jwtHeader userHeader
      in if i = '''' then None else (case Find i us of Some u \<Rightarrow> Some u | None \<Rightarrow> Some (guest i)))"

record request_headers =
  rh_jwt :: string
  rh_user :: string
  rh_cookie :: "string option"
  rh_xhr :: bool

definition identify ::
    "login_config \<Rightarrow> (string \<Rightarrow> string option) option \<Rightarrow> int \<Rightarrow> request_headers \<Rightarrow> server \<Rightarrow> user option \<times> server" where
  "identify cfg jwtVer now h s =
     (if ProxyMode cfg then (identify_proxy jwtVer (fst (sv_users s)) (rh_jwt h) (rh_user h), s)
      else sessionUser now (rh_cookie h) s)"

datatype refusal = NoIdentity | SessionExpiredJSON | RedirectLogin | AdminOnly

definition requireUser ::
    "login_config \<Rightarrow> (string \<Rightarrow> string option) option \<Rightarrow> int \<Rightarrow> request_headers \<Rightarrow> server \<Rightarrow> (refusal, user) result \<times> server" where
  "requireUser cfg jwtVer now h s = (case identify cfg jwtVer now h s of
     (Some u, s) \<Rightarrow> (Inr u, s)
   | (None, s) \<Rightarrow> (Inl (if ProxyMode cfg then NoIdentity else if rh_xhr h then SessionExpiredJSON else RedirectLogin), s))"

text \<open>The gate of \<open>page\<close>: a user, and an administrator where only they may.\<close>

definition page_gate ::
    "login_config \<Rightarrow> (string \<Rightarrow> string option) option \<Rightarrow> int \<Rightarrow> request_headers \<Rightarrow> bool \<Rightarrow> server \<Rightarrow> (refusal, user) result \<times> server" where
  "page_gate cfg jwtVer now h adminOnly s = (case requireUser cfg jwtVer now h s of
     (Inl r, s) \<Rightarrow> (Inl r, s)
   | (Inr u, s) \<Rightarrow> (if adminOnly \<and> \<not> User_Store.IsAdmin u then Inl AdminOnly else Inr u, s))"

text \<open>The validator of session cookies that the API and the admin panel share.\<close>

definition validateSession :: "int \<Rightarrow> string \<Rightarrow> server \<Rightarrow> (string \<times> bool) option \<times> server" where
  "validateSession now cookie s = (case get_session now cookie (sv_sessions s) of
     (None, m) \<Rightarrow> (None, s\<lparr>sv_sessions := m\<rparr>)
   | (Some uid, m) \<Rightarrow> (case find_user uid s of
        None \<Rightarrow> (None, s\<lparr>sv_sessions := m\<rparr>)
      | Some u \<Rightarrow> (Some (u_ID u, User_Store.IsAdmin u), s\<lparr>sv_sessions := m\<rparr>)))"

definition requireAdmin :: "int \<Rightarrow> string option \<Rightarrow> server \<Rightarrow> (int, string) result \<times> server" where
  "requireAdmin now cookie s = (case cookie of
     None \<Rightarrow> (Inl 303, s)
   | Some tok \<Rightarrow> (case validateSession now tok s of
       (None, s) \<Rightarrow> (Inl 303, s)
     | (Some (i, admin), s) \<Rightarrow> (if admin then Inr i else Inl 403, s)))"

section \<open>Handlers\<close>

definition resultLimit :: "serve_config \<Rightarrow> user \<Rightarrow> int" where
  "resultLimit cfg u = (if u_Tier u = TierPro \<or> User_Store.IsAdmin u then cf_ResultLimitPro cfg else cf_ResultLimitFree cfg)"

definition query_study :: "string \<Rightarrow> string \<Rightarrow> int \<Rightarrow> study" where
  "query_study w o_by n = \<lparr>st_Owner = '''', st_Visibility = '''', st_Group = '''', st_Tier = '''', st_Key = '''',
     st_Title = '''', st_Emoji = '''', st_Where = w, st_OrderBy = o_by, st_Limit = n\<rparr>"

datatype 'e test_error = BadClause string | TestFailed "'e preview_error"

text \<open>The number of matches and the first twelve symbols.\<close>

definition sample :: "match list \<Rightarrow> nat \<times> string list" where
  "sample ms = (length ms, map m_Symbol (take 12 ms))"

definition handleStudiesTest ::
    "'e explain \<Rightarrow> 'e query \<Rightarrow> (float64 \<Rightarrow> float64) \<Rightarrow> serve_config \<Rightarrow> world \<Rightarrow> string \<Rightarrow> string \<Rightarrow> string \<Rightarrow> user \<Rightarrow>
     live \<Rightarrow> ('e test_error, nat \<times> string list) result \<times> live" where
  "handleStudiesTest explain query ln64 cfg wd w o_by n u s =
     (case (if User_Store.IsAdmin u then None
            else case ValidateClause w of Some e \<Rightarrow> Some e | None \<Rightarrow> ValidateClause o_by) of
        Some e \<Rightarrow> (Inl (BadClause e), s)
      | None \<Rightarrow> (case preview explain query ln64 cfg wd (query_study w o_by (atoiOr n 20)) s of
          (Inl e, s) \<Rightarrow> (Inl (TestFailed e), s)
        | (Inr ms, s) \<Rightarrow> (Inr (sample ms), s)))"

datatype 'e compile_reply =
    BadDefinition
  | NotCompiled compile_error
  | NotPreviewed "'e preview_error"
  | CompiledTo compiled "nat \<times> string list"

definition handleCompile ::
    "'e explain \<Rightarrow> 'e query \<Rightarrow> (float64 \<Rightarrow> float64) \<Rightarrow> (string \<Rightarrow> string) \<Rightarrow> serve_config \<Rightarrow> world \<Rightarrow>
     study_def option \<Rightarrow> user \<Rightarrow> live \<Rightarrow> 'e compile_reply \<times> live" where
  "handleCompile explain query ln64 sha cfg wd body u s = (case body of
     None \<Rightarrow> (BadDefinition, s)
   | Some def \<Rightarrow> (case Compile sha def (resultLimit cfg u) of
       Inl e \<Rightarrow> (NotCompiled e, s)
     | Inr c \<Rightarrow> (case preview explain query ln64 cfg wd (query_study (Where c) (OrderBy c) (resultLimit cfg u)) s of
         (Inl e, s) \<Rightarrow> (NotPreviewed e, s)
       | (Inr ms, s) \<Rightarrow> (CompiledTo c (sample ms), s))))"

text \<open>The form of the users page: what \<open>r.FormValue\<close> returns for a name.\<close>

type_synonym form = "string \<Rightarrow> string"

datatype admin_error = CannotDeleteSelf | UnknownAction | StoreError user_error

definition store_error :: "user_error option \<times> 'a \<Rightarrow> admin_error option \<times> 'a" where
  "store_error r = (map_option StoreError (fst r), snd r)"

definition created_user :: "kdf \<Rightarrow> string \<Rightarrow> form \<Rightarrow> user" where
  "created_user kdf salt f = set_password kdf salt (f ''password'')
     \<lparr>u_ID = trim_space (f ''id''), u_Name = f ''name'', u_Tier = f ''tier'', u_Role = f ''role'', u_RoleID = '''',
      u_Groups = splitCSV (f ''groups''), u_PassHash = '''', u_PassSHA256 = '''', u_Disabled = False,
      u_NLPEnabled = False, u_NLPDailyLimit = 0\<rparr>"

definition admin_action ::
    "kdf \<Rightarrow> string \<Rightarrow> form \<Rightarrow> user \<Rightarrow> user_state \<Rightarrow> admin_error option \<times> user_state" where
  "admin_action kdf salt f u st =
     (let i = trim_space (f ''id''); a = f ''action'' in
      if a = ''create'' then store_error (User_Store.Create (created_user kdf salt f) st)
      else if a = ''disable'' then store_error (SetDisabled i True st)
      else if a = ''enable'' then store_error (SetDisabled i False st)
      else if a = ''set-pro'' then store_error (SetTier i TierPro st)
      else if a = ''set-free'' then store_error (SetTier i TierFree st)
      else if a = ''set-admin'' then store_error (SetRole i RoleAdmin st)
      else if a = ''set-user'' then store_error (SetRole i RoleUser st)
      else if a = ''set-groups'' then store_error (SetGroups i (splitCSV (f ''groups'')) st)
      else if a = ''delete'' then
        (if i = u_ID u then (Some CannotDeleteSelf, st) else store_error (User_Store.Delete i st))
      else (Some UnknownAction, st))"

text \<open>\<open>None\<close> is the reply 403; otherwise the browser is sent back to the admin page.\<close>

definition handleAdminUsers ::
    "kdf \<Rightarrow> string \<Rightarrow> bool \<Rightarrow> form \<Rightarrow> user \<Rightarrow> user_state \<Rightarrow> admin_error option option \<times> user_state" where
  "handleAdminUsers kdf salt post f u st =
     (if \<not> User_Store.IsAdmin u then (None, st)
      else if \<not> post then (Some None, st)
      else (case admin_action kdf salt f u st of (e, st) \<Rightarrow> (Some e, st)))"

end
