(* ===== verification/Serve_Laws.thy ===== *)
theory Serve_Laws
  imports Serve Jwt_Laws
begin

text \<open>
  The live server's cache and the snapshot table tell the same story as long as only the
  server moves the active date, and no longer when the API's alerts share it; and what the
  proxy mode takes for an identity.
\<close>

section \<open>A scan has every symbol once\<close>

lemma scan_rows_Cons:
  "map r_Symbol (List.map_filter it_row (List.map_filter (scan_symbol ln64 m load) (t # u))) =
     (if \<exists>it r. scan_symbol ln64 m load t = Some it \<and> it_row it = Some r then [t] else []) @
     map r_Symbol (List.map_filter it_row (List.map_filter (scan_symbol ln64 m load) u))"
proof (cases "scan_symbol ln64 m load t")
  case (Some it)
  then show ?thesis using scan_symbol_row [OF Some]
    by (cases "it_row it") (simp_all add: List.map_filter_simps)
qed (simp add: List.map_filter_simps)

lemma scan_symbols:
  "set (map r_Symbol (List.map_filter it_row (List.map_filter (scan_symbol ln64 m load) u))) \<subseteq> set u"
proof (induction u)
  case (Cons t u)
  then show ?case by (subst scan_rows_Cons) auto
qed (simp add: List.map_filter_simps)

lemma scan_symbols_once:
  assumes "distinct u"
  shows "distinct (map r_Symbol (List.map_filter it_row (List.map_filter (scan_symbol ln64 m load) u)))"
  using assms
proof (induction u)
  case (Cons t u)
  then show ?case using scan_symbols [of ln64 m load u]
    by (subst scan_rows_Cons) (auto simp del: set_map)
qed (simp add: List.map_filter_simps)

lemma scan_in_order_rows:
  "sc_Rows (scan_in_order ln64 m load now u) =
     sort_stable by_symbol (List.map_filter it_row (List.map_filter (scan_symbol ln64 m load) u))"
  by (simp add: scan_in_order_def collected_def collect_fold)

lemma scan_rows_once:
  assumes "distinct u"
  shows "distinct (map r_Symbol (sc_Rows (scan_in_order ln64 m load now u)))"
proof -
  let ?xs = "List.map_filter it_row (List.map_filter (scan_symbol ln64 m load) u)"
  have "mset (map r_Symbol (sort_stable by_symbol ?xs)) = mset (map r_Symbol ?xs)" by simp
  from mset_eq_imp_distinct_iff [OF this] scan_symbols_once [OF assms] show ?thesis
    by (simp add: scan_in_order_rows)
qed

lemma scan_universe_distinct:
  assumes "scan_universe cfg wd = Inr u" "wh_keys (wd_warehouse wd)"
  shows "distinct u"
proof -
  obtain v where v: "resolveUniverse (wd_read wd) (wd_warehouse wd) (cf_Universe cfg) = Inr v"
    and u: "u = (if cf_MaxSymbols cfg > 0 \<and> int (length v) > cf_MaxSymbols cfg then take (nat (cf_MaxSymbols cfg)) v else v)"
    using assms(1) by (auto simp: scan_universe_def bind_res_eq_Inr_iff)
  have "distinct v" using resolved_part [OF v] assms(2) by (auto simp: part_of_def)
  then show ?thesis by (simp add: u)
qed

section \<open>The cache and the table\<close>

definition shows_day :: "live \<Rightarrow> bool" where
  "shows_day s \<longleftrightarrow> sd_activeDate (lv_snap s) = lv_day s \<and>
     filter (on_date (lv_day s)) (rows_of (lv_snap s)) = map (make_row (lv_day s) (lv_day s)) (lv_rows s) \<and>
     lv_flags s = Tier0 (lv_rows s) DefaultTier0 \<and> (lv_sus s, lv_wat s) = Counts (lv_flags s)"

definition cache_ok :: "live \<Rightarrow> bool" where
  "cache_ok s \<longleftrightarrow> snap_ok (lv_snap s) \<and> (lv_rows s \<noteq> [] \<longrightarrow> shows_day s)"

lemma load_day:
  assumes "snap_ok s" "distinct (map r_Symbol rows)"
  obtains d where "Load rows day s = (None, d)" "snap_ok d" "sd_activeDate d = day"
    "filter (on_date day) (rows_of d) = map (make_row day day) rows" "other_dates day d = other_dates day s"
proof
  define d where "d = loaded day (length rows) (set_rows (other_dates day s @ map (make_row day day) rows) s)"
  show load: "Load rows day s = (None, d)"
    using assms(2) by (simp add: Load_is_LoadHistory load_result [OF assms(1)] d_def)
  show "snap_ok d" using load_ok [OF assms(1), of rows day day] load by (simp add: Load_is_LoadHistory)
  show "sd_activeDate d = day" by (simp add: d_def)
  obtain t where t: "sd_table s = Some t" using snap_ok_table [OF assms(1)] by blast
  then have rows: "rows_of d = other_dates day s @ map (make_row day day) rows" by (simp add: d_def)
  show "filter (on_date day) (rows_of d) = map (make_row day day) rows"
    by (simp add: rows other_dates_def filter_map comp_def on_date_def filter_empty_conv)
  show "other_dates day d = other_dates day s"
    by (simp add: other_dates_def [of day d] rows) (simp add: other_dates_def filter_map comp_def on_date_def filter_empty_conv)
qed

lemma scan_result_once:
  assumes "scan_universe cfg wd = Inr u" "wh_keys (wd_warehouse wd)"
  shows "distinct (map r_Symbol (sc_Rows (scan_result_of ln64 cfg wd u)))"
  using scan_rows_once [OF scan_universe_distinct [OF assms]] by (simp add: scan_result_of_def Let_def)

lemma refresh_shows_day:
  assumes "cache_ok s" "wh_keys (wd_warehouse wd)" "Serve.refresh ln64 cfg wd s = (e, s')"
  shows "cache_ok s' \<and> (e = None \<longrightarrow> shows_day s')"
proof (cases "scan_universe cfg wd")
  case (Inl err)
  with assms show ?thesis by (auto simp: Serve.refresh_def)
next
  case (Inr u)
  let ?res = "scan_result_of ln64 cfg wd u"
  have ok: "snap_ok (lv_snap s)" using assms(1) by (simp add: cache_ok_def)
  obtain d where "Load (sc_Rows ?res) (sc_Day ?res) (lv_snap s) = (None, d)" "snap_ok d" "sd_activeDate d = sc_Day ?res"
    "filter (on_date (sc_Day ?res)) (rows_of d) = map (make_row (sc_Day ?res) (sc_Day ?res)) (sc_Rows ?res)"
    using load_day [OF ok scan_result_once [OF Inr assms(2)]] by blast
  with assms(3) Inr show ?thesis
    by (cases "Stats (wd_warehouse wd)") (auto simp: Serve.refresh_def Let_def cache_ok_def shows_day_def)
qed

lemma refreshed_shows_day:
  assumes "cache_ok s" "wh_keys (wd_warehouse wd)" "refreshed ln64 cfg wd forced s = (e, s')"
  shows "cache_ok s' \<and> (e = None \<longrightarrow> shows_day s')"
proof (cases "expired cfg wd s \<or> forced")
  case True
  with assms refresh_shows_day show ?thesis by (auto simp: refreshed_def)
next
  case False
  with assms show ?thesis by (auto simp: refreshed_def expired_def cache_ok_def)
qed

text \<open>What the server is asked: pages, some of them with a forced scan, and previews.\<close>

datatype live_event = PageEvent "study list" "user list" user bool | PreviewEvent study

definition live_step ::
    "'e explain \<Rightarrow> 'e query \<Rightarrow> (float64 \<Rightarrow> float64) \<Rightarrow> serve_config \<Rightarrow> world \<times> live_event \<Rightarrow> live \<Rightarrow> live" where
  "live_step explain query ln64 cfg we s = (case we of
     (wd, PageEvent studies users u forced) \<Rightarrow> snd (modelFor explain query ln64 cfg wd studies users u forced s)
   | (wd, PreviewEvent st) \<Rightarrow> snd (preview explain query ln64 cfg wd st s))"

lemma live_step_ok:
  assumes "cache_ok s" "wh_keys (wd_warehouse (fst we))"
  shows "cache_ok (live_step explain query ln64 cfg we s)"
proof -
  have ok: "cache_ok t" if "refreshed ln64 cfg (fst we) forced s = (e, t)" for forced e t
    using refreshed_shows_day [OF assms that] by blast
  show ?thesis
  proof (cases "snd we")
    case (PageEvent studies users u forced)
    obtain e t where "refreshed ln64 cfg (fst we) forced s = (e, t)" by fastforce
    with ok [OF this] PageEvent show ?thesis
      by (cases we; cases e) (auto simp: live_step_def modelFor_def)
  next
    case (PreviewEvent st)
    obtain e t where "refreshed ln64 cfg (fst we) False s = (e, t)" by fastforce
    with ok [OF this] PreviewEvent show ?thesis
      by (cases we; cases e; cases "Run explain query st (lv_snap t)") (auto simp: live_step_def preview_def)
  qed
qed

lemma live_run_ok:
  "cache_ok s \<Longrightarrow> \<forall>we \<in> set es. wh_keys (wd_warehouse (fst we)) \<Longrightarrow>
   cache_ok (fold (live_step explain query ln64 cfg) es s)"
  by (induction es arbitrary: s) (auto simp: live_step_ok)

definition started :: "snap_db \<Rightarrow> live" where
  "started d = \<lparr>lv_snap = d, lv_rows = [], lv_day = 0, lv_at = 0, lv_flags = [], lv_sus = 0, lv_wat = 0,
     lv_stats = \<lparr>os_PipelineState = [], os_RegistrySymbols = 0, os_EODBars = 0, os_Splits = 0\<rparr>\<rparr>"

lemma at_own_date: "sd_activeDate d = x \<Longrightarrow> at_date x d = d"
  by (simp add: at_date_def)

text \<open>
  C7: a page tells one story. However pages and previews follow each other, and whatever
  the warehouse turns into in between as long as its tables have their keys, a page that
  is served shows a single day: the snapshot table holds for the day on its label exactly
  the rows its breadth and its warnings are computed from, and its sections are the
  accessible studies, in their order, evaluated on the table at that very day.
\<close>

theorem page_shows_one_day:
  assumes "snap_ok d" "\<forall>we \<in> set es. wh_keys (wd_warehouse (fst we))" "wh_keys (wd_warehouse wd)"
    and "modelFor explain query ln64 cfg wd studies users u forced
      (fold (live_step explain query ln64 cfg) es (started d)) = (Inr p, s')"
  shows "\<exists>rows. filter (on_date (di_Day (pm_Digest p))) (rows_of (lv_snap s')) =
      map (make_row (di_Day (pm_Digest p)) (di_Day (pm_Digest p))) rows \<and>
    di_SymbolsScanned (pm_Digest p) = length rows \<and> di_Breadth (pm_Digest p) = ComputeBreadth rows \<and>
    pm_Flags p = Tier0 rows DefaultTier0 \<and> (pm_Suspect p, pm_Watch p) = Counts (pm_Flags p) \<and>
    di_Sections (pm_Digest p) =
      List.map_filter (section_of explain query (at_date (di_Day (pm_Digest p)) (lv_snap s'))) (Accessible studies u)"
proof -
  let ?s = "fold (live_step explain query ln64 cfg) es (started d)"
  have "cache_ok (started d)" using assms(1) by (simp add: cache_ok_def started_def)
  from live_run_ok [OF this assms(2)] have ok: "cache_ok ?s" .
  obtain e t where r: "refreshed ln64 cfg wd forced ?s = (e, t)" by fastforce
  from assms(4) r have e: "e = None" and t: "t = s'" by (auto simp: modelFor_def split: option.splits)
  have day: "shows_day s'" using refreshed_shows_day [OF ok assms(3) r] e t by simp
  have p: "di_Day (pm_Digest p) = lv_day s'" "di_SymbolsScanned (pm_Digest p) = length (lv_rows s')"
    "di_Breadth (pm_Digest p) = ComputeBreadth (lv_rows s')" "pm_Flags p = lv_flags s'"
    "pm_Suspect p = lv_sus s'" "pm_Watch p = lv_wat s'"
    "di_Sections (pm_Digest p) = List.map_filter (section_of explain query (lv_snap s')) (Accessible studies u)"
    using assms(4) by (auto simp: modelFor_def r e t FromStudies_def)
  have "at_date (lv_day s') (lv_snap s') = lv_snap s'" using day by (intro at_own_date) (simp add: shows_day_def)
  with day show ?thesis by (intro exI [of _ "lv_rows s'"]) (simp add: p shows_day_def)
qed

text \<open>A warehouse of one symbol with a bar on two days.\<close>

definition wh_day :: "int \<Rightarrow> wh_bar" where
  "wh_day t = \<lparr>wb_symbol = ''A'', wb_timestamp = t, wb_open = Some (lit 1), wb_high = Some (lit 1), wb_low = Some (lit 1),
     wb_close = Some (lit 1), wb_volume = Some 5, wb_vwap = None, wb_source = Some ''x''\<rparr>"

definition lone_wh :: warehouse where
  "lone_wh = \<lparr>wh_bars = [''adjusted_bars'' \<mapsto> [wh_day 172800, wh_day 86400]],
     wh_state = Some [(''A'', ''SUCCESS'')], wh_symbols = Some [], wh_members = Some [],
     wh_eod_bars = Some 2, wh_split_factors = Some 0, wh_versions = None\<rparr>"

definition lone_world :: world where
  "lone_world = \<lparr>wd_now = 100000000000000, wd_warehouse = lone_wh, wd_read = (\<lambda>_. None)\<rparr>"

definition lone_cfg :: serve_config where
  "lone_cfg = \<lparr>cf_Universe = ''all'', cf_MaxSymbols = 0, cf_LookbackDays = 400, cf_TTL = 60, cf_StudyQuota = 5,
     cf_ResultLimitFree = 20, cf_ResultLimitPro = 100\<rparr>"

lemma lone_wh_keys: "wh_keys lone_wh"
  by (simp add: wh_keys_def lone_wh_def)

lemma Build_dollar_vol:
  "Build ln64 tick bars = Row r \<Longrightarrow>
     r_DollarVol r = DollarVol (map b_Close bars) (map b_Volume bars) ! (length bars - 1)"
  unfolding Build_def Let_def split_beta by (auto split: if_splits option.splits)

lemma lone_volume_number: "\<not> isnan (fmul (lit 1) (of_int64 5))"
  by code_simp

lemma lone_scan: "\<exists>r. sc_Rows (scan_result_of ln64 lone_cfg lone_world [''A'']) = [r]"
proof -
  let ?load = "\<lambda>t. warehouse_loader lone_wh t (unix (wd_now lone_world) - 86400 * cf_LookbackDays lone_cfg)"
  have since: "86400 \<ge> unix (wd_now lone_world) - 86400 * cf_LookbackDays lone_cfg"
    "172800 \<ge> unix (wd_now lone_world) - 86400 * cf_LookbackDays lone_cfg" by code_simp+
  have "bars_surface lone_wh = ''adjusted_bars''" by (simp add: bars_surface_def barsPreference_def lone_wh_def)
  with since obtain a b where b: "?load ''A'' = Some [a, b]" "b_Close a = lit 1" "b_Volume a = 5"
    by (simp add: warehouse_loader_def LoadAdjustedBars_def lone_wh_def wh_day_def table_rows_def scan_bar_def)
  obtain r where r: "Build ln64 ''A'' [a, b] = Row r" using Build_total [of "[a, b]" ln64 "''A''"] by blast
  have "r_DollarVol r = fmul (lit 1) (of_int64 5)"
    using Build_dollar_vol [OF r] b(2,3) by (simp add: DollarVol_def)
  moreover have "fle (lit 0) (fmul (lit 1) (of_int64 5))" by code_simp
  moreover note lone_volume_number
  ultimately have "\<exists>it. scan_symbol ln64 (lit 0) ?load ''A'' = Some it \<and> it_row it = Some r"
    using b(1) r by (simp add: scan_symbol_def)
  then show ?thesis
    by (auto simp: scan_result_of_def Let_def scan_in_order_rows lone_world_def)
qed

lemma lone_universe: "scan_universe lone_cfg lone_world = Inr [''A'']"
  by code_simp

lemma lone_refresh:
  assumes "snap_ok (lv_snap s)"
  shows "\<exists>s'. Serve.refresh ln64 lone_cfg lone_world s = (None, s') \<and> length (lv_rows s') = 1"
proof -
  obtain r where r: "sc_Rows (scan_result_of ln64 lone_cfg lone_world [''A'']) = [r]" using lone_scan by blast
  note u = lone_universe
  obtain st where st: "Stats lone_wh = Inr st" by (simp add: Stats_def lone_wh_def table_rows_def)
  show ?thesis
    by (simp add: Serve.refresh_def u Let_def r Load_is_LoadHistory load_result [OF assms] st) (simp add: lone_world_def st)
qed

theorem page_shows_one_day_witness:
  "\<exists>p s' rows. modelFor (\<lambda>_ _ _. None) date_rows (\<lambda>x. x) lone_cfg lone_world [any_study] [] Global True
      (fold (live_step (\<lambda>_ _ _. None) date_rows (\<lambda>x. x) lone_cfg) [(lone_world, PreviewEvent any_study)]
        (started (Open None))) = (Inr p, s') \<and>
    length rows = 1 \<and> di_Breadth (pm_Digest p) = ComputeBreadth rows \<and>
    filter (on_date (di_Day (pm_Digest p))) (rows_of (lv_snap s')) =
      map (make_row (di_Day (pm_Digest p)) (di_Day (pm_Digest p))) rows"
proof -
  let ?e = "(lone_world, PreviewEvent any_study)"
  let ?s = "fold (live_step (\<lambda>_ _ _. None) date_rows (\<lambda>x. x) lone_cfg) [?e] (started (Open None))"
  have keys: "wh_keys (wd_warehouse lone_world)" using lone_wh_keys by (simp add: lone_world_def)
  then have all: "\<forall>we \<in> set [?e]. wh_keys (wd_warehouse (fst we))" by simp
  have "cache_ok (started (Open None))" by (simp add: cache_ok_def started_def Open_ok)
  from live_run_ok [OF this all] have "snap_ok (lv_snap ?s)" unfolding cache_ok_def by (rule conjunct1)
  from lone_refresh [OF this] obtain s' where s': "Serve.refresh (\<lambda>x. x) lone_cfg lone_world ?s = (None, s')"
    and n: "length (lv_rows s') = 1" by blast
  have "refreshed (\<lambda>x. x) lone_cfg lone_world True ?s = (None, s')" using s' by (simp only: refreshed_def simp_thms if_True)
  then obtain p where m: "modelFor (\<lambda>_ _ _. None) date_rows (\<lambda>x. x) lone_cfg lone_world [any_study] [] Global True ?s = (Inr p, s')"
    and p: "di_SymbolsScanned (pm_Digest p) = length (lv_rows s')"
    by (simp add: modelFor_def FromStudies_def)
  from page_shows_one_day [OF Open_ok all keys m] obtain rows where
    "filter (on_date (di_Day (pm_Digest p))) (rows_of (lv_snap s')) =
       map (make_row (di_Day (pm_Digest p)) (di_Day (pm_Digest p))) rows"
    "di_SymbolsScanned (pm_Digest p) = length rows" "di_Breadth (pm_Digest p) = ComputeBreadth rows" by blast
  with n p m show ?thesis by metis
qed

section \<open>Alerts move the day under the cache\<close>

text \<open>
  The store of the pages is the store the API's alerts select dates in. After the alerts
  of day 200 against day 100, a page from the cache is labelled 200 and counts the rows of
  day 200, and its sections match the symbols of day 100.
\<close>

definition cached_day :: live where
  "cached_day = (started day2)\<lparr>lv_rows := [priced_row ''BBB'' (Fin 20), priced_row ''CCC'' (Fin 30)], lv_day := 200\<rparr>"

definition section_symbols :: "page_model \<Rightarrow> string list list" where
  "section_symbols p = map (\<lambda>se. map m_Symbol (se_Rows se)) (di_Sections (pm_Digest p))"

definition early :: world where
  "early = \<lparr>wd_now = 5, wd_warehouse = lone_wh, wd_read = (\<lambda>_. None)\<rparr>"

lemma cached_page:
  assumes "Run (\<lambda>_ _ _. None) date_rows any_study (at_date e day2) = Inr ms"
  shows "\<exists>p s'. modelFor (\<lambda>_ _ _. None) date_rows ln64 lone_cfg early [any_study] [] Global False
      (cached_day\<lparr>lv_snap := at_date e day2\<rparr>) = (Inr p, s') \<and>
    di_Day (pm_Digest p) = 200 \<and> section_symbols p = [map m_Symbol ms]"
proof -
  have fresh: "\<not> expired lone_cfg early (cached_day\<lparr>lv_snap := at_date e day2\<rparr>)"
    by (simp add: expired_def cached_day_def started_def lone_cfg_def early_def)
  moreover have "Accessible [any_study] Global = [any_study]"
    by (simp add: Accessible_def User_Store.IsAdmin_def Global_def)
  ultimately show ?thesis
    by (simp add: modelFor_def refreshed_def FromStudies_def section_of_def section_symbols_def assms)
      (simp add: cached_day_def)
qed

theorem alerts_mix_days:
  "\<exists>changes d p s'. DetectChanges (\<lambda>_ _ _. None) date_rows any_study 200 100 day2 = (Inr changes, d) \<and>
    modelFor (\<lambda>_ _ _. None) date_rows (\<lambda>x. x) lone_cfg early [any_study] [] Global False
      (cached_day\<lparr>lv_snap := d\<rparr>) = (Inr p, s') \<and>
    di_Day (pm_Digest p) = 200 \<and> section_symbols p = [[''AAA'', ''BBB'']]"
proof -
  obtain a where a: "Run (\<lambda>_ _ _. None) date_rows any_study (at_date 100 day2) = Inr a" "map m_Symbol a = [''AAA'', ''BBB'']"
    using day2_runs(3) by (elim exE conjE)
  obtain b where b: "Run (\<lambda>_ _ _. None) date_rows any_study (at_date 200 day2) = Inr b"
    using day2_runs(4) by (elim exE conjE)
  note act = SetActive_stored [OF day2_runs(2)] SetActive_stored [OF day2_runs(1)]
  note act' = SetActive_stored [OF act(2)] SetActive_stored [OF act(4)]
  obtain changes where c: "DetectChanges (\<lambda>_ _ _. None) date_rows any_study 200 100 day2 = (Inr changes, at_date 100 day2)"
    by (simp add: DetectChanges_def DetectEntries_def DetectExits_def act act' a(1) b)
  from cached_page [OF a(1), of "\<lambda>x. x"] obtain p s' where
    "modelFor (\<lambda>_ _ _. None) date_rows (\<lambda>x. x) lone_cfg early [any_study] [] Global False
      (cached_day\<lparr>lv_snap := at_date 100 day2\<rparr>) = (Inr p, s')"
    "di_Day (pm_Digest p) = 200" "section_symbols p = [map m_Symbol a]" by blast
  with a(2) c show ?thesis by metis
qed

section \<open>The identity of a request\<close>

text \<open>
  With a verifier, the proxy mode knows somebody exactly by a token it verifies; the
  header a client can write is read only without one. Neither asks whether the account
  is disabled.
\<close>

lemma proxy_identity:
  "identify_proxy (Some verify) us jwtHeader userHeader = Some u \<longleftrightarrow>
     (\<exists>tok i. tok = trim_space (trim_prefix jwtHeader ''Bearer '') \<and> tok \<noteq> '''' \<and> verify tok = Some i \<and> i \<noteq> '''' \<and>
        u = (case Find i us of Some x \<Rightarrow> x | None \<Rightarrow> guest i))"
  by (auto simp: identify_proxy_def proxy_id_def Let_def split: option.splits)

lemma panel_for_administrators:
  "fst (requireAdmin now cookie s) = Inr i \<longleftrightarrow>
     (\<exists>tok uid u. cookie = Some tok \<and> fst (get_session now tok (sv_sessions s)) = Some uid \<and>
        find_user uid s = Some u \<and> User_Store.IsAdmin u \<and> u_ID u = i)"
proof (cases cookie)
  case (Some tok)
  obtain r m where g: "get_session now tok (sv_sessions s) = (r, m)" by fastforce
  then show ?thesis
    by (cases r) (auto simp: Some requireAdmin_def validateSession_def split: option.splits)
qed (simp add: requireAdmin_def)

end
