(* ===== verification/Replay.thy ===== *)
theory Replay
  imports Backtest Scanner_Scan Bar_Cache
begin

text \<open>
  \<open>internal/backtest/replay.go\<close>: the scan of the detectors as of a past date, with the
  profit of every signal up to the newest stored snapshot. The bars come from a loader,
  the prices of today from the snapshot table; days are Unix seconds in UTC.
\<close>

section \<open>The replay\<close>

record hist_signal =
  hs_Symbol :: string
  hs_Type :: string
  hs_Date :: int
  hs_Value :: float64
  hs_EntryPx :: float64
  hs_CurrentPx :: float64
  hs_Return :: float64
  hs_MaxProfit :: float64
  hs_MaxLoss :: float64

record scan_summary =
  su_TotalSignals :: nat
  su_Winners :: nat
  su_Losers :: nat
  su_WinRate :: float64
  su_AvgReturn :: float64
  su_TotalReturn :: float64

record replay_result =
  rp_ScanDate :: int
  rp_CurrentDate :: int
  rp_Signals :: "hist_signal list"
  rp_Summary :: scan_summary

datatype replay_error = ListFailed snap_error | NoSnapshots

text \<open>The largest gain and the largest loss over the bars after the scan.\<close>

definition max_high :: "bar list \<Rightarrow> float64" where
  "max_high bs = foldl (\<lambda>m b. if flt m (b_High b) then b_High b else m) (b_High (bs ! 0)) bs"

definition min_low :: "bar list \<Rightarrow> float64" where
  "min_low bs = foldl (\<lambda>m b. if flt (b_Low b) m then b_Low b else m) (b_Low (bs ! 0)) bs"

definition excursion :: "float64 \<Rightarrow> bar list \<Rightarrow> float64 \<times> float64" where
  "excursion entryPx future =
     (if future = [] then (lit 0, lit 0)
      else (fdiv (fsub (max_high future) entryPx) entryPx, fdiv (fsub (min_low future) entryPx) entryPx))"

text \<open>One turn of the loop over a symbol's signals: signals so far, sum, winners, losers.\<close>

type_synonym replay_acc = "hist_signal list \<times> float64 \<times> nat \<times> nat"

definition replay_signal ::
    "snap_db \<Rightarrow> int \<Rightarrow> string \<Rightarrow> float64 \<Rightarrow> bar list \<Rightarrow> replay_acc \<Rightarrow> signal \<Rightarrow> replay_acc" where
  "replay_signal d current tick entryPx future acc sig = (case acc of (signals, totalReturn, winners, losers) \<Rightarrow>
     (case SymbolClose tick current d of
        Inl _ \<Rightarrow> acc
      | Inr currentPx \<Rightarrow>
          let ret = fdiv (fsub currentPx entryPx) entryPx;
              (maxProfit, maxLoss) = excursion entryPx future
          in (signals @ [\<lparr>hs_Symbol = sg_Symbol sig, hs_Type = sg_Type sig, hs_Date = sg_Date sig,
                hs_Value = sg_Value sig, hs_EntryPx = entryPx, hs_CurrentPx = currentPx, hs_Return = ret,
                hs_MaxProfit = maxProfit, hs_MaxLoss = maxLoss\<rparr>],
              fadd totalReturn ret,
              if flt (lit 0) ret then winners + 1 else winners,
              if flt (lit 0) ret then losers else losers + 1)))"

text \<open>The loader is asked for 400 days of history.\<close>

definition history_start :: "int \<Rightarrow> int" where
  "history_start scanDate = scanDate - 86400 * 400"

definition replay_symbol ::
    "bar_loader \<Rightarrow> snap_db \<Rightarrow> int \<Rightarrow> int \<Rightarrow> scan_config \<Rightarrow> string \<Rightarrow> replay_acc \<Rightarrow> replay_acc" where
  "replay_symbol load d current scanDate cfg tick acc =
     (case load tick (history_start scanDate) of
        None \<Rightarrow> acc
      | Some bars \<Rightarrow>
          let historical = filter (\<lambda>b. b_Timestamp b \<le> scanDate) bars;
              future = filter (\<lambda>b. b_Timestamp b > scanDate) bars
          in if historical = [] then acc
             else foldl (replay_signal d current tick (b_Close (historical ! (length historical - 1))) future) acc
                    (Scan tick historical cfg))"

text \<open>\<open>stop k\<close> is what the context answers when it is asked the \<open>k\<close>th time.\<close>

fun replay_loop ::
    "(string \<Rightarrow> replay_acc \<Rightarrow> replay_acc) \<Rightarrow> (nat \<Rightarrow> bool) \<Rightarrow> nat \<Rightarrow> string list \<Rightarrow> replay_acc \<Rightarrow> replay_acc" where
  "replay_loop turn stop k [] acc = acc"
| "replay_loop turn stop k (t # ts) acc = (if stop k then acc else replay_loop turn stop (Suc k) ts (turn t acc))"

definition summary_of :: "replay_acc \<Rightarrow> scan_summary" where
  "summary_of acc = (case acc of (signals, totalReturn, winners, losers) \<Rightarrow>
     \<lparr>su_TotalSignals = length signals, su_Winners = winners, su_Losers = losers,
      su_WinRate = (if signals = [] then lit 0 else fdiv (of_int64 (int winners)) (of_int64 (int (length signals)))),
      su_AvgReturn = (if signals = [] then lit 0 else fdiv totalReturn (of_int64 (int (length signals)))),
      su_TotalReturn = totalReturn\<rparr>)"

definition ReplayHistoricalScan ::
    "bar_loader \<Rightarrow> (nat \<Rightarrow> bool) \<Rightarrow> snap_db \<Rightarrow> string list \<Rightarrow> int \<Rightarrow> scan_config \<Rightarrow> (replay_error, replay_result) result" where
  "ReplayHistoricalScan load stop d symbols scanDate cfg =
     (case ListSnapshots d of
        Inl e \<Rightarrow> Inl (ListFailed e)
      | Inr dates \<Rightarrow>
          if dates = [] then Inl NoSnapshots
          else let acc = replay_loop (replay_symbol load d (dates ! 0) scanDate cfg) stop 0 symbols ([], lit 0, 0, 0)
               in Inr \<lparr>rp_ScanDate = scanDate, rp_CurrentDate = dates ! 0, rp_Signals = fst acc,
                       rp_Summary = summary_of acc\<rparr>)"

section \<open>The future does not decide\<close>

text \<open>What of a signal must not depend on later bars: all but the two excursions.\<close>

definition entry_view :: "hist_signal \<Rightarrow> hist_signal" where
  "entry_view s = s\<lparr>hs_MaxProfit := lit 0, hs_MaxLoss := lit 0\<rparr>"

definition acc_view :: "replay_acc \<Rightarrow> replay_acc" where
  "acc_view acc = (map entry_view (fst acc), snd acc)"

lemma replay_signal_view:
  "acc_view acc = acc_view acc' \<Longrightarrow>
   acc_view (replay_signal d c t px future acc sig) = acc_view (replay_signal d c t px future' acc' sig)"
  by (cases acc; cases acc') (auto simp: acc_view_def replay_signal_def entry_view_def Let_def split: sum.split prod.split)

lemma replay_signals_view:
  "acc_view acc = acc_view acc' \<Longrightarrow>
   acc_view (foldl (replay_signal d c t px future) acc sigs) = acc_view (foldl (replay_signal d c t px future') acc' sigs)"
proof (induction sigs arbitrary: acc acc')
  case (Cons s sigs)
  show ?case using Cons.IH [OF replay_signal_view [OF Cons.prems]] by simp
qed simp

lemma replay_symbol_view:
  assumes "agree_until scanDate load load'" "acc_view acc = acc_view acc'"
  shows "acc_view (replay_symbol load d c scanDate cfg t acc) = acc_view (replay_symbol load' d c scanDate cfg t acc')"
proof -
  have e: "map_option (filter (\<lambda>b. b_Timestamp b \<le> scanDate)) (load t (history_start scanDate)) =
      map_option (filter (\<lambda>b. b_Timestamp b \<le> scanDate)) (load' t (history_start scanDate))"
    using assms(1) by (simp add: agree_until_def)
  show ?thesis
  proof (cases "load t (history_start scanDate)")
    case None
    with e assms(2) show ?thesis by (simp add: replay_symbol_def)
  next
    case (Some bars)
    with e obtain bars' where l: "load' t (history_start scanDate) = Some bars'"
      and f: "filter (\<lambda>b. b_Timestamp b \<le> scanDate) bars = filter (\<lambda>b. b_Timestamp b \<le> scanDate) bars'"
      by (auto simp: map_option_case split: option.splits)
    show ?thesis
      using replay_signals_view [OF assms(2)] assms(2) by (auto simp: replay_symbol_def Some l f Let_def)
  qed
qed

lemma replay_loop_view:
  assumes "\<And>t a b. acc_view a = acc_view b \<Longrightarrow> acc_view (f t a) = acc_view (g t b)" "acc_view a = acc_view b"
  shows "acc_view (replay_loop f stop k ts a) = acc_view (replay_loop g stop k ts b)"
  using assms(2) by (induction ts arbitrary: k a b) (simp_all add: assms(1))

lemma summary_view: "acc_view a = acc_view b \<Longrightarrow> summary_of a = summary_of b"
  by (cases a; cases b) (auto simp: acc_view_def summary_of_def dest: map_eq_imp_length_eq)

text \<open>Of the snapshot store a replay reads the newest date and the closes of that date.\<close>

lemma replay_symbol_store:
  assumes "\<And>t. SymbolClose t c d = SymbolClose t c d'"
  shows "replay_symbol load d c = replay_symbol load d' c"
proof -
  have "replay_signal d c t = replay_signal d' c t" for t by (intro ext) (simp add: replay_signal_def assms)
  then have "replay_signal d c = replay_signal d' c" by (rule ext)
  then show ?thesis unfolding replay_symbol_def by (intro ext) (simp only:)
qed

text \<open>
  C26: what a replay takes from after its date. Let two loaders agree on the bars up to the
  date of the scan, and two snapshot stores have the same newest date and the same closes
  on it. Then a replay gives the same signals, with the same type, value, entry price,
  current price and return, and the same summary, or the same error. So the signals and
  their entries do not look ahead; today's prices, and the returns and summary made of
  them, come from the newest snapshot alone, and bars after the date move nothing but the
  largest gain and loss reported beside a signal, which \<open>entry_view\<close> leaves out.
\<close>

theorem replay_no_lookahead:
  assumes "agree_until scanDate load load'"
    and "map_sum id (take 1) (ListSnapshots d) = map_sum id (take 1) (ListSnapshots d')"
    and "\<And>t c dates. ListSnapshots d = Inr (c # dates) \<Longrightarrow> SymbolClose t c d = SymbolClose t c d'"
  shows "map_sum id (\<lambda>r. r\<lparr>rp_Signals := map entry_view (rp_Signals r)\<rparr>)
      (ReplayHistoricalScan load stop d symbols scanDate cfg) =
    map_sum id (\<lambda>r. r\<lparr>rp_Signals := map entry_view (rp_Signals r)\<rparr>)
      (ReplayHistoricalScan load' stop d' symbols scanDate cfg)"
proof (cases "ListSnapshots d")
  case (Inl e)
  with assms(2) show ?thesis by (cases "ListSnapshots d'") (auto simp: ReplayHistoricalScan_def)
next
  case (Inr dates)
  with assms(2) obtain dates' where l: "ListSnapshots d' = Inr dates'" and t: "take 1 dates = take 1 dates'"
    by (cases "ListSnapshots d'") auto
  show ?thesis
  proof (cases dates)
    case Nil
    with t have "dates' = []" by (cases dates') auto
    with Nil Inr l show ?thesis by (simp add: ReplayHistoricalScan_def)
  next
    case (Cons c rest)
    with t obtain rest' where dates': "dates' = c # rest'" by (cases dates') auto
    have store: "replay_symbol load d c = replay_symbol load d' c" for load
      by (rule replay_symbol_store) (use assms(3) Inr Cons in blast)
    have "acc_view (replay_loop (replay_symbol load d' c scanDate cfg) stop 0 symbols a) =
        acc_view (replay_loop (replay_symbol load' d' c scanDate cfg) stop 0 symbols a)" for a
      by (rule replay_loop_view) (simp_all add: replay_symbol_view [OF assms(1)])
    note same = this summary_view [OF this]
    show ?thesis
      using same Inr l Cons dates' by (auto simp: ReplayHistoricalScan_def Let_def acc_view_def store)
  qed
qed

section \<open>What the summary counts\<close>

definition acc_counts :: "replay_acc \<Rightarrow> bool" where
  "acc_counts acc \<longleftrightarrow> (case acc of (signals, totalReturn, winners, losers) \<Rightarrow>
     winners = length (filter (\<lambda>s. flt (lit 0) (hs_Return s)) signals) \<and> winners + losers = length signals \<and>
     totalReturn = foldl (\<lambda>t s. fadd t (hs_Return s)) (lit 0) signals)"

definition acc_exact :: "bar_loader \<Rightarrow> snap_db \<Rightarrow> int \<Rightarrow> int \<Rightarrow> scan_config \<Rightarrow> hist_signal \<Rightarrow> bool" where
  "acc_exact load d current scanDate cfg s \<longleftrightarrow> (\<exists>t bars hist future sig.
     load t (history_start scanDate) = Some bars \<and> hist = filter (\<lambda>b. b_Timestamp b \<le> scanDate) bars \<and>
     future = filter (\<lambda>b. b_Timestamp b > scanDate) bars \<and>
     sig \<in> set (Scan t hist cfg) \<and> SymbolClose t current d = Inr (hs_CurrentPx s) \<and>
     hs_Symbol s = sg_Symbol sig \<and> hs_Type s = sg_Type sig \<and> hs_Date s = sg_Date sig \<and> hs_Value s = sg_Value sig \<and>
     hs_EntryPx s = b_Close (last hist) \<and>
     hs_Return s = fdiv (fsub (hs_CurrentPx s) (hs_EntryPx s)) (hs_EntryPx s) \<and>
     (hs_MaxProfit s, hs_MaxLoss s) = excursion (hs_EntryPx s) future)"

lemma replay_signal_ok:
  assumes "acc_counts acc" "list_all P (fst acc)"
    and "\<And>px. SymbolClose t c d = Inr px \<Longrightarrow>
      P \<lparr>hs_Symbol = sg_Symbol sig, hs_Type = sg_Type sig, hs_Date = sg_Date sig, hs_Value = sg_Value sig,
         hs_EntryPx = e, hs_CurrentPx = px, hs_Return = fdiv (fsub px e) e,
         hs_MaxProfit = fst (excursion e future), hs_MaxLoss = snd (excursion e future)\<rparr>"
  shows "acc_counts (replay_signal d c t e future acc sig) \<and> list_all P (fst (replay_signal d c t e future acc sig))"
  using assms by (cases acc) (auto simp: acc_counts_def replay_signal_def Let_def split: sum.split prod.split)

lemma replay_symbol_ok:
  assumes "acc_counts acc" "list_all (acc_exact load d c day cfg) (fst acc)"
  shows "acc_counts (replay_symbol load d c day cfg t acc) \<and>
    list_all (acc_exact load d c day cfg) (fst (replay_symbol load d c day cfg t acc))"
proof (cases "load t (history_start day)")
  case (Some bars)
  let ?h = "filter (\<lambda>b. b_Timestamp b \<le> day) bars" and ?f = "filter (\<lambda>b. b_Timestamp b > day) bars"
  have "acc_counts (foldl (replay_signal d c t (b_Close (last ?h)) ?f) acc sigs) \<and>
      list_all (acc_exact load d c day cfg) (fst (foldl (replay_signal d c t (b_Close (last ?h)) ?f) acc sigs))"
    if "set sigs \<subseteq> set (Scan t ?h cfg)" for sigs
    using that assms
  proof (induction sigs arbitrary: acc)
    case (Cons s sigs)
    have "acc_counts (replay_signal d c t (b_Close (last ?h)) ?f acc s) \<and>
        list_all (acc_exact load d c day cfg) (fst (replay_signal d c t (b_Close (last ?h)) ?f acc s))"
      by (rule replay_signal_ok [OF Cons.prems(2,3)])
        (use Cons.prems(1) Some in \<open>auto simp: acc_exact_def\<close>)
    then show ?case using Cons.IH Cons.prems(1) by simp
  qed simp
  from this [of "Scan t ?h cfg"] assms show ?thesis
    by (auto simp: replay_symbol_def Some Let_def last_conv_nth)
qed (use assms in \<open>simp add: replay_symbol_def\<close>)

lemma replay_loop_ok:
  "acc_counts acc \<Longrightarrow> list_all (acc_exact load d c day cfg) (fst acc) \<Longrightarrow>
   acc_counts (replay_loop (replay_symbol load d c day cfg) stop k ts acc) \<and>
   list_all (acc_exact load d c day cfg) (fst (replay_loop (replay_symbol load d c day cfg) stop k ts acc))"
  by (induction ts arbitrary: k acc) (simp_all add: replay_symbol_ok)

text \<open>
  Every signal of a replay is one that \<open>Scan\<close> finds on the bars up to the date, entered
  at the close of the last of them and valued at the close of the newest snapshot, and
  the summary is that of the signals listed: winners are exactly those with a return
  above zero, every other signal is a loser, and the total adds the returns in order.
\<close>

theorem replay_reports_exactly:
  assumes "ReplayHistoricalScan load stop d symbols scanDate cfg = Inr r"
  shows "(\<forall>s \<in> set (rp_Signals r). acc_exact load d (rp_CurrentDate r) scanDate cfg s) \<and>
    (\<exists>dates. ListSnapshots d = Inr dates \<and> dates \<noteq> [] \<and> rp_CurrentDate r = hd dates) \<and>
    su_TotalSignals (rp_Summary r) = length (rp_Signals r) \<and>
    su_Winners (rp_Summary r) = length (filter (\<lambda>s. flt (lit 0) (hs_Return s)) (rp_Signals r)) \<and>
    su_Winners (rp_Summary r) + su_Losers (rp_Summary r) = su_TotalSignals (rp_Summary r) \<and>
    su_TotalReturn (rp_Summary r) = foldl (\<lambda>t s. fadd t (hs_Return s)) (lit 0) (rp_Signals r)"
proof -
  obtain dates where l: "ListSnapshots d = Inr dates" "dates \<noteq> []"
    using assms by (auto simp: ReplayHistoricalScan_def split: sum.splits if_splits)
  let ?a = "replay_loop (replay_symbol load d (dates ! 0) scanDate cfg) stop 0 symbols ([], lit 0, 0, 0)"
  have r: "r = \<lparr>rp_ScanDate = scanDate, rp_CurrentDate = dates ! 0, rp_Signals = fst ?a, rp_Summary = summary_of ?a\<rparr>"
    using assms l by (simp add: ReplayHistoricalScan_def Let_def)
  have "acc_counts ?a \<and> list_all (acc_exact load d (dates ! 0) scanDate cfg) (fst ?a)"
    by (rule replay_loop_ok) (simp_all add: acc_counts_def)
  then show ?thesis using l
    by (cases ?a) (auto simp: r acc_counts_def summary_of_def list_all_iff hd_conv_nth)
qed

section \<open>A replay\<close>

definition bbb_bars :: "string \<Rightarrow> bar list option" where
  "bbb_bars t = (if t = ''BBB'' then Some breakout_bars else None)"

definition low_bars :: scan_config where
  "low_bars = \<lparr>sc_Lookback = 3, sc_VolumeMult = Fin 2, sc_GapPct = Fin (1 / 4)\<rparr>"

theorem replay_no_lookahead_witness:
  "map_sum id (\<lambda>r. r\<lparr>rp_Signals := map entry_view (rp_Signals r)\<rparr>)
      (ReplayHistoricalScan (\<lambda>t since. bbb_bars t) (\<lambda>k. False) day2 [''BBB''] 0 low_bars) =
   map_sum id (\<lambda>r. r\<lparr>rp_Signals := map entry_view (rp_Signals r)\<rparr>)
      (ReplayHistoricalScan (\<lambda>t since. map_option (\<lambda>bs. bs @ [hd bs\<lparr>b_Timestamp := 50\<rparr>]) (bbb_bars t)) (\<lambda>k. False)
         day2 [''BBB''] 0 low_bars)"
  by (rule replay_no_lookahead) (simp_all add: agree_until_def bbb_bars_def)

theorem replay_reports_exactly_witness:
  "\<exists>r. ReplayHistoricalScan (\<lambda>t since. bbb_bars t) (\<lambda>k. False) day2 [''BBB''] 0 low_bars = Inr r \<and>
     su_Winners (rp_Summary r) + su_Losers (rp_Summary r) = length (rp_Signals r)"
proof -
  have "ListSnapshots day2 = Inr (listed day2)" using listed_consistent [OF day2_reachable] by blast
  moreover have "200 \<in> set (listed day2)"
    by (simp add: listed_def day2_rows dates_of_def List.map_filter_def)
  then have "listed day2 \<noteq> []" by auto
  ultimately obtain r where
    r: "ReplayHistoricalScan (\<lambda>t since. bbb_bars t) (\<lambda>k. False) day2 [''BBB''] 0 low_bars = Inr r"
    by (simp add: ReplayHistoricalScan_def Let_def)
  from replay_reports_exactly [OF this] r show ?thesis by auto
qed

end
