(* ===== verification/Command_Line.thy ===== *)
theory Command_Line
  imports Serve_Laws Replay Backfill
begin

text \<open>
  \<open>cmd/scanner/main.go\<close>: the flags and subcommands of the program, and what each of them
  computes and prints, as data. An early \<open>os.Exit\<close> is the left value of a result, with
  its exit code. The files are what \<open>LoadFile\<close> made of them, or \<open>None\<close>; the snapshot store
  is the one \<open>snapshot.Open\<close> returned. The layout of the printed text and the formats of
  its numbers are left out.
\<close>

section \<open>Flags and subcommands\<close>

record flags =
  fl_study :: string
  fl_format :: string
  fl_force :: bool
  fl_date :: string

definition no_flags :: flags where
  "no_flags = \<lparr>fl_study = '''', fl_format = '''', fl_force = False, fl_date = ''''\<rparr>"

text \<open>The loop over \<open>os.Args\<close>, which it shortens while it runs.\<close>

function parse_flags :: "string list \<Rightarrow> nat \<Rightarrow> flags \<Rightarrow> string list \<times> flags" where
  "parse_flags args i f =
     (if i < length args then
        if args ! i = ''--study'' \<and> i + 1 < length args then
          parse_flags (take i args @ drop (i + 2) args) i (f\<lparr>fl_study := args ! (i + 1)\<rparr>)
        else if args ! i = ''--format'' \<and> i + 1 < length args then
          parse_flags (take i args @ drop (i + 2) args) i (f\<lparr>fl_format := args ! (i + 1)\<rparr>)
        else if args ! i = ''--force'' then
          parse_flags (take i args @ drop (i + 1) args) i (f\<lparr>fl_force := True\<rparr>)
        else if args ! i = ''--date'' \<and> i + 1 < length args then
          parse_flags (take i args @ drop (i + 2) args) i (f\<lparr>fl_date := args ! (i + 1)\<rparr>)
        else parse_flags args (i + 1) f
      else (args, f))"
  by pat_completeness auto
termination by (relation "measure (\<lambda>(args, i, _). length args - i)") auto

datatype subcommand =
    CmdScan | CmdDigest | CmdServe | CmdAnomalies | CmdStudies string bool | CmdUsers | CmdBackfill
  | CmdReplay string

definition dispatch :: "string \<Rightarrow> flags \<Rightarrow> (int, subcommand) result" where
  "dispatch cmd f =
     (if cmd = '''' \<or> cmd = ''scan'' then Inr CmdScan
      else if cmd = ''digest'' then Inr CmdDigest
      else if cmd = ''serve'' then Inr CmdServe
      else if cmd = ''anomalies'' then Inr CmdAnomalies
      else if cmd = ''studies'' then Inr (CmdStudies (fl_study f) (fl_force f))
      else if cmd = ''users'' then Inr CmdUsers
      else if cmd = ''backfill'' then Inr CmdBackfill
      else if cmd = ''replay'' then Inr (CmdReplay (fl_date f))
      else Inl 2)"

text \<open>The second result overrides the configured format of studies.\<close>

definition command_line :: "string list \<Rightarrow> (int, subcommand) result \<times> string" where
  "command_line os_args =
     (let (args, f) = parse_flags os_args 1 no_flags
      in (dispatch (if length args > 1 then args ! 1 else '''') f, fl_format f))"

section \<open>Who runs it, and over what\<close>

definition actingUser :: "user_store option \<Rightarrow> string \<Rightarrow> user" where
  "actingUser reg uid = (case (case reg of None \<Rightarrow> None | Some r \<Rightarrow> Find uid r) of
     Some u \<Rightarrow> u
   | None \<Rightarrow> if uid = '''' \<or> uid = GlobalID then Global else guest uid)"

definition runUsers :: "user_store option \<Rightarrow> (int, (string \<times> string \<times> string \<times> string) list) result" where
  "runUsers reg = (case reg of None \<Rightarrow> Inl 1
     | Some r \<Rightarrow> Inr (map (\<lambda>u. (u_ID u, u_Name u, u_Tier u, u_Role u)) (us_all r)))"

definition openUniverse :: "serve_config \<Rightarrow> world \<Rightarrow> (int, string list) result" where
  "openUniverse cfg wd =
     (if CheckSchema (wd_warehouse wd) \<noteq> None then Inl 1
      else case resolveUniverse (wd_read wd) (wd_warehouse wd) (cf_Universe cfg) of
        Inl _ \<Rightarrow> Inl 1
      | Inr u \<Rightarrow> Inr (if cf_MaxSymbols cfg > 0 \<and> int (length u) > cf_MaxSymbols cfg
                      then take (nat (cf_MaxSymbols cfg)) u else u))"

section \<open>The stream of signals\<close>

text \<open>\<open>stop k\<close> is what the context answers when it is asked the \<open>k\<close>th time.\<close>

fun scan_stream ::
    "(string \<Rightarrow> bar list option) \<Rightarrow> scan_config \<Rightarrow> (nat \<Rightarrow> bool) \<Rightarrow> nat \<Rightarrow> string list \<Rightarrow> nat \<times> signal list" where
  "scan_stream load sc stop k [] = (0, [])"
| "scan_stream load sc stop k (t # ts) =
     (if stop k then (0, [])
      else case scan_stream load sc stop (Suc k) ts of (n, sigs) \<Rightarrow>
        (case load t of None \<Rightarrow> (n, sigs) | Some bars \<Rightarrow> (n + 1, Scan t bars sc @ sigs)))"

definition runScan ::
    "serve_config \<Rightarrow> int \<Rightarrow> scan_config \<Rightarrow> world \<Rightarrow> (nat \<Rightarrow> bool) \<Rightarrow> (int, nat \<times> signal list) result" where
  "runScan cfg sinceDays sc wd stop = bind_res (openUniverse cfg wd) (\<lambda>u.
     Inr (scan_stream (\<lambda>t. warehouse_loader (wd_warehouse wd) t (unix (wd_now wd) - 86400 * sinceDays)) sc stop 0 u))"

section \<open>The digest\<close>

datatype build_error = StoreLoadFailed snap_error | StudiesFailed

definition scanAndBuild ::
    "'e explain \<Rightarrow> 'e query \<Rightarrow> (float64 \<Rightarrow> float64) \<Rightarrow> serve_config \<Rightarrow> world \<Rightarrow> string list \<Rightarrow> study list option \<Rightarrow>
     user \<Rightarrow> snap_db \<Rightarrow> (build_error, digest) result \<times> scan_result \<times> snap_db" where
  "scanAndBuild explain query ln64 cfg wd universe studies u snap =
     (let res = scan_result_of ln64 cfg wd universe
      in (case Load (sc_Rows res) (sc_Day res) snap of
            (Some e, d) \<Rightarrow> (Inl (StoreLoadFailed e), res, d)
          | (None, d) \<Rightarrow> (case studies of
              None \<Rightarrow> (Inl StudiesFailed, res, d)
            | Some xs \<Rightarrow> (Inr (FromStudies explain query (sc_Day res) (sc_Rows res) d (Accessible xs u)), res, d))))"

text \<open>The output file is created before its format is checked.\<close>

definition runDigest ::
    "'e explain \<Rightarrow> 'e query \<Rightarrow> (float64 \<Rightarrow> float64) \<Rightarrow> serve_config \<Rightarrow> world \<Rightarrow> study list option \<Rightarrow> user \<Rightarrow>
     bool \<Rightarrow> string \<Rightarrow> snap_db \<Rightarrow> (int, digest) result \<times> snap_db" where
  "runDigest explain query ln64 cfg wd studies u can_create fmt snap =
     (case openUniverse cfg wd of
        Inl code \<Rightarrow> (Inl code, snap)
      | Inr universe \<Rightarrow> (case scanAndBuild explain query ln64 cfg wd universe studies u snap of
          (Inl _, res, d) \<Rightarrow> (Inl 1, d)
        | (Inr dg, res, d) \<Rightarrow>
            (if \<not> can_create then Inl 1
             else if fmt \<in> {''html'', ''text'', ''json''} then Inr dg else Inl 2, d)))"

section \<open>Anomalies\<close>

record anomaly_report =
  an_Day :: int
  an_Suspect :: int
  an_Watch :: int
  an_Scanned :: nat
  an_Flags :: "flag list"

definition runAnomalies ::
    "(float64 \<Rightarrow> float64) \<Rightarrow> serve_config \<Rightarrow> world \<Rightarrow> string \<Rightarrow> (int, anomaly_report) result" where
  "runAnomalies ln64 cfg wd fmt = bind_res (openUniverse cfg wd) (\<lambda>u.
     let res = scan_result_of ln64 cfg wd u; flags = Tier0 (sc_Rows res) DefaultTier0
     in if fmt \<in> {''jsonl'', ''text''}
        then Inr \<lparr>an_Day = sc_Day res, an_Suspect = fst (Counts flags), an_Watch = snd (Counts flags),
                  an_Scanned = length (sc_Rows res), an_Flags = flags\<rparr>
        else Inl 2)"

section \<open>Studies\<close>

text \<open>The date, and the numbers scanned and eligible, which are 0 for a stored snapshot.\<close>

type_synonym snapshot_choice = "int \<times> nat \<times> nat"

definition reuse_snapshot :: "bool \<Rightarrow> snap_db \<Rightarrow> (int, snapshot_choice) result \<times> snap_db" where
  "reuse_snapshot force snap =
     (let dates = (case ListSnapshots snap of Inl _ \<Rightarrow> [] | Inr ds \<Rightarrow> ds)
      in if dates \<noteq> [] \<and> \<not> force
         then (case SetActive (dates ! 0) snap of
                 (Some _, d) \<Rightarrow> (Inl 1, d)
               | (None, d) \<Rightarrow> (Inr (dates ! 0, 0, 0), d))
         else (Inr (0, 0, 0), snap))"

definition scan_snapshot ::
    "(float64 \<Rightarrow> float64) \<Rightarrow> serve_config \<Rightarrow> world \<Rightarrow> snap_db \<Rightarrow> (int, snapshot_choice) result \<times> snap_db" where
  "scan_snapshot ln64 cfg wd snap = (case openUniverse cfg wd of
     Inl code \<Rightarrow> (Inl code, snap)
   | Inr u \<Rightarrow>
       let res = scan_result_of ln64 cfg wd u
       in (case Load (sc_Rows res) (sc_Day res) snap of
             (Some _, d) \<Rightarrow> (Inl 1, d)
           | (None, d) \<Rightarrow> (Inr (sc_Day res, sc_Scanned res, length (sc_Rows res)), d)))"

definition choose_snapshot ::
    "(float64 \<Rightarrow> float64) \<Rightarrow> serve_config \<Rightarrow> world \<Rightarrow> bool \<Rightarrow> snap_db \<Rightarrow> (int, snapshot_choice) result \<times> snap_db" where
  "choose_snapshot ln64 cfg wd force snap = (case reuse_snapshot force snap of
     (Inl code, d) \<Rightarrow> (Inl code, d)
   | (Inr (date, n, m), d) \<Rightarrow> if date = 0 then scan_snapshot ln64 cfg wd d else (Inr (date, n, m), d))"

text \<open>The studies that run, with their matches; the others are logged and left out.\<close>

definition run_studies :: "'e explain \<Rightarrow> 'e query \<Rightarrow> snap_db \<Rightarrow> study list \<Rightarrow> (study \<times> match list) list" where
  "run_studies explain query d studies = List.map_filter (\<lambda>s. case Run explain query s d of
     Inl _ \<Rightarrow> None | Inr ms \<Rightarrow> Some (s, ms)) studies"

datatype studies_output =
    StudyLines "(string \<times> string \<times> match) list"
  | StudyJSON "(study \<times> nat \<times> match list) list"
  | StudyCSV "(string \<times> string \<times> string \<times> string \<times> match) list"
  | StudyText "(study \<times> match list) list"

definition studies_output :: "string \<Rightarrow> (study \<times> match list) list \<Rightarrow> (int, studies_output) result" where
  "studies_output fmt rs =
     (if fmt = ''jsonl'' then
        Inr (StudyLines (concat (map (\<lambda>(s, ms). map (\<lambda>m. (st_Owner s, st_Key s, m)) ms) rs)))
      else if fmt = ''json'' then Inr (StudyJSON (map (\<lambda>(s, ms). (s, length ms, ms)) rs))
      else if fmt = ''csv'' then
        Inr (StudyCSV (concat (map (\<lambda>(s, ms). map (\<lambda>m. (st_Key s, st_Title s, st_Owner s, st_Tier s, m)) ms) rs)))
      else if fmt = ''text'' then Inr (StudyText rs)
      else Inl 2)"

record studies_header =
  sh_User :: string
  sh_Tier :: string
  sh_Date :: int
  sh_Scanned :: nat
  sh_Eligible :: nat
  sh_Loaded :: nat
  sh_Run :: nat

definition runStudies ::
    "'e explain \<Rightarrow> 'e query \<Rightarrow> (float64 \<Rightarrow> float64) \<Rightarrow> serve_config \<Rightarrow> world \<Rightarrow> study list option \<Rightarrow> user \<Rightarrow>
     bool \<Rightarrow> string \<Rightarrow> snap_db \<Rightarrow> (int, studies_header \<times> studies_output) result \<times> snap_db" where
  "runStudies explain query ln64 cfg wd studies u force fmt snap = (case studies of
     None \<Rightarrow> (Inl 1, snap)
   | Some loaded_studies \<Rightarrow>
       let xs = Accessible loaded_studies u
       in (case choose_snapshot ln64 cfg wd force snap of
             (Inl code, d) \<Rightarrow> (Inl code, d)
           | (Inr (date, n, m), d) \<Rightarrow>
               (bind_res (studies_output fmt (run_studies explain query d xs)) (\<lambda>out.
                  Inr (\<lparr>sh_User = u_ID u, sh_Tier = u_Tier u, sh_Date = date, sh_Scanned = n, sh_Eligible = m,
                        sh_Loaded = length loaded_studies, sh_Run = length xs\<rparr>, out)), d)))"

section \<open>Backfill and replay\<close>

definition cli_backfill_opts :: "int \<Rightarrow> int \<Rightarrow> backfill_opts" where
  "cli_backfill_opts days keep = \<lparr>bo_Days = days, bo_KeepDays = keep, bo_MinDollarVol = lit 0, bo_SkipExisting = False,
     bo_EndDate = '''', bo_StartDate = ''''\<rparr>"

text \<open>What is logged at the end: the days written, the dates stored, the oldest and the newest.\<close>

definition runBackfill ::
    "(float64 \<Rightarrow> float64) \<Rightarrow> serve_config \<Rightarrow> world \<Rightarrow> (nat \<Rightarrow> bool) \<Rightarrow> (nat \<Rightarrow> bool) \<Rightarrow> string \<Rightarrow> int \<Rightarrow> int \<Rightarrow>
     snap_db \<Rightarrow> (int, nat \<times> nat \<times> (int \<times> int) option) result \<times> snap_db" where
  "runBackfill ln64 cfg wd stopLoad stop storeDB days keep snap =
     (if storeDB = '''' \<or> storeDB = '':memory:'' then (Inl 1, snap)
      else if days \<le> 0 then (Inl 1, snap)
      else (case openUniverse cfg wd of
        Inl code \<Rightarrow> (Inl code, snap)
      | Inr u \<Rightarrow> (case BackfillSnapshots ln64 (warehouse_loader (wd_warehouse wd)) stopLoad stop (unix (wd_now wd))
              (case LatestBarDate (wd_warehouse wd) of Inl _ \<Rightarrow> None | Inr t \<Rightarrow> Some t) u (cli_backfill_opts days keep) snap of
            ((n, Some _), d) \<Rightarrow> (Inl 1, d)
          | ((n, None), d) \<Rightarrow>
              let dates = (case ListSnapshots d of Inl _ \<Rightarrow> [] | Inr ds \<Rightarrow> ds)
              in (Inr (n, length dates, if dates = [] then None else Some (last dates, hd dates)), d))))"

text \<open>The signals by type, which are printed in the order of a Go map.\<close>

definition byType :: "hist_signal list \<Rightarrow> string \<Rightarrow> hist_signal list option" where
  "byType sigs = foldl (\<lambda>m g. m(hs_Type g \<mapsto> (case m (hs_Type g) of None \<Rightarrow> [] | Some gs \<Rightarrow> gs) @ [g])) Map.empty sigs"

definition runReplay ::
    "serve_config \<Rightarrow> scan_config \<Rightarrow> world \<Rightarrow> (nat \<Rightarrow> bool) \<Rightarrow> string \<Rightarrow> snap_db \<Rightarrow>
     (int, replay_result \<times> (string \<Rightarrow> hist_signal list option)) result" where
  "runReplay cfg sc wd stop date snap =
     (if date = '''' then Inl 1
      else case parse_day date of
        None \<Rightarrow> Inl 1
      | Some day \<Rightarrow> bind_res (openUniverse cfg wd) (\<lambda>u.
          case ReplayHistoricalScan (warehouse_loader (wd_warehouse wd)) stop snap u day sc of
            Inl _ \<Rightarrow> Inl 1
          | Inr r \<Rightarrow> Inr (r, byType (rp_Signals r))))"

end
