(* ===== verification/Command_Line_Laws.thy ===== *)
theory Command_Line_Laws
  imports Command_Line
begin

text \<open>
  The command line against the server: the flags are taken out wherever they stand, the
  digest is the digest of the page, and a run of studies shows one stored day.
\<close>

section \<open>Flags stand anywhere\<close>

fun strip_flags :: "string list \<Rightarrow> flags \<Rightarrow> string list \<times> flags" where
  "strip_flags (x # v # xs) f =
     (if x = ''--study'' then strip_flags xs (f\<lparr>fl_study := v\<rparr>)
      else if x = ''--format'' then strip_flags xs (f\<lparr>fl_format := v\<rparr>)
      else if x = ''--force'' then strip_flags (v # xs) (f\<lparr>fl_force := True\<rparr>)
      else if x = ''--date'' then strip_flags xs (f\<lparr>fl_date := v\<rparr>)
      else (case strip_flags (v # xs) f of (ys, g) \<Rightarrow> (x # ys, g)))"
| "strip_flags [x] f = (if x = ''--force'' then ([], f\<lparr>fl_force := True\<rparr>) else ([x], f))"
| "strip_flags [] f = ([], f)"

declare parse_flags.simps [simp del]

lemma parse_flags_strip:
  "parse_flags (pre @ xs) (length pre) f = (case strip_flags xs f of (ys, g) \<Rightarrow> (pre @ ys, g))"
proof (induction xs f arbitrary: pre rule: strip_flags.induct)
  case (1 x v xs f)
  show ?case
  proof (cases "x \<in> {''--study'', ''--format'', ''--force'', ''--date''}")
    case True
    with 1 show ?thesis by (subst parse_flags.simps) (auto simp: nth_append)
  next
    case False
    with 1(5) [of "pre @ [x]"] show ?thesis by (subst parse_flags.simps) (auto simp: nth_append split: prod.splits)
  qed
next
  case (2 x f)
  have "parse_flags (pre @ [x]) (length (pre @ [x])) f = (pre @ [x], f)" by (subst parse_flags.simps) simp
  moreover have "parse_flags pre (length pre) g = (pre, g)" for g by (subst parse_flags.simps) simp
  ultimately show ?case by (subst parse_flags.simps) (simp add: nth_append)
next
  case (3 f)
  show ?case by (subst parse_flags.simps) simp
qed

lemma command_line_strip:
  "command_line (prog # xs) = (case strip_flags xs no_flags of (ys, f) \<Rightarrow>
     (dispatch (case ys of [] \<Rightarrow> '''' | y # _ \<Rightarrow> y) f, fl_format f))"
  using parse_flags_strip [of "[prog]" xs no_flags]
  by (auto simp: command_line_def split: prod.splits list.splits)

section \<open>The digest is the page\<close>

lemma bind_open:
  "openUniverse cfg wd = Inr u \<longleftrightarrow> CheckSchema (wd_warehouse wd) = None \<and> scan_universe cfg wd = Inr u"
  by (auto simp: openUniverse_def scan_universe_def bind_res_eq_Inr_iff split: sum.splits option.splits)

text \<open>
  C9: the command line and the server report the same. On the same warehouse, time and
  studies, the digest that \<open>digest\<close> prints for a user is the digest on the page the server
  shows this user after a scan, and both leave the same snapshot table.
\<close>

theorem digest_is_page:
  assumes "runDigest explain query ln64 cfg wd (Some studies) u can_create fmt (lv_snap s) = (Inr dg, d)"
    and "modelFor explain query ln64 cfg wd studies users u True s = (Inr p, s')"
  shows "pm_Digest p = dg \<and> lv_snap s' = d \<and> CheckSchema (wd_warehouse wd) = None"
proof -
  obtain un where un: "openUniverse cfg wd = Inr un"
    using assms(1) by (auto simp: runDigest_def split: sum.splits)
  then have su: "scan_universe cfg wd = Inr un" and schema: "CheckSchema (wd_warehouse wd) = None"
    by (simp_all add: bind_open)
  let ?res = "scan_result_of ln64 cfg wd un"
  obtain e0 d' where load0: "Load (sc_Rows ?res) (sc_Day ?res) (lv_snap s) = (e0, d')" by fastforce
  have load: "Load (sc_Rows ?res) (sc_Day ?res) (lv_snap s) = (None, d')"
    and dg: "dg = FromStudies explain query (sc_Day ?res) (sc_Rows ?res) d' (Accessible studies u)" "d = d'"
    using assms(1) load0 by (cases e0; simp add: runDigest_def un scanAndBuild_def Let_def split: if_splits)+
  obtain e t where r: "Serve.refresh ln64 cfg wd s = (e, t)" by fastforce
  with assms(2) have e: "e = None" "t = s'"
    and p: "pm_Digest p = FromStudies explain query (lv_day s') (lv_rows s') (lv_snap s') (Accessible studies u)"
    by (auto simp: modelFor_def refreshed_def split: option.splits)
  from r e have "lv_day s' = sc_Day ?res \<and> lv_rows s' = sc_Rows ?res \<and> lv_snap s' = d'"
    by (cases "Stats (wd_warehouse wd)") (auto simp: Serve.refresh_def Let_def su load)
  with p dg schema show ?thesis by simp
qed

section \<open>A run of studies shows one day\<close>

lemma reuse_picks:
  assumes "snap_ok d0"
  shows "\<exists>x. reuse_snapshot force d0 =
      (Inr (if force \<or> listed d0 = [] then 0 else hd (listed d0), 0, 0), x) \<and> snap_ok x \<and> rows_of x = rows_of d0 \<and>
      (\<not> (force \<or> listed d0 = []) \<longrightarrow> sd_activeDate x = hd (listed d0))"
proof -
  obtain t where t: "sd_table d0 = Some t" "tb_rows t = rows_of d0" using snap_ok_table [OF assms] by blast
  then have dates: "ListSnapshots d0 = Inr (listed d0)" using readers(3) [of d0] by (simp add: listed_def)
  show ?thesis
  proof (cases "force \<or> listed d0 = []")
    case False
    then have "hd (listed d0) \<in> set (listed d0)" by simp
    then have "SetActive (hd (listed d0)) d0 = (None, at_date (hd (listed d0)) d0)"
      using t by (simp add: SetActive_def listed_facts(2) count_date_pos at_date_def)
    moreover have "snap_ok (at_date x d0)" for x using assms by (simp add: snap_ok_def)
    ultimately show ?thesis using False dates by (simp add: reuse_snapshot_def hd_conv_nth Let_def)
  qed (use assms dates in \<open>auto simp: reuse_snapshot_def\<close>)
qed

text \<open>
  C8: the day of a run of studies. On a sound table the studies that run are the user's
  accessible ones, on the rows of the day the header names. When something is stored and
  \<open>--force\<close> is not given, that day is the newest stored one, however old it is (the code
  does not check the 24 hours its comment speaks of), and nothing is written; the one
  exception is a newest day of Unix time 0, which the code takes for no snapshot. In this
  case, with \<open>--force\<close> or on an empty table it is the day of a scan of the configured
  universe, whose rows replace those stored for this day and no others.
\<close>

theorem studies_show_one_day:
  assumes "snap_ok d0" "wh_keys (wd_warehouse wd)"
    and "runStudies explain query ln64 cfg wd (Some studies) u force fmt d0 = (Inr (h, out), d)"
  shows "studies_output fmt (run_studies explain query (at_date (sh_Date h) d) (Accessible studies u)) = Inr out \<and>
    (if force \<or> listed d0 = [] \<or> hd (listed d0) = 0
     then \<exists>un. openUniverse cfg wd = Inr un \<and> sh_Date h = sc_Day (scan_result_of ln64 cfg wd un) \<and>
       sh_Eligible h = length (sc_Rows (scan_result_of ln64 cfg wd un)) \<and>
       filter (on_date (sh_Date h)) (rows_of d) =
         map (make_row (sh_Date h) (sh_Date h)) (sc_Rows (scan_result_of ln64 cfg wd un)) \<and>
       other_dates (sh_Date h) d = other_dates (sh_Date h) d0
     else sh_Date h = hd (listed d0) \<and> rows_of d = rows_of d0)"
proof -
  obtain date n m where c: "choose_snapshot ln64 cfg wd force d0 = (Inr (date, n, m), d)"
    and out: "studies_output fmt (run_studies explain query d (Accessible studies u)) = Inr out"
    and h: "sh_Date h = date" "sh_Eligible h = m"
    using assms(3) by (auto simp: runStudies_def Let_def bind_res_eq_Inr_iff split: prod.splits sum.splits)
  let ?fresh = "force \<or> listed d0 = [] \<or> hd (listed d0) = 0"
  from reuse_picks [OF assms(1), of force]
  obtain x where x: "reuse_snapshot force d0 = (Inr (if force \<or> listed d0 = [] then 0 else hd (listed d0), 0, 0), x)"
    "snap_ok x" "rows_of x = rows_of d0" "\<not> ?fresh \<longrightarrow> sd_activeDate x = hd (listed d0)" by auto
  show ?thesis
  proof (cases ?fresh)
    case True
    with x(1) c have scan: "scan_snapshot ln64 cfg wd x = (Inr (date, n, m), d)"
      by (auto simp: choose_snapshot_def split: if_splits)
    then obtain un where un: "openUniverse cfg wd = Inr un" by (cases "openUniverse cfg wd") (simp_all add: scan_snapshot_def)
    let ?res = "scan_result_of ln64 cfg wd un"
    have "scan_universe cfg wd = Inr un" using un by (simp add: bind_open)
    from load_day [OF x(2) scan_result_once [OF this assms(2)]]
    obtain d' where d': "Load (sc_Rows ?res) (sc_Day ?res) x = (None, d')" "sd_activeDate d' = sc_Day ?res"
      "filter (on_date (sc_Day ?res)) (rows_of d') = map (make_row (sc_Day ?res) (sc_Day ?res)) (sc_Rows ?res)"
      "other_dates (sc_Day ?res) d' = other_dates (sc_Day ?res) x" by blast
    from scan un d'(1) have eqs: "date = sc_Day ?res" "m = length (sc_Rows ?res)" "d = d'"
      by (simp_all add: scan_snapshot_def Let_def)
    have "at_date (sh_Date h) d = d" using d'(2) eqs h by (intro at_own_date) simp
    moreover have "other_dates e x = other_dates e d0" for e by (simp add: other_dates_def x(3))
    ultimately show ?thesis using True out un d'(3,4) eqs h by auto
  next
    case False
    with x(1) c have "date = hd (listed d0)" "d = x" by (auto simp: choose_snapshot_def)
    with False x(3,4) out h show ?thesis by (simp add: at_own_date)
  qed
qed

section \<open>Thin names\<close>

text \<open>
  The comment says that every row is kept, for the thin names are what the report is
  after. A symbol with a single bar has no dollar volume, fails the floor of 0 and is
  never reported.
\<close>

theorem single_bar_not_scanned:
  assumes "load t = Some [b]"
  shows "scan_symbol ln64 m load t = Some \<lparr>it_row = None, it_ts = b_Timestamp b\<rparr>"
proof -
  obtain r where r: "Build ln64 t [b] = Row r" using Build_total [of "[b]" ln64 t] by blast
  then have "r_DollarVol r = NaN" using Build_dollar_vol [OF r] by (simp add: DollarVol_def)
  with r assms show ?thesis by (simp add: scan_symbol_def)
qed

section \<open>On the small warehouse\<close>

lemma lone_open: "openUniverse lone_cfg lone_world = Inr [''A'']"
proof -
  have "CheckSchema (wd_warehouse lone_world) = None" by code_simp
  with lone_universe show ?thesis by (simp add: bind_open)
qed

theorem digest_is_page_witness:
  "\<exists>dg d p s'. runDigest (\<lambda>_ _ _. None) date_rows (\<lambda>x. x) lone_cfg lone_world (Some [any_study]) Global True ''json''
      (Open None) = (Inr dg, d) \<and>
    modelFor (\<lambda>_ _ _. None) date_rows (\<lambda>x. x) lone_cfg lone_world [any_study] [] Global True (started (Open None)) = (Inr p, s') \<and>
    pm_Digest p = dg \<and> di_SymbolsScanned dg = 1"
proof -
  let ?s = "started (Open None)"
  have snap: "lv_snap ?s = Open None" by (simp add: started_def)
  have ok: "snap_ok (lv_snap ?s)" by (simp add: snap Open_ok)
  from lone_refresh [OF ok] obtain s' where r: "Serve.refresh (\<lambda>x. x) lone_cfg lone_world ?s = (None, s')"
    and n: "length (lv_rows s') = 1" by blast
  have "refreshed (\<lambda>x. x) lone_cfg lone_world True ?s = (None, s')" using r by (simp only: refreshed_def simp_thms if_True)
  then obtain p where m: "modelFor (\<lambda>_ _ _. None) date_rows (\<lambda>x. x) lone_cfg lone_world [any_study] [] Global True ?s = (Inr p, s')"
    and p: "di_SymbolsScanned (pm_Digest p) = length (lv_rows s')"
    by (simp add: modelFor_def FromStudies_def)
  let ?res = "scan_result_of (\<lambda>x. x) lone_cfg lone_world [''A'']"
  obtain row where row: "sc_Rows ?res = [row]" using lone_scan by blast
  obtain dg d where dg: "runDigest (\<lambda>_ _ _. None) date_rows (\<lambda>x. x) lone_cfg lone_world (Some [any_study]) Global True ''json''
      (lv_snap ?s) = (Inr dg, d)"
    by (simp add: runDigest_def scanAndBuild_def lone_open Let_def row Load_is_LoadHistory load_result [OF ok])
  from digest_is_page [OF dg m] p n dg m snap show ?thesis by auto
qed

theorem studies_show_one_day_witness:
  "\<exists>h out d. runStudies (\<lambda>_ _ _. None) date_rows (\<lambda>x. x) lone_cfg lone_world (Some [any_study]) Global False ''jsonl'' day2 =
      (Inr (h, out), d) \<and>
    sh_Date h = 200 \<and> rows_of d = rows_of day2"
proof -
  have ok: "snap_ok day2" by (rule reachable_ok [OF day2_reachable])
  have keys: "wh_keys (wd_warehouse lone_world)" using lone_wh_keys by (simp add: lone_world_def)
  have listed: "listed day2 = [200, 100]"
    by (simp add: listed_def day2_rows two_rows_def dates_of_def List.map_filter_def)
  obtain t where t: "sd_table day2 = Some t" using day2_table by blast
  then have dates: "ListSnapshots day2 = Inr [200, 100]" using readers(3) [of day2] listed by (simp add: listed_def)
  have "SetActive 200 day2 = (None, at_date 200 day2)" by (rule SetActive_stored(1) [OF day2_runs(2)])
  then have "reuse_snapshot False day2 = (Inr (200, 0, 0), at_date 200 day2)" by (simp add: reuse_snapshot_def dates Let_def)
  then have "choose_snapshot (\<lambda>x. x) lone_cfg lone_world False day2 = (Inr (200, 0, 0), at_date 200 day2)"
    by (simp add: choose_snapshot_def)
  then obtain h out where r: "runStudies (\<lambda>_ _ _. None) date_rows (\<lambda>x. x) lone_cfg lone_world (Some [any_study]) Global False
      ''jsonl'' day2 = (Inr (h, out), at_date 200 day2)"
    by (simp add: runStudies_def Let_def studies_output_def)
  from studies_show_one_day [OF ok keys r] listed r show ?thesis by auto
qed

end
