(* ===== verification/Feature_Catalog.thy ===== *)
theory Feature_Catalog
  imports Snapshot Study_Registry Api "HOL-Library.Multiset"
begin

text \<open>
  \<open>internal/features\<close>: the catalogue of documented snapshot fields, generated
  literal by literal from \<open>features.go\<close>, its lookups, and the handlers of \<open>internal/api/features.go\<close>
  that serve them. Texts are bytes. Compared below with the columns of the snapshot table and with the
  vocabulary of the study editor.
\<close>

section \<open>The catalogue\<close>

record feature_doc =
  fd_ID :: string
  fd_Name :: string
  fd_ShortDesc :: string
  fd_LongDesc :: string
  fd_Category :: string
  fd_DataType :: string
  fd_Sortable :: bool
  fd_WikiURL :: string

definition CategoryTrend :: string where "CategoryTrend = ''trend''"
definition CategoryMomentum :: string where "CategoryMomentum = ''momentum''"
definition CategoryVolatility :: string where "CategoryVolatility = ''volatility''"
definition CategoryPriceStruct :: string where "CategoryPriceStruct = ''price_structure''"
definition CategoryReturns :: string where "CategoryReturns = ''returns''"
definition CategoryVolume :: string where "CategoryVolume = ''volume''"
definition CategoryPrice :: string where "CategoryPrice = ''price''"

text \<open>Price (OHLCV).\<close>

definition price_docs :: "feature_doc list" where
  "price_docs = [
    \<lparr>fd_ID = ''open'',
      fd_Name = ''Open'',
      fd_ShortDesc = ''First traded price of the session (split-adjusted)'',
      fd_LongDesc = ''The first traded price of the trading session, split-adjusted. Used in gap calculations and '' @
        ''candlestick patterns.'',
      fd_Category = CategoryPrice,
      fd_DataType = ''price'',
      fd_Sortable = True,
      fd_WikiURL = ''https://www.investopedia.com/terms/o/openprice.asp''\<rparr>,
    \<lparr>fd_ID = ''high'',
      fd_Name = ''High'',
      fd_ShortDesc = ''Highest price during the session (split-adjusted)'',
      fd_LongDesc = ''The highest traded price during the session, split-adjusted. Used in volatility calculations and '' @
        ''breakout detection.'',
      fd_Category = CategoryPrice,
      fd_DataType = ''price'',
      fd_Sortable = True,
      fd_WikiURL = ''https://www.investopedia.com/terms/h/high.asp''\<rparr>,
    \<lparr>fd_ID = ''low'',
      fd_Name = ''Low'',
      fd_ShortDesc = ''Lowest price during the session (split-adjusted)'',
      fd_LongDesc = ''The lowest traded price during the session, split-adjusted. Used in support level identification '' @
        ''and volatility calculations.'',
      fd_Category = CategoryPrice,
      fd_DataType = ''price'',
      fd_Sortable = True,
      fd_WikiURL = ''https://www.investopedia.com/terms/l/low.asp''\<rparr>,
    \<lparr>fd_ID = ''close'',
      fd_Name = ''Close'',
      fd_ShortDesc = ''Last traded price of the session (split-adjusted)'',
      fd_LongDesc = ''The final traded price of the session, split-adjusted. Most commonly used price for technical '' @
        ''analysis and indicator calculations.'',
      fd_Category = CategoryPrice,
      fd_DataType = ''price'',
      fd_Sortable = True,
      fd_WikiURL = ''https://www.investopedia.com/terms/c/closingprice.asp''\<rparr>,
    \<lparr>fd_ID = ''volume'',
      fd_Name = ''Volume'',
      fd_ShortDesc = ''Shares traded during the session'',
      fd_LongDesc = ''Number of shares traded during the session. Note: free-tier IEX volume is a fraction of '' @
        ''consolidated volume. Use dollar_vol for more reliable metrics.'',
      fd_Category = CategoryVolume,
      fd_DataType = ''volume'',
      fd_Sortable = True,
      fd_WikiURL = ''https://www.investopedia.com/terms/v/volume.asp''\<rparr>]"

text \<open>Trend - Simple Moving Averages.\<close>

definition sma_docs :: "feature_doc list" where
  "sma_docs = [
    \<lparr>fd_ID = ''sma5'',
      fd_Name = ''SMA 5'',
      fd_ShortDesc = ''5-day average price - very short-term trend'',
      fd_LongDesc = ''The 5-day simple moving average of closing prices. Very short-term trend indicator. Useful for '' @
        ''scalping and very short-term momentum.'',
      fd_Category = CategoryTrend,
      fd_DataType = ''price'',
      fd_Sortable = True,
      fd_WikiURL = ''https://www.investopedia.com/terms/s/sma.asp''\<rparr>,
    \<lparr>fd_ID = ''sma10'',
      fd_Name = ''SMA 10'',
      fd_ShortDesc = ''10-day average price - short-term trend'',
      fd_LongDesc = ''The 10-day simple moving average of closing prices. Short-term trend indicator. Often used for '' @
        ''swing trading signals.'',
      fd_Category = CategoryTrend,
      fd_DataType = ''price'',
      fd_Sortable = True,
      fd_WikiURL = ''https://www.investopedia.com/terms/s/sma.asp''\<rparr>,
    \<lparr>fd_ID = ''sma20'',
      fd_Name = ''SMA 20'',
      fd_ShortDesc = ''20-day average price - short/medium trend'',
      fd_LongDesc = ''The 20-day simple moving average of closing prices. Short-to-medium term trend indicator. Often '' @
        ''used as dynamic support/resistance and in Bollinger Bands.'',
      fd_Category = CategoryTrend,
      fd_DataType = ''price'',
      fd_Sortable = True,
      fd_WikiURL = ''https://www.investopedia.com/terms/s/sma.asp''\<rparr>,
    \<lparr>fd_ID = ''sma30'',
      fd_Name = ''SMA 30'',
      fd_ShortDesc = ''30-day average price - medium-term trend'',
      fd_LongDesc = ''The 30-day simple moving average of closing prices. Medium-term trend indicator. Less common than '' @
        ''SMA20 or SMA50.'',
      fd_Category = CategoryTrend,
      fd_DataType = ''price'',
      fd_Sortable = True,
      fd_WikiURL = ''https://www.investopedia.com/terms/s/sma.asp''\<rparr>,
    \<lparr>fd_ID = ''sma50'',
      fd_Name = ''SMA 50'',
      fd_ShortDesc = ''50-day average price - medium-term trend'',
      fd_LongDesc = ''The 50-day simple moving average of closing prices. Medium-term trend indicator. Golden cross = '' @
        ''SMA50 crosses above SMA200 (bullish signal).'',
      fd_Category = CategoryTrend,
      fd_DataType = ''price'',
      fd_Sortable = True,
      fd_WikiURL = ''https://www.investopedia.com/terms/s/sma.asp''\<rparr>,
    \<lparr>fd_ID = ''sma100'',
      fd_Name = ''SMA 100'',
      fd_ShortDesc = ''100-day average price - medium/long trend'',
      fd_LongDesc = ''The 100-day simple moving average of closing prices. Medium-to-long term trend indicator. Less '' @
        ''commonly watched than SMA50 or SMA200.'',
      fd_Category = CategoryTrend,
      fd_DataType = ''price'',
      fd_Sortable = True,
      fd_WikiURL = ''https://www.investopedia.com/terms/s/sma.asp''\<rparr>,
    \<lparr>fd_ID = ''sma200'',
      fd_Name = ''SMA 200'',
      fd_ShortDesc = ''200-day average price - long-term trend'',
      fd_LongDesc = ''The 200-day simple moving average of closing prices. The most widely watched long-term trend '' @
        ''indicator. Price above SMA200 = bullish trend, below = bearish.'',
      fd_Category = CategoryTrend,
      fd_DataType = ''price'',
      fd_Sortable = True,
      fd_WikiURL = ''https://www.investopedia.com/terms/s/sma.asp''\<rparr>]"

text \<open>Trend - Exponential Moving Averages.\<close>

definition ema_docs :: "feature_doc list" where
  "ema_docs = [
    \<lparr>fd_ID = ''ema10'',
      fd_Name = ''EMA 10'',
      fd_ShortDesc = ''10-day weighted average - faster than SMA'',
      fd_LongDesc = ''The 10-day exponential moving average. More responsive to recent prices than SMA. Good for '' @
        ''short-term trend following.'',
      fd_Category = CategoryTrend,
      fd_DataType = ''price'',
      fd_Sortable = True,
      fd_WikiURL = ''https://www.investopedia.com/terms/e/ema.asp''\<rparr>,
    \<lparr>fd_ID = ''ema21'',
      fd_Name = ''EMA 21'',
      fd_ShortDesc = ''21-day weighted average - fast short-term trend'',
      fd_LongDesc = ''The 21-day exponential moving average. Short-term trend with faster response than SMA20. Popular in '' @
        ''Fibonacci-based trading.'',
      fd_Category = CategoryTrend,
      fd_DataType = ''price'',
      fd_Sortable = True,
      fd_WikiURL = ''https://www.investopedia.com/terms/e/ema.asp''\<rparr>,
    \<lparr>fd_ID = ''ema50'',
      fd_Name = ''EMA 50'',
      fd_ShortDesc = ''50-day weighted average - medium-term trend'',
      fd_LongDesc = ''The 50-day exponential moving average. Medium-term trend with faster response than SMA50. More '' @
        ''weight on recent prices.'',
      fd_Category = CategoryTrend,
      fd_DataType = ''price'',
      fd_Sortable = True,
      fd_WikiURL = ''https://www.investopedia.com/terms/e/ema.asp''\<rparr>,
    \<lparr>fd_ID = ''ema100'',
      fd_Name = ''EMA 100'',
      fd_ShortDesc = ''100-day weighted average - medium/long trend'',
      fd_LongDesc = ''The 100-day exponential moving average. Medium-to-long term trend. More responsive than SMA100.'',
      fd_Category = CategoryTrend,
      fd_DataType = ''price'',
      fd_Sortable = True,
      fd_WikiURL = ''https://www.investopedia.com/terms/e/ema.asp''\<rparr>,
    \<lparr>fd_ID = ''ema200'',
      fd_Name = ''EMA 200'',
      fd_ShortDesc = ''200-day weighted average - long-term trend'',
      fd_LongDesc = ''The 200-day exponential moving average. Long-term trend with faster response than SMA200. More '' @
        ''weight on recent prices.'',
      fd_Category = CategoryTrend,
      fd_DataType = ''price'',
      fd_Sortable = True,
      fd_WikiURL = ''https://www.investopedia.com/terms/e/ema.asp''\<rparr>]"

text \<open>Trend - Derived.\<close>

definition derived_docs :: "feature_doc list" where
  "derived_docs = [
    \<lparr>fd_ID = ''pct_from_sma50'',
      fd_Name = ''% From SMA 50'',
      fd_ShortDesc = ''How far price is from 50-day average'',
      fd_LongDesc = ''Percentage distance of close from the 50-day SMA. Positive = above (bullish), negative = below '' @
        ''(bearish). Useful for mean reversion strategies.'',
      fd_Category = CategoryTrend,
      fd_DataType = ''numeric'',
      fd_Sortable = True,
      fd_WikiURL = ''https://www.investopedia.com/terms/m/meanreversion.asp''\<rparr>,
    \<lparr>fd_ID = ''pct_from_sma200'',
      fd_Name = ''% From SMA 200'',
      fd_ShortDesc = ''How far price is from 200-day average'',
      fd_LongDesc = ''Percentage distance of close from the 200-day SMA. Positive = above (bullish), negative = below '' @
        ''(bearish). Key long-term trend metric.'',
      fd_Category = CategoryTrend,
      fd_DataType = ''numeric'',
      fd_Sortable = True,
      fd_WikiURL = ''https://www.investopedia.com/terms/m/meanreversion.asp''\<rparr>,
    \<lparr>fd_ID = ''ma_stack'',
      fd_Name = ''MA Stack'',
      fd_ShortDesc = ''Perfect bullish EMA alignment (10>21>50>200)'',
      fd_LongDesc = ''Boolean: true when EMAs are in perfect bullish order (EMA10 > EMA21 > EMA50 > EMA200). Indicates '' @
        ''strong, clean uptrend across all timeframes.'',
      fd_Category = CategoryTrend,
      fd_DataType = ''boolean'',
      fd_Sortable = False,
      fd_WikiURL = ''https://www.investopedia.com/terms/m/movingaverage.asp''\<rparr>]"

text \<open>Momentum.\<close>

definition momentum_docs :: "feature_doc list" where
  "momentum_docs = [
    \<lparr>fd_ID = ''rsi14'',
      fd_Name = ''RSI 14'',
      fd_ShortDesc = ''Momentum oscillator (0-100): >70 overbought, <30 oversold'',
      fd_LongDesc = ''Relative Strength Index (14-day). Momentum oscillator measuring speed and change of price '' @
        ''movements. Values 0-100. Above 70 = overbought (potential reversal), below 30 = oversold (potential '' @
        ''bounce).'',
      fd_Category = CategoryMomentum,
      fd_DataType = ''numeric'',
      fd_Sortable = True,
      fd_WikiURL = ''https://www.investopedia.com/terms/r/rsi.asp''\<rparr>,
    \<lparr>fd_ID = ''macd'',
      fd_Name = ''MACD'',
      fd_ShortDesc = ''Momentum: 12-day EMA minus 26-day EMA'',
      fd_LongDesc = ''Moving Average Convergence Divergence line. EMA12 minus EMA26. Positive = bullish momentum, '' @
        ''negative = bearish. Crossing zero = trend change.'',
      fd_Category = CategoryMomentum,
      fd_DataType = ''numeric'',
      fd_Sortable = True,
      fd_WikiURL = ''https://www.investopedia.com/terms/m/macd.asp''\<rparr>,
    \<lparr>fd_ID = ''macd_signal'',
      fd_Name = ''MACD Signal'',
      fd_ShortDesc = ''9-day EMA of MACD - signal line'',
      fd_LongDesc = ''9-day EMA of the MACD line. MACD crossing above signal = bullish signal, crossing below = bearish '' @
        ''signal.'',
      fd_Category = CategoryMomentum,
      fd_DataType = ''numeric'',
      fd_Sortable = True,
      fd_WikiURL = ''https://www.investopedia.com/terms/m/macd.asp''\<rparr>,
    \<lparr>fd_ID = ''macd_hist'',
      fd_Name = ''MACD Histogram'',
      fd_ShortDesc = ''MACD minus signal - momentum strength'',
      fd_LongDesc = ''Difference between MACD and signal line. Positive and rising = strengthening bullish momentum. '' @
        ''Negative and falling = strengthening bearish momentum.'',
      fd_Category = CategoryMomentum,
      fd_DataType = ''numeric'',
      fd_Sortable = True,
      fd_WikiURL = ''https://www.investopedia.com/terms/m/macd.asp''\<rparr>,
    \<lparr>fd_ID = ''stoch_k'',
      fd_Name = ''Stochastic %K'',
      fd_ShortDesc = ''Fast stochastic (0-100): >80 overbought, <20 oversold'',
      fd_LongDesc = ''Fast stochastic oscillator. Compares closing price to price range over 14 periods. Values 0-100. '' @
        ''Above 80 = overbought, below 20 = oversold.'',
      fd_Category = CategoryMomentum,
      fd_DataType = ''numeric'',
      fd_Sortable = True,
      fd_WikiURL = ''https://www.investopedia.com/terms/s/stochasticoscillator.asp''\<rparr>,
    \<lparr>fd_ID = ''stoch_d'',
      fd_Name = ''Stochastic %D'',
      fd_ShortDesc = ''3-day average of %K - slower signal'',
      fd_LongDesc = ''3-day SMA of %K. Slower signal line for stochastic oscillator. %K crossing above %D = bullish '' @
        ''signal.'',
      fd_Category = CategoryMomentum,
      fd_DataType = ''numeric'',
      fd_Sortable = True,
      fd_WikiURL = ''https://www.investopedia.com/terms/s/stochasticoscillator.asp''\<rparr>,
    \<lparr>fd_ID = ''willr14'',
      fd_Name = ''Williams %R'',
      fd_ShortDesc = ''Momentum (-100 to 0): >-20 overbought, <-80 oversold'',
      fd_LongDesc = ''Williams %R (14-day). Momentum indicator similar to stochastic but inverted scale. Values -100 to '' @
        ''0. Above -20 = overbought, below -80 = oversold.'',
      fd_Category = CategoryMomentum,
      fd_DataType = ''numeric'',
      fd_Sortable = True,
      fd_WikiURL = ''https://www.investopedia.com/terms/w/williamsr.asp''\<rparr>,
    \<lparr>fd_ID = ''cci20'',
      fd_Name = ''CCI 20'',
      fd_ShortDesc = ''Cyclical turns: >+100 strong uptrend, <-100 downtrend'',
      fd_LongDesc = ''Commodity Channel Index (20-day). Identifies cyclical turns and trend strength. Values typically '' @
        ''-100 to +100. Above +100 = strong uptrend, below -100 = strong downtrend.'',
      fd_Category = CategoryMomentum,
      fd_DataType = ''numeric'',
      fd_Sortable = True,
      fd_WikiURL = ''https://www.investopedia.com/terms/c/commoditychannelindex.asp''\<rparr>,
    \<lparr>fd_ID = ''mfi14'',
      fd_Name = ''MFI 14'',
      fd_ShortDesc = ''Volume-weighted RSI (0-100): >80 overbought, <20 oversold'',
      fd_LongDesc = ''Money Flow Index (14-day). Volume-weighted RSI. Values 0-100. Above 80 = overbought, below 20 = '' @
        ''oversold. Uses price '' @
        [CHR 0xC3, CHR 0x97] @
        '' volume for confirmation.'',
      fd_Category = CategoryMomentum,
      fd_DataType = ''numeric'',
      fd_Sortable = True,
      fd_WikiURL = ''https://www.investopedia.com/terms/m/moneyflow.asp''\<rparr>,
    \<lparr>fd_ID = ''roc10'',
      fd_Name = ''ROC 10'',
      fd_ShortDesc = ''10-day price change % - short-term momentum'',
      fd_LongDesc = ''Rate of Change (10-day). Percentage change over 10 days. Positive = rising momentum, negative = '' @
        ''falling. Simple momentum measure.'',
      fd_Category = CategoryMomentum,
      fd_DataType = ''numeric'',
      fd_Sortable = True,
      fd_WikiURL = ''https://www.investopedia.com/terms/r/rateofchange.asp''\<rparr>,
    \<lparr>fd_ID = ''roc20'',
      fd_Name = ''ROC 20'',
      fd_ShortDesc = ''20-day price change % - medium-term momentum'',
      fd_LongDesc = ''Rate of Change (20-day). Percentage change over 20 days. Medium-term momentum. Less noisy than '' @
        ''ROC10.'',
      fd_Category = CategoryMomentum,
      fd_DataType = ''numeric'',
      fd_Sortable = True,
      fd_WikiURL = ''https://www.investopedia.com/terms/r/rateofchange.asp''\<rparr>,
    \<lparr>fd_ID = ''adx14'',
      fd_Name = ''ADX 14'',
      fd_ShortDesc = ''Trend strength (0-100): >25 strong trend, <20 weak'',
      fd_LongDesc = ''Average Directional Index (14-day). Measures trend strength regardless of direction. Values 0-100. '' @
        ''Above 25 = strong trend, below 20 = weak/no trend. Does not indicate direction.'',
      fd_Category = CategoryMomentum,
      fd_DataType = ''numeric'',
      fd_Sortable = True,
      fd_WikiURL = ''https://www.investopedia.com/terms/a/adx.asp''\<rparr>,
    \<lparr>fd_ID = ''di_plus'',
      fd_Name = ''+DI'',
      fd_ShortDesc = ''Uptrend strength (14-day) - part of ADX system'',
      fd_LongDesc = ''Positive Directional Indicator (14-day). Measures strength of uptrend. +DI > -DI = bullish. Used '' @
        ''with ADX for trend following.'',
      fd_Category = CategoryMomentum,
      fd_DataType = ''numeric'',
      fd_Sortable = True,
      fd_WikiURL = ''https://www.investopedia.com/terms/a/adx.asp''\<rparr>,
    \<lparr>fd_ID = ''di_minus'',
      fd_Name = ''-DI'',
      fd_ShortDesc = ''Downtrend strength (14-day) - part of ADX system'',
      fd_LongDesc = ''Negative Directional Indicator (14-day). Measures strength of downtrend. -DI > +DI = bearish. Used '' @
        ''with ADX for trend following.'',
      fd_Category = CategoryMomentum,
      fd_DataType = ''numeric'',
      fd_Sortable = True,
      fd_WikiURL = ''https://www.investopedia.com/terms/a/adx.asp''\<rparr>]"

text \<open>Volatility.\<close>

definition volatility_docs :: "feature_doc list" where
  "volatility_docs = [
    \<lparr>fd_ID = ''atr14'',
      fd_Name = ''ATR 14'',
      fd_ShortDesc = ''Volatility measure - used for stops & position sizing'',
      fd_LongDesc = ''Average True Range (14-day). Measures volatility. Higher ATR = more volatile. Commonly used for '' @
        ''position sizing and stop-loss placement (e.g., 2'' @
        [CHR 0xC3, CHR 0x97] @
        '' ATR stop).'',
      fd_Category = CategoryVolatility,
      fd_DataType = ''price'',
      fd_Sortable = True,
      fd_WikiURL = ''https://www.investopedia.com/terms/a/atr.asp''\<rparr>,
    \<lparr>fd_ID = ''atr_pct'',
      fd_Name = ''ATR %'',
      fd_ShortDesc = ''ATR as % of price - normalized volatility'',
      fd_LongDesc = ''ATR14 divided by close. Normalizes volatility across different price levels. Allows comparison '' @
        ''between $10 and $1000 stocks.'',
      fd_Category = CategoryVolatility,
      fd_DataType = ''numeric'',
      fd_Sortable = True,
      fd_WikiURL = ''https://www.investopedia.com/terms/a/atr.asp''\<rparr>,
    \<lparr>fd_ID = ''bb_upper'',
      fd_Name = ''Bollinger Upper'',
      fd_ShortDesc = ''Upper band: SMA20 + 2'' @
        [CHR 0xCF, CHR 0x83] @
        '' - near = overbought'',
      fd_LongDesc = ''Upper Bollinger Band. SMA20 plus 2 standard deviations. Price near upper band = potentially '' @
        ''overbought. Also used for volatility measurement.'',
      fd_Category = CategoryVolatility,
      fd_DataType = ''price'',
      fd_Sortable = True,
      fd_WikiURL = ''https://www.investopedia.com/terms/b/bollingerbands.asp''\<rparr>,
    \<lparr>fd_ID = ''bb_mid'',
      fd_Name = ''Bollinger Middle'',
      fd_ShortDesc = ''Middle band: 20-day SMA'',
      fd_LongDesc = ''Middle Bollinger Band. 20-day SMA. Price crossing above/below middle band = trend change signal.'',
      fd_Category = CategoryVolatility,
      fd_DataType = ''price'',
      fd_Sortable = True,
      fd_WikiURL = ''https://www.investopedia.com/terms/b/bollingerbands.asp''\<rparr>,
    \<lparr>fd_ID = ''bb_lower'',
      fd_Name = ''Bollinger Lower'',
      fd_ShortDesc = ''Lower band: SMA20 - 2'' @
        [CHR 0xCF, CHR 0x83] @
        '' - near = oversold'',
      fd_LongDesc = ''Lower Bollinger Band. SMA20 minus 2 standard deviations. Price near lower band = potentially '' @
        ''oversold. Also used for volatility measurement.'',
      fd_Category = CategoryVolatility,
      fd_DataType = ''price'',
      fd_Sortable = True,
      fd_WikiURL = ''https://www.investopedia.com/terms/b/bollingerbands.asp''\<rparr>,
    \<lparr>fd_ID = ''bb_bandwidth'',
      fd_Name = ''BB Bandwidth'',
      fd_ShortDesc = ''Band width % (20,2) - low = squeeze (potential breakout)'',
      fd_LongDesc = ''Width of Bollinger Bands (20-day, 2'' @
        [CHR 0xCF, CHR 0x83] @
        '') as percentage of middle band. Low bandwidth = squeeze (low volatility, potential breakout '' @
        ''imminent). High bandwidth = high volatility.'',
      fd_Category = CategoryVolatility,
      fd_DataType = ''numeric'',
      fd_Sortable = True,
      fd_WikiURL = ''https://www.investopedia.com/terms/b/bollingerbands.asp''\<rparr>,
    \<lparr>fd_ID = ''bb_pct_b'',
      fd_Name = ''BB %B'',
      fd_ShortDesc = ''Position in bands (20,2) (0=lower, 1=upper) - >1 or <0 = breakout'',
      fd_LongDesc = ''Position within Bollinger Bands (20-day, 2'' @
        [CHR 0xCF, CHR 0x83] @
        ''). 0 = lower band, 1 = upper band. Values outside 0-1 indicate breakout. Useful for mean reversion '' @
        ''and breakout strategies.'',
      fd_Category = CategoryVolatility,
      fd_DataType = ''numeric'',
      fd_Sortable = True,
      fd_WikiURL = ''https://www.investopedia.com/terms/b/bollingerbands.asp''\<rparr>,
    \<lparr>fd_ID = ''hist_vol20'',
      fd_Name = ''Historical Volatility'',
      fd_ShortDesc = ''20-day annualized volatility - higher = more volatile'',
      fd_LongDesc = ''Annualized standard deviation of daily returns (20-day). Higher = more volatile. Used in options '' @
        ''pricing and risk management.'',
      fd_Category = CategoryVolatility,
      fd_DataType = ''numeric'',
      fd_Sortable = True,
      fd_WikiURL = ''https://www.investopedia.com/terms/h/historicalvolatility.asp''\<rparr>]"

text \<open>Price Structure.\<close>

definition structure_docs :: "feature_doc list" where
  "structure_docs = [
    \<lparr>fd_ID = ''high_52w'',
      fd_Name = ''52-Week High'',
      fd_ShortDesc = ''Highest price in past 252 trading days'',
      fd_LongDesc = ''Highest price over the past 252 trading days (52 weeks). Key resistance level. Breaking above = new '' @
        ''high (bullish signal).'',
      fd_Category = CategoryPriceStruct,
      fd_DataType = ''price'',
      fd_Sortable = True,
      fd_WikiURL = ''https://www.investopedia.com/terms/5/52weekhighlow.asp''\<rparr>,
    \<lparr>fd_ID = ''low_52w'',
      fd_Name = ''52-Week Low'',
      fd_ShortDesc = ''Lowest price in past 252 trading days'',
      fd_LongDesc = ''Lowest price over the past 252 trading days (52 weeks). Key support level. Breaking below = new low '' @
        ''(bearish signal).'',
      fd_Category = CategoryPriceStruct,
      fd_DataType = ''price'',
      fd_Sortable = True,
      fd_WikiURL = ''https://www.investopedia.com/terms/5/52weekhighlow.asp''\<rparr>,
    \<lparr>fd_ID = ''is_52w_high'',
      fd_Name = ''Is 52-Week High'',
      fd_ShortDesc = ''True if close equals 52-week high'',
      fd_LongDesc = ''Boolean: true if close equals the 52-week high. Identifies stocks making new highs (breakout '' @
        ''candidates).'',
      fd_Category = CategoryPriceStruct,
      fd_DataType = ''boolean'',
      fd_Sortable = False,
      fd_WikiURL = ''https://www.investopedia.com/terms/5/52weekhighlow.asp''\<rparr>,
    \<lparr>fd_ID = ''is_52w_low'',
      fd_Name = ''Is 52-Week Low'',
      fd_ShortDesc = ''True if close equals 52-week low'',
      fd_LongDesc = ''Boolean: true if close equals the 52-week low. Identifies stocks making new lows (potential '' @
        ''capitulation or value trap).'',
      fd_Category = CategoryPriceStruct,
      fd_DataType = ''boolean'',
      fd_Sortable = False,
      fd_WikiURL = ''https://www.investopedia.com/terms/5/52weekhighlow.asp''\<rparr>,
    \<lparr>fd_ID = ''gap_pct'',
      fd_Name = ''Gap %'',
      fd_ShortDesc = ''Overnight gap: (open - prev_close) / prev_close'',
      fd_LongDesc = ''Percentage gap between previous close and today'' @
        [CHR 0x27] @
        ''s open. Positive = gap up (bullish overnight news), negative = gap down (bearish overnight news).'',
      fd_Category = CategoryPriceStruct,
      fd_DataType = ''numeric'',
      fd_Sortable = True,
      fd_WikiURL = ''https://www.investopedia.com/terms/g/gap.asp''\<rparr>,
    \<lparr>fd_ID = ''true_range'',
      fd_Name = ''True Range'',
      fd_ShortDesc = ''Max of: H-L, |H-prevC|, |L-prevC| - volatility input'',
      fd_LongDesc = ''Maximum of: high-low, |high-previous close|, |low-previous close|. Accounts for gaps. Used in ATR '' @
        ''calculation and volatility measurement.'',
      fd_Category = CategoryPriceStruct,
      fd_DataType = ''price'',
      fd_Sortable = True,
      fd_WikiURL = ''https://www.investopedia.com/terms/t/truerange.asp''\<rparr>]"

text \<open>Returns.\<close>

definition return_docs :: "feature_doc list" where
  "return_docs = [
    \<lparr>fd_ID = ''ret_1d'',
      fd_Name = ''1-Day Return'',
      fd_ShortDesc = ''Yesterday'' @
        [CHR 0x27] @
        ''s performance %'',
      fd_LongDesc = ''Percentage return over 1 day. (close / close[1 day ago] - 1) '' @
        [CHR 0xC3, CHR 0x97] @
        '' 100. Simplest momentum measure.'',
      fd_Category = CategoryReturns,
      fd_DataType = ''numeric'',
      fd_Sortable = True,
      fd_WikiURL = ''https://www.investopedia.com/terms/r/return.asp''\<rparr>,
    \<lparr>fd_ID = ''ret_5d'',
      fd_Name = ''5-Day Return'',
      fd_ShortDesc = ''Past week'' @
        [CHR 0x27] @
        ''s performance %'',
      fd_LongDesc = ''Percentage return over 5 trading days. Short-term momentum. Useful for identifying recent '' @
        ''strength/weakness.'',
      fd_Category = CategoryReturns,
      fd_DataType = ''numeric'',
      fd_Sortable = True,
      fd_WikiURL = ''https://www.investopedia.com/terms/r/return.asp''\<rparr>,
    \<lparr>fd_ID = ''ret_1m'',
      fd_Name = ''1-Month Return'',
      fd_ShortDesc = ''Past month'' @
        [CHR 0x27] @
        ''s performance % (21 trading days)'',
      fd_LongDesc = ''Percentage return over 21 trading days (1 month). Short-to-medium term momentum. Common timeframe '' @
        ''for tactical trading.'',
      fd_Category = CategoryReturns,
      fd_DataType = ''numeric'',
      fd_Sortable = True,
      fd_WikiURL = ''https://www.investopedia.com/terms/r/return.asp''\<rparr>,
    \<lparr>fd_ID = ''ret_3m'',
      fd_Name = ''3-Month Return'',
      fd_ShortDesc = ''Past quarter'' @
        [CHR 0x27] @
        ''s performance % (63 trading days)'',
      fd_LongDesc = ''Percentage return over 63 trading days (3 months). Common momentum timeframe. Used in relative '' @
        ''strength rankings and momentum strategies.'',
      fd_Category = CategoryReturns,
      fd_DataType = ''numeric'',
      fd_Sortable = True,
      fd_WikiURL = ''https://www.investopedia.com/terms/r/return.asp''\<rparr>,
    \<lparr>fd_ID = ''ret_6m'',
      fd_Name = ''6-Month Return'',
      fd_ShortDesc = ''Past half-year'' @
        [CHR 0x27] @
        ''s performance % (126 trading days)'',
      fd_LongDesc = ''Percentage return over 126 trading days (6 months). Medium-term momentum. Useful for identifying '' @
        ''sustained trends.'',
      fd_Category = CategoryReturns,
      fd_DataType = ''numeric'',
      fd_Sortable = True,
      fd_WikiURL = ''https://www.investopedia.com/terms/r/return.asp''\<rparr>,
    \<lparr>fd_ID = ''ret_1y'',
      fd_Name = ''1-Year Return'',
      fd_ShortDesc = ''Past year'' @
        [CHR 0x27] @
        ''s performance % (252 trading days)'',
      fd_LongDesc = ''Percentage return over 252 trading days (1 year). Long-term momentum. Used in annual performance '' @
        ''comparisons and trend analysis.'',
      fd_Category = CategoryReturns,
      fd_DataType = ''numeric'',
      fd_Sortable = True,
      fd_WikiURL = ''https://www.investopedia.com/terms/r/return.asp''\<rparr>]"

text \<open>Volume.\<close>

definition volume_docs :: "feature_doc list" where
  "volume_docs = [
    \<lparr>fd_ID = ''dollar_vol'',
      fd_Name = ''Dollar Volume'',
      fd_ShortDesc = ''Close '' @
        [CHR 0xC3, CHR 0x97] @
        '' volume - split-invariant activity measure'',
      fd_LongDesc = ''Close '' @
        [CHR 0xC3, CHR 0x97] @
        '' volume. Split-invariant measure of trading activity. More reliable than raw volume on free-tier '' @
        ''data. Used for liquidity filtering.'',
      fd_Category = CategoryVolume,
      fd_DataType = ''volume'',
      fd_Sortable = True,
      fd_WikiURL = ''https://www.investopedia.com/terms/v/volume.asp''\<rparr>,
    \<lparr>fd_ID = ''avg_dollar_vol20'',
      fd_Name = ''Avg Dollar Vol 20'',
      fd_ShortDesc = ''20-day average dollar volume - liquidity filter'',
      fd_LongDesc = ''20-day SMA of dollar volume. Liquidity filter. High avg_dollar_vol = more liquid, easier to '' @
        ''enter/exit positions.'',
      fd_Category = CategoryVolume,
      fd_DataType = ''volume'',
      fd_Sortable = True,
      fd_WikiURL = ''https://www.investopedia.com/terms/v/volume.asp''\<rparr>,
    \<lparr>fd_ID = ''rel_volume'',
      fd_Name = ''Relative Volume'',
      fd_ShortDesc = ''Volume vs 20-day average - >1 = above average'',
      fd_LongDesc = ''Volume divided by 20-day average volume. Values > 1 = above average activity (unusual interest), < '' @
        ''1 = below average. Good for identifying breakout confirmation.'',
      fd_Category = CategoryVolume,
      fd_DataType = ''numeric'',
      fd_Sortable = True,
      fd_WikiURL = ''https://www.investopedia.com/terms/r/relative_volume.asp''\<rparr>,
    \<lparr>fd_ID = ''obv'',
      fd_Name = ''OBV'',
      fd_ShortDesc = ''On-balance volume - rising = accumulation'',
      fd_LongDesc = ''On-balance volume. Cumulative volume indicator. Rising OBV = accumulation (buying pressure), '' @
        ''falling OBV = distribution (selling pressure). Confirms price trends.'',
      fd_Category = CategoryVolume,
      fd_DataType = ''volume'',
      fd_Sortable = True,
      fd_WikiURL = ''https://www.investopedia.com/terms/o/onbalancevolume.asp''\<rparr>,
    \<lparr>fd_ID = ''vwap_dist'',
      fd_Name = ''VWAP Distance'',
      fd_ShortDesc = ''Distance from volume-weighted average price'',
      fd_LongDesc = ''Percentage distance from volume-weighted average price. Positive = trading above VWAP (bullish), '' @
        ''negative = below VWAP (bearish). Institutional benchmark.'',
      fd_Category = CategoryVolume,
      fd_DataType = ''numeric'',
      fd_Sortable = True,
      fd_WikiURL = ''https://www.investopedia.com/terms/v/vwap.asp''\<rparr>]"

definition allFeatures :: "feature_doc list" where
  "allFeatures = price_docs @ sma_docs @ ema_docs @ derived_docs @ momentum_docs @
     volatility_docs @ structure_docs @ return_docs @ volume_docs"
section \<open>Lookups and handlers\<close>

definition Registry :: "feature_doc list" where
  "Registry = allFeatures"

text \<open>\<open>None\<close> is the nil pointer.\<close>

definition ByID :: "string \<Rightarrow> feature_doc option" where
  "ByID i = find (\<lambda>f. fd_ID f = i) allFeatures"

definition ByCategory :: "string \<Rightarrow> feature_doc list" where
  "ByCategory c = filter (\<lambda>f. fd_Category f = c) allFeatures"

definition Categories :: "string list" where
  "Categories = [CategoryPrice, CategoryTrend, CategoryMomentum, CategoryVolatility, CategoryPriceStruct,
     CategoryReturns, CategoryVolume]"

definition Features_handler :: "string \<Rightarrow> (feature_doc list \<times> nat) response" where
  "Features_handler category =
     (let fs = (if category \<noteq> '''' then ByCategory category else Registry) in Reply 200 (fs, length fs))"

definition FeatureByID :: "string \<Rightarrow> feature_doc response" where
  "FeatureByID i = (if i = '''' then Fail 400 ''INVALID_ID''
     else case ByID i of None \<Rightarrow> Fail 404 ''NOT_FOUND'' | Some f \<Rightarrow> Reply 200 f)"

section \<open>The catalogue against the table and the editor\<close>

text \<open>Without the texts, which the comparison does not need.\<close>

definition doc_keys :: "feature_doc list \<Rightarrow> (string \<times> string \<times> string \<times> bool) list" where
  "doc_keys fs = map (\<lambda>f. (fd_ID f, fd_Category f, fd_DataType f, fd_Sortable f)) fs"

lemma doc_keys_append: "doc_keys (fs @ gs) = doc_keys fs @ doc_keys gs"
  by (simp add: doc_keys_def)

lemma category_keys:
  "doc_keys (ByCategory c) = filter (\<lambda>k. fst (snd k) = c) (doc_keys allFeatures)"
  by (simp add: doc_keys_def ByCategory_def filter_map comp_def)

lemma ids_keys: "map fd_ID fs = map fst (doc_keys fs)"
  by (simp add: doc_keys_def comp_def)

text \<open>The columns that no feature documents, apart from the three that identify a row.\<close>

definition undocumented :: "string list" where
  "undocumented = [''pct_off_52w_high'', ''pct_above_52w_low'', ''golden_cross'', ''oversold_bounce'', ''psar'',
     ''aroon_up'', ''aroon_down'', ''aroon_osc'', ''keltner_upper'', ''keltner_mid'', ''keltner_lower'', ''cmf20'',
     ''ultimate_osc'']"

lemma documented_ids:
  "distinct (map fst (doc_keys allFeatures)) \<and>
   set (map fst (doc_keys allFeatures)) = insert ''volume''
     (set (filter (\<lambda>c. c \<notin> set (undocumented @ [''snapshot_date'', ''symbol'', ''timestamp''])) columns))"
  by code_simp

lemma documented_types:
  "list_all (\<lambda>(i, c, ty, sortable). (sortable \<longleftrightarrow> ty \<noteq> ''boolean'') \<and>
     (i = ''volume'' \<or> (ty = ''boolean'' \<longleftrightarrow> map_of createTableColumns i = Some INTEGER))) (doc_keys allFeatures)"
  by code_simp

lemma documented_categories:
  "list_all (\<lambda>k. fst (snd k) \<in> set Categories) (doc_keys allFeatures) \<and> distinct Categories"
  by code_simp

lemma editor_documented: "set (map f_SQLExpr Features) \<subseteq> set (map fst (doc_keys allFeatures))"
  by code_simp

lemma group_by:
  assumes "distinct cs"
  shows "mset (concat (map (\<lambda>c. filter (\<lambda>x. f x = c) xs) cs)) = filter_mset (\<lambda>x. f x \<in> set cs) (mset xs)"
  using assms
proof (induction cs)
  case (Cons c cs)
  have "filter_mset (\<lambda>x. f x = c) (mset xs) + filter_mset (\<lambda>x. f x \<in> set cs) (mset xs) =
      filter_mset (\<lambda>x. f x \<in> set (c # cs)) (mset xs)"
    using Cons.prems by (induction xs) auto
  with Cons show ?case by simp
qed simp

lemma ByID_found:
  assumes "f \<in> set allFeatures"
  shows "ByID (fd_ID f) = Some f"
proof -
  have "distinct (map fd_ID allFeatures)" using documented_ids unfolding ids_keys by blast
  from find_key [OF this assms] show ?thesis by (simp add: ByID_def)
qed

text \<open>
  The documentation, the snapshot table and the study editor name the same things,
  as far as they do. The documented ids are distinct and are the columns of the table
  but for thirteen that are undocumented, plus \<open>volume\<close>, which is no column at all; what
  is documented as boolean is an integer column and nothing else is, and just these are
  not sortable; every feature of the editor is documented; and the seven categories
  share the catalogue out among them.
\<close>

theorem features_document_columns:
  "set (map fd_ID allFeatures) =
     insert ''volume'' (set columns - set (undocumented @ [''snapshot_date'', ''symbol'', ''timestamp''])) \<and>
   distinct (map fd_ID allFeatures) \<and> ''volume'' \<notin> set columns \<and> set undocumented \<subseteq> set columns \<and>
   list_all (\<lambda>(i, c, ty, sortable). (sortable \<longleftrightarrow> ty \<noteq> ''boolean'') \<and>
     (i = ''volume'' \<or> (ty = ''boolean'' \<longleftrightarrow> map_of createTableColumns i = Some INTEGER))) (doc_keys allFeatures) \<and>
   set (map f_SQLExpr Features) \<subseteq> set (map fd_ID allFeatures) \<and>
   mset (concat (map ByCategory Categories)) = mset allFeatures"
proof (intro conjI)
  let ?out = "set (undocumented @ [''snapshot_date'', ''symbol'', ''timestamp''])"
  have "set (filter (\<lambda>c. c \<notin> ?out) columns) = set columns - ?out" unfolding set_filter by blast
  then show "set (map fd_ID allFeatures) = insert ''volume'' (set columns - ?out)"
    unfolding ids_keys using documented_ids by (simp only:)
  show "distinct (map fd_ID allFeatures)" unfolding ids_keys using documented_ids by blast
  show "''volume'' \<notin> set columns" by code_simp
  show "set undocumented \<subseteq> set columns" by code_simp
  show "set (map f_SQLExpr Features) \<subseteq> set (map fd_ID allFeatures)"
    unfolding ids_keys by (rule editor_documented)
  have "\<forall>f \<in> set allFeatures. fd_Category f \<in> set Categories"
    using documented_categories by (auto simp: doc_keys_def list_all_iff)
  then have "filter_mset (\<lambda>f. fd_Category f \<in> set Categories) (mset allFeatures) = mset allFeatures"
    by (simp add: mset_filter [symmetric])
  moreover have "map ByCategory Categories = map (\<lambda>c. filter (\<lambda>f. fd_Category f = c) allFeatures) Categories"
    by (simp add: ByCategory_def)
  ultimately show "mset (concat (map ByCategory Categories)) = mset allFeatures"
    using group_by [of Categories fd_Category allFeatures] documented_categories by (simp only: simp_thms)
qed (rule documented_types)

end
