(* ===== verification/Router.thy ===== *)
theory Router
  imports Prelude
begin

text \<open>
  The routes: the pattern tables of \<open>Router\<close> in \<open>internal/api/router.go\<close>, of
  \<open>registerRoutes\<close> in \<open>internal/serve/handlers.go\<close> and of \<open>RegisterRoutes\<close> in
  \<open>internal/admin/admin.go\<close>, written as in the code and read the way \<open>http.ServeMux\<close> reads
  patterns since Go 1.22: a method or none, segments that are literals or \<open>{wildcards}\<close>,
  and a trailing slash for a whole subtree; of the patterns that match a request the most
  specific one serves it, and registering two that overlap without one being the more
  specific panics. A path is the list of its segments after the first slash, cleaned
  and unescaped. Handlers are named, their models are in the theories of the components.
\<close>

section \<open>Patterns\<close>

datatype seg = Lit string | Wild string

record pattern =
  pt_method :: string
  pt_segs :: "seg list"
  pt_subtree :: bool

definition seg_of :: "string \<Rightarrow> seg" where
  "seg_of s = (if s \<noteq> [] \<and> hd s = CHR ''{'' \<and> last s = CHR ''}'' then Wild (butlast (tl s)) else Lit s)"

definition parse_pattern :: "string \<Rightarrow> pattern" where
  "parse_pattern s =
     (let words = split_byte (CHR '' '') s;
          (meth, path) = (if length words = 2 then (words ! 0, words ! 1) else ('''', s));
          parts = split_byte (CHR ''/'') (tl path);
          sub = (last parts = '''')
      in \<lparr>pt_method = meth, pt_segs = map seg_of (if sub then butlast parts else parts), pt_subtree = sub\<rparr>)"

definition method_matches :: "string \<Rightarrow> string \<Rightarrow> bool" where
  "method_matches pm m \<longleftrightarrow> pm = '''' \<or> pm = m \<or> pm = ''GET'' \<and> m = ''HEAD''"

fun seg_matches :: "seg \<Rightarrow> string \<Rightarrow> bool" where
  "seg_matches (Lit x) s = (x = s)"
| "seg_matches (Wild _) s = (s \<noteq> '''')"

definition path_matches :: "pattern \<Rightarrow> string list \<Rightarrow> bool" where
  "path_matches p path =
     (if pt_subtree p
      then length (pt_segs p) < length path \<and> list_all2 seg_matches (pt_segs p) (take (length (pt_segs p)) path)
      else list_all2 seg_matches (pt_segs p) path)"

definition matches :: "pattern \<Rightarrow> string \<Rightarrow> string list \<Rightarrow> bool" where
  "matches p m path \<longleftrightarrow> method_matches (pt_method p) m \<and> path_matches p path"

section \<open>Which pattern is the more specific\<close>

fun seg_covers :: "seg \<Rightarrow> seg \<Rightarrow> bool" where
  "seg_covers (Lit x) (Lit y) = (x = y)"
| "seg_covers (Lit _) (Wild _) = False"
| "seg_covers (Wild _) (Lit y) = (y \<noteq> '''')"
| "seg_covers (Wild _) (Wild _) = True"

definition path_covers :: "pattern \<Rightarrow> pattern \<Rightarrow> bool" where
  "path_covers p q =
     (if pt_subtree p
      then length (pt_segs p) < length (pt_segs q) + (if pt_subtree q then 1 else 0) \<and>
        list_all2 seg_covers (pt_segs p) (take (length (pt_segs p)) (pt_segs q))
      else \<not> pt_subtree q \<and> list_all2 seg_covers (pt_segs p) (pt_segs q))"

definition covers :: "pattern \<Rightarrow> pattern \<Rightarrow> bool" where
  "covers p q \<longleftrightarrow> method_matches (pt_method p) (pt_method q) \<and> path_covers p q"

fun seg_overlap :: "seg \<Rightarrow> seg \<Rightarrow> bool" where
  "seg_overlap (Lit x) (Lit y) = (x = y)"
| "seg_overlap (Lit x) (Wild _) = (x \<noteq> '''')"
| "seg_overlap (Wild _) (Lit y) = (y \<noteq> '''')"
| "seg_overlap (Wild _) (Wild _) = True"

definition path_overlap :: "pattern \<Rightarrow> pattern \<Rightarrow> bool" where
  "path_overlap p q =
     (let n = length (pt_segs p); k = length (pt_segs q) in
      (n < k \<and> pt_subtree p \<or> k < n \<and> pt_subtree q \<or> n = k \<and> pt_subtree p = pt_subtree q) \<and>
      list_all2 seg_overlap (take (min n k) (pt_segs p)) (take (min n k) (pt_segs q)))"

definition overlap :: "pattern \<Rightarrow> pattern \<Rightarrow> bool" where
  "overlap p q \<longleftrightarrow>
     (method_matches (pt_method p) (pt_method q) \<or> method_matches (pt_method q) (pt_method p)) \<and> path_overlap p q"

definition conflict :: "pattern \<Rightarrow> pattern \<Rightarrow> bool" where
  "conflict p q \<longleftrightarrow> overlap p q \<and> (covers p q \<longleftrightarrow> covers q p)"

section \<open>Registering and serving\<close>

type_synonym routes = "(pattern \<times> string) list"

text \<open>\<open>None\<close> is the panic of a conflicting pattern; \<open>safeMux\<close> would panic on an equal one first.\<close>

fun register :: "(string \<times> string) list \<Rightarrow> routes \<Rightarrow> routes option" where
  "register [] rs = Some rs"
| "register ((pat, h) # rest) rs =
     (if list_ex (\<lambda>r. conflict (parse_pattern pat) (fst r)) rs then None
      else register rest (rs @ [(parse_pattern pat, h)]))"

definition most_specific :: "routes \<Rightarrow> string \<Rightarrow> string list \<Rightarrow> (pattern \<times> string) option" where
  "most_specific rs m path =
     (let ms = filter (\<lambda>r. matches (fst r) m path) rs in find (\<lambda>r. list_all (\<lambda>s. covers (fst s) (fst r)) ms) ms)"

text \<open>A path that only lacks the slash of a registered subtree is redirected to it.\<close>

definition exact_match :: "(pattern \<times> string) option \<Rightarrow> string list \<Rightarrow> bool" where
  "exact_match r path = (case r of None \<Rightarrow> False
     | Some (p, _) \<Rightarrow> \<not> pt_subtree p \<or> last path = '''' \<and> length path = length (pt_segs p) + 1)"

datatype outcome = Serves string "(string \<times> string) list" | Redirects | NotAllowed | NotFound

definition bindings :: "pattern \<Rightarrow> string list \<Rightarrow> (string \<times> string) list" where
  "bindings p path = List.map_filter (\<lambda>(s, v). case s of Lit _ \<Rightarrow> None | Wild x \<Rightarrow> Some (x, v)) (zip (pt_segs p) path)"

definition serve :: "routes \<Rightarrow> string \<Rightarrow> string list \<Rightarrow> outcome" where
  "serve rs m path =
     (let r = most_specific rs m path in
      if \<not> exact_match r path \<and> last path \<noteq> '''' \<and> exact_match (most_specific rs m (path @ [''''])) (path @ [''''])
      then Redirects
      else case r of
        Some (p, h) \<Rightarrow> Serves h (bindings p path)
      | None \<Rightarrow> if list_ex (\<lambda>r. path_matches (fst r) path) rs then NotAllowed else NotFound)"

section \<open>The tables\<close>

definition api_table :: "(string \<times> string) list" where
  "api_table =
     [(''GET /api/v1/health'', ''Health''),
      (''GET /api/v1/features'', ''Features''),
      (''GET /api/v1/features/{id}'', ''FeatureByID''),
      (''GET /api/v1/scan'', ''Scan''),
      (''POST /api/v1/scan'', ''Scan''),
      (''GET /api/v1/studies'', ''ListStudies''),
      (''POST /api/v1/studies'', ''CreateStudy''),
      (''GET /api/v1/studies/{id}'', ''GetStudy''),
      (''PUT /api/v1/studies/{id}'', ''UpdateStudy''),
      (''DELETE /api/v1/studies/{id}'', ''DeleteStudy''),
      (''POST /api/v1/studies/import'', ''ImportStudies''),
      (''GET /api/v1/studies/export'', ''ExportStudies''),
      (''GET /api/v1/subscriptions'', ''Subscriptions''),
      (''POST /api/v1/studies/{id}/subscribe'', ''Subscribe''),
      (''DELETE /api/v1/studies/{id}/subscribe'', ''Unsubscribe''),
      (''GET /api/v1/studies/{id}/subscribed'', ''IsSubscribed''),
      (''GET /api/v1/studies/{id}/subscribers'', ''StudySubscribers''),
      (''GET /api/v1/studies/{id}/alerts'', ''Alerts''),
      (''GET /api/v1/studies/{id}/entries'', ''Entries''),
      (''GET /api/v1/studies/{id}/exits'', ''Exits''),
      (''GET /api/v1/studies/{id}/backtest'', ''Backtest''),
      (''GET /api/v1/studies/{id}/pointintime'', ''PointInTime''),
      (''GET /api/v1/universe'', ''Universe''),
      (''GET /api/v1/symbols/{symbol}'', ''Symbol''),
      (''GET /api/v1/snapshots'', ''Snapshots''),
      (''POST /api/v1/snapshots/active'', ''SetActiveSnapshot''),
      (''POST /api/v1/groups'', ''CreateGroup''),
      (''GET /api/v1/groups'', ''ListGroups''),
      (''GET /api/v1/groups/{id}'', ''GetGroup''),
      (''DELETE /api/v1/groups/{id}'', ''DeleteGroup''),
      (''GET /api/v1/groups/{id}/members'', ''ListGroupMembers''),
      (''POST /api/v1/groups/{id}/members'', ''AddGroupMember''),
      (''DELETE /api/v1/groups/{id}/members/{user_id}'', ''RemoveGroupMember''),
      (''GET /api/v1/users/{user_id}/groups'', ''ListUserGroups''),
      (''POST /api/v1/results'', ''SaveResult''),
      (''GET /api/v1/results'', ''ListResults''),
      (''GET /api/v1/results/accessible'', ''ListAccessibleResults''),
      (''GET /api/v1/results/export'', ''ExportResults''),
      (''POST /api/v1/results/import'', ''ImportResults''),
      (''GET /api/v1/results/{id}'', ''GetResult''),
      (''DELETE /api/v1/results/{id}'', ''DeleteResult''),
      (''PATCH /api/v1/results/{id}/permissions'', ''UpdateResultPermissions''),
      (''PATCH /api/v1/results/{id}/owner'', ''ChangeResultOwner''),
      (''GET /api/v1/results/{id}/acls'', ''ListResultACLs''),
      (''POST /api/v1/results/{id}/acls'', ''AddResultACL''),
      (''DELETE /api/v1/results/{id}/acls/{user_id}'', ''RemoveResultACL''),
      (''POST /api/v1/auth/login'', ''Login''),
      (''GET /api/v1/auth/me'', ''Me''),
      (''PUT /api/v1/auth/password'', ''handleChangePassword''),
      (''GET /api/v1/users'', ''ListUsers''),
      (''POST /api/v1/users'', ''CreateUser''),
      (''GET /api/v1/users/{id}'', ''GetUser''),
      (''PUT /api/v1/users/{id}'', ''UpdateUser''),
      (''DELETE /api/v1/users/{id}'', ''DeleteUser''),
      (''GET /api/v1/roles'', ''ListRoles''),
      (''POST /api/v1/roles'', ''CreateRole''),
      (''GET /api/v1/roles/{id}'', ''GetRole''),
      (''PUT /api/v1/roles/{id}'', ''UpdateRole''),
      (''DELETE /api/v1/roles/{id}'', ''DeleteRole''),
      (''GET /api/v1/users/{user_id}/limits'', ''GetUserLimits''),
      (''PUT /api/v1/users/{user_id}/limits'', ''SetUserLimits''),
      (''GET /api/v1/users/{user_id}/usage'', ''GetUserUsage''),
      (''POST /api/v1/users/{id}/reset-password'', ''ResetPassword''),
      (''GET /api/v1/users/export'', ''ExportUsers''),
      (''POST /api/v1/users/import'', ''ImportUsers''),
      (''GET /api/v1/groups/export'', ''ExportGroups''),
      (''POST /api/v1/groups/import'', ''ImportGroups''),
      (''GET /api/v1/roles/export'', ''ExportRoles''),
      (''POST /api/v1/roles/import'', ''ImportRoles'')]"

definition server_table :: "(string \<times> string) list" where
  "server_table =
     [(''/healthz'', ''healthz''),
      (''/manifest.webmanifest'', ''manifest''),
      (''/icon.svg'', ''icon''),
      (''/sw.js'', ''serviceWorker''),
      (''/login'', ''handleLogin''),
      (''/logout'', ''handleLogout''),
      (''/signup'', ''handleSignup''),
      (''/profile'', ''handleProfile''),
      (''/studies/test'', ''handleStudiesTest''),
      (''/api/scanner/catalog'', ''handleCatalog''),
      (''/api/studies/compile'', ''handleCompile''),
      (''/studies'', ''handleStudies''),
      (''/studies/export'', ''handleStudiesExport''),
      (''/studies/import'', ''handleStudiesImport''),
      (''/'', ''index''),
      (''/api/v1/'', ''apiRouter'')]"

definition admin_table :: "(string \<times> string) list" where
  "admin_table =
     [(''/admin/static/'', ''static''),
      (''/admin/logout'', ''logout''),
      (''/admin'', ''dashboard''),
      (''/admin/dashboard'', ''dashboard''),
      (''/admin/users'', ''usersPage''),
      (''/admin/roles'', ''rolesPage''),
      (''/admin/groups'', ''groupsPage''),
      (''/admin/monitoring'', ''monitoringPage''),
      (''/api/v1/admin/stats'', ''getStats''),
      (''/api/v1/admin/activities'', ''getActivities''),
      (''/api/v1/admin/quotas'', ''getQuotas''),
      (''/api/v1/admin/monitoring/system'', ''getSystemStats''),
      (''/api/v1/admin/monitoring/api'', ''getAPIMetrics''),
      (''/api/v1/admin/monitoring/database'', ''getDBStats''),
      (''/api/v1/admin/monitoring/throttle'', ''getThrottleStats''),
      (''/api/v1/admin/monitoring/errors'', ''getRecentErrors'')]"

definition api_routes :: routes where
  "api_routes = map (\<lambda>(pat, h). (parse_pattern pat, h)) api_table"

definition site_routes :: routes where
  "site_routes = map (\<lambda>(pat, h). (parse_pattern pat, h)) (server_table @ admin_table)"

text \<open>The site hands \<open>/api/v1/\<close> on to the API, and its index page serves one path only.\<close>

definition site :: "string \<Rightarrow> string list \<Rightarrow> outcome" where
  "site m path = (case serve site_routes m path of
     Serves h bs \<Rightarrow>
       if h = ''apiRouter'' then serve api_routes m path
       else if h = ''index'' \<and> path \<noteq> [''''] then NotFound
       else Serves h bs
   | other \<Rightarrow> other)"

end
