(* ===== verification/Router_Laws.thy ===== *)
theory Router_Laws
  imports Router "HOL-Library.Multiset"
begin

text \<open>
  Every request has at most one most specific pattern, and the tables of the code
  register without a panic in any order, so that the outcome of a request is determined
  by the patterns alone.
\<close>

section \<open>Overlap and cover\<close>

text \<open>With conditionals instead of conjunctions the tables are checked faster.\<close>

lemma conflict_code [code]:
  "conflict p q =
     (if method_matches (pt_method p) (pt_method q) \<or> method_matches (pt_method q) (pt_method p)
      then if path_overlap p q then covers p q \<longleftrightarrow> covers q p else False
      else False)"
  by (simp add: conflict_def overlap_def)

lemma path_overlap_code [code]:
  "path_overlap p q =
     (let n = length (pt_segs p); k = length (pt_segs q) in
      if n < k \<and> pt_subtree p \<or> k < n \<and> pt_subtree q \<or> n = k \<and> pt_subtree p = pt_subtree q
      then list_all2 seg_overlap (take (min n k) (pt_segs p)) (take (min n k) (pt_segs q)) else False)"
  by (simp add: path_overlap_def Let_def cong: if_cong)

lemma seg_overlap_sound: "seg_matches a s \<Longrightarrow> seg_matches b s \<Longrightarrow> seg_overlap a b"
  by (cases a; cases b) auto

lemma seg_covers_sound: "seg_covers a b \<Longrightarrow> seg_matches b s \<Longrightarrow> seg_matches a s"
  by (cases a; cases b) auto

lemma seg_covers_trans: "seg_covers a b \<Longrightarrow> seg_covers b c \<Longrightarrow> seg_covers a c"
  by (cases a; cases b; cases c) auto

lemma list_all2_take: "list_all2 P xs ys \<Longrightarrow> list_all2 P xs (take (length xs) ys)"
  by (simp add: list_all2_lengthD)

lemma list_all2_comp:
  "list_all2 P xs ys \<Longrightarrow> list_all2 Q ys zs \<Longrightarrow> (\<And>x y z. P x y \<Longrightarrow> Q y z \<Longrightarrow> R x z) \<Longrightarrow> list_all2 R xs zs"
  by (fastforce simp: list_all2_conv_all_nth)

lemma overlap_sound:
  assumes "matches p m path" "matches q m path"
  shows "overlap p q"
proof -
  let ?n = "length (pt_segs p)" and ?k = "length (pt_segs q)"
  have len: "?n < length path \<and> pt_subtree p \<or> ?n = length path \<and> \<not> pt_subtree p"
    "?k < length path \<and> pt_subtree q \<or> ?k = length path \<and> \<not> pt_subtree q"
    using assms by (auto simp: matches_def path_matches_def dest: list_all2_lengthD split: if_splits)
  have seg: "i < ?n \<Longrightarrow> seg_matches (pt_segs p ! i) (path ! i)" "i < ?k \<Longrightarrow> seg_matches (pt_segs q ! i) (path ! i)" for i
    using assms by (auto simp: matches_def path_matches_def list_all2_conv_all_nth split: if_splits)
  have "list_all2 seg_overlap (take (min ?n ?k) (pt_segs p)) (take (min ?n ?k) (pt_segs q))"
    using seg by (auto simp: list_all2_conv_all_nth intro: seg_overlap_sound)
  moreover have "?n < ?k \<and> pt_subtree p \<or> ?k < ?n \<and> pt_subtree q \<or> ?n = ?k \<and> pt_subtree p = pt_subtree q"
    using len by linarith
  moreover have "method_matches (pt_method p) (pt_method q) \<or> method_matches (pt_method q) (pt_method p)"
    using assms by (auto simp: matches_def method_matches_def)
  ultimately show ?thesis by (simp add: overlap_def path_overlap_def)
qed

lemma covers_sound:
  assumes "covers p q" "matches q m path"
  shows "matches p m path"
proof -
  have meth: "method_matches (pt_method p) m"
    using assms by (auto simp: covers_def matches_def method_matches_def)
  have q: "list_all2 seg_matches (pt_segs q) (take (length (pt_segs q)) path)" "length (pt_segs q) \<le> length path"
    "pt_subtree q \<Longrightarrow> length (pt_segs q) < length path" "\<not> pt_subtree q \<Longrightarrow> length (pt_segs q) = length path"
    using assms(2) by (auto simp: matches_def path_matches_def dest: list_all2_take list_all2_lengthD split: if_splits)
  have c: "path_covers p q" using assms(1) by (simp add: covers_def)
  have "list_all2 seg_covers (pt_segs p) (take (length (pt_segs p)) (pt_segs q))"
    using c by (auto simp: path_covers_def dest: list_all2_take split: if_splits)
  moreover have "list_all2 seg_matches (take (length (pt_segs p)) (pt_segs q)) (take (length (pt_segs p)) path)"
    using list_all2_takeI [OF q(1), of "length (pt_segs p)"] c
    by (auto simp: path_covers_def min_def dest: list_all2_lengthD split: if_splits)
  ultimately have "list_all2 seg_matches (pt_segs p) (take (length (pt_segs p)) path)"
    by (rule list_all2_comp) (rule seg_covers_sound)
  moreover have "if pt_subtree p then length (pt_segs p) < length path else length (pt_segs p) = length path"
    using c q(2-4) by (auto simp: path_covers_def dest: list_all2_lengthD split: if_splits)
  ultimately have "path_matches p path" by (auto simp: path_matches_def)
  with meth show ?thesis by (simp add: matches_def)
qed

lemma covers_trans:
  assumes "covers p q" "covers q r"
  shows "covers p r"
proof -
  have meth: "method_matches (pt_method p) (pt_method r)"
    using assms by (auto simp: covers_def method_matches_def)
  have c: "path_covers p q" "path_covers q r" using assms by (simp_all add: covers_def)
  have "list_all2 seg_covers (pt_segs p) (take (length (pt_segs p)) (pt_segs q))"
    using c(1) by (auto simp: path_covers_def dest: list_all2_take split: if_splits)
  moreover have "list_all2 seg_covers (pt_segs q) (take (length (pt_segs q)) (pt_segs r))"
    using c(2) by (auto simp: path_covers_def dest: list_all2_take split: if_splits)
  then have "list_all2 seg_covers (take (length (pt_segs p)) (pt_segs q)) (take (length (pt_segs p)) (pt_segs r))"
    using list_all2_takeI [of seg_covers "pt_segs q" "take (length (pt_segs q)) (pt_segs r)" "length (pt_segs p)"] c
    by (auto simp: path_covers_def min_def dest: list_all2_lengthD split: if_splits)
  ultimately have "list_all2 seg_covers (pt_segs p) (take (length (pt_segs p)) (pt_segs r))"
    by (rule list_all2_comp) (rule seg_covers_trans)
  then have "path_covers p r"
    using c list_all2_lengthD [of seg_covers "pt_segs p" "pt_segs q"] list_all2_lengthD [of seg_covers "pt_segs q" "pt_segs r"]
    by (auto simp: path_covers_def dest: list_all2_lengthD split: if_splits)
  with meth show ?thesis by (simp add: covers_def)
qed

section \<open>The most specific pattern\<close>

definition no_conflict :: "routes \<Rightarrow> bool" where
  "no_conflict rs \<longleftrightarrow> sorted_wrt (\<lambda>r s. \<not> conflict (fst s) (fst r)) rs"

lemma conflict_sym: "conflict p q \<longleftrightarrow> conflict q p"
proof -
  have "seg_overlap a b \<longleftrightarrow> seg_overlap b a" for a b by (cases a; cases b) auto
  then have "path_overlap p q \<longleftrightarrow> path_overlap q p"
    by (auto simp: path_overlap_def Let_def list_all2_conv_all_nth min.commute)
  then show ?thesis by (auto simp: conflict_def overlap_def)
qed

lemma no_conflict_pair:
  assumes "no_conflict rs" "r \<in> set rs" "s \<in> set rs" "r \<noteq> s"
  shows "\<not> conflict (fst r) (fst s)"
proof -
  obtain i j where ij: "i < length rs" "j < length rs" "rs ! i = r" "rs ! j = s"
    using assms(2,3) by (auto simp: in_set_conv_nth)
  with assms(4) consider "i < j" | "j < i" by fastforce
  then show ?thesis
    using assms(1) ij conflict_sym [of "fst r" "fst s"] by cases (auto simp: no_conflict_def sorted_wrt_iff_nth_less)
qed

lemma register_keeps:
  "register ts rs = Some out \<Longrightarrow> no_conflict rs \<Longrightarrow>
     out = rs @ map (\<lambda>(pat, h). (parse_pattern pat, h)) ts \<and> no_conflict out"
proof (induction ts rs rule: register.induct)
  case (2 pat h rest rs)
  from 2(2) have new: "\<not> list_ex (\<lambda>r. conflict (parse_pattern pat) (fst r)) rs"
    and rest: "register rest (rs @ [(parse_pattern pat, h)]) = Some out" by (auto split: if_splits)
  from new 2(3) have "no_conflict (rs @ [(parse_pattern pat, h)])"
    by (auto simp: no_conflict_def sorted_wrt_append list_ex_iff)
  from 2(1) [OF new rest this] show ?case by auto
qed simp

text \<open>A chain has a least element.\<close>

lemma chain_least:
  assumes "xs \<noteq> []" "\<And>x y. x \<in> set xs \<Longrightarrow> y \<in> set xs \<Longrightarrow> c x y \<or> c y x"
    and "\<And>x y z. c x y \<Longrightarrow> c y z \<Longrightarrow> c x z"
  shows "\<exists>x \<in> set xs. \<forall>y \<in> set xs. c y x"
  using assms(1,2)
proof (induction xs)
  case (Cons x xs)
  show ?case
  proof (cases "xs = []")
    case True
    then show ?thesis using Cons.prems(2) [of x x] by auto
  next
    case False
    with Cons obtain y where y: "y \<in> set xs" "\<forall>z \<in> set xs. c z y" by (metis list.set_intros(2))
    show ?thesis
    proof (cases "c x y")
      case True
      with y show ?thesis by auto
    next
      case False
      with Cons.prems(2) [of x y] y have "c y x" by auto
      with y assms(3) have "\<forall>z \<in> set xs. c z x" by blast
      moreover have "c x x" using Cons.prems(2) [of x x] by auto
      ultimately show ?thesis by auto
    qed
  qed
qed simp

lemma self_covers: "matches p m path \<Longrightarrow> covers p p"
proof -
  assume p: "matches p m path"
  have "seg_matches s x \<Longrightarrow> seg_covers s s \<or> (\<exists>y. s = Lit y)" for s x by (cases s) auto
  have "seg_covers s s" for s by (cases s) auto
  then show ?thesis by (simp add: covers_def method_matches_def path_covers_def list.rel_refl)
qed

lemma most_specific_exact:
  assumes "no_conflict rs"
  shows "most_specific rs m path = Some r \<longleftrightarrow>
    r \<in> set rs \<and> matches (fst r) m path \<and> (\<forall>s \<in> set rs. matches (fst s) m path \<longrightarrow> covers (fst s) (fst r))"
    (is "_ \<longleftrightarrow> ?best r")
proof
  assume "most_specific rs m path = Some r"
  then show "?best r" by (auto simp: most_specific_def Let_def find_Some_iff list_all_iff dest!: nth_mem)
next
  assume best: "?best r"
  let ?ms = "filter (\<lambda>r. matches (fst r) m path) rs"
  have "find (\<lambda>r. list_all (\<lambda>s. covers (fst s) (fst r)) ?ms) ?ms \<noteq> None"
  proof -
    have "r \<in> set ?ms" "list_all (\<lambda>s. covers (fst s) (fst r)) ?ms" using best by (auto simp: list_all_iff)
    then show ?thesis by (metis (no_types, lifting) find_None_iff)
  qed
  then obtain s where s: "most_specific rs m path = Some s" by (auto simp: most_specific_def Let_def)
  then have "?best s" by (auto simp: most_specific_def Let_def find_Some_iff list_all_iff dest!: nth_mem)
  with best have "covers (fst s) (fst r)" "covers (fst r) (fst s)" "overlap (fst r) (fst s)"
    by (auto intro: overlap_sound)
  then have "r = s"
    using no_conflict_pair [OF assms(1), of r s] best \<open>?best s\<close> by (auto simp: conflict_def)
  with s show "most_specific rs m path = Some r" by simp
qed

lemma most_specific_exists:
  assumes "no_conflict rs" "r \<in> set rs" "matches (fst r) m path"
  shows "most_specific rs m path \<noteq> None"
proof -
  let ?ms = "filter (\<lambda>r. matches (fst r) m path) rs"
  have chain: "covers (fst a) (fst b) \<or> covers (fst b) (fst a)" if "a \<in> set ?ms" "b \<in> set ?ms" for a b
  proof (cases "a = b")
    case True
    with that self_covers show ?thesis by auto
  next
    case False
    then have "a \<noteq> b" .
    moreover have "overlap (fst a) (fst b)" using that overlap_sound by auto
    ultimately show ?thesis using that no_conflict_pair [OF assms(1), of a b] by (auto simp: conflict_def)
  qed
  have "?ms \<noteq> []" using assms(2,3) by (auto simp: filter_empty_conv)
  from chain_least [where c = "\<lambda>a b. covers (fst a) (fst b)", OF this chain covers_trans]
  show ?thesis by (auto simp: most_specific_def Let_def find_None_iff list_all_iff)
qed

section \<open>The tables register\<close>

lemma api_registers: "register api_table [] \<noteq> None"
  by code_simp

lemma site_registers: "register (server_table @ admin_table) [] \<noteq> None"
  by code_simp

lemma registered_tables:
  "register api_table [] = Some api_routes" "no_conflict api_routes"
  "register (server_table @ admin_table) [] = Some site_routes" "no_conflict site_routes"
  using api_registers site_registers register_keeps [of api_table "[]"] register_keeps [of "server_table @ admin_table" "[]"]
  by (auto simp: api_routes_def site_routes_def no_conflict_def)

section \<open>Every request has one outcome\<close>

text \<open>The specification: the pattern that serves is the one more specific than all that match.\<close>

definition best :: "routes \<Rightarrow> string \<Rightarrow> string list \<Rightarrow> pattern \<times> string \<Rightarrow> bool" where
  "best rs m path r \<longleftrightarrow> r \<in> set rs \<and> matches (fst r) m path \<and>
     (\<forall>s \<in> set rs. matches (fst s) m path \<longrightarrow> covers (fst s) (fst r))"

text \<open>The path lacks only the slash: it has no exact pattern of its own, and with the slash it has one.\<close>

definition needs_slash :: "routes \<Rightarrow> string \<Rightarrow> string list \<Rightarrow> bool" where
  "needs_slash rs m path \<longleftrightarrow> last path \<noteq> '''' \<and>
     \<not> (\<exists>r. best rs m path r \<and> exact_match (Some r) path) \<and>
     (\<exists>r. best rs m (path @ ['''']) r \<and> exact_match (Some r) (path @ ['''']))"

lemma most_specific_best: "no_conflict rs \<Longrightarrow> most_specific rs m path = Some r \<longleftrightarrow> best rs m path r"
  unfolding best_def by (rule most_specific_exact)

lemma exact_best:
  assumes "no_conflict rs"
  shows "exact_match (most_specific rs m path) path' \<longleftrightarrow> (\<exists>r. best rs m path r \<and> exact_match (Some r) path')"
proof (cases "most_specific rs m path")
  case None
  then have "\<not> best rs m path r" for r using most_specific_best [OF assms] by (metis option.distinct(1))
  with None show ?thesis by (simp add: exact_match_def)
next
  case (Some r)
  then have "best rs m path s \<longleftrightarrow> s = r" for s using most_specific_best [OF assms, of m path s] by auto
  with Some show ?thesis by (simp del: split_paired_Ex)
qed

lemma serve_best:
  assumes "no_conflict rs"
  shows "serve rs m path =
    (if needs_slash rs m path then Redirects
     else case most_specific rs m path of Some (p, h) \<Rightarrow> Serves h (bindings p path)
       | None \<Rightarrow> if \<exists>r \<in> set rs. path_matches (fst r) path then NotAllowed else NotFound)"
proof -
  have "needs_slash rs m path \<longleftrightarrow> \<not> exact_match (most_specific rs m path) path \<and> last path \<noteq> '''' \<and>
      exact_match (most_specific rs m (path @ [''''])) (path @ [''''])"
    using exact_best [OF assms] by (auto simp: needs_slash_def simp del: split_paired_Ex)
  then show ?thesis unfolding serve_def Let_def list_ex_iff by (simp only:)
qed

lemma no_match: "no_conflict rs \<Longrightarrow> most_specific rs m path = None \<longleftrightarrow> (\<forall>r \<in> set rs. \<not> matches (fst r) m path)"
  using most_specific_exists most_specific_exact by (metis option.exhaust)

lemma serve_cases:
  assumes "no_conflict rs"
  shows "serve rs m path = Redirects \<longleftrightarrow> needs_slash rs m path"
    and "serve rs m path = Serves h bs \<longleftrightarrow> \<not> needs_slash rs m path \<and> (\<exists>p. best rs m path (p, h) \<and> bs = bindings p path)"
    and "serve rs m path = NotAllowed \<longleftrightarrow> \<not> needs_slash rs m path \<and>
      (\<forall>r \<in> set rs. \<not> matches (fst r) m path) \<and> (\<exists>r \<in> set rs. path_matches (fst r) path)"
    and "serve rs m path = NotFound \<longleftrightarrow> \<not> needs_slash rs m path \<and> (\<forall>r \<in> set rs. \<not> path_matches (fst r) path)"
proof -
  note serve = serve_best [OF assms, of m path]
  have mp: "matches p m path \<Longrightarrow> path_matches p path" for p by (simp add: matches_def)
  note none = no_match [OF assms, of m path]
  show "serve rs m path = Redirects \<longleftrightarrow> needs_slash rs m path"
    unfolding serve by (simp split: option.split prod.split)
  show "serve rs m path = Serves h bs \<longleftrightarrow> \<not> needs_slash rs m path \<and> (\<exists>p. best rs m path (p, h) \<and> bs = bindings p path)"
    unfolding serve most_specific_best [OF assms, symmetric] by (auto split: option.split prod.split)
  show "serve rs m path = NotAllowed \<longleftrightarrow> \<not> needs_slash rs m path \<and>
      (\<forall>r \<in> set rs. \<not> matches (fst r) m path) \<and> (\<exists>r \<in> set rs. path_matches (fst r) path)"
    unfolding serve none [symmetric] by (simp split: option.split prod.split)
  show "serve rs m path = NotFound \<longleftrightarrow> \<not> needs_slash rs m path \<and> (\<forall>r \<in> set rs. \<not> path_matches (fst r) path)"
    using none mp unfolding serve by (cases "most_specific rs m path") (force split: prod.split)+
qed

text \<open>What is served depends on the set of the routes alone.\<close>

lemma serve_set:
  assumes "no_conflict rs" "no_conflict rs'" "set rs = set rs'"
  shows "serve rs m path = serve rs' m path"
proof -
  have b: "best rs = best rs'" by (simp add: best_def fun_eq_iff assms(3))
  have "most_specific rs m path = most_specific rs' m path"
    using most_specific_best [OF assms(1), of m path] most_specific_best [OF assms(2), of m path] b
    by (metis option.exhaust)
  then show ?thesis
    unfolding serve_best [OF assms(1)] serve_best [OF assms(2)] needs_slash_def by (simp only: b assms(3))
qed

lemma sorted_wrt_mset:
  assumes "\<And>x y. R x y \<longleftrightarrow> R y x" "mset xs = mset ys" "sorted_wrt R xs"
  shows "sorted_wrt R ys"
  using assms(2,3)
proof (induction xs arbitrary: ys)
  case (Cons x xs)
  then have "x \<in> set ys" by (metis list.set_intros(1) set_mset_mset)
  then obtain as bs where ys: "ys = as @ x # bs" by (auto simp: in_set_conv_decomp)
  with Cons.prems(1) have m: "mset xs = mset (as @ bs)" by simp
  then have "sorted_wrt R (as @ bs)" using Cons by simp
  moreover have "\<forall>y \<in> set (as @ bs). R x y" using Cons.prems(2) m by (metis set_mset_mset sorted_wrt.simps(2))
  ultimately show ?case using assms(1) by (auto simp: ys sorted_wrt_append)
qed simp

lemma no_conflict_register:
  "no_conflict (rs @ map (\<lambda>(pat, h). (parse_pattern pat, h)) ts) \<Longrightarrow>
     register ts rs = Some (rs @ map (\<lambda>(pat, h). (parse_pattern pat, h)) ts)"
proof (induction ts rs rule: register.induct)
  case (2 pat h rest rs)
  have "\<not> list_ex (\<lambda>r. conflict (parse_pattern pat) (fst r)) rs"
    using 2(2) by (auto simp: no_conflict_def sorted_wrt_append list_ex_iff)
  with 2(1) [OF this] 2(2) show ?case by simp
qed simp

lemma registers_permuted:
  assumes "mset ts = mset table" "register table [] = Some rs"
  shows "\<exists>rs'. register ts [] = Some rs' \<and> no_conflict rs' \<and> no_conflict rs \<and> set rs' = set rs"
proof -
  let ?read = "map (\<lambda>(pat, h). (parse_pattern pat, h))"
  have rs: "rs = ?read table" "no_conflict rs" using register_keeps [OF assms(2)] by (auto simp: no_conflict_def)
  have "mset (?read table) = mset (?read ts)" by (simp add: assms(1))
  moreover have "sorted_wrt (\<lambda>r s. \<not> conflict (fst s) (fst r)) (?read table)"
    using rs by (simp add: no_conflict_def)
  ultimately have "sorted_wrt (\<lambda>r s. \<not> conflict (fst s) (fst r)) (?read ts)"
    by (rule sorted_wrt_mset [rotated 1]) (rule arg_cong [where f = Not], rule conflict_sym)
  then have "no_conflict (?read ts)" by (simp add: no_conflict_def)
  moreover have "set (?read ts) = set rs" unfolding rs(1) set_map mset_eq_setD [OF assms(1)] ..
  ultimately show ?thesis using no_conflict_register [of "[]" ts] rs(2) by auto
qed

text \<open>
  C15: the routes are unambiguous. Whatever the order in which the routes of the API, or
  those of the site, are registered, registering does not panic and every request meets
  the same outcome. It is redirected exactly if its path lacks only the slash of a
  pattern that is then an exact match; otherwise it is served by the one pattern that
  matches its method and path and is more specific than every other that does, with the
  values of its wildcards; if none matches, the answer is 405 exactly if some pattern
  matches the path under another method, and 404 if none does.
\<close>

theorem routes_unambiguous:
  assumes "table = api_table \<and> routes = api_routes \<or> table = server_table @ admin_table \<and> routes = site_routes"
    and "mset ts = mset table"
  shows "\<exists>rs. register ts [] = Some rs \<and> (\<forall>m path.
    serve rs m path = serve routes m path \<and>
    (serve routes m path = Redirects \<longleftrightarrow> needs_slash routes m path) \<and>
    (\<forall>h bs. serve routes m path = Serves h bs \<longleftrightarrow> \<not> needs_slash routes m path \<and>
      (\<exists>p. (p, h) \<in> set routes \<and> matches p m path \<and>
        (\<forall>s \<in> set routes. matches (fst s) m path \<longrightarrow> covers (fst s) p) \<and> bs = bindings p path)) \<and>
    (serve routes m path = NotAllowed \<longleftrightarrow> \<not> needs_slash routes m path \<and>
      (\<forall>r \<in> set routes. \<not> matches (fst r) m path) \<and> (\<exists>r \<in> set routes. path_matches (fst r) path)) \<and>
    (serve routes m path = NotFound \<longleftrightarrow> \<not> needs_slash routes m path \<and>
      (\<forall>r \<in> set routes. \<not> path_matches (fst r) path)))"
proof -
  have "register table [] = Some routes" using assms(1) registered_tables by auto
  from registers_permuted [OF assms(2) this] obtain rs where
    rs: "register ts [] = Some rs" "no_conflict rs" "no_conflict routes" "set rs = set routes" by blast
  show ?thesis
    using rs(1) serve_set [OF rs(2,3,4)] serve_cases [OF rs(3)]
    unfolding best_def fst_conv by (intro exI [of _ rs]) simp
qed

theorem routes_unambiguous_witness:
  "\<exists>rs. register (rev api_table) [] = Some rs \<and> (\<forall>m path. serve rs m path = serve api_routes m path)"
  using routes_unambiguous [of api_table api_routes "rev api_table"] by auto

text \<open>The root of the API is redirected to its subtree, although the index page matches it.\<close>

theorem api_root_redirects: "serve site_routes ''GET'' [''api'', ''v1''] = Redirects"
  by code_simp

section \<open>What the tables leave out and hide\<close>

text \<open>
  No route leads to the users page of the server or to a handler of the translator; a user,
  study, group, role or result with the id \<open>export\<close> cannot be read.
\<close>

theorem handlers_without_route:
  "set [''handleAdminUsers'', ''TranslateStudy'', ''SetUserNLPConfig'', ''GetUserNLPConfig'', ''GetNLPDailyCount''] \<inter>
     snd ` set (api_table @ server_table @ admin_table) = {}"
  by code_simp

theorem export_hides_ids:
  "site ''GET'' [''api'', ''v1'', ''users'', ''export''] = Serves ''ExportUsers'' [] \<and>
   site ''GET'' [''api'', ''v1'', ''studies'', ''export''] = Serves ''ExportStudies'' [] \<and>
   site ''GET'' [''api'', ''v1'', ''users'', ''bob''] = Serves ''GetUser'' [(''id'', ''bob'')]"
  by code_simp

end
