(* ===== verification/Display.thy ===== *)
theory Display
  imports Sentinel Passwords Screen_Studies
begin

text \<open>
  How numbers are shown: the template helpers of \<open>internal/dashboard/dashboard.go\<close> and of
  \<open>internal/digest/digest.go\<close> over \<open>strconv.FormatFloat(v, 'f', d, 64)\<close>, which rounds the
  exact value to \<open>d\<close> decimals, halves to even, and \<open>FormatInt\<close>. Texts are bytes.
\<close>

section \<open>strconv\<close>

text \<open>The last \<open>d\<close> decimal digits of a number, with leading zeros.\<close>

fun last_digits :: "nat \<Rightarrow> nat \<Rightarrow> string" where
  "last_digits 0 n = []"
| "last_digits (Suc d) n = last_digits d (n div 10) @ [char_of (48 + n mod 10)]"

definition fixed :: "nat \<Rightarrow> nat \<Rightarrow> string" where
  "fixed d n = show_nat (n div 10 ^ d) @ (if d = 0 then [] else CHR ''.'' # last_digits d (n mod 10 ^ d))"

fun FormatFloat :: "nat \<Rightarrow> float64 \<Rightarrow> string" where
  "FormatFloat d NaN = ''NaN''"
| "FormatFloat d (Inf s) = (if s then ''-Inf'' else ''+Inf'')"
| "FormatFloat d (Zero s) = (if s then ''-'' else '''') @ fixed d 0"
| "FormatFloat d (Fin q) = (if q < 0 then ''-'' else '''') @ fixed d (nat (round_even (\<bar>q\<bar> * 10 ^ d)))"

section \<open>The dashboard\<close>

definition money :: "float64 \<Rightarrow> string" where
  "money v =
     (if isnan v then dash
      else if fle (lit (10 ^ 9)) v then ''$'' @ FormatFloat 1 (fdiv v (lit (10 ^ 9))) @ ''B''
      else if fle (lit (10 ^ 6)) v then ''$'' @ FormatFloat 1 (fdiv v (lit (10 ^ 6))) @ ''M''
      else if fle (lit (10 ^ 3)) v then ''$'' @ FormatFloat 1 (fdiv v (lit (10 ^ 3))) @ ''K''
      else ''$'' @ FormatFloat 0 v)"

definition retpct :: "float64 \<Rightarrow> string" where
  "retpct v =
     (if isnan v then dash
      else let s = FormatFloat 0 (fmul v (lit 100))
           in if fle (lit 0) v then ''+'' @ s @ ''%'' else s @ ''%'')"

definition num1 :: "float64 \<Rightarrow> string" where
  "num1 v = (if isnan v then dash else FormatFloat 1 v)"

definition num2 :: "float64 \<Rightarrow> string" where
  "num2 v = (if isnan v then dash else FormatFloat 2 v)"

definition ratio :: "float64 \<Rightarrow> string" where
  "ratio v = (if isnan v then dash else FormatFloat 2 v @ ''x'')"

definition grouped :: "string \<Rightarrow> string" where
  "grouped s = concat (map (\<lambda>i. (if i > 0 \<and> (length s - i) mod 3 = 0 then '','' else '''') @ [s ! i]) [0..<length s])"

definition humanInt :: "int \<Rightarrow> string" where
  "humanInt n = (let s = show_int n in if n < 0 then s else grouped s)"

definition dbSize :: "int \<Rightarrow> string" where
  "dbSize bytes =
     (if bytes \<ge> 2 ^ 30 then FormatFloat 1 (fdiv (of_int64 bytes) (lit (2 ^ 30))) @ '' GB''
      else if bytes \<ge> 2 ^ 20 then show_int (bytes div 2 ^ 20) @ '' MB''
      else show_int (bytes div 2 ^ 10) @ '' KB'')"

definition ms :: "int \<Rightarrow> string" where
  "ms millis = FormatFloat 2 (fdiv (of_int64 millis) (lit 1000)) @ '' s''"

text \<open>Byte-wise upper case of a severity.\<close>

definition upper_byte :: "char \<Rightarrow> char" where
  "upper_byte c = (let n = of_char c :: nat in if 97 \<le> n \<and> n \<le> 122 then char_of (n - 32) else c)"

definition upper :: "string \<Rightarrow> string" where
  "upper s = map upper_byte s"

definition gt0 :: "float64 \<Rightarrow> bool" where "gt0 v = flt (lit (5 / 100)) v"
definition lt0 :: "float64 \<Rightarrow> bool" where "lt0 v = flt v (lit (- 5 / 100))"

section \<open>The digest\<close>

definition breadthMood :: "breadth \<Rightarrow> string" where
  "breadthMood b =
     (if flt (lit 60) (PctAbove200 b) then ''Breadth broadening.''
      else if flt (PctAbove200 b) (lit 40) then ''Breadth narrowing.''
      else ''Breadth steady.'')"

definition trimNum :: "float64 \<Rightarrow> nat \<Rightarrow> string" where
  "trimNum v dec = FormatFloat dec v"

definition f2 :: "float64 \<Rightarrow> string" where
  "f2 v = (if isnan v then dash else trimNum v 2)"

definition pct1 :: "float64 \<Rightarrow> string" where
  "pct1 v = (if isnan v then dash else trimNum (fmul v (lit 100)) 1 @ ''%'')"

definition pp1 :: "float64 \<Rightarrow> string" where
  "pp1 v = (if isnan v then dash else trimNum v 1)"

definition arrow :: "float64 \<Rightarrow> string" where
  "arrow delta =
     (if isnan delta then ''''
      else if flt (lit (5 / 100)) delta then [CHR 0xE2, CHR 0x96, CHR 0xB2] @ '' +'' @ pp1 delta @ '' pp''
      else if flt delta (lit (- 5 / 100)) then [CHR 0xE2, CHR 0x96, CHR 0xBC] @ '' '' @ pp1 delta @ '' pp''
      else [CHR 0xE2, CHR 0x96, CHR 0xAC] @ '' flat'')"

definition digest_money :: "float64 \<Rightarrow> string" where
  "digest_money v =
     (if isnan v then dash
      else if fle (lit (10 ^ 9)) v then ''$'' @ trimNum (fdiv v (lit (10 ^ 9))) 1 @ ''B''
      else if fle (lit (10 ^ 6)) v then ''$'' @ trimNum (fdiv v (lit (10 ^ 6))) 1 @ ''M''
      else if fle (lit (10 ^ 3)) v then ''$'' @ trimNum (fdiv v (lit (10 ^ 3))) 1 @ ''K''
      else ''$'' @ trimNum v 0)"

section \<open>Reading the texts back\<close>

definition dec :: "nat \<Rightarrow> string \<Rightarrow> nat" where
  "dec v s = foldl (\<lambda>v c. 10 * v + (of_char c - 48)) v s"

definition magnitude :: "string \<Rightarrow> rat" where
  "magnitude s =
     (let whole = takeWhile (\<lambda>c. c \<noteq> CHR ''.'') s; frac = drop (length whole + 1) s
      in of_nat (dec 0 (whole @ frac)) / 10 ^ length frac)"

definition text_val :: "string \<Rightarrow> rat" where
  "text_val s = (if has_prefix s ''-'' then - magnitude (tl s) else magnitude s)"

lemma dec_show_nat: "dec 0 (show_nat n) = n"
proof (induction n rule: show_nat.induct)
  case (1 n)
  show ?case
  proof (cases "n < 10")
    case True
    then show ?thesis by (simp add: dec_def show_nat.simps [of n])
  next
    case False
    with 1 show ?thesis by (simp add: dec_def show_nat.simps [of n])
  qed
qed

lemma dec_last_digits: "dec v (last_digits d n) = v * 10 ^ d + n mod 10 ^ d"
proof (induction d arbitrary: n)
  case (Suc d)
  have "n mod (10 * 10 ^ d) = 10 * (n div 10 mod 10 ^ d) + n mod 10"
    by (simp add: mod_mult2_eq)
  with Suc [of "n div 10"] show ?case by (simp add: dec_def algebra_simps)
qed (simp add: dec_def)

lemma length_last_digits [simp]: "length (last_digits d n) = d"
  by (induction d arbitrary: n) auto

lemma no_point: "c \<in> set (show_nat n) \<Longrightarrow> c \<noteq> CHR ''.'' \<and> c \<noteq> CHR ''-'' \<and> c \<noteq> CHR '',''"
  by (drule show_nat_bytes) auto

lemma show_nat_nonempty: "show_nat n \<noteq> []"
  by (subst show_nat.simps) simp

lemma magnitude_fixed: "magnitude (fixed d n) = of_nat n / 10 ^ d"
proof -
  have take: "takeWhile (\<lambda>c. c \<noteq> CHR ''.'') (show_nat k) = show_nat k" for k
    using no_point by (simp add: takeWhile_eq_all_conv)
  have take_point: "takeWhile (\<lambda>c. c \<noteq> CHR ''.'') (show_nat k @ CHR ''.'' # t) = show_nat k" for k t
    using no_point by (subst takeWhile_append2) auto
  have dec: "dec 0 (s @ t) = dec (dec 0 s) t" for s t by (simp add: dec_def)
  show ?thesis
  proof (cases "d = 0")
    case True
    then show ?thesis by (simp add: magnitude_def fixed_def Let_def take dec_show_nat)
  next
    case False
    have "of_nat (n div 10 ^ d) * 10 ^ d + of_nat (n mod 10 ^ d) = (of_nat (n div 10 ^ d * 10 ^ d + n mod 10 ^ d) :: rat)"
      by (simp only: of_nat_add of_nat_mult of_nat_power of_nat_numeral)
    then have "of_nat (n div 10 ^ d) * 10 ^ d + of_nat (n mod 10 ^ d) = (of_nat n :: rat)"
      by (simp only: div_mult_mod_eq)
    with False show ?thesis
      by (simp add: magnitude_def fixed_def Let_def take_point dec dec_show_nat dec_last_digits)
  qed
qed

lemma text_val_signed: "text_val ((if sg then ''-'' else '''') @ fixed d n) = (if sg then - 1 else 1) * (of_nat n / 10 ^ d)"
proof -
  obtain c t where s: "show_nat (n div 10 ^ d) = c # t"
    using show_nat_nonempty [of "n div 10 ^ d"] by (cases "show_nat (n div 10 ^ d)") simp_all
  with no_point [of c "n div 10 ^ d"] have "c \<noteq> CHR ''-''" by simp
  moreover have "fixed d n = c # t @ (if d = 0 then [] else CHR ''.'' # last_digits d (n mod 10 ^ d))"
    unfolding fixed_def s by simp
  ultimately show ?thesis using magnitude_fixed [of d n] by (auto simp: text_val_def has_prefix_def)
qed

lemma round_even_near: "\<bar>of_int (round_even q) - q\<bar> \<le> 1 / 2"
proof -
  have "of_int \<lfloor>q\<rfloor> \<le> q" "q < of_int \<lfloor>q\<rfloor> + 1" by linarith+
  then show ?thesis by (simp add: round_even_def Let_def)
qed

section \<open>What the texts say\<close>

lemma FormatFloat_near:
  assumes "fin v"
  shows "\<bar>text_val (FormatFloat d v) - val v\<bar> \<le> 1 / 2 / 10 ^ d"
proof (cases v)
  case (Zero s)
  have "text_val (FormatFloat d v) = 0"
    unfolding Zero FormatFloat.simps text_val_signed by simp
  then show ?thesis by (simp add: Zero)
next
  case (Fin q)
  let ?n = "round_even (\<bar>q\<bar> * 10 ^ d)"
  have near: "\<bar>of_int ?n - \<bar>q\<bar> * 10 ^ d\<bar> \<le> 1 / 2" by (rule round_even_near)
  have "0 \<le> \<lfloor>\<bar>q\<bar> * 10 ^ d\<rfloor>" by simp
  then have pos: "0 \<le> ?n" using round_even_floor(1) [of "\<bar>q\<bar> * 10 ^ d"] by linarith
  have "of_int ?n / 10 ^ d - \<bar>q\<bar> = (of_int ?n - \<bar>q\<bar> * 10 ^ d) / 10 ^ d"
    by (simp only: diff_divide_distrib) simp
  then have "\<bar>of_int ?n / 10 ^ d - \<bar>q\<bar>\<bar> = \<bar>of_int ?n - \<bar>q\<bar> * 10 ^ d\<bar> / 10 ^ d"
    by (simp only: abs_divide power_abs abs_numeral)
  also have "\<dots> \<le> 1 / 2 / 10 ^ d" using near by (intro divide_right_mono) auto
  finally have m: "\<bar>of_int ?n / 10 ^ d - \<bar>q\<bar>\<bar> \<le> 1 / 2 / 10 ^ d" .
  have "text_val (FormatFloat d v) = (if q < 0 then - 1 else 1) * (of_int ?n / 10 ^ d)"
    unfolding Fin FormatFloat.simps text_val_signed using pos by (simp add: of_nat_nat)
  with m show ?thesis using Fin by (cases "q < 0") (auto simp: abs_if split: if_splits)
qed (use assms in auto)

text \<open>
  A number is shown to half a unit of its last decimal. Read back, signs and leading
  zeros included, the text that \<open>trimNum\<close> makes of a finite value with \<open>d\<close> decimals
  differs from it by at most \<open>1/2 * 10 ^ -d\<close>; so do the numbers of the dashboard with
  one and two decimals, and the ratio once its unit is taken off.
\<close>

theorem shown_to_half_a_unit:
  assumes "fin v"
  shows "\<bar>text_val (trimNum v d) - val v\<bar> \<le> 1 / 2 / 10 ^ d \<and>
    \<bar>text_val (num1 v) - val v\<bar> \<le> 1 / 20 \<and> \<bar>text_val (num2 v) - val v\<bar> \<le> 1 / 200 \<and>
    \<bar>text_val (butlast (ratio v)) - val v\<bar> \<le> 1 / 200"
proof -
  have "\<not> isnan v" using assms by (cases v) (simp_all add: isnan_def)
  with FormatFloat_near [OF assms, of d] FormatFloat_near [OF assms, of 1] FormatFloat_near [OF assms, of 2]
  show ?thesis by (simp add: trimNum_def num1_def num2_def ratio_def butlast_append)
qed

theorem shown_to_half_a_unit_witness:
  "num2 (lit (1 / 3)) = ''0.33'' \<and> \<bar>text_val (num2 (lit (1 / 3))) - val (lit (1 / 3))\<bar> \<le> 1 / 200"
proof
  show "num2 (lit (1 / 3)) = ''0.33''" by code_simp
  have "fin (lit (1 / 3))" by code_simp
  from shown_to_half_a_unit [OF this]
  show "\<bar>text_val (num2 (lit (1 / 3))) - val (lit (1 / 3))\<bar> \<le> 1 / 200" by simp
qed

text \<open>Thousands are separated from the right.\<close>

lemma show_nat_thousands: "1000 \<le> n \<Longrightarrow> show_nat n = show_nat (n div 1000) @ last_digits 3 n"
proof -
  assume n: "1000 \<le> n"
  have step: "show_nat k = show_nat (k div 10) @ [char_of (48 + k mod 10)]" if "10 \<le> k" for k
    using that by (subst show_nat.simps) simp
  have "10 \<le> n" "10 \<le> n div 10" "10 \<le> n div 10 div 10" 
    using n div_le_mono [OF n, of 10] div_le_mono [OF div_le_mono [OF n, of 10], of 10] by simp_all
  then have "show_nat n = show_nat (n div 10 div 10 div 10) @ [char_of (48 + n div 10 div 10 mod 10)] @
      [char_of (48 + n div 10 mod 10)] @ [char_of (48 + n mod 10)]"
    by (simp add: step [of n] step [of "n div 10"] step [of "n div 10 div 10"])
  moreover have "last_digits 3 n = [char_of (48 + n div 10 div 10 mod 10)] @ [char_of (48 + n div 10 mod 10)] @
      [char_of (48 + n mod 10)]" by (simp add: numeral_3_eq_3)
  moreover have "n div 10 div 10 div 10 = n div 1000" by (simp add: div_mult2_eq [symmetric])
  ultimately show ?thesis by simp
qed

lemma grouped_append:
  assumes "length t = 3" "s \<noteq> []"
  shows "grouped (s @ t) = grouped s @ CHR '','' # t"
proof -
  obtain a b c where t: "t = [a, b, c]" using assms(1) by (auto simp: numeral_3_eq_3 length_Suc_conv)
  define k where "k = length s"
  have "0 < k" using assms(2) by (simp add: k_def)
  define g where "g = (\<lambda>m xs i. (if i > 0 \<and> (m - i) mod 3 = 0 then '','' else '''') @ [xs ! i :: char])"
  have mod: "(k + 3 - i) mod 3 = (k - i) mod 3" if "i < k" for i
  proof -
    have "k + 3 - i = (k - i) + 3" using that by simp
    then show ?thesis by (simp only: mod_add_self2)
  qed
  have old: "map (g (k + 3) (s @ t)) [0..<k] = map (g k s) [0..<k]"
  proof (rule map_cong [OF refl])
    fix i assume "i \<in> set [0..<k]"
    then have "i < k" by simp
    then show "g (k + 3) (s @ t) i = g k s i"
      unfolding g_def mod [OF \<open>i < k\<close>] by (simp add: nth_append k_def)
  qed
  have new: "g (k + 3) (s @ t) k = [CHR '','', a]" "g (k + 3) (s @ t) (k + 1) = [b]" "g (k + 3) (s @ t) (k + 2) = [c]"
    using \<open>0 < k\<close> by (simp_all add: g_def nth_append k_def t)
  have up: "[0..<k + 3] = [0..<k] @ [k, k + 1, k + 2]" by (simp add: numeral_3_eq_3)
  have gr: "grouped xs = concat (map (g (length xs) xs) [0..<length xs])" for xs
    by (simp only: grouped_def g_def)
  have len: "length (s @ t) = k + 3" by (simp add: k_def assms(1))
  have "grouped (s @ t) = concat (map (g k s) [0..<k]) @ [CHR '','', a, b, c]"
    unfolding gr len up map_append old list.map new concat_append by simp
  also have "\<dots> = grouped s @ CHR '','' # t" by (simp add: gr [of s] t k_def)
  finally show ?thesis .
qed

lemma grouped_short: "length s \<le> 3 \<Longrightarrow> grouped s = s"
proof -
  assume "length s \<le> 3"
  then consider "s = []" | a where "s = [a]" | a b where "s = [a, b]" | a b c where "s = [a, b, c]"
    by (cases s rule: remdups_adj.cases; cases "tl (tl s)") auto
  then show ?thesis by cases (simp_all add: grouped_def upt_rec)
qed

lemma show_nat_short: "k < 1000 \<Longrightarrow> length (show_nat k) \<le> 3"
proof -
  assume "k < 1000"
  have "length (show_nat m) = 1" if "m < 10" for m using that by (subst show_nat.simps) simp
  moreover have "length (show_nat m) \<le> length (show_nat (m div 10)) + 1" for m
    by (subst show_nat.simps, cases "m < 10") simp_all
  moreover have "k div 10 div 10 < 10"
    using \<open>k < 1000\<close> less_mult_imp_div_less [of k 10 100] div_mult2_eq [of k 10 10] by simp
  ultimately show ?thesis by (metis (no_types) add.commute le_trans add_le_cancel_left numeral_3_eq_3 One_nat_def Suc_eq_plus1 Suc_le_mono)
qed

lemma thousands_split:
  "humanInt n = (if n < 1000 then show_int n else humanInt (n div 1000) @ CHR '','' # last_digits 3 (nat n))"
proof (cases "n < 1000")
  case True
  then have "0 \<le> n \<Longrightarrow> grouped (show_nat (nat n)) = show_nat (nat n)"
    by (intro grouped_short show_nat_short) simp
  with True show ?thesis by (simp add: humanInt_def Let_def show_int_def)
next
  case False
  then have split: "show_nat (nat n) = show_nat (nat n div 1000) @ last_digits 3 (nat n)"
    by (intro show_nat_thousands) simp
  have "nat n div 1000 = nat (n div 1000)" using False by (simp add: nat_div_distrib)
  moreover have "0 \<le> n div 1000" "0 \<le> n" using False by auto
  ultimately have "humanInt n = grouped (show_nat (nat (n div 1000)) @ last_digits 3 (nat n))"
    "humanInt (n div 1000) = grouped (show_nat (nat (n div 1000)))"
    using split by (simp_all add: humanInt_def Let_def show_int_def)
  with False show ?thesis by (simp add: grouped_append show_nat_nonempty)
qed

lemma show_nat_no_comma: "CHR '','' \<notin> set (show_nat n)"
  using show_nat_bytes [of "CHR '',''" n] by auto

lemma ungroup: "CHR '','' \<notin> set s \<Longrightarrow> filter (\<lambda>c. c \<noteq> CHR '','') (grouped s) = s"
proof -
  assume s: "CHR '','' \<notin> set s"
  have "filter (\<lambda>c. c \<noteq> CHR '','') (grouped s) = concat (map (\<lambda>i. [s ! i]) [0..<length s])"
    unfolding grouped_def filter_concat map_map using s
    by (intro arg_cong [where f = concat] map_cong) (auto dest: nth_mem)
  also have "\<dots> = map (\<lambda>i. s ! i) [0..<length s]" by (induction "[0..<length s]" rule: list.induct) (simp_all add: concat_map_singleton)
  finally show ?thesis by (simp add: map_nth)
qed

text \<open>
  C38: integers are shown with their thousands grouped: below a thousand as they are (a
  negative number is never grouped), and otherwise the thousands, shown the same way, a
  comma and the last three digits; taking the commas out gives the decimal number back.
\<close>

theorem thousands_grouped:
  "humanInt n = (if n < 1000 then show_int n else humanInt (n div 1000) @ CHR '','' # last_digits 3 (nat n)) \<and>
   filter (\<lambda>c. c \<noteq> CHR '','') (humanInt n) = show_int n"
proof
  show "filter (\<lambda>c. c \<noteq> CHR '','') (humanInt n) = show_int n"
    using show_nat_no_comma [of "nat n"] show_nat_no_comma [of "nat (- n)"]
    by (auto simp: humanInt_def Let_def show_int_def ungroup filter_id_conv)
qed (rule thousands_split)

text \<open>
  The unit is chosen before rounding, so that just below a million a thousand thousands
  are shown; a small loss keeps its sign, and the negative zero has two.
\<close>

lemma digits_thousand: "show_nat 1000 = ''1000''"
proof -
  have "(char_of (49 :: nat) :: char) = CHR ''1''" "(char_of (48 :: nat) :: char) = CHR ''0''" by code_simp+
  then show ?thesis by (simp add: show_nat.simps)
qed

lemma below_a_million:
  "isnan (lit 999960) = False" "fle (lit (10 ^ 9)) (lit 999960) = False"
  "fle (lit (10 ^ 6)) (lit 999960) = False" "fle (lit (10 ^ 3)) (lit 999960) = True"
  "fdiv (lit 999960) (lit (10 ^ 3)) = Fin (rndq (99996 / 100))"
  "rndq (99996 / 100) < 0 \<longleftrightarrow> False" "round_even (\<bar>rndq (99996 / 100)\<bar> * 10 ^ 1) = 10000"
  by code_simp+

theorem odd_texts:
  "money (lit 999960) = ''$1000.0K'' \<and> retpct (lit (- 1 / 1000)) = ''-0%'' \<and> retpct (Zero True) = ''+-0%''"
proof -
  have "last_digits 1 0 = ''0''" by code_simp
  then have "money (lit 999960) = ''$1000.0K''"
    by (simp only: money_def below_a_million FormatFloat.simps if_False if_True)
       (simp add: fixed_def digits_thousand)
  moreover have "retpct (lit (- 1 / 1000)) = ''-0%''" by code_simp
  moreover have "retpct (Zero True) = ''+-0%''" by code_simp
  ultimately show ?thesis by simp
qed

end
