(* ===== verification/Sign_On.thy ===== *)
theory Sign_On
  imports Login Study_Compiler
begin

text \<open>
  \<open>internal/auth/session.go\<close> and \<open>internal/auth/oauth.go\<close>: the session store with its cookie,
  and the sign-in through another provider. The random bytes are arguments; a session is the
  entry the server's own store keeps too. The provider is two functions: the exchange of the
  code for a token and the profile the token gives, \<open>None\<close> for their failures; \<open>OnLogin\<close> is
  the callback of the owner. The states are a set, as the Go map only ever holds \<open>true\<close>.
\<close>

section \<open>Sessions\<close>

definition SessionCreate :: "int \<Rightarrow> string \<Rightarrow> string \<Rightarrow> int \<Rightarrow> sessions \<Rightarrow> string \<times> sessions" where
  "SessionCreate now bytes uid ttl m =
     (let tok = hex_encode bytes in (tok, m(tok \<mapsto> \<lparr>se_uid = uid, se_exp = now + ttl\<rparr>)))"

definition SessionGet :: "int \<Rightarrow> string \<Rightarrow> sessions \<Rightarrow> string option \<times> sessions" where
  "SessionGet now tok m = (case m tok of
     None \<Rightarrow> (None, m)
   | Some e \<Rightarrow> if now > se_exp e then (None, m(tok := None)) else (Some (se_uid e), m))"

definition SessionDelete :: "string \<Rightarrow> sessions \<Rightarrow> sessions" where
  "SessionDelete tok m = m(tok := None)"

record cookie =
  ck_Name :: string
  ck_Value :: string
  ck_MaxAge :: int

text \<open>The attribute counts seconds, and lifetimes are whole seconds; a negative one removes the cookie.\<close>

definition SetCookie :: "string \<Rightarrow> string \<Rightarrow> int \<Rightarrow> cookie" where
  "SetCookie name tok ttl = \<lparr>ck_Name = name, ck_Value = tok,
     ck_MaxAge = (if ttl < 0 then - (- ttl div 10 ^ 9) else ttl div 10 ^ 9)\<rparr>"

definition ClearCookie :: "string \<Rightarrow> cookie" where
  "ClearCookie name = \<lparr>ck_Name = name, ck_Value = '''', ck_MaxAge = - 1\<rparr>"

definition GetCookie :: "string \<Rightarrow> (string \<times> string) list \<Rightarrow> string option" where
  "GetCookie name sent = map_of sent name"

section \<open>Signing in elsewhere\<close>

definition generateState :: "string \<Rightarrow> string" where
  "generateState bytes = hex_encode bytes"

definition LoginURL :: "string \<Rightarrow> string set \<Rightarrow> string \<times> string set" where
  "LoginURL bytes states = (generateState bytes, insert (generateState bytes) states)"

record provider =
  pv_exchange :: "string \<Rightarrow> string option"
  pv_userinfo :: "string \<Rightarrow> (string \<times> string) option"
  pv_onLogin :: "string \<Rightarrow> string \<Rightarrow> string option"

datatype oauth_reply = Refused int | SignedIn string

definition HandleCallback :: "provider \<Rightarrow> string \<Rightarrow> string \<Rightarrow> string set \<Rightarrow> oauth_reply \<times> string set" where
  "HandleCallback pv state code states =
     (if state \<notin> states then (Refused 400, states)
      else (case pv_exchange pv code of
          None \<Rightarrow> Refused 400
        | Some token \<Rightarrow> (case pv_userinfo pv token of
            None \<Rightarrow> Refused 500
          | Some (email, name) \<Rightarrow> (case pv_onLogin pv email name of
              None \<Rightarrow> Refused 500
            | Some uid \<Rightarrow> SignedIn uid)),
        states - {state}))"

section \<open>What they promise\<close>

datatype oauth_event = Begin string | Callback string string

definition oauth_step :: "provider \<Rightarrow> nat \<times> string set \<Rightarrow> oauth_event \<Rightarrow> string \<Rightarrow> nat \<times> string set" where
  "oauth_step pv acc e s = (case acc of (n, states) \<Rightarrow> (case e of
     Begin bytes \<Rightarrow> (n, snd (LoginURL bytes states))
   | Callback state code \<Rightarrow> (case HandleCallback pv state code states of
       (SignedIn _, states) \<Rightarrow> (if state = s then n + 1 else n, states)
     | (Refused _, states) \<Rightarrow> (n, states))))"

text \<open>How often a state was handed out and how often it signed somebody in.\<close>

definition handed_out :: "oauth_event list \<Rightarrow> string \<Rightarrow> nat" where
  "handed_out es s = length (filter (\<lambda>e. case e of Begin bytes \<Rightarrow> generateState bytes = s | _ \<Rightarrow> False) es)"

definition redeemed :: "provider \<Rightarrow> oauth_event list \<Rightarrow> string \<Rightarrow> nat" where
  "redeemed pv es s = fst (foldl (\<lambda>acc e. oauth_step pv acc e s) (0, {}) es)"

lemma oauth_run:
  "fst (foldl (\<lambda>acc e. oauth_step pv acc e s) (0, {}) es) +
     (if s \<in> snd (foldl (\<lambda>acc e. oauth_step pv acc e s) (0, {}) es) then 1 else 0) \<le> handed_out es s"
proof (induction es rule: rev_induct)
  case (snoc e es)
  obtain n states where acc: "foldl (\<lambda>acc e. oauth_step pv acc e s) (0, {}) es = (n, states)" by fastforce
  have hand: "handed_out (es @ [e]) s =
      handed_out es s + (case e of Begin bytes \<Rightarrow> if generateState bytes = s then 1 else 0 | _ \<Rightarrow> 0)"
    by (simp add: handed_out_def split: oauth_event.split)
  show ?case
  proof (cases e)
    case (Begin bytes)
    with snoc acc hand show ?thesis by (auto simp: oauth_step_def LoginURL_def split: if_splits)
  next
    case (Callback state code)
    with snoc acc hand show ?thesis
      by (auto simp: oauth_step_def HandleCallback_def split: if_splits option.splits prod.splits)
  qed
qed (simp add: handed_out_def)

text \<open>
  A state signs in at most once for every time it was handed out, and never when it was
  not: whatever log-in pages are opened and whatever callbacks come back, forged ones
  included, in whatever order.
\<close>

theorem state_redeemed_once: "redeemed pv es s \<le> handed_out es s"
  using oauth_run [of pv s es] by (simp add: redeemed_def)

text \<open>A session is found under its token until it expires, and no longer.\<close>

theorem session_until_expiry:
  "fst (SessionGet t (fst (SessionCreate now bytes uid ttl m)) (snd (SessionCreate now bytes uid ttl m))) =
     (if t \<le> now + ttl then Some uid else None)"
  by (simp add: SessionGet_def SessionCreate_def Let_def)

theorem deleted_session_gone: "fst (SessionGet t tok (SessionDelete tok m)) = None"
  by (simp add: SessionGet_def SessionDelete_def)

text \<open>
  Nothing but the state itself is asked for: whoever presents a state that was handed out
  is signed in with any code the provider takes.
\<close>

theorem state_not_bound:
  assumes "pv_exchange pv code = Some token" "pv_userinfo pv token = Some (email, name)"
    and "pv_onLogin pv email name = Some uid"
  shows "fst (HandleCallback pv (fst (LoginURL bytes states)) code (snd (LoginURL bytes states))) = SignedIn uid"
  using assms by (simp add: HandleCallback_def LoginURL_def)

end
