(* ===== verification/Admin.thy ===== *)
theory Admin
  imports Serve Throttle Snapshot_Laws
begin

text \<open>
  \<open>internal/admin/admin.go\<close>: the gate of the statistics endpoints and what they answer, as
  data. Those that read the database are functions of the user store, the tables of the
  throttle and the snapshot table, \<open>None\<close> where the query fails; the others answer constants,
  which are written out. The pages are templates and left out.
\<close>

section \<open>The gate\<close>

definition requireAdminAPI :: "int \<Rightarrow> string option \<Rightarrow> server \<Rightarrow> (int, string) result \<times> server" where
  "requireAdminAPI now cookie s = (case cookie of
     None \<Rightarrow> (Inl 401, s)
   | Some tok \<Rightarrow> (case validateSession now tok s of
       (None, s) \<Rightarrow> (Inl 401, s)
     | (Some (i, admin), s) \<Rightarrow> (if admin then Inr i else Inl 403, s)))"

definition admin_logout :: "int \<times> string" where
  "admin_logout = (303, ''/logout'')"

section \<open>Users and their usage\<close>

definition calls_on :: "string \<Rightarrow> usage_row list \<Rightarrow> int" where
  "calls_on date rows = sum_list (map ug_api_calls (filter (\<lambda>r. ug_date r = date) rows))"

text \<open>Go divides towards zero.\<close>

definition quot :: "int \<Rightarrow> int \<Rightarrow> int" where
  "quot a b = (if (a < 0) = (b < 0) then \<bar>a\<bar> div \<bar>b\<bar> else - (\<bar>a\<bar> div \<bar>b\<bar>))"

record admin_stats =
  as_totalUsers :: nat
  as_activeUsers :: nat
  as_apiCalls :: int
  as_apiCallsChange :: int
  as_storage :: string

text \<open>The dates are those of today and of the day before.\<close>

definition getStats :: "string \<Rightarrow> string \<Rightarrow> user list \<Rightarrow> usage_row list option \<Rightarrow> admin_stats" where
  "getStats today day_before users usage =
     (let total_calls = (case usage of None \<Rightarrow> 0 | Some rows \<Rightarrow> calls_on today rows);
          yesterday = (case usage of None \<Rightarrow> 0 | Some rows \<Rightarrow> calls_on day_before rows)
      in \<lparr>as_totalUsers = length users, as_activeUsers = length (filter (\<lambda>u. \<not> u_Disabled u) users),
          as_apiCalls = total_calls,
          as_apiCallsChange = (if yesterday > 0 then quot ((total_calls - yesterday) * 100) yesterday else 0),
          as_storage = ''0 GB''\<rparr>)"

record quota_row =
  qu_userId :: string
  qu_userName :: string
  qu_used :: int
  qu_limit :: int
  qu_percent :: int

definition quota_of :: "codec \<Rightarrow> (int \<Rightarrow> string) \<Rightarrow> int \<Rightarrow> throttle_db \<Rightarrow> user \<Rightarrow> quota_row option" where
  "quota_of c day now d u =
     (if u_Disabled u then None
      else case GetEffectiveLimits c (u_ID u) d of
        Inl _ \<Rightarrow> None
      | Inr l \<Rightarrow>
          let used = fst (GetUserUsage day now (u_ID u) d)
          in Some \<lparr>qu_userId = u_ID u, qu_userName = u_Name u, qu_used = used, qu_limit = APICallsPerDay l,
               qu_percent = (if APICallsPerDay l > 0 then quot (used * 100) (APICallsPerDay l) else 0)\<rparr>)"

definition getQuotas :: "codec \<Rightarrow> (int \<Rightarrow> string) \<Rightarrow> int \<Rightarrow> user list \<Rightarrow> throttle_db \<Rightarrow> quota_row list" where
  "getQuotas c day now users d = List.map_filter (quota_of c day now d) users"

record activity =
  ac_id :: nat
  ac_user :: string
  ac_action :: string
  ac_resource :: string
  ac_time :: string
  ac_status :: string

definition getActivities :: "activity list" where
  "getActivities =
     [\<lparr>ac_id = 1, ac_user = ''admin'', ac_action = ''login'', ac_resource = ''system'', ac_time = ''2 minutes ago'',
       ac_status = ''success''\<rparr>,
      \<lparr>ac_id = 2, ac_user = ''alice'', ac_action = ''create'', ac_resource = ''study'', ac_time = ''5 minutes ago'',
       ac_status = ''success''\<rparr>]"

section \<open>Monitoring\<close>

record system_stats =
  sy_uptime :: string
  sy_memory :: string
  sy_memoryPercent :: int
  sy_connections :: int
  sy_requestRate :: int

text \<open>
  The start is taken to be two days before the call; \<open>elapsed\<close> is the time between the two
  readings of the clock, in seconds.
\<close>

definition getSystemStats :: "int \<Rightarrow> system_stats" where
  "getSystemStats elapsed =
     (let hours = (172800 + elapsed) div 3600
      in \<lparr>sy_uptime = show_int (hours div 24) @ ''d '' @ show_int (hours mod 24) @ ''h'', sy_memory = ''256 MB'',
          sy_memoryPercent = 32, sy_connections = 12, sy_requestRate = 45\<rparr>)"

record endpoint_metrics =
  em_endpoint :: string
  em_requests :: int
  em_avgLatency :: int
  em_p95Latency :: int
  em_errorRate :: float64
  em_healthy :: bool

definition getAPIMetrics :: "endpoint_metrics list" where
  "getAPIMetrics =
     [\<lparr>em_endpoint = ''/api/v1/scan'', em_requests = 1250, em_avgLatency = 45, em_p95Latency = 120,
       em_errorRate = lit (5 / 10), em_healthy = True\<rparr>,
      \<lparr>em_endpoint = ''/api/v1/studies'', em_requests = 890, em_avgLatency = 32, em_p95Latency = 85,
       em_errorRate = lit (2 / 10), em_healthy = True\<rparr>,
      \<lparr>em_endpoint = ''/api/v1/results'', em_requests = 456, em_avgLatency = 28, em_p95Latency = 65,
       em_errorRate = lit (12 / 10), em_healthy = True\<rparr>,
      \<lparr>em_endpoint = ''/api/v1/users'', em_requests = 234, em_avgLatency = 15, em_p95Latency = 45,
       em_errorRate = lit (1 / 10), em_healthy = True\<rparr>]"

record db_stats =
  ds_warehouseSize :: string
  ds_scannerSize :: string
  ds_totalSymbols :: nat
  ds_snapshotCount :: nat

text \<open>\<open>COUNT(DISTINCT column)\<close> leaves NULLs out.\<close>

definition count_distinct :: "string \<Rightarrow> sqlval list list \<Rightarrow> nat" where
  "count_distinct c rows = length (remdups (filter (\<lambda>v. v \<noteq> Null) (map (cell c) rows)))"

definition getDBStats :: "snap_db \<Rightarrow> db_stats" where
  "getDBStats s =
     \<lparr>ds_warehouseSize = ''1.8 GB'', ds_scannerSize = ''45 MB'',
      ds_totalSymbols = (case sd_table s of None \<Rightarrow> 11373 | Some t \<Rightarrow> count_distinct ''symbol'' (tb_rows t)),
      ds_snapshotCount = (case sd_table s of None \<Rightarrow> 125 | Some t \<Rightarrow> count_distinct ''snapshot_date'' (tb_rows t))\<rparr>"

record throttle_stats =
  th_violations :: nat
  th_quotaExceeded :: nat
  th_nearLimit :: nat
  th_bypassUsers :: nat

definition getThrottleStats :: "int \<Rightarrow> rate_row list option \<Rightarrow> throttle_stats" where
  "getThrottleStats yesterday rates =
     \<lparr>th_violations = (case rates of None \<Rightarrow> 12
        | Some rows \<Rightarrow> length (filter (\<lambda>r. rt_timestamp r > yesterday) rows)),
      th_quotaExceeded = 0, th_nearLimit = 8, th_bypassUsers = 2\<rparr>"

record recent_error =
  er_id :: nat
  er_time :: string
  er_level :: string
  er_message :: string
  er_user :: string
  er_endpoint :: string

definition getRecentErrors :: "recent_error list" where
  "getRecentErrors =
     [\<lparr>er_id = 1, er_time = ''2 minutes ago'', er_level = ''error'',
       er_message = ''Failed to load bars for symbol XYZ'', er_user = ''alice'', er_endpoint = ''/api/v1/scan''\<rparr>,
      \<lparr>er_id = 2, er_time = ''15 minutes ago'', er_level = ''warning'',
       er_message = ''Rate limit approaching for user bob'', er_user = ''bob'', er_endpoint = ''/api/v1/studies''\<rparr>]"

section \<open>What the numbers mean\<close>

text \<open>The gate lets in whom the gate of the pages lets in; only the refusals differ.\<close>

theorem same_gate:
  "fst (requireAdminAPI now cookie s) = Inr i \<longleftrightarrow> fst (requireAdmin now cookie s) = Inr i"
  "snd (requireAdminAPI now cookie s) = snd (requireAdmin now cookie s)"
  by (auto simp: requireAdminAPI_def requireAdmin_def split: option.splits prod.splits)

text \<open>
  A request that was merely tracked counts as a violation: right after it was recorded,
  there is at least one.
\<close>

theorem tracked_calls_are_violations:
  "yesterday < now \<Longrightarrow> th_violations (getThrottleStats yesterday (Some (td_rates (TrackAPIUsage day now u d)))) > 0"
  by (auto simp: getThrottleStats_def TrackAPIUsage_def)

lemma percent_below:
  assumes "0 < (b :: int)"
  shows "a * 100 div b < 100 \<longleftrightarrow> a < b"
proof -
  have eq: "a * 100 = (a * 100 div b) * b + a * 100 mod b" by simp
  have r: "0 \<le> a * 100 mod b" "a * 100 mod b < b" using assms by simp_all
  show ?thesis
  proof (cases "a * 100 div b < 100")
    case True
    then have "(a * 100 div b) * b \<le> 99 * b" using assms by (intro mult_right_mono) simp_all
    with eq r True show ?thesis by linarith
  next
    case False
    then have "100 * b \<le> (a * 100 div b) * b" using assms by (intro mult_right_mono) simp_all
    with eq r False show ?thesis by linarith
  qed
qed

text \<open>The percentage of a quota is below a hundred exactly while the day's calls are below its limit.\<close>

theorem quota_percent_tells:
  assumes "quota_of c day now d u = Some q" "0 \<le> qu_used q" "0 < qu_limit q"
  shows "qu_percent q < 100 \<longleftrightarrow> day_count (u_ID u) (day now) d < qu_limit q"
proof -
  obtain l where l: "GetEffectiveLimits c (u_ID u) d = Inr l" and q: "qu_limit q = APICallsPerDay l"
    "qu_used q = fst (GetUserUsage day now (u_ID u) d)"
    "qu_percent q = (if APICallsPerDay l > 0 then quot (qu_used q * 100) (APICallsPerDay l) else 0)"
    using assms(1) by (auto simp: quota_of_def Let_def split: if_splits sum.splits)
  have used: "qu_used q = day_count (u_ID u) (day now) d"
    by (simp add: q(2) GetUserUsage_def day_count_def split: option.split)
  have "qu_percent q = qu_used q * 100 div qu_limit q"
    using q assms(2,3) by (simp add: quot_def)
  also have "\<dots> < 100 \<longleftrightarrow> qu_used q < qu_limit q"
    by (rule percent_below [OF assms(3)])
  finally show ?thesis by (simp add: used)
qed

end
