(* ===== verification/Config.thy ===== *)
theory Config
  imports Serve Scanner_Scan
begin

text \<open>
  \<open>internal/config/config.go\<close>: the settings, read from the environment with their defaults,
  and what \<open>serve.New\<close> and the subcommands make of them. \<open>env\<close> answers the empty string for
  a variable that is not set, as \<open>os.Getenv\<close> does; \<open>exe\<close> joins a path to the directory of the
  executable, \<open>None\<close> where that is not known; \<open>parse\<close> is \<open>strconv.ParseFloat\<close>.
\<close>

section \<open>Reading the environment\<close>

definition envOr :: "(string \<Rightarrow> string) \<Rightarrow> string \<Rightarrow> string \<Rightarrow> string" where
  "envOr env key d = (if env key \<noteq> '''' then env key else d)"

definition envInt :: "(string \<Rightarrow> string) \<Rightarrow> string \<Rightarrow> int \<Rightarrow> int" where
  "envInt env key d =
     (if env key \<noteq> '''' then (case atoi (env key) of Some n \<Rightarrow> n | None \<Rightarrow> d) else d)"

definition envFloat :: "(string \<Rightarrow> string) \<Rightarrow> (string \<Rightarrow> float64 option) \<Rightarrow> string \<Rightarrow> float64 \<Rightarrow> float64" where
  "envFloat env parse key d =
     (if env key \<noteq> '''' then (case parse (env key) of Some x \<Rightarrow> x | None \<Rightarrow> d) else d)"

definition defaultCetusDB :: string where "defaultCetusDB = ''../../CETUS/cetus.db''"
definition defaultScannerDB :: string where "defaultScannerDB = ''../../SCANNER/scanner.db''"

definition resolveRelative :: "(string \<Rightarrow> string) option \<Rightarrow> string \<Rightarrow> string" where
  "resolveRelative exe path =
     (if path = '''' \<or> path = '':memory:'' \<or> has_prefix path ''/'' then path
      else case exe of None \<Rightarrow> path | Some f \<Rightarrow> f path)"

definition resolveDBPath :: "(string \<Rightarrow> string) \<Rightarrow> (string \<Rightarrow> string) option \<Rightarrow> string" where
  "resolveDBPath env exe =
     (if env ''SCANNER_DB_PATH'' \<noteq> '''' then env ''SCANNER_DB_PATH''
      else if env ''CETUS_DB'' \<noteq> '''' then env ''CETUS_DB''
      else resolveRelative exe defaultCetusDB)"

definition resolveStoreDB :: "(string \<Rightarrow> string) \<Rightarrow> (string \<Rightarrow> string) option \<Rightarrow> string" where
  "resolveStoreDB env exe =
     (if env ''SCANNER_STORE_DB'' \<noteq> '''' then env ''SCANNER_STORE_DB'' else resolveRelative exe defaultScannerDB)"

section \<open>The settings\<close>

record config =
  c_DBPath :: string
  c_SinceDays :: int
  c_Lookback :: int
  c_VolumeMult :: float64
  c_GapPct :: float64
  c_MaxSymbols :: int
  c_Universe :: string
  c_DigestLookbackDays :: int
  c_MinDollarVol :: float64
  c_DigestTopN :: int
  c_DigestMomentumN :: int
  c_DigestFormat :: string
  c_DigestOut :: string
  c_DigestWorkers :: int
  c_ServeAddr :: string
  c_ServeTTLSecs :: int
  c_SessionHours :: int
  c_AuthMode :: string
  c_TrustedUserHeader :: string
  c_JWTHeader :: string
  c_JWTJWKSURL :: string
  c_JWTHMACSecret :: string
  c_JWTPubKeyFile :: string
  c_JWTUserClaim :: string
  c_JWTIssuer :: string
  c_JWTAudience :: string
  c_JWTSignSecret :: string
  c_JWTSignTTLHours :: int
  c_AnomalyFormat :: string
  c_TLSDomain :: string
  c_TLSCacheDir :: string
  c_OpenSignup :: bool
  c_LoginLockoutSecs :: int
  c_LoginMaxFailures :: int
  c_LoginRateWindowSecs :: int
  c_LoginRateMaxAttempts :: int
  c_BootstrapAdminPW :: string
  c_PasswordMinLength :: int
  c_PasswordRequireUpper :: bool
  c_PasswordRequireDigit :: bool
  c_UsernameMinLength :: int
  c_UsernameMaxLength :: int
  c_ResultLimitFree :: int
  c_ResultLimitPro :: int
  c_HTTPHeaderTimeoutSecs :: int
  c_SQLiteBusyTimeoutMS :: int
  c_JWTLeewaySecs :: int
  c_LLMBaseURL :: string
  c_LLMAPIKey :: string
  c_LLMModel :: string
  c_NLPFreeDailyLimit :: int
  c_NLPSystemDailyLimit :: int
  c_StoreDB :: string
  c_StudiesPath :: string
  c_StudiesFormat :: string
  c_FreeStudyQuota :: int
  c_UsersPath :: string
  c_SubscriptionsPath :: string
  c_User :: string
  c_SnapshotRetentionDays :: int
  c_BackfillDays :: int
  c_DBLogLevel :: string

definition Load ::
    "(string \<Rightarrow> string) \<Rightarrow> (string \<Rightarrow> string) option \<Rightarrow> (string \<Rightarrow> float64 option) \<Rightarrow> config" where
  "Load env exe parse =
     \<lparr>c_DBPath = resolveDBPath env exe,
      c_SinceDays = envInt env ''SCANNER_SINCE_DAYS'' 120,
      c_Lookback = envInt env ''SCANNER_LOOKBACK'' 20,
      c_VolumeMult = envFloat env parse ''SCANNER_VOLUME_MULT'' (lit 2),
      c_GapPct = envFloat env parse ''SCANNER_GAP_PCT'' (lit (5 / 100)),
      c_MaxSymbols = envInt env ''SCANNER_MAX_SYMBOLS'' 0,
      c_Universe = envOr env ''SCANNER_UNIVERSE'' ''index:r3000'',
      c_DigestLookbackDays = envInt env ''SCANNER_DIGEST_LOOKBACK_DAYS'' 400,
      c_MinDollarVol = envFloat env parse ''SCANNER_MIN_DOLLAR_VOL'' (lit (10 ^ 6)),
      c_DigestTopN = envInt env ''SCANNER_DIGEST_TOP_N'' 8,
      c_DigestMomentumN = envInt env ''SCANNER_DIGEST_MOMENTUM_N'' 10,
      c_DigestFormat = envOr env ''SCANNER_DIGEST_FORMAT'' ''html'',
      c_DigestOut = envOr env ''SCANNER_DIGEST_OUT'' '''',
      c_DigestWorkers = envInt env ''SCANNER_DIGEST_WORKERS'' 0,
      c_ServeAddr = envOr env ''SCANNER_SERVE_ADDR'' '':8080'',
      c_ServeTTLSecs = envInt env ''SCANNER_SERVE_TTL_SECS'' 600,
      c_SessionHours = envInt env ''SCANNER_SESSION_HOURS'' 8,
      c_AuthMode = envOr env ''SCANNER_AUTH_MODE'' ''login'',
      c_TrustedUserHeader = envOr env ''SCANNER_TRUSTED_USER_HEADER'' ''X-Token-User'',
      c_JWTHeader = envOr env ''SCANNER_JWT_HEADER'' ''Authorization'',
      c_JWTJWKSURL = envOr env ''SCANNER_JWT_JWKS_URL'' '''',
      c_JWTHMACSecret = envOr env ''SCANNER_JWT_HMAC_SECRET'' '''',
      c_JWTPubKeyFile = envOr env ''SCANNER_JWT_PUBKEY_FILE'' '''',
      c_JWTUserClaim = envOr env ''SCANNER_JWT_USER_CLAIM'' ''sub'',
      c_JWTIssuer = envOr env ''SCANNER_JWT_ISSUER'' '''',
      c_JWTAudience = envOr env ''SCANNER_JWT_AUDIENCE'' '''',
      c_JWTSignSecret = envOr env ''SCANNER_JWT_SIGN_SECRET'' '''',
      c_JWTSignTTLHours = envInt env ''SCANNER_JWT_SIGN_TTL_HOURS'' 24,
      c_AnomalyFormat = envOr env ''SCANNER_ANOMALY_FORMAT'' ''text'',
      c_TLSDomain = envOr env ''SCANNER_TLS_DOMAIN'' '''',
      c_TLSCacheDir = envOr env ''SCANNER_TLS_CACHE_DIR'' ''certs'',
      c_OpenSignup = (envOr env ''SCANNER_OPEN_SIGNUP'' '''' = ''true''),
      c_LoginLockoutSecs = envInt env ''SCANNER_LOGIN_LOCKOUT_SECS'' 900,
      c_LoginMaxFailures = envInt env ''SCANNER_LOGIN_MAX_FAILURES'' 5,
      c_LoginRateWindowSecs = envInt env ''SCANNER_LOGIN_RATE_WINDOW_SECS'' 60,
      c_LoginRateMaxAttempts = envInt env ''SCANNER_LOGIN_RATE_MAX_ATTEMPTS'' 5,
      c_BootstrapAdminPW = envOr env ''SCANNER_BOOTSTRAP_ADMIN_PW'' ''admin'',
      c_PasswordMinLength = envInt env ''SCANNER_PW_MIN_LENGTH'' 8,
      c_PasswordRequireUpper = (envOr env ''SCANNER_PW_REQUIRE_UPPER'' ''true'' = ''true''),
      c_PasswordRequireDigit = (envOr env ''SCANNER_PW_REQUIRE_DIGIT'' ''true'' = ''true''),
      c_UsernameMinLength = envInt env ''SCANNER_USERNAME_MIN_LENGTH'' 3,
      c_UsernameMaxLength = envInt env ''SCANNER_USERNAME_MAX_LENGTH'' 32,
      c_ResultLimitFree = envInt env ''SCANNER_RESULT_LIMIT_FREE'' 26,
      c_ResultLimitPro = envInt env ''SCANNER_RESULT_LIMIT_PRO'' 101,
      c_HTTPHeaderTimeoutSecs = envInt env ''SCANNER_HTTP_HEADER_TIMEOUT_SECS'' 5,
      c_SQLiteBusyTimeoutMS = envInt env ''SCANNER_SQLITE_BUSY_TIMEOUT_MS'' 5000,
      c_JWTLeewaySecs = envInt env ''SCANNER_JWT_LEEWAY_SECS'' 60,
      c_LLMBaseURL = envOr env ''SCANNER_LLM_BASE_URL'' ''https://api.deepseek.com/v1'',
      c_LLMAPIKey = envOr env ''SCANNER_LLM_API_KEY'' '''',
      c_LLMModel = envOr env ''SCANNER_LLM_MODEL'' ''deepseek-v4-flash'',
      c_NLPFreeDailyLimit = envInt env ''SCANNER_NLP_FREE_DAILY_LIMIT'' 10,
      c_NLPSystemDailyLimit = envInt env ''SCANNER_NLP_SYSTEM_DAILY_LIMIT'' 1000,
      c_StoreDB = resolveStoreDB env exe,
      c_StudiesPath = envOr env ''SCANNER_STUDIES_PATH'' ''studies.jsonl'',
      c_StudiesFormat = envOr env ''SCANNER_STUDIES_FORMAT'' ''text'',
      c_FreeStudyQuota = envInt env ''SCANNER_FREE_STUDY_QUOTA'' 3,
      c_UsersPath = envOr env ''SCANNER_USERS_PATH'' ''users.jsonl'',
      c_SubscriptionsPath = envOr env ''SCANNER_SUBSCRIPTIONS_PATH'' ''subscriptions.jsonl'',
      c_User = envOr env ''SCANNER_USER'' ''global'',
      c_SnapshotRetentionDays = envInt env ''SCANNER_SNAPSHOT_RETENTION_DAYS'' 90,
      c_BackfillDays = envInt env ''SCANNER_BACKFILL_DAYS'' 0,
      c_DBLogLevel = envOr env ''SCANNER_DB_LOG_LEVEL'' ''all''\<rparr>"

section \<open>Where the settings go\<close>

text \<open>A \<open>time.Duration\<close> is an \<open>int64\<close> of nanoseconds, and the product wraps around.\<close>

definition duration :: "int \<Rightarrow> int \<Rightarrow> int" where
  "duration n unit = (n * unit + 2 ^ 63) mod 2 ^ 64 - 2 ^ 63"

definition serve_config_of :: "config \<Rightarrow> serve_config" where
  "serve_config_of c = \<lparr>cf_Universe = c_Universe c, cf_MaxSymbols = c_MaxSymbols c,
     cf_LookbackDays = c_DigestLookbackDays c, cf_TTL = duration (c_ServeTTLSecs c) (10 ^ 9),
     cf_StudyQuota = c_FreeStudyQuota c, cf_ResultLimitFree = c_ResultLimitFree c, cf_ResultLimitPro = c_ResultLimitPro c\<rparr>"

definition password_policy :: "config \<Rightarrow> policy" where
  "password_policy c = \<lparr>MinLength = c_PasswordMinLength c, RequireUpper = c_PasswordRequireUpper c,
     RequireDigit = c_PasswordRequireDigit c\<rparr>"

definition login_config_of :: "config \<Rightarrow> login_config" where
  "login_config_of c = \<lparr>LoginRateWindowSecs = c_LoginRateWindowSecs c, LoginRateMaxAttempts = c_LoginRateMaxAttempts c,
     cfg_guard = \<lparr>maxFailures = c_LoginMaxFailures c, lockoutSecs = c_LoginLockoutSecs c\<rparr>,
     sessTTL = duration (c_SessionHours c) (3600 * 10 ^ 9), OpenSignup = c_OpenSignup c,
     UsernameMinLength = c_UsernameMinLength c, UsernameMaxLength = c_UsernameMaxLength c,
     cfg_policy = password_policy c, ProxyMode = (c_AuthMode c = ''proxy'')\<rparr>"

definition scan_config_of :: "config \<Rightarrow> scan_config" where
  "scan_config_of c = \<lparr>sc_Lookback = c_Lookback c, sc_VolumeMult = c_VolumeMult c, sc_GapPct = c_GapPct c\<rparr>"

datatype verifier_choice = JWKSVerifier | HMACVerifier | RSAVerifier | NoVerifier

text \<open>\<open>None\<close> is the refusal of an unknown mode.\<close>

definition verifier_of :: "config \<Rightarrow> verifier_choice option" where
  "verifier_of c =
     (if c_AuthMode c \<noteq> ''login'' \<and> c_AuthMode c \<noteq> ''proxy'' then None
      else Some (if c_AuthMode c = ''proxy'' then
          (if c_JWTJWKSURL c \<noteq> '''' then JWKSVerifier
           else if c_JWTHMACSecret c \<noteq> '''' then HMACVerifier
           else if c_JWTPubKeyFile c \<noteq> '''' then RSAVerifier else NoVerifier)
        else NoVerifier))"

section \<open>What a start does with them\<close>

text \<open>The defaults are the default policy, a closed sign-up and the built-in login.\<close>

theorem default_start:
  "login_config_of (Load (\<lambda>_. '''') exe parse) =
     \<lparr>LoginRateWindowSecs = 60, LoginRateMaxAttempts = 5, cfg_guard = \<lparr>maxFailures = 5, lockoutSecs = 900\<rparr>,
      sessTTL = 28800 * 10 ^ 9, OpenSignup = False, UsernameMinLength = 3, UsernameMaxLength = 32,
      cfg_policy = DefaultPolicy, ProxyMode = False\<rparr>"
  by (simp add: login_config_of_def Load_def envOr_def envInt_def password_policy_def DefaultPolicy_def duration_def)

text \<open>Whatever is not the word \<open>true\<close> turns a requirement off, \<open>1\<close> and \<open>TRUE\<close> included.\<close>

theorem requirement_needs_the_word:
  "RequireUpper (password_policy (Load env exe parse)) \<longleftrightarrow> env ''SCANNER_PW_REQUIRE_UPPER'' \<in> {'''', ''true''}"
  by (auto simp: password_policy_def Load_def envOr_def)

text \<open>A number that does not parse is the default, without a word: \<open>5m\<close> for a lockout is 900.\<close>

theorem typo_is_default:
  assumes "atoi (env ''SCANNER_LOGIN_LOCKOUT_SECS'') = None"
  shows "lockoutSecs (cfg_guard (login_config_of (Load env exe parse))) = 900"
  using assms by (simp add: login_config_of_def Load_def envInt_def)

text \<open>
  In the mode \<open>login\<close> no verifier is made, whatever keys are configured: the tokens of the
  login endpoint are never accepted.
\<close>

theorem login_mode_verifies_nothing:
  "c_AuthMode c = ''login'' \<Longrightarrow> verifier_of c = Some NoVerifier"
  by (simp add: verifier_of_def)

text \<open>Session lifetimes wrap around: some three million hours are negative, and every session has expired.\<close>

theorem long_sessions_wrap: "duration 2562048 (3600 * 10 ^ 9) < 0"
  by (simp add: duration_def)

end
