(* ===== verification/Api_Tokens.thy ===== *)
theory Api_Tokens
  imports Config Api_Accounts_Laws
begin

text \<open>
  How the server wires the tokens of the API (\<open>internal/serve/server.go\<close>): which verifier
  and which signer a configuration makes, and what becomes of the token that a login
  returns.
\<close>

section \<open>Wiring\<close>

text \<open>The verifiers by a key set and by an RSA key file are arguments; a lifetime in hours wraps.\<close>

definition api_verifier ::
    "(string \<Rightarrow> string option) \<Rightarrow> (string \<Rightarrow> string option) \<Rightarrow> 'priv crypto \<Rightarrow> token_json \<Rightarrow> int \<Rightarrow> config \<Rightarrow>
     (string \<Rightarrow> string option) option" where
  "api_verifier by_jwks by_rsa cr js now c = (case verifier_of c of
     Some JWKSVerifier \<Rightarrow> Some by_jwks
   | Some HMACVerifier \<Rightarrow>
       Some (\<lambda>t. case Verify cr js (NewHMAC (c_JWTHMACSecret c) (c_JWTUserClaim c) (c_JWTIssuer c) (c_JWTAudience c)) now t of
         Inl e \<Rightarrow> None | Inr j \<Rightarrow> Some j)
   | Some RSAVerifier \<Rightarrow> Some by_rsa
   | Some NoVerifier \<Rightarrow> None
   | None \<Rightarrow> None)"

definition api_signer :: "config \<Rightarrow> unit signer option" where
  "api_signer c =
     (if c_JWTSignSecret c = '''' then None
      else Some (NewHMACSigner (c_JWTSignSecret c) () (c_JWTIssuer c) (duration (c_JWTSignTTLHours c) (3600 * 10 ^ 9))))"

section \<open>From the login to the handlers\<close>

text \<open>
  C30: what the token of a login opens. The login endpoint returns a token only to someone
  who knows the password of an account that is not disabled. When the server verifies
  tokens with the secret it signs them with (mode \<open>proxy\<close>, no key set, the HMAC secret
  equal to the signing secret, the user in the claim \<open>sub\<close>, no audience asked for), the
  handlers take a request with this token, until it expires, for one of that account, as
  long as the account exists and is not disabled, and otherwise look at the session cookie.
  In the mode \<open>login\<close> no bearer token is looked at, this one included: only the session
  cookie counts. Assumed is that the JSON library reads back what was signed.
\<close>

theorem login_token_authenticates:
  assumes "ApiLogin sha kdf cr en (Some s) now (Some (i, pw)) us = Reply n r" "Find i us = Some u" "api_signer c = Some s"
    and "dec_header js (enc_header en ''HS256'') = Some (''HS256'', kid)"
    and "dec_claims js (enc_claims en (filled s now (login_claims s now u))) =
      Some (claims_json (filled s now (login_claims s now u)))"
    and "0 < lr_ExpiresAt r" "lr_ExpiresAt r \<le> 2 ^ 53" "later \<le> (lr_ExpiresAt r + 60) * 1000000000"
    and "verifier g = api_verifier by_jwks by_rsa cr js later c"
  shows "user_CheckPassword sha kdf u pw \<and> \<not> u_Disabled u \<and>
    (c_AuthMode c = ''proxy'' \<and> c_JWTJWKSURL c = '''' \<and> c_JWTHMACSecret c = c_JWTSignSecret c \<and>
     c_JWTUserClaim c \<in> {'''', ''sub''} \<and> c_JWTAudience c = '''' \<longrightarrow>
      requireAuth g us' \<lparr>authorization = ''Bearer '' @ lr_Token r, session_cookie = k\<rparr> =
        (case enabled_user us' (u_ID u) of Some w \<Rightarrow> Some w
         | None \<Rightarrow> cookie_user g us' \<lparr>authorization = ''Bearer '' @ lr_Token r, session_cookie = k\<rparr>)) \<and>
    (c_AuthMode c = ''login'' \<longrightarrow>
      requireAuth g us' \<lparr>authorization = ''Bearer '' @ lr_Token r, session_cookie = k\<rparr> =
        cookie_user g us' \<lparr>authorization = ''Bearer '' @ lr_Token r, session_cookie = k\<rparr>)"
proof (intro conjI impI)
  have s: "s = NewHMACSigner (c_JWTSignSecret c) () (c_JWTIssuer c) (duration (c_JWTSignTTLHours c) (3600 * 10 ^ 9))"
    and key: "c_JWTSignSecret c \<noteq> ''''"
    using assms(3) by (auto simp: api_signer_def split: if_splits)
  show "user_CheckPassword sha kdf u pw" "\<not> u_Disabled u"
    using assms(1,2) by (auto simp: ApiLogin_def Let_def ok_json_def split: if_splits sum.splits)
  let ?q = "\<lparr>authorization = ''Bearer '' @ lr_Token r, session_cookie = k\<rparr>"
  let ?v = "NewHMAC (c_JWTHMACSecret c) (c_JWTUserClaim c) (c_JWTIssuer c) (c_JWTAudience c)"
  show "requireAuth g us' ?q = (case enabled_user us' (u_ID u) of Some w \<Rightarrow> Some w | None \<Rightarrow> cookie_user g us' ?q)"
    if mode: "c_AuthMode c = ''proxy'' \<and> c_JWTJWKSURL c = '''' \<and> c_JWTHMACSecret c = c_JWTSignSecret c \<and>
      c_JWTUserClaim c \<in> {'''', ''sub''} \<and> c_JWTAudience c = ''''"
  proof -
    have "matching cr s ?v" using mode unfolding s by (simp add: HMAC_matching)
    moreover have "s_alg s = ''HS256''" "v_userClaim ?v = ''sub''" "v_issuer ?v \<in> {'''', s_issuer s}" "v_audience ?v = ''''"
      using mode by (auto simp: s NewHMACSigner_def NewHMAC_def claimOr_def)
    moreover have "verifier g = Some (\<lambda>t. case Verify cr js ?v later t of Inl e \<Rightarrow> None | Inr j \<Rightarrow> Some j)"
      using assms(9) mode key by (simp add: api_verifier_def verifier_of_def)
    ultimately show ?thesis
      using login_token_verifies [OF assms(1,2), of ?v js kid later g us' k] assms(4-8) by simp
  qed
  show "requireAuth g us' ?q = cookie_user g us' ?q" if "c_AuthMode c = ''login''"
    using assms(9) that by (simp add: api_verifier_def verifier_of_def requireAuth_def bearer_user_def split: option.split)
qed

section \<open>A server with one secret\<close>

definition one_secret :: config where
  "one_secret = (Config.Load (\<lambda>_. '''') None (\<lambda>_. None))\<lparr>c_AuthMode := ''proxy'', c_JWTHMACSecret := ''key'',
     c_JWTSignSecret := ''key'', c_JWTSignTTLHours := 1\<rparr>"

lemma one_secret_fields:
  "c_AuthMode one_secret = ''proxy''" "c_JWTJWKSURL one_secret = ''''" "c_JWTHMACSecret one_secret = ''key''"
  "c_JWTSignSecret one_secret = ''key''" "c_JWTUserClaim one_secret = ''sub''" "c_JWTIssuer one_secret = ''''"
  "c_JWTAudience one_secret = ''''" "c_JWTSignTTLHours one_secret = 1"
  by (simp_all add: one_secret_def Config.Load_def envOr_def)

definition frank_signer :: "unit signer" where
  "frank_signer = NewHMACSigner ''key'' () '''' 3600000000000"

lemma one_secret_signer: "api_signer one_secret = Some frank_signer"
  by (simp add: api_signer_def one_secret_fields frank_signer_def duration_def)

definition frank_json :: token_json where
  "frank_json = \<lparr>dec_header = (\<lambda>_. Some (''HS256'', '''')),
     dec_claims = (\<lambda>_. Some (claims_json (filled frank_signer 1000000000 (login_claims frank_signer 1000000000 frank))))\<rparr>"

definition frank_gate :: gate where
  "frank_gate = \<lparr>verifier = api_verifier (\<lambda>_. None) (\<lambda>_. None) plain_crypto frank_json 2000000000 one_secret,
     session_validator = None\<rparr>"

theorem login_token_authenticates_witness:
  "\<exists>r. ApiLogin (\<lambda>s. s) pad_kdf plain_crypto one_token_encoder (Some frank_signer) 1000000000 (Some (''frank'', ''ab''))
       (remember empty_users frank) = Reply 200 r \<and>
     requireAuth frank_gate (remember empty_users frank)
       \<lparr>authorization = ''Bearer '' @ lr_Token r, session_cookie = None\<rparr> = Some frank"
proof -
  let ?us = "remember empty_users frank"
  have hex: "hex_decode ''6162'' = Some ''ab''" by code_simp
  have f: "Find ''frank'' ?us = Some frank" by (simp add: Find_def remember_def frank_def)
  have pw: "user_CheckPassword (\<lambda>s. s) pad_kdf frank ''ab''" "\<not> u_Disabled frank"
    by (simp_all add: user_CheckPassword_def frank_def ann_def hex del: hex_decode.simps)
  obtain token where t: "Sign plain_crypto one_token_encoder frank_signer 1000000000 (login_claims frank_signer 1000000000 frank) = Inr token"
    by (simp add: Sign_def Let_def login_claims_def sign_data_def frank_signer_def NewHMACSigner_def frank_def)
  then obtain r where r: "ApiLogin (\<lambda>s. s) pad_kdf plain_crypto one_token_encoder (Some frank_signer) 1000000000 (Some (''frank'', ''ab''))
       ?us = Reply 200 r" and ex: "lr_ExpiresAt r = 3601"
    using f pw by (simp add: ApiLogin_def Let_def ok_json_def)
      (simp add: login_claims_def frank_signer_def NewHMACSigner_def)
  have d: "enabled_user ?us ''frank'' = Some frank" "u_ID frank = ''frank''"
    using f pw(2) by (simp_all add: enabled_user_def) (simp add: frank_def)
  have js: "dec_header frank_json (enc_header one_token_encoder ''HS256'') = Some (''HS256'', '''')"
    "dec_claims frank_json (enc_claims one_token_encoder (filled frank_signer 1000000000 (login_claims frank_signer 1000000000 frank))) =
       Some (claims_json (filled frank_signer 1000000000 (login_claims frank_signer 1000000000 frank)))"
    by (simp_all add: frank_json_def)
  have g: "verifier frank_gate = api_verifier (\<lambda>_. None) (\<lambda>_. None) plain_crypto frank_json 2000000000 one_secret"
    by (simp add: frank_gate_def)
  have "requireAuth frank_gate ?us \<lparr>authorization = ''Bearer '' @ lr_Token r, session_cookie = None\<rparr> = Some frank"
    using login_token_authenticates [OF r f one_secret_signer js _ _ _ g, of ?us None] d
    by (simp add: ex one_secret_fields)
  with r show ?thesis by blast
qed

end
