(* ===== verification/Spec2Isabelle.thy ===== *)
theory Spec2Isabelle
  imports Study_Laws Indicator_Ranges Screen_Laws Screen_Studies Sentinel Scanner_Scan Access_Control
    Passwords Backtest Throttle Login Study_Requests Api_Isolation Api_Accounts_Laws Backfill
    Api_Studies_Laws Migrations Nlp_Laws Command_Line_Laws Feature_Catalog Router_Laws Display Sign_On Admin Config
    Api_Tokens
begin

text \<open>
  A model of the market scanner: the Go program under \<open>internal/\<close> and \<open>cmd/scanner\<close> that
  reads daily bars from a warehouse, computes indicators, stores one table of snapshot rows
  per day, evaluates the users' studies on it, and serves the outcome on the command line,
  as web pages and through an HTTP API with accounts, roles, groups and saved results.

  \<^bold>\<open>How the parts interact.\<close> The warehouse gives bars (\<open>store\<close>); the worker pool of
  \<open>scan\<close> turns the bars of every symbol of the universe into a row (\<open>indicators\<close>, \<open>screen\<close>)
  and \<open>snapshot\<close> stores the rows of a day. A study (\<open>study\<close>) is a pair of SQL clauses,
  written by hand, compiled from the structured editor (\<open>predicate\<close>) or translated by a
  language model (\<open>nlp\<close>); \<open>snapshot.Run\<close> evaluates it on the active day. Digests, pages,
  alerts, backtests and replays combine the two. Everything an outsider reaches passes the
  routes (\<open>api/router.go\<close>, \<open>serve/handlers.go\<close>, \<open>admin/admin.go\<close>), the authentication
  (\<open>api/auth.go\<close>, \<open>serve/server.go\<close>, \<open>authjwt\<close>) and the checks of its handler
  (\<open>permissions\<close>, \<open>roles\<close>, \<open>throttle\<close>), and ends in one of the stores, which keep a slice and
  a map in memory, or write the tables of \<open>schema\<close>.
\<close>

section \<open>Which theory models what\<close>

text \<open>
  \<^bold>\<open>Shared vocabulary.\<close> \<open>Prelude\<close>: Go strings as bytes, decimal printing, results as sums,
  the stable sort, maps built from slices; the locale \<open>strict_weak\<close> of the callbacks given to
  \<open>sort\<close>, interpreted on every such callback. \<open>Float64\<close>: binary64. \<open>Time_Series\<close>: loops over series
  and the locales \<open>causal\<close> and \<open>no_lookahead\<close>. \<open>Database\<close>: the tables of \<open>schema/migration.go\<close>
  with the effect of the statements under foreign keys; \<open>Migrations\<close>: how these tables come about,
  version by version. \<open>Keyed_Store\<close>, \<open>Isolation\<close>, \<open>Progress\<close>: the contracts of a slice kept in step
  with a map, of steps that leave an object alone, and of a computation that ends.

  \<^bold>\<open>Studies.\<close> \<open>Study_Registry\<close>, \<open>Study_Compiler\<close> (\<open>predicate/registry.go\<close>, \<open>catalog.go\<close>,
  \<open>compile.go\<close>): the vocabulary, its compatibility matrix and \<open>Compile\<close>. \<open>Study_Reading\<close> is the
  other side, SQL's reading of the emitted text and its three-valued meaning; \<open>Study_Laws\<close> proves
  the two against each other. \<open>Study_Store\<close> (\<open>study/study.go\<close>, \<open>store.go\<close>): the record \<open>study\<close>,
  who may run it, the denylist, the store. \<open>Subscriptions\<close> (\<open>study/subscription.go\<close>).

  \<^bold>\<open>Market data.\<close> \<open>Indicators_Price\<close>, \<open>Indicators_Momentum\<close>, \<open>Indicators_Flow\<close> (\<open>indicators\<close>) with
  \<open>Indicator_Laws\<close> and \<open>Indicator_Ranges\<close>; \<open>Screen_Row\<close>, \<open>Screen_Laws\<close>, \<open>Screen_Studies\<close> (\<open>screen\<close>): the
  row, \<open>Build\<close>, presets, breadth; \<open>Sentinel\<close> (\<open>sentinel\<close>); \<open>Scanner_Scan\<close> (\<open>scanner\<close>, \<open>model\<close>);
  \<open>Warehouse\<close> (\<open>store\<close>, \<open>resolveUniverse\<close>); \<open>Scan_Pool\<close>, \<open>Scan_Pool_Laws\<close> (\<open>scan.Universe\<close>): the pool as
  a step relation; \<open>Bar_Cache\<close>, \<open>Backfill\<close> (\<open>scan/cache.go\<close>, \<open>BackfillSnapshots\<close>); \<open>Snapshot\<close>,
  \<open>Snapshot_Laws\<close>, \<open>Study_Run\<close> (\<open>snapshot\<close>): the record \<open>snap_db\<close> is the table with the active date.
  \<open>Alerts\<close>, \<open>Backtest\<close>, \<open>Replay\<close> (\<open>alert\<close>, \<open>backtest\<close>) are built on them.

  \<^bold>\<open>Accounts and access.\<close> \<open>Base64\<close>, \<open>Passwords\<close> (\<open>auth/hash.go\<close>), \<open>User_Store\<close> (\<open>user\<close>), \<open>Roles\<close>
  (\<open>roles\<close>), \<open>Throttle\<close> (\<open>throttle\<close>), \<open>Login\<close> (\<open>auth/guard.go\<close>, \<open>password.go\<close>, the sessions and
  sign-in handlers of \<open>serve\<close>), \<open>Jwt\<close>, \<open>Jwt_Laws\<close> (\<open>authjwt\<close>), \<open>Group_Store\<close> (\<open>groups\<close>), \<open>Result_Store\<close>
  (\<open>results\<close>), \<open>Access_Control\<close> (\<open>permissions\<close>, whose interface \<open>AccessChecker\<close> is the locale
  \<open>access_policy\<close>, interpreted on \<open>DBAccessChecker\<close>).

  \<^bold>\<open>The API.\<close> \<open>Api\<close>: responses and \<open>requireAuth\<close>. One theory per family of handlers, each handler a
  definition from request and state to response and state: \<open>Api_Results\<close>, \<open>Api_Groups\<close>,
  \<open>Api_Accounts\<close>, \<open>Api_Studies\<close>, \<open>Nlp\<close>. \<open>Api_Isolation\<close> and \<open>Api_Accounts_Laws\<close> interpret \<open>isolation\<close> on
  the dispatch of all their requests. \<open>Api_Tokens\<close>: the verifier and signer a configuration makes
  (\<open>serve/server.go\<close>) and what the token of a login opens. \<open>Router\<close>, \<open>Router_Laws\<close>: the route tables under the rules
  of \<open>http.ServeMux\<close>. \<open>Feature_Catalog\<close> (\<open>features\<close>).

  \<^bold>\<open>The server and the command line.\<close> \<open>Study_Requests\<close>, \<open>Serve\<close>, \<open>Serve_Laws\<close> (\<open>serve\<close>): study
  handlers, the cached scan as the record \<open>live\<close>, \<open>refresh\<close>, pages and previews. \<open>Display\<close>
  (\<open>dashboard\<close>, \<open>digest\<close>): the texts of numbers. \<open>Admin\<close> (\<open>admin\<close>): the statistics of the panel. \<open>Config\<close>
  (\<open>config\<close>): the settings and the configuration records the others take. \<open>Sign_On\<close>
  (\<open>auth/session.go\<close>, \<open>oauth.go\<close>), which no route reaches. \<open>Command_Line\<close>, \<open>Command_Line_Laws\<close>
  (\<open>cmd/scanner\<close>).
\<close>

section \<open>What is shown\<close>

text \<open>
  \<^item> Isolation: whatever requests are sent, a saved result is changed only by those its
    permissions allow, members cannot raise anybody's authority, and on the study pages of the
    web server (not through the study handlers of the API) members leave the studies of others
    as they are (\<open>results_tamper_proof\<close>, \<open>members_cannot_escalate\<close>, \<open>others_studies_untouched\<close>);
    the checker decides what the policy says, and how listing differs from it is exactly stated.
  \<^item> Authentication: which tokens verify, which requests authenticate, that a session proves
    a login, when an account is locked, under which configuration the token of a login opens
    the API; signing and verifying, hashing and checking are inverse to each other.
  \<^item> Studies: the compiler accepts exactly the legal definitions, its output has one reading
    and that reading has the documented meaning, contains server words only, and stays
    within the active date when run.
  \<^item> Time: the features that do not read the latest bar (\<open>build_no_lookahead\<close> lists them), the
    snapshots of a backfill and the signals and entries of a replay depend on no later bar; a
    backtest reports exactly the trades of the stored days.
  \<^item> Concurrency: every schedule of the pool ends, and an uncancelled one computes the
    sequential scan; this is why the server and the commands may be modelled sequentially.
  \<^item> State: the user store, the role store and the subscriptions refine abstract maps and relations; every
    reachable snapshot table is sound; an interrupted migration resumes; a page shows one
    day, the digest of the command line is the page's, a run of studies shows one stored day.
  \<^item> Counting: requests are counted exactly (nothing refuses them), study quotas hold on the
    study pages; which outcome every request meets in the route tables, in whatever order
    they are registered; which rows the data gate flags; how integers are shown.

  Theorems that end in \<open>_witness\<close> apply a theorem to a concrete input. Several theorems show
  where the code departs from its documentation, among them \<open>alerts_mix_days\<close>,
  \<open>import_makes_admins\<close>, \<open>clause_escapes_active_date\<close> and \<open>handlers_without_route\<close>.
\<close>

section \<open>Conventions, bounds and arguments\<close>

text \<open>
  \<^bold>\<open>Numbers.\<close> A \<open>float64\<close> is NaN, an infinity, a signed zero or a rational; an operation computes
  the exact rational and rounds it once to 53 bits, ties to even, as Go does on amd64,
  where products and sums are not fused. Volumes are \<open>int\<close>s converted with rounding. Times
  of tokens and sessions are nanoseconds, of bars and tables Unix seconds; \<open>int64\<close> wraps
  where a claim of a token is read and where a backtest computes dates (\<open>wrap64\<close> in \<open>Prelude\<close>).

  \<^bold>\<open>Recursion.\<close> Every function terminates: loops are recursions on the data or have a measure
  (the cutting of \<open>os.Args\<close>, the printing of digits). The pool's relation needs no fuel, its work
  measure bounds every schedule. The one bounded reader is \<open>read_where\<close> of \<open>Study_Run\<close>, SQL's
  reading of a condition, whose bound is the number of its words plus two; it is enough for
  every condition with brackets around each connective (\<open>read_prim\<close> with its lemmas).

  \<^bold>\<open>Errors.\<close> An error is the left value of a \<open>result\<close>, a response \<open>Fail\<close> with status and code, or the
  first component of a pair whose second is the state left behind; a panic is \<open>None\<close> or a
  constructor. Operations that change memory before a failing statement leave it changed. Index
  panics are such values in the six indicators of \<open>Indicators_Price\<close> and its siblings that have
  no length guard; behind a guard, list access stands for Go's indexing.

  \<^bold>\<open>Arguments.\<close> What is not the program's own is an argument: hash functions, HMAC, RSA and key
  derivation; random salts and tokens; the clock; the JSON codec of columns and tokens;
  SQLite's compilation and evaluation of a study's query; the language model; the files;
  the order of a Go map; the context's cancellation; the natural logarithm. Hypotheses about
  them state documented behaviour, such as that decoding inverts encoding, and witnesses
  discharge them on concrete functions. Where a query orders rows, rows that compare equal
  keep the order of insertion, and this is the only use made of SQLite's order.
\<close>

section \<open>Not modelled\<close>

text \<open>
  \<^item> HTML, CSS, JavaScript and text templates (\<open>dashboard/templates.go\<close>, \<open>pwa.go\<close>,
    \<open>digest/templates.go\<close>, \<open>admin/templates\<close>, the sign-up and profile pages): the template engine
    interprets them; the values they show are modelled.
  \<^item> Logging and wrappers (\<open>telemetry\<close>, \<open>dblog\<close>, \<open>iohelp\<close>, \<open>serve/accesslog.go\<close>), and
    \<open>rates\<close>, which nothing imports.
  \<^item> SQLite's own failures (a full disk, a locked file) where the code only passes them on,
    and the start and shutdown of the HTTP server.
\<close>

end
